(* ===== verification/Go_Prelude.thy ===== *)
theory Go_Prelude
  imports Main "HOL-Library.Sublist"
begin

text \<open>
  The Go runtime as the components of pooml use it, and the collections of rules they share.

  A Go \<open>string\<close> and a Go \<open>[]byte\<close> are byte sequences; Isabelle's \<open>char\<close> is
  an 8-bit value, so both are \<open>string\<close> here and \<open>length\<close> counts bytes, as Go's
  \<open>len\<close> does. An \<open>int64\<close> is an \<open>int\<close> with the two's complement
  wrap-around \<open>i64\<close> written out wherever the code can leave the range.

  The functions of the packages \<open>strings\<close>, \<open>bytes\<close>, \<open>strconv\<close> and
  \<open>unicode/utf8\<close> that the sources call are defined on bytes. White space is Unicode white
  space (\<open>unicode.IsSpace\<close>) given as its UTF-8 byte sequences, which is exact because no
  such sequence can start inside another UTF-8 sequence.
\<close>

named_theorems go_str \<open>unfolding rules of the Go string functions\<close>
named_theorems go_int \<open>rules for Go integers\<close>

type_synonym bytes = string
type_synonym ms = int
type_synonym ('e, 'a) result = "'e + 'a"

abbreviation Err :: "'e \<Rightarrow> ('e, 'a) result" where "Err \<equiv> Inl"
abbreviation Ok :: "'a \<Rightarrow> ('e, 'a) result" where "Ok \<equiv> Inr"

section \<open>Integers\<close>

text \<open>Two's complement wrap-around of a 64-bit result.\<close>

definition i64 :: "int \<Rightarrow> int" where
  "i64 x = (x + 2 ^ 63) mod 2 ^ 64 - 2 ^ 63"

lemma i64_range: "- (2 ^ 63) \<le> i64 x \<and> i64 x < 2 ^ 63"
  using pos_mod_bound [of "2 ^ 64" "x + 2 ^ 63"] pos_mod_sign [of "2 ^ 64" "x + 2 ^ 63"]
  by (simp add: i64_def)

lemma i64_id [go_int]: "- (2 ^ 63) \<le> x \<Longrightarrow> x < 2 ^ 63 \<Longrightarrow> i64 x = x"
  by (simp add: i64_def)

text \<open>Go's integer division truncates towards zero.\<close>

definition go_div :: "int \<Rightarrow> int \<Rightarrow> int" where
  "go_div a b = (if b = 0 then 0 else sgn a * sgn b * (\<bar>a\<bar> div \<bar>b\<bar>))"

lemma go_div_nonneg [go_int]: "0 \<le> a \<Longrightarrow> 0 < b \<Longrightarrow> go_div a b = a div b"
  by (auto simp: go_div_def sgn_if)

section \<open>Bytes\<close>

abbreviation squote :: char where "squote \<equiv> CHR 0x27"
abbreviation dquote :: char where "dquote \<equiv> CHR 0x22"
abbreviation nl :: string where "nl \<equiv> [CHR 0x0A]"

definition byte :: "char \<Rightarrow> nat" where
  "byte c = of_char c"

lemma byte_less: "byte c < 256"
  using of_char_mod_256 [where 'a = nat, of c] by (simp add: byte_def flip: mod_less_divisor)

lemma byte_inject [simp]: "byte a = byte b \<longleftrightarrow> a = b"
  by (simp add: byte_def)

definition is_digit :: "char \<Rightarrow> bool" where
  "is_digit c \<longleftrightarrow> 48 \<le> byte c \<and> byte c \<le> 57"

definition is_upper :: "char \<Rightarrow> bool" where
  "is_upper c \<longleftrightarrow> 65 \<le> byte c \<and> byte c \<le> 90"

definition is_letter :: "char \<Rightarrow> bool" where
  "is_letter c \<longleftrightarrow> is_upper c \<or> (97 \<le> byte c \<and> byte c \<le> 122)"

text \<open>\<open>\s\<close> of Go's regular expressions: tab, newline, form feed, carriage return, space.\<close>

definition re_space :: "char \<Rightarrow> bool" where
  "re_space c \<longleftrightarrow> byte c \<in> {9, 10, 12, 13, 32}"

text \<open>\<open>utf8.RuneStart\<close>: not a continuation byte.\<close>

definition RuneStart :: "char \<Rightarrow> bool" where
  "RuneStart c \<longleftrightarrow> \<not> (128 \<le> byte c \<and> byte c < 192)"


section \<open>Strings\<close>

fun HasPrefix :: "string \<Rightarrow> string \<Rightarrow> bool" where
  "HasPrefix s [] = True"
| "HasPrefix [] (p # ps) = False"
| "HasPrefix (c # s) (p # ps) = (c = p \<and> HasPrefix s ps)"

lemma HasPrefix_iff: "HasPrefix s p \<longleftrightarrow> (\<exists>t. s = p @ t)"
  by (induction s p rule: HasPrefix.induct) auto

lemma HasPrefix_append [simp]: "HasPrefix (p @ t) p"
  by (simp add: HasPrefix_iff)

fun Contains :: "string \<Rightarrow> string \<Rightarrow> bool" where
  "Contains [] sub = (sub = [])"
| "Contains (c # s) sub = (HasPrefix (c # s) sub \<or> Contains s sub)"

lemma Contains_iff: "Contains s sub \<longleftrightarrow> (\<exists>a b. s = a @ sub @ b)"
proof (induction s)
  case Nil
  then show ?case by auto
next
  case (Cons c s)
  show ?case
  proof
    assume "Contains (c # s) sub"
    then consider "HasPrefix (c # s) sub" | "Contains s sub" by auto
    then show "\<exists>a b. c # s = a @ sub @ b"
    proof cases
      case 1
      then obtain t where "c # s = [] @ sub @ t" by (auto simp: HasPrefix_iff)
      then show ?thesis by blast
    next
      case 2
      with Cons obtain a b where "s = a @ sub @ b" by blast
      then have "c # s = (c # a) @ sub @ b" by simp
      then show ?thesis by blast
    qed
  next
    assume "\<exists>a b. c # s = a @ sub @ b"
    then obtain a b where ab: "c # s = a @ sub @ b" by blast
    show "Contains (c # s) sub"
    proof (cases a)
      case Nil
      with ab have "HasPrefix (c # s) sub" by (auto simp: HasPrefix_iff)
      then show ?thesis by simp
    next
      case (Cons x xs)
      with ab have "s = xs @ sub @ b" by simp
      with Cons.IH show ?thesis by auto
    qed
  qed
qed

text \<open>\<open>strings.ReplaceAll\<close> with a one-byte pattern.\<close>

definition ReplaceAll1 :: "string \<Rightarrow> char \<Rightarrow> string \<Rightarrow> string" where
  "ReplaceAll1 s old new = concat (map (\<lambda>c. if c = old then new else [c]) s)"

lemma ReplaceAll1_simps [simp]:
  "ReplaceAll1 [] old new = []"
  "ReplaceAll1 (c # s) old new = (if c = old then new else [c]) @ ReplaceAll1 s old new"
  by (simp_all add: ReplaceAll1_def)

fun Join :: "string list \<Rightarrow> string \<Rightarrow> string" where
  "Join [] sep = []"
| "Join [x] sep = x"
| "Join (x # y # ys) sep = x @ sep @ Join (y # ys) sep"

text \<open>\<open>strings.Cut\<close> with a one-byte separator: before, after, found.\<close>

fun Cut1 :: "string \<Rightarrow> char \<Rightarrow> string \<times> string \<times> bool" where
  "Cut1 [] sep = ([], [], False)"
| "Cut1 (c # s) sep =
     (if c = sep then ([], s, True)
      else case Cut1 s sep of (a, b, ok) \<Rightarrow> (c # a, b, ok))"

lemma Cut1_absent: "sep \<notin> set s \<Longrightarrow> Cut1 s sep = (s, [], False)"
  by (induction s) auto

lemma Cut1_present: "sep \<notin> set a \<Longrightarrow> Cut1 (a @ sep # b) sep = (a, b, True)"
  by (induction a) auto

text \<open>\<open>strings.Split\<close> with a one-byte separator: always at least one part.\<close>

fun Split1 :: "string \<Rightarrow> char \<Rightarrow> string list" where
  "Split1 [] sep = [[]]"
| "Split1 (c # s) sep =
     (if c = sep then [] # Split1 s sep
      else case Split1 s sep of [] \<Rightarrow> [[c]] | p # ps \<Rightarrow> (c # p) # ps)"

lemma Split1_nonempty [simp]: "Split1 s sep \<noteq> []"
  by (induction s) (auto split: list.splits)

lemma Split1_append: "Split1 (a @ sep # b) sep = Split1 a sep @ Split1 b sep"
  by (induction a) (auto split: list.splits)

lemma Split1_absent: "sep \<notin> set s \<Longrightarrow> Split1 s sep = [s]"
  by (induction s) auto

lemma Join_Split1: "Join (Split1 s sep) [sep] = s"
proof (induction s)
  case Nil
  then show ?case by simp
next
  case (Cons c s)
  show ?case
  proof (cases "Split1 s sep")
    case Nil
    then show ?thesis by simp
  next
    case (Cons p ps)
    with Cons.IH show ?thesis by (cases ps) auto
  qed
qed

text \<open>\<open>strings.SplitN(s, sep, 3)\<close>: at most two cuts.\<close>

definition SplitN3 :: "string \<Rightarrow> char \<Rightarrow> string list" where
  "SplitN3 s sep =
     (case Cut1 s sep of (a, r, ok) \<Rightarrow>
        if \<not> ok then [a]
        else case Cut1 r sep of (b, r', ok') \<Rightarrow> if \<not> ok' then [a, b] else [a, b, r'])"

text \<open>\<open>strings.TrimRight\<close> and \<open>strings.Trim\<close> with an ASCII cutset.\<close>

definition TrimRightSet :: "string \<Rightarrow> string \<Rightarrow> string" where
  "TrimRightSet s cutset = rev (dropWhile (\<lambda>c. c \<in> set cutset) (rev s))"

definition TrimSet :: "string \<Rightarrow> string \<Rightarrow> string" where
  "TrimSet s cutset = dropWhile (\<lambda>c. c \<in> set cutset) (TrimRightSet s cutset)"

definition TrimPrefix :: "string \<Rightarrow> string \<Rightarrow> string" where
  "TrimPrefix s p = (if HasPrefix s p then drop (length p) s else s)"

definition TrimSuffix :: "string \<Rightarrow> string \<Rightarrow> string" where
  "TrimSuffix s p = (if HasPrefix (rev s) (rev p) then take (length s - length p) s else s)"

subsection \<open>White space\<close>

text \<open>
  The runes for which \<open>unicode.IsSpace\<close> holds, as UTF-8: the six ASCII ones, U+0085, U+00A0,
  U+1680, U+2000 to U+200A, U+2028, U+2029, U+202F, U+205F and U+3000.
\<close>

definition space_runes :: "string list" where
  "space_runes =
     [[CHR 0x20], [CHR 0x0A], [CHR 0x09], [CHR 0x0D], [CHR 0x0B], [CHR 0x0C],
      [CHR 0xC2, CHR 0x85], [CHR 0xC2, CHR 0xA0], [CHR 0xE1, CHR 0x9A, CHR 0x80],
      [CHR 0xE2, CHR 0x80, CHR 0x80], [CHR 0xE2, CHR 0x80, CHR 0x81],
      [CHR 0xE2, CHR 0x80, CHR 0x82], [CHR 0xE2, CHR 0x80, CHR 0x83],
      [CHR 0xE2, CHR 0x80, CHR 0x84], [CHR 0xE2, CHR 0x80, CHR 0x85],
      [CHR 0xE2, CHR 0x80, CHR 0x86], [CHR 0xE2, CHR 0x80, CHR 0x87],
      [CHR 0xE2, CHR 0x80, CHR 0x88], [CHR 0xE2, CHR 0x80, CHR 0x89],
      [CHR 0xE2, CHR 0x80, CHR 0x8A], [CHR 0xE2, CHR 0x80, CHR 0xA8],
      [CHR 0xE2, CHR 0x80, CHR 0xA9], [CHR 0xE2, CHR 0x80, CHR 0xAF],
      [CHR 0xE2, CHR 0x81, CHR 0x9F], [CHR 0xE3, CHR 0x80, CHR 0x80]]"

text \<open>Strip one white-space rune, given as one of \<open>rs\<close>, from the front.\<close>

definition strip_rune :: "string list \<Rightarrow> string \<Rightarrow> string option" where
  "strip_rune rs s =
     (case find (HasPrefix s) rs of None \<Rightarrow> None | Some r \<Rightarrow> Some (drop (length r) s))"

fun trim_runes :: "string list \<Rightarrow> nat \<Rightarrow> string \<Rightarrow> string" where
  "trim_runes rs 0 s = s"
| "trim_runes rs (Suc n) s =
     (case strip_rune rs s of None \<Rightarrow> s | Some t \<Rightarrow> trim_runes rs n t)"

definition TrimLeftSpace :: "string \<Rightarrow> string" where
  "TrimLeftSpace s = trim_runes space_runes (length s) s"

definition TrimRightSpace :: "string \<Rightarrow> string" where
  "TrimRightSpace s = rev (trim_runes (map rev space_runes) (length s) (rev s))"

definition TrimSpace :: "string \<Rightarrow> string" where
  "TrimSpace s = TrimRightSpace (TrimLeftSpace s)"

lemma strip_rune_length:
  assumes "strip_rune rs s = Some t" and "[] \<notin> set rs"
  shows "length t < length s"
proof -
  from assms(1) obtain r where r: "find (HasPrefix s) rs = Some r" "t = drop (length r) s"
    by (auto simp: strip_rune_def split: option.splits)
  then have "r \<in> set rs" and "HasPrefix s r" by (auto simp: find_Some_iff)
  then obtain u where "s = r @ u" by (auto simp: HasPrefix_iff)
  moreover from \<open>r \<in> set rs\<close> assms(2) have "r \<noteq> []" by auto
  ultimately show ?thesis using r by simp
qed

text \<open>The bound is enough: after \<open>length s\<close> rounds no rune is left to strip.\<close>

lemma trim_runes_stop:
  assumes "[] \<notin> set rs" and "length s \<le> n"
  shows "strip_rune rs (trim_runes rs n s) = None"
  using assms(2)
proof (induction n arbitrary: s)
  case 0
  then have "s = []" by simp
  have "strip_rune rs [] \<noteq> Some t" for t
    using strip_rune_length [of rs "[]" t] assms(1) by auto
  with \<open>s = []\<close> show ?case by auto
next
  case (Suc n)
  show ?case
  proof (cases "strip_rune rs s")
    case None
    then show ?thesis by simp
  next
    case (Some t)
    then have "length t < length s" using assms(1) by (rule strip_rune_length)
    with Suc.prems have "length t \<le> n" by simp
    with Suc.IH Some show ?thesis by simp
  qed
qed

lemma trim_runes_none: "strip_rune rs s = None \<Longrightarrow> trim_runes rs n s = s"
  by (cases n) auto

lemma space_runes_nonempty: "[] \<notin> set space_runes" "[] \<notin> set (map rev space_runes)"
  by (simp_all add: space_runes_def)

lemma strip_rune_suffix: "strip_rune rs s = Some t \<Longrightarrow> suffix t s"
  by (auto simp: strip_rune_def suffix_drop split: option.splits)

lemma trim_runes_suffix: "suffix (trim_runes rs n s) s"
  by (induction rs n s rule: trim_runes.induct)
    (auto split: option.splits dest: strip_rune_suffix intro: suffix_order.trans)

lemma length_trim_runes [simp]: "length (trim_runes rs n s) \<le> length s"
  using trim_runes_suffix by (rule suffix_length_le)

lemma length_TrimSpace: "length (TrimSpace s) \<le> length s"
  unfolding TrimSpace_def TrimRightSpace_def TrimLeftSpace_def
  by (metis length_rev length_trim_runes order_trans)


lemma HasPrefix_take: "HasPrefix (take k s) r \<Longrightarrow> HasPrefix s r"
  by (metis HasPrefix_iff append.assoc append_take_drop_id)

lemma find_SomeD: "find P xs = Some x \<Longrightarrow> x \<in> set xs \<and> P x"
  by (auto simp: find_Some_iff)

lemma strip_rune_None_iff: "strip_rune rs s = None \<longleftrightarrow> (\<forall>r \<in> set rs. \<not> HasPrefix s r)"
  by (auto simp: strip_rune_def find_None_iff split: option.splits dest: find_SomeD)

lemma TrimRightSpace_prefix: "\<exists>k. TrimRightSpace s = take k s"
proof -
  obtain u where "rev s = u @ trim_runes (map rev space_runes) (length s) (rev s)"
    using trim_runes_suffix unfolding suffix_def by blast
  then have "s = TrimRightSpace s @ rev u"
    by (metis TrimRightSpace_def rev_append rev_rev_ident)
  then show ?thesis by (metis append_eq_conv_conj)
qed

lemma TrimSpace_no_left: "strip_rune space_runes (TrimSpace s) = None"
proof -
  have n: "strip_rune space_runes (TrimLeftSpace s) = None"
    unfolding TrimLeftSpace_def using space_runes_nonempty(1) by (rule trim_runes_stop) simp
  obtain k where "TrimSpace s = take k (TrimLeftSpace s)"
    unfolding TrimSpace_def using TrimRightSpace_prefix by blast
  with n show ?thesis by (auto simp: strip_rune_None_iff dest: HasPrefix_take)
qed

lemma TrimSpace_no_right: "strip_rune (map rev space_runes) (rev (TrimSpace s)) = None"
  unfolding TrimSpace_def TrimRightSpace_def rev_rev_ident
  using space_runes_nonempty(2) by (rule trim_runes_stop) simp

lemma TrimSpace_id:
  assumes "strip_rune space_runes s = None" and "strip_rune (map rev space_runes) (rev s) = None"
  shows "TrimSpace s = s"
  using assms by (simp add: TrimSpace_def TrimLeftSpace_def TrimRightSpace_def trim_runes_none)

lemma TrimSpace_idem [simp]: "TrimSpace (TrimSpace s) = TrimSpace s"
  by (rule TrimSpace_id [OF TrimSpace_no_left TrimSpace_no_right])

lemma TrimSpace_Nil [simp]: "TrimSpace [] = []"
  by (simp add: TrimSpace_def TrimLeftSpace_def TrimRightSpace_def)

text \<open>\<open>strings.Fields\<close>: the maximal runs of bytes that are not white space.\<close>

fun fields_aux :: "nat \<Rightarrow> string \<Rightarrow> string \<Rightarrow> string list" where
  "fields_aux 0 acc s = (if acc = [] then [] else [rev acc])"
| "fields_aux (Suc n) acc s =
     (case s of [] \<Rightarrow> (if acc = [] then [] else [rev acc])
      | c # t \<Rightarrow>
         (case strip_rune space_runes s of
            Some u \<Rightarrow> (if acc = [] then fields_aux n [] u else rev acc # fields_aux n [] u)
          | None \<Rightarrow> fields_aux n (c # acc) t))"

definition Fields :: "string \<Rightarrow> string list" where
  "Fields s = fields_aux (Suc (length s)) [] s"

lemma fields_aux_nonempty: "[] \<notin> set (fields_aux n acc s)"
  by (induction n acc s rule: fields_aux.induct) (auto split: list.splits option.splits)

lemma Fields_nonempty: "[] \<notin> set (Fields s)"
  by (simp only: Fields_def fields_aux_nonempty not_False_eq_True)

lemma fields_aux_set:
  "t \<in> set (fields_aux n acc s) \<Longrightarrow> set t \<subseteq> set acc \<union> set s"
proof (induction n acc s rule: fields_aux.induct)
  case (1 acc s)
  then show ?case by (auto split: if_splits)
next
  case (2 n acc s)
  have *: "set u \<subseteq> set s" if "strip_rune space_runes s = Some u" for u
    using strip_rune_suffix [OF that] by (rule set_mono_suffix)
  show ?case
  proof (cases s)
    case Nil
    with 2 show ?thesis by (auto split: if_splits)
  next
    case (Cons c r)
    with 2 * show ?thesis by (fastforce split: option.splits if_splits)
  qed
qed

lemma Fields_set: "t \<in> set (Fields s) \<Longrightarrow> set t \<subseteq> set s"
  using fields_aux_set [of t "Suc (length s)" "[]" s] by (simp add: Fields_def)

subsection \<open>Letter case\<close>

text \<open>
  \<open>strings.ToLower\<close>, up to what the sources observe of it: every result is compared with
  ASCII text. The ASCII capitals and the two other runes whose lower case is ASCII (U+0130 to
  \<open>i\<close>, U+212A to \<open>k\<close>) are mapped; every other rune stays outside ASCII under
  Go's mapping, and unchanged here.
\<close>

definition lower_char :: "char \<Rightarrow> char" where
  "lower_char c = (if is_upper c then char_of (byte c + 32) else c)"

fun ToLower :: "string \<Rightarrow> string" where
  "ToLower (a # b # c # s) =
     (if byte a = 0xC4 \<and> byte b = 0xB0 then CHR ''i'' # ToLower (c # s)
      else if byte a = 0xE2 \<and> byte b = 0x84 \<and> byte c = 0xAA then CHR ''k'' # ToLower s
      else lower_char a # ToLower (b # c # s))"
| "ToLower [a, b] =
     (if byte a = 0xC4 \<and> byte b = 0xB0 then [CHR ''i''] else [lower_char a, lower_char b])"
| "ToLower [a] = [lower_char a]"
| "ToLower [] = []"

text \<open>
  \<open>strings.EqualFold(s, t)\<close> for an ASCII \<open>t\<close>: simple case folding, under which
  U+017F folds to \<open>s\<close> and U+212A to \<open>k\<close>.
\<close>

fun fold_ascii :: "string \<Rightarrow> string" where
  "fold_ascii (a # b # c # s) =
     (if byte a = 0xC5 \<and> byte b = 0xBF then CHR ''s'' # fold_ascii (c # s)
      else if byte a = 0xE2 \<and> byte b = 0x84 \<and> byte c = 0xAA then CHR ''k'' # fold_ascii s
      else lower_char a # fold_ascii (b # c # s))"
| "fold_ascii [a, b] =
     (if byte a = 0xC5 \<and> byte b = 0xBF then [CHR ''s''] else [lower_char a, lower_char b])"
| "fold_ascii [a] = [lower_char a]"
| "fold_ascii [] = []"

definition EqualFold :: "string \<Rightarrow> string \<Rightarrow> bool" where
  "EqualFold s t \<longleftrightarrow> fold_ascii s = fold_ascii t"

lemma lower_char_lower: "\<not> is_upper c \<Longrightarrow> lower_char c = c"
  by (simp add: lower_char_def)

lemma ToLower_id:
  "\<forall>c \<in> set s. byte c < 128 \<and> \<not> is_upper c \<Longrightarrow> ToLower s = s"
  by (induction s rule: ToLower.induct) (auto simp: lower_char_lower)

text \<open>\<open>strings.ToUpper\<close> on ASCII text.\<close>

definition upper_char :: "char \<Rightarrow> char" where
  "upper_char c = (if is_letter c \<and> \<not> is_upper c then char_of (byte c - 32) else c)"

lemma char_of_eq_iff: "n < 256 \<Longrightarrow> char_of n = c \<longleftrightarrow> n = byte c"
  using byte_inject [of "char_of n" c] by (simp add: byte_def)

end
