(* ===== verification/Go_Strconv.thy ===== *)
theory Go_Strconv
  imports Go_Prelude Complex_Main
begin

text \<open>
  Decimal integers (\<open>strconv.ParseInt(s, 10, 64)\<close>, \<open>strconv.Atoi\<close> on a 64-bit
  platform, \<open>strconv.FormatInt\<close> and \<open>%d\<close>) and the double-precision arithmetic of
  the timestamp code: IEEE-754 binary64 values are rationals, an operation is the exact rational
  operation followed by rounding to 53 significant bits, ties to even.
\<close>

section \<open>Decimal integers\<close>

definition digit_char :: "nat \<Rightarrow> char" where
  "digit_char d = char_of (48 + d)"

fun nat_str :: "nat \<Rightarrow> string" where
  "nat_str n = (if n < 10 then [digit_char n] else nat_str (n div 10) @ [digit_char (n mod 10)])"

declare nat_str.simps [simp del]

definition itoa :: "int \<Rightarrow> string" where
  "itoa n = (if n < 0 then CHR ''-'' # nat_str (nat (- n)) else nat_str (nat n))"

definition digits_val :: "string \<Rightarrow> nat" where
  "digits_val s = foldl (\<lambda>a c. 10 * a + (byte c - 48)) 0 s"

definition ParseInt :: "string \<Rightarrow> int option" where
  "ParseInt s =
     (case s of [] \<Rightarrow> None
      | c # t \<Rightarrow>
         let neg = (c = CHR ''-''); ds = (if c = CHR ''-'' \<or> c = CHR ''+'' then t else s);
             n = int (digits_val ds)
         in if ds = [] \<or> \<not> list_all is_digit ds then None
            else if neg then (if n \<le> 2 ^ 63 then Some (- n) else None)
            else (if n < 2 ^ 63 then Some n else None))"

lemma byte_digit_char [simp]: "d < 10 \<Longrightarrow> byte (digit_char d) = 48 + d"
  by (simp add: byte_def digit_char_def)

lemma is_digit_char [simp]: "d < 10 \<Longrightarrow> is_digit (digit_char d)"
  by (simp add: is_digit_def)

lemma nat_str_digits: "list_all is_digit (nat_str n)"
proof (induction n rule: nat_str.induct)
  case (1 n)
  then show ?case by (cases "n < 10") (simp_all add: nat_str.simps [of n])
qed

lemma nat_str_nonempty [simp]: "nat_str n \<noteq> []"
  by (subst nat_str.simps) simp

lemma digits_val_snoc: "digits_val (s @ [c]) = 10 * digits_val s + (byte c - 48)"
  by (simp add: digits_val_def)

lemma digits_val_nat_str [simp]: "digits_val (nat_str n) = n"
proof (induction n rule: nat_str.induct)
  case (1 n)
  show ?case
  proof (cases "n < 10")
    case True
    then show ?thesis by (simp add: nat_str.simps [of n] digits_val_def)
  next
    case False
    with 1 have "digits_val (nat_str (n div 10)) = n div 10" by simp
    then have "digits_val (nat_str n) = 10 * (n div 10) + n mod 10"
      using False by (simp add: nat_str.simps [of n] digits_val_snoc)
    then show ?thesis by simp
  qed
qed

lemma not_digit_sign: "\<not> is_digit (CHR ''-'')" "\<not> is_digit (CHR ''+'')"
  by (simp_all add: is_digit_def byte_def)

lemma ParseInt_digits:
  assumes "s \<noteq> []" and "list_all is_digit s" and "digits_val s < 2 ^ 63"
  shows "ParseInt s = Some (int (digits_val s))"
proof -
  from assms(1) obtain c t where s: "s = c # t" by (cases s) auto
  with assms(2) have "c \<noteq> CHR ''-''" "c \<noteq> CHR ''+''" using not_digit_sign by auto
  with s assms show ?thesis by (simp add: ParseInt_def)
qed

lemma ParseInt_itoa: "- (2 ^ 63) \<le> n \<Longrightarrow> n < 2 ^ 63 \<Longrightarrow> ParseInt (itoa n) = Some n"
proof (cases "n < 0")
  case True
  assume "- (2 ^ 63) \<le> n"
  with True show ?thesis by (simp add: itoa_def ParseInt_def nat_str_digits)
next
  case False
  assume "n < 2 ^ 63"
  then have "nat n < 2 ^ 63" using False by (simp add: nat_less_iff)
  with False show ?thesis by (simp add: itoa_def ParseInt_digits nat_str_digits)
qed

lemma ParseInt_range: "ParseInt s = Some n \<Longrightarrow> - (2 ^ 63) \<le> n \<and> n < 2 ^ 63"
  by (auto simp: ParseInt_def Let_def split: list.splits if_splits)

section \<open>Binary64 rounding\<close>

text \<open>Round to the nearest integer, ties to even.\<close>

definition round_even :: "rat \<Rightarrow> int" where
  "round_even x =
     (let f = \<lfloor>x\<rfloor>; d = x - of_int f
      in if d < 1 / 2 then f else if d > 1 / 2 then f + 1 else if even f then f else f + 1)"

lemma round_even_error: "\<bar>of_int (round_even x) - x\<bar> \<le> 1 / 2"
proof -
  have a: "of_int \<lfloor>x\<rfloor> \<le> x" and b: "x < of_int \<lfloor>x\<rfloor> + 1" by linarith+
  consider "x - of_int \<lfloor>x\<rfloor> < 1 / 2" | "x - of_int \<lfloor>x\<rfloor> > 1 / 2" | "x - of_int \<lfloor>x\<rfloor> = 1 / 2"
    by linarith
  then show ?thesis
  proof cases
    case 1
    then have "round_even x = \<lfloor>x\<rfloor>" by (simp add: round_even_def)
    with 1 a show ?thesis unfolding abs_le_iff by linarith
  next
    case 2
    then have "round_even x = \<lfloor>x\<rfloor> + 1" by (simp add: round_even_def)
    with 2 b show ?thesis unfolding abs_le_iff of_int_add of_int_1 by linarith
  next
    case 3
    then have "round_even x = \<lfloor>x\<rfloor> \<or> round_even x = \<lfloor>x\<rfloor> + 1"
      by (simp add: round_even_def Let_def)
    then have "of_int (round_even x) = x - 1 / 2 \<or> of_int (round_even x) = x + 1 / 2"
    proof
      assume "round_even x = \<lfloor>x\<rfloor>"
      then have "of_int (round_even x) = (of_int \<lfloor>x\<rfloor> :: rat)" by simp
      with 3 show ?thesis by linarith
    next
      assume "round_even x = \<lfloor>x\<rfloor> + 1"
      then have "of_int (round_even x) = of_int \<lfloor>x\<rfloor> + (1::rat)" by simp
      with 3 show ?thesis by linarith
    qed
    then show ?thesis by auto
  qed
qed

lemma round_even_int [simp]: "round_even (of_int n) = n"
  by (simp add: round_even_def)

text \<open>
  The nearest binary64 value to a positive rational: scale into \<open>[2^52, 2^53)\<close>, round to an
  integer, scale back. Overflow to infinity and the subnormal range are outside the model.
\<close>

function f64 :: "rat \<Rightarrow> rat" where
  "f64 x =
     (if x \<le> 0 then 0
      else if 2 ^ 53 \<le> x then 2 * f64 (x / 2)
      else if x < 2 ^ 52 then f64 (2 * x) / 2
      else of_int (round_even x))"
  by pat_completeness auto


lemma floor_half_less: "(4::rat) \<le> y \<Longrightarrow> nat \<lfloor>y / 2\<rfloor> < nat \<lfloor>y\<rfloor>"
proof -
  assume y: "4 \<le> y"
  then have "y / 2 \<le> y - 2" by simp
  then have "\<lfloor>y / 2\<rfloor> \<le> \<lfloor>y - 2\<rfloor>" by (rule floor_mono)
  also have "\<lfloor>y - 2\<rfloor> = \<lfloor>y\<rfloor> - 2" by simp
  finally show ?thesis using y by linarith
qed

lemma ceiling_half_less: "(4::rat) \<le> y \<Longrightarrow> nat \<lceil>y / 2\<rceil> < nat \<lceil>y\<rceil>"
proof -
  assume y: "4 \<le> y"
  then have "y / 2 \<le> y - 2" by simp
  then have "\<lceil>y / 2\<rceil> \<le> \<lceil>y - 2\<rceil>" by (rule ceiling_mono)
  also have "\<lceil>y - 2\<rceil> = \<lceil>y\<rceil> - 2" by simp
  finally show ?thesis using y by linarith
qed

definition f64_measure :: "rat \<Rightarrow> nat" where
  "f64_measure x =
     (if 2 ^ 53 \<le> x then nat \<lfloor>x / 2 ^ 52\<rfloor> else if x < 2 ^ 52 then nat \<lceil>2 ^ 53 / x\<rceil> else 0)"

lemma f64_measure_down: "2 ^ 53 \<le> x \<Longrightarrow> f64_measure (x / 2) < f64_measure x"
proof -
  assume x: "2 ^ 53 \<le> x"
  show ?thesis
  proof (cases "2 ^ 53 \<le> x / 2")
    case True
    then have "4 \<le> x / 2 ^ 52" by simp
    then have "nat \<lfloor>x / 2 ^ 52 / 2\<rfloor> < nat \<lfloor>x / 2 ^ 52\<rfloor>" by (rule floor_half_less)
    with True x show ?thesis by (simp add: f64_measure_def)
  next
    case False
    from x have "2 \<le> x / 2 ^ 52" by simp
    then have "0 < nat \<lfloor>x / 2 ^ 52\<rfloor>" by linarith
    moreover have "\<not> x / 2 < 2 ^ 52" using x by simp
    ultimately show ?thesis using False x by (simp add: f64_measure_def)
  qed
qed

lemma f64_measure_up: "0 < x \<Longrightarrow> x < 2 ^ 52 \<Longrightarrow> f64_measure (2 * x) < f64_measure x"
proof -
  assume pos: "0 < x" and x: "x < 2 ^ 52"
  have nx: "\<not> 2 ^ 53 \<le> 2 * x" "\<not> 2 ^ 53 \<le> x" using x by simp_all
  show ?thesis
  proof (cases "2 * x < 2 ^ 52")
    case True
    then have "4 \<le> 2 ^ 53 / x" using pos by (simp add: field_simps)
    then have "nat \<lceil>2 ^ 53 / x / 2\<rceil> < nat \<lceil>2 ^ 53 / x\<rceil>" by (rule ceiling_half_less)
    with True nx x show ?thesis by (simp add: f64_measure_def)
  next
    case False
    have "0 < 2 ^ 53 / x" using pos by simp
    then have "0 < nat \<lceil>2 ^ 53 / x\<rceil>" by simp
    with False nx x show ?thesis by (simp add: f64_measure_def)
  qed
qed

termination f64
  by (relation "measure f64_measure") (auto intro: f64_measure_down f64_measure_up)

declare f64.simps [simp del]

text \<open>The relative error of a rounding is at most \<open>2^-53\<close>.\<close>

lemma f64_error: "0 < x \<Longrightarrow> \<bar>f64 x - x\<bar> \<le> x / 2 ^ 53"
proof (induction x rule: f64.induct)
  case (1 x)
  consider "2 ^ 53 \<le> x" | "x < 2 ^ 52" | "2 ^ 52 \<le> x" "x < 2 ^ 53" by linarith
  then show ?case
  proof cases
    case 1
    then have "\<bar>f64 (x / 2) - x / 2\<bar> \<le> x / 2 / 2 ^ 53" using "1.IH"(1) "1.prems" by simp
    moreover have "f64 x = 2 * f64 (x / 2)" using 1 "1.prems" by (simp add: f64.simps [of x])
    ultimately show ?thesis unfolding abs_le_iff by linarith
  next
    case 2
    then have "\<bar>f64 (2 * x) - 2 * x\<bar> \<le> 2 * x / 2 ^ 53" using "1.IH"(2) "1.prems" by simp
    moreover have "f64 x = f64 (2 * x) / 2" using 2 "1.prems" by (simp add: f64.simps [of x])
    ultimately show ?thesis unfolding abs_le_iff by linarith
  next
    case 3
    then have "f64 x = of_int (round_even x)" using "1.prems" by (simp add: f64.simps [of x])
    moreover have "1 / 2 \<le> x / 2 ^ 53" using 3 by simp
    ultimately show ?thesis using round_even_error [of x] by linarith
  qed
qed

text \<open>Integers of at most 53 bits are exact.\<close>

lemma f64_int: "0 \<le> n \<Longrightarrow> n < 2 ^ 53 \<Longrightarrow> f64 (of_int n) = of_int n"
proof (induction "nat (2 ^ 53 - n)" arbitrary: n rule: less_induct)
  case less
  consider "n = 0" | "0 < n" "n < 2 ^ 52" | "2 ^ 52 \<le> n" using less.prems by linarith
  then show ?case
  proof cases
    case 1
    then show ?thesis by (simp add: f64.simps)
  next
    case 2
    then have "nat (2 ^ 53 - 2 * n) < nat (2 ^ 53 - n)" by (simp add: nat_less_eq_zless)
    moreover have "0 \<le> 2 * n" "2 * n < 2 ^ 53" using 2 by auto
    ultimately have "f64 (of_int (2 * n)) = of_int (2 * n)" by (rule less.hyps)
    moreover have "(of_int n :: rat) < 2 ^ 52"
      using 2 by (metis of_int_less_iff of_int_numeral of_int_power)
    ultimately show ?thesis using 2 by (simp add: f64.simps [of "of_int n"])
  next
    case 3
    have "(2::rat) ^ 52 \<le> of_int n" "(of_int n :: rat) < 2 ^ 53"
      using 3 less.prems by (metis of_int_le_iff of_int_less_iff of_int_numeral of_int_power)+
    then show ?thesis using 3 by (simp add: f64.simps [of "of_int n"])
  qed
qed

text \<open>
  Conversion of a float to \<open>int64\<close> truncates; out of range the result is implementation
  defined in Go, so it is a parameter \<open>oor\<close>.
\<close>

definition f64_to_int64 :: "(rat \<Rightarrow> int) \<Rightarrow> rat \<Rightarrow> int" where
  "f64_to_int64 oor x =
     (let n = (if 0 \<le> x then \<lfloor>x\<rfloor> else \<lceil>x\<rceil>)
      in if - (2 ^ 63) \<le> n \<and> n < 2 ^ 63 then n else oor x)"

end
