(* ===== verification/Sql_Text.thy ===== *)
theory Sql_Text
  imports Go_Strconv
begin

text \<open>
  SQL text as SQLite's tokenizer sees its quoting: string literals in single quotes and
  identifiers in double quotes, a doubled quote standing for one. The components that build SQL
  by string concatenation (\<open>query/dsl.go\<close>, \<open>query/rewrite.go\<close>) are
  measured against this lexer: user text must end up inside quotes, whole and unchanged.
\<close>

datatype sql_tok = TChar char | TLit string | TIdent string

text \<open>The text after an opening quote: the content up to the closing quote, and what follows.\<close>

fun read_quoted :: "char \<Rightarrow> string \<Rightarrow> (string \<times> string) option" where
  "read_quoted q [] = None"
| "read_quoted q (c # s) =
     (if c = q
      then (case s of
              [] \<Rightarrow> Some ([], [])
            | d # t \<Rightarrow> if d = q then map_option (\<lambda>(a, b). (q # a, b)) (read_quoted q t) else Some ([], s))
      else map_option (\<lambda>(a, b). (c # a, b)) (read_quoted q s))"

lemma read_quoted_shorter: "read_quoted q s = Some (a, b) \<Longrightarrow> length b < length s"
  by (induction q s arbitrary: a rule: read_quoted.induct)
    (fastforce split: if_splits list.splits)+

function sql_lex :: "string \<Rightarrow> sql_tok list option" where
  "sql_lex s =
     (case s of
        [] \<Rightarrow> Some []
      | c # t \<Rightarrow>
         if c = squote \<or> c = dquote
         then (case read_quoted c t of
                 None \<Rightarrow> None
               | Some (a, b) \<Rightarrow>
                   map_option (Cons (if c = squote then TLit a else TIdent a)) (sql_lex b))
         else map_option (Cons (TChar c)) (sql_lex t))"
  by pat_completeness auto
termination by (relation "measure length") (auto dest: read_quoted_shorter)

declare sql_lex.simps [simp del]

text \<open>The fixed part of a statement: every literal and every quoted identifier blanked out.\<close>

fun blank :: "sql_tok \<Rightarrow> char" where
  "blank (TChar c) = c"
| "blank (TLit s) = squote"
| "blank (TIdent s) = dquote"

definition skeleton :: "string \<Rightarrow> string option" where
  "skeleton q = map_option (map blank) (sql_lex q)"

definition literals :: "string \<Rightarrow> string list option" where
  "literals q = map_option (List.map_filter (\<lambda>t. case t of TLit s \<Rightarrow> Some s | _ \<Rightarrow> None)) (sql_lex q)"

section \<open>Escaping\<close>

definition unquoted :: "char \<Rightarrow> string \<Rightarrow> bool" where
  "unquoted q s \<longleftrightarrow> (case s of [] \<Rightarrow> True | c # _ \<Rightarrow> c \<noteq> q)"

lemma unquoted_simps [simp]: "unquoted q []" "unquoted q (c # s) \<longleftrightarrow> c \<noteq> q"
  by (simp_all add: unquoted_def)

lemma read_quoted_escape:
  "unquoted q rest \<Longrightarrow> read_quoted q (ReplaceAll1 s q [q, q] @ q # rest) = Some (s, rest)"
proof (induction s)
  case Nil
  then show ?case by (cases rest) auto
next
  case (Cons c s)
  then show ?case by auto
qed

definition plain :: "string \<Rightarrow> bool" where
  "plain s \<longleftrightarrow> squote \<notin> set s \<and> dquote \<notin> set s"

lemma plain_simps [simp]:
  "plain []" "plain (c # s) \<longleftrightarrow> c \<noteq> squote \<and> c \<noteq> dquote \<and> plain s"
  "plain (a @ b) \<longleftrightarrow> plain a \<and> plain b"
  by (auto simp: plain_def)

named_theorems sql_lexing \<open>lexing of concatenated statement text\<close>

lemma sql_lex_Nil [sql_lexing]: "sql_lex [] = Some []"
  by (subst sql_lex.simps) simp

lemma sql_lex_char [sql_lexing]:
  "c \<noteq> squote \<Longrightarrow> c \<noteq> dquote \<Longrightarrow> sql_lex (c # s) = map_option (Cons (TChar c)) (sql_lex s)"
  by (subst sql_lex.simps) simp

lemma sql_lex_plain: "plain p \<Longrightarrow> sql_lex (p @ s) = map_option ((@) (map TChar p)) (sql_lex s)"
proof (induction p)
  case Nil
  then show ?case by (simp add: option.map_ident)
next
  case (Cons c p)
  then show ?case by (simp add: sql_lex_char option.map_comp comp_def)
qed

lemma sql_lex_lit [sql_lexing]:
  "unquoted squote s \<Longrightarrow>
   sql_lex (squote # ReplaceAll1 v squote [squote, squote] @ squote # s) = map_option (Cons (TLit v)) (sql_lex s)"
  by (subst sql_lex.simps) (simp add: read_quoted_escape)

lemma sql_lex_ident [sql_lexing]:
  "unquoted dquote s \<Longrightarrow>
   sql_lex (dquote # ReplaceAll1 v dquote [dquote, dquote] @ dquote # s) = map_option (Cons (TIdent v)) (sql_lex s)"
  by (subst sql_lex.simps) (simp add: read_quoted_escape)

text \<open>The same rules for the skeleton, which is what concatenations are compared by.\<close>

lemma skeleton_Nil [sql_lexing]: "skeleton [] = Some []"
  by (simp add: skeleton_def sql_lex_Nil)

lemma skeleton_char [sql_lexing]:
  "c \<noteq> squote \<Longrightarrow> c \<noteq> dquote \<Longrightarrow> skeleton (c # s) = map_option (Cons c) (skeleton s)"
  by (simp add: skeleton_def sql_lex_char option.map_comp comp_def)

lemma skeleton_plain: "plain p \<Longrightarrow> skeleton (p @ s) = map_option ((@) p) (skeleton s)"
  by (simp add: skeleton_def sql_lex_plain option.map_comp comp_def)

lemma skeleton_lit [sql_lexing]:
  "unquoted squote s \<Longrightarrow>
   skeleton (squote # ReplaceAll1 v squote [squote, squote] @ squote # s) = map_option (Cons squote) (skeleton s)"
  by (simp add: skeleton_def sql_lex_lit option.map_comp comp_def)

lemma skeleton_ident [sql_lexing]:
  "unquoted dquote s \<Longrightarrow>
   skeleton (dquote # ReplaceAll1 v dquote [dquote, dquote] @ dquote # s) = map_option (Cons dquote) (skeleton s)"
  by (simp add: skeleton_def sql_lex_ident option.map_comp comp_def)

text \<open>Numbers are plain.\<close>

lemma digit_not_quote: "is_digit c \<Longrightarrow> c \<noteq> squote \<and> c \<noteq> dquote"
  by (auto simp: is_digit_def byte_def)

lemma plain_digits: "list_all is_digit s \<Longrightarrow> plain s"
  by (induction s) (use digit_not_quote in auto)

lemma plain_itoa [simp]: "plain (itoa n)"
  by (auto simp: itoa_def intro: plain_digits nat_str_digits)

section \<open>Fragments that differ only inside quotes\<close>

text \<open>
  \<open>frag a b\<close>: in any statement both \<open>a\<close> and \<open>b\<close> contribute the same
  well-quoted skeleton, so one may replace the other. Statement builders are shown to respect
  it piece by piece.
\<close>

definition starts :: "string \<Rightarrow> bool" where
  "starts s \<longleftrightarrow> unquoted squote s \<and> unquoted dquote s"

lemma starts_simps [simp]: "starts []" "starts (c # s) \<longleftrightarrow> c \<noteq> squote \<and> c \<noteq> dquote"
  by (auto simp: starts_def)

lemma starts_append: "starts a \<Longrightarrow> starts b \<Longrightarrow> starts (a @ b)"
  by (cases a) auto

lemma starts_plain: "plain a \<Longrightarrow> starts b \<Longrightarrow> starts (a @ b)"
  by (cases a) auto

definition sk :: "string \<Rightarrow> string \<Rightarrow> bool" where
  "sk k a \<longleftrightarrow> (\<forall>s. starts s \<longrightarrow> skeleton (a @ s) = (case skeleton s of None \<Rightarrow> None | Some x \<Rightarrow> Some (k @ x)))"

definition frag :: "string \<Rightarrow> string \<Rightarrow> bool" where
  "frag a b \<longleftrightarrow> (\<exists>k. sk k a \<and> sk k b)"

lemma sk_append: "sk k a \<Longrightarrow> starts c \<Longrightarrow> sk l c \<Longrightarrow> sk (k @ l) (a @ c)"
  by (auto simp: sk_def starts_append split: option.splits)

lemma sk_plain: "plain p \<Longrightarrow> sk l c \<Longrightarrow> sk (p @ l) (p @ c)"
  by (auto simp: sk_def skeleton_plain split: option.splits)

lemma sk_Nil: "sk [] []"
  by (auto simp: sk_def split: option.splits)

lemma frag_skeleton: "frag a b \<Longrightarrow> skeleton a = skeleton b \<and> skeleton a \<noteq> None"
proof -
  assume "frag a b"
  then obtain k where "sk k a" "sk k b" by (auto simp: frag_def)
  then have "skeleton (a @ []) = Some k" "skeleton (b @ []) = Some k"
    using skeleton_Nil unfolding sk_def by (metis append_Nil2 option.simps(5) starts_simps(1))+
  then show ?thesis by simp
qed

lemma frag_Nil: "frag [] []"
  using sk_Nil by (auto simp: frag_def)

lemma frag_plain: "plain p \<Longrightarrow> frag c d \<Longrightarrow> frag (p @ c) (p @ d)"
  unfolding frag_def using sk_plain by blast

lemma frag_plain_end: "plain p \<Longrightarrow> frag p p"
  using frag_plain [OF _ frag_Nil] by simp

lemma frag_append: "frag a b \<Longrightarrow> starts c \<Longrightarrow> starts d \<Longrightarrow> frag c d \<Longrightarrow> frag (a @ c) (b @ d)"
  unfolding frag_def using sk_append by blast

lemma sk_lit: "sk [squote] ([squote] @ ReplaceAll1 v squote [squote, squote] @ [squote])"
  by (auto simp: sk_def starts_def sql_lexing split: option.splits)

lemma sk_ident: "sk [dquote] ([dquote] @ ReplaceAll1 v dquote [dquote, dquote] @ [dquote])"
  by (auto simp: sk_def starts_def sql_lexing split: option.splits)

lemma frag_lit_end:
  "frag ([squote] @ ReplaceAll1 v squote [squote, squote] @ [squote])
        ([squote] @ ReplaceAll1 w squote [squote, squote] @ [squote])"
  unfolding frag_def using sk_lit by blast

lemma frag_lit:
  "frag c d \<Longrightarrow> starts c \<Longrightarrow> starts d \<Longrightarrow>
   frag ([squote] @ ReplaceAll1 v squote [squote, squote] @ [squote] @ c)
        ([squote] @ ReplaceAll1 w squote [squote, squote] @ [squote] @ d)"
  using frag_append [OF frag_lit_end [of v w]] by simp

lemma frag_ident_end:
  "frag ([dquote] @ ReplaceAll1 v dquote [dquote, dquote] @ [dquote])
        ([dquote] @ ReplaceAll1 w dquote [dquote, dquote] @ [dquote])"
  unfolding frag_def using sk_ident by blast

lemma frag_Join:
  assumes "list_all2 (\<lambda>a b. frag a b \<and> starts a \<and> starts b) xs ys" and "plain sep" and "sep \<noteq> []"
  shows "frag (Join xs sep) (Join ys sep)"
  using assms(1)
proof (induction rule: list_all2_induct)
  case Nil
  then show ?case by (simp add: frag_Nil)
next
  case (Cons x xs y ys)
  show ?case
  proof (cases xs)
    case Nil
    with Cons show ?thesis by simp
  next
    case (Cons x' xs')
    with Cons.hyps obtain y' ys' where ys: "ys = y' # ys'" by (cases ys) auto
    have "starts (sep @ b)" for b using assms(2,3) by (cases sep) auto
    moreover have "frag (sep @ Join xs sep) (sep @ Join ys sep)" using Cons.IH assms(2) by (intro frag_plain)
    ultimately show ?thesis using Cons.hyps Cons ys by (auto intro: frag_append)
  qed
qed

end
