(* ===== verification/DSL.thy ===== *)
theory DSL
  imports Sql_Text
begin

text \<open>
  The metrics query language, \<open>query/dsl.go\<close>:
  \<^verbatim>\<open>verb(metric) [key=value ...] [per DUR] [last DUR] [by service]\<close>, parsed and
  compiled to SQL text. The regular expressions are scanners, \<open>Sprintf\<close> is
  concatenation, error messages are the constructors of \<open>dsl_error\<close>.
\<close>

record DSLFilter =
  f_Key :: string
  f_Value :: string

record DSLQuery =
  d_Verb :: string
  d_Metric :: string
  d_Filters :: "DSLFilter list"
  d_BucketMs :: int
  d_WindowMs :: int
  d_ByService :: bool
  d_fromMs :: int
  d_toMs :: int

datatype dsl_error =
    ENoHead | EUnknownVerb string
  | EPerTwice | EPerNoArg | ELastTwice | ELastNoArg | EByOther
  | EBadDuration string | EDurationRange string | EDurationZero
  | EToken string | EFilter string | ELatestPer | ENoServices string

definition OverrideWindow :: "int \<Rightarrow> int \<Rightarrow> DSLQuery \<Rightarrow> DSLQuery" where
  "OverrideWindow fromMs toMs d = d\<lparr>d_fromMs := fromMs, d_toMs := toMs, d_WindowMs := i64 (toMs - fromMs)\<rparr>"

definition dslDefaultWindowMs :: int where "dslDefaultWindowMs = 24 * 3600 * 1000"
definition pivotServiceCap :: nat where "pivotServiceCap = 6"

definition dslVerbs :: "string list" where
  "dslVerbs = [''increase'', ''rate'', ''avg'', ''min'', ''max'', ''sum'', ''count'', ''latest'']"

definition dslAggFn :: "string \<Rightarrow> string" where
  "dslAggFn verb = (case map_of
     [(''avg'', ''AVG(value)''), (''min'', ''MIN(value)''), (''max'', ''MAX(value)''),
      (''sum'', ''SUM(value)''), (''count'', ''COUNT(*)'')] verb of Some s \<Rightarrow> s | None \<Rightarrow> [])"

section \<open>Scanners\<close>

text \<open>
  \<^verbatim>\<open>^\s*([A-Za-z]+)\s*\(\s*([^)]+?)\s*\)\s*(.*)$\<close>. The parenthesis ends at the first
  closing one. When it holds only white space, the greedy \<^verbatim>\<open>\s*\<close> gives one
  character back, and the metric is the last of them. \<open>.\<close> does not match a newline.
\<close>

definition skip_space :: "string \<Rightarrow> string" where
  "skip_space s = dropWhile re_space s"

definition trim_re_space :: "string \<Rightarrow> string" where
  "trim_re_space s = rev (dropWhile re_space (rev (dropWhile re_space s)))"

definition dslHeadRe :: "string \<Rightarrow> (string \<times> string \<times> string) option" where
  "dslHeadRe input =
     (let s = skip_space input; verb = takeWhile is_letter s; s1 = skip_space (drop (length verb) s)
      in if verb = [] then None
         else case s1 of
           [] \<Rightarrow> None
         | c # s2 \<Rightarrow>
            if c \<noteq> CHR ''('' then None
            else case Cut1 s2 (CHR '')'') of (content, after, ok) \<Rightarrow>
              let rest = skip_space after
              in if \<not> ok \<or> content = [] \<or> CHR 0x0A \<in> set rest then None
                 else Some (verb,
                   (if list_all re_space content then [last content] else trim_re_space content), rest))"

text \<open>\<^verbatim>\<open>^(\d+)(m|h|d)$\<close>\<close>

definition dslDurRe :: "string \<Rightarrow> (string \<times> char) option" where
  "dslDurRe s =
     (let ds = takeWhile is_digit s
      in case drop (length ds) s of
           [u] \<Rightarrow> if ds \<noteq> [] \<and> u \<in> set ''mhd'' then Some (ds, u) else None
         | _ \<Rightarrow> None)"

text \<open>\<^verbatim>\<open>^[A-Za-z_][A-Za-z0-9_.]*$\<close>\<close>

definition dslKeyRe :: "string \<Rightarrow> bool" where
  "dslKeyRe s = (case s of [] \<Rightarrow> False
     | c # t \<Rightarrow> (is_letter c \<or> c = CHR ''_'')
         \<and> list_all (\<lambda>c. is_letter c \<or> is_digit c \<or> c = CHR ''_'' \<or> c = CHR ''.'') t)"

section \<open>Parsing\<close>

definition parseDSLDuration :: "string \<Rightarrow> (dsl_error, int) result" where
  "parseDSLDuration s =
     (case dslDurRe s of
        None \<Rightarrow> Err (EBadDuration s)
      | Some (ds, u) \<Rightarrow>
         (case ParseInt ds of
            None \<Rightarrow> Err (EDurationRange s)
          | Some n \<Rightarrow>
             if n < 0 then Err (EDurationRange s)
             else if n = 0 then Err EDurationZero
             else
               let mult = (if u = CHR ''m'' then 60000 else if u = CHR ''h'' then 3600000 else 86400000)
               in if n > go_div (2 ^ 63 - 1) mult then Err (EDurationRange s) else Ok (i64 (n * mult))))"

definition parseFilter :: "string \<Rightarrow> (dsl_error, DSLFilter) result" where
  "parseFilter tok =
     (case Cut1 tok (CHR ''='') of (key, val0, ok) \<Rightarrow>
        if \<not> ok then Err (EToken tok)
        else let val = TrimSet val0 [squote, dquote]
             in if \<not> dslKeyRe key \<or> val = [] then Err (EFilter tok)
                else Ok \<lparr>f_Key = key, f_Value = val\<rparr>)"

fun parseTokens :: "string list \<Rightarrow> DSLQuery \<Rightarrow> (dsl_error, DSLQuery) result" where
  "parseTokens [] d = Ok d"
| "parseTokens (tok # rest) d =
     (if ToLower tok = ''per'' then
        if d_BucketMs d \<noteq> 0 then Err EPerTwice
        else (case rest of
           [] \<Rightarrow> Err EPerNoArg
         | x # rest' \<Rightarrow> (case parseDSLDuration x of
              Inl e \<Rightarrow> Err e
            | Inr ms \<Rightarrow> parseTokens rest' (d\<lparr>d_BucketMs := ms\<rparr>)))
      else if ToLower tok = ''last'' then
        if d_WindowMs d \<noteq> 0 then Err ELastTwice
        else (case rest of
           [] \<Rightarrow> Err ELastNoArg
         | x # rest' \<Rightarrow> (case parseDSLDuration x of
              Inl e \<Rightarrow> Err e
            | Inr ms \<Rightarrow> parseTokens rest' (d\<lparr>d_WindowMs := ms\<rparr>)))
      else if ToLower tok = ''by'' then
        (case rest of
           [] \<Rightarrow> Err EByOther
         | x # rest' \<Rightarrow>
             if ToLower x \<noteq> ''service'' then Err EByOther
             else parseTokens rest' (d\<lparr>d_ByService := True\<rparr>))
      else (case parseFilter tok of
              Inl e \<Rightarrow> Err e
            | Inr f \<Rightarrow> parseTokens rest (d\<lparr>d_Filters := d_Filters d @ [f]\<rparr>)))"

definition ParseDSL :: "string \<Rightarrow> (dsl_error, DSLQuery) result" where
  "ParseDSL input =
     (case dslHeadRe input of
        None \<Rightarrow> Err ENoHead
      | Some (v, metric, rest) \<Rightarrow>
         let d0 = \<lparr>d_Verb = ToLower v, d_Metric = metric, d_Filters = [], d_BucketMs = 0, d_WindowMs = 0,
                   d_ByService = False, d_fromMs = 0, d_toMs = 0\<rparr>
         in if ToLower v \<notin> set dslVerbs then Err (EUnknownVerb v)
            else case parseTokens (Fields rest) d0 of
              Inl e \<Rightarrow> Err e
            | Inr d \<Rightarrow>
                if d_Verb d = ''latest'' \<and> d_BucketMs d \<noteq> 0 then Err ELatestPer
                else Ok (if d_WindowMs d = 0 then d\<lparr>d_WindowMs := dslDefaultWindowMs\<rparr> else d))"

section \<open>Compilation to SQL\<close>

definition NeedsServices :: "DSLQuery \<Rightarrow> bool" where
  "NeedsServices d \<longleftrightarrow> d_ByService d \<and> d_BucketMs d \<noteq> 0 \<and> d_Verb d \<noteq> ''latest''"

definition dslQuoteStr :: "string \<Rightarrow> string" where
  "dslQuoteStr s = ReplaceAll1 s squote [squote, squote]"

definition dslQuoteIdent :: "string \<Rightarrow> string" where
  "dslQuoteIdent s = [dquote] @ ReplaceAll1 s dquote [dquote, dquote] @ [dquote]"

definition filterCond :: "DSLFilter \<Rightarrow> string" where
  "filterCond f =
     (if f_Key f = ''service'' \<or> f_Key f = ''host''
      then f_Key f @ '' = '' @ [squote] @ dslQuoteStr (f_Value f) @ [squote]
      else ''json_extract(labels, '' @ [squote] @ ''$.'' @ dslQuoteStr (f_Key f) @ [squote] @ '') = '' @ [squote] @
           dslQuoteStr (f_Value f) @ [squote])"

definition windowCond :: "DSLQuery \<Rightarrow> string" where
  "windowCond d =
     (if d_toMs d > 0
      then ''timestamp BETWEEN '' @ itoa (d_fromMs d) @ '' AND '' @ itoa (d_toMs d)
      else ''timestamp > (unixepoch() - '' @ itoa (go_div (d_WindowMs d) 1000) @ '') * 1000'')"

definition whereClause :: "DSLQuery \<Rightarrow> string" where
  "whereClause d =
     Join ([''name = '' @ [squote] @ dslQuoteStr (d_Metric d) @ [squote]] @ map filterCond (d_Filters d)
       @ [windowCond d]) '' AND ''"

definition pivotCase :: "string \<Rightarrow> string \<Rightarrow> string" where
  "pivotCase verb service =
     (if verb = ''count''
      then ''COUNT(CASE WHEN service = '' @ [squote] @ dslQuoteStr service @ [squote] @ '' THEN 1 END)''
      else map upper_char verb @
        ''(CASE WHEN service = '' @ [squote] @ dslQuoteStr service @ [squote] @ '' THEN value END)'')"

definition increaseInner :: "DSLQuery \<Rightarrow> string \<Rightarrow> string" where
  "increaseInner d wh =
     (if d_BucketMs d \<noteq> 0
      then ''  SELECT timestamp / '' @ itoa (d_BucketMs d) @ '' * '' @ itoa (d_BucketMs d) @
        '' AS bucket, service, host, labels, MAX(value) - MIN(value) AS inc'' @ nl @ ''  FROM metrics'' @ nl @
        ''  WHERE '' @ wh @ nl @ ''  GROUP BY bucket, service, host, labels''
      else ''  SELECT service, host, labels, MAX(value) - MIN(value) AS inc'' @ nl @ ''  FROM metrics'' @ nl @
        ''  WHERE '' @ wh @ nl @ ''  GROUP BY service, host, labels'')"

definition frameSecs :: "DSLQuery \<Rightarrow> int" where
  "frameSecs d = go_div (if d_BucketMs d \<noteq> 0 then d_BucketMs d else d_WindowMs d) 1000"

definition perSecond :: "DSLQuery \<Rightarrow> string" where
  "perSecond d = (if d_Verb d = ''rate'' then '' / '' @ itoa (frameSecs d) @ ''.0'' else [])"

definition increaseCol :: "DSLQuery \<Rightarrow> string \<Rightarrow> string" where
  "increaseCol d s =
     ''       SUM(CASE WHEN service = '' @ [squote] @ dslQuoteStr s @ [squote] @ '' THEN inc END)'' @ perSecond d @
     '' AS '' @ dslQuoteIdent s"

definition increaseSQL :: "DSLQuery \<Rightarrow> string \<Rightarrow> string list \<Rightarrow> string" where
  "increaseSQL d wh services =
     (let inner = increaseInner d wh;
          alias = (if d_Verb d = ''rate'' then ''rate_per_s'' else ''increase'');
          outerVal = ''SUM(inc)'' @ perSecond d
      in if d_BucketMs d \<noteq> 0 \<and> d_ByService d
         then ''SELECT bucket,'' @ nl @ Join (map (increaseCol d) services) ('','' @ nl) @ nl @ ''FROM ('' @ nl @ inner @ nl @
              '')'' @ nl @ ''GROUP BY bucket'' @ nl @ ''ORDER BY bucket''
         else if d_BucketMs d \<noteq> 0
         then ''SELECT bucket, '' @ outerVal @ '' AS '' @ alias @ nl @ ''FROM ('' @ nl @ inner @ nl @
              '')'' @ nl @ ''GROUP BY bucket'' @ nl @ ''ORDER BY bucket''
         else if d_ByService d
         then ''SELECT service, '' @ outerVal @ '' AS '' @ alias @ nl @ ''FROM ('' @ nl @ inner @ nl @
              '')'' @ nl @ ''GROUP BY service'' @ nl @ ''ORDER BY '' @ alias @ '' DESC''
         else ''SELECT '' @ outerVal @ '' AS '' @ alias @ nl @ ''FROM ('' @ nl @ inner @ nl @ '')'')"

definition latestSQL :: "DSLQuery \<Rightarrow> string \<Rightarrow> string" where
  "latestSQL d wh =
     (if d_ByService d
      then ''SELECT service, latest'' @ nl @ ''FROM ('' @ nl @ ''  SELECT service, value AS latest, MAX(id) AS latest_id'' @ nl @
        ''  FROM metrics'' @ nl @ ''  WHERE '' @ wh @ nl @ ''  GROUP BY service'' @ nl @ '')'' @ nl @ ''ORDER BY latest DESC''
      else ''SELECT value AS latest'' @ nl @ ''FROM metrics'' @ nl @ ''WHERE '' @ wh @ nl @ ''ORDER BY id DESC'' @ nl @ ''LIMIT 1'')"

definition aggAlias :: "string \<Rightarrow> string" where
  "aggAlias verb = (if verb = ''count'' then ''samples'' else verb @ ''_value'')"

definition aggregateSQL :: "DSLQuery \<Rightarrow> string \<Rightarrow> string list \<Rightarrow> string" where
  "aggregateSQL d wh services =
     (let fn = dslAggFn (d_Verb d);
          alias = aggAlias (d_Verb d);
          b = itoa (d_BucketMs d)
      in if d_BucketMs d \<noteq> 0 \<and> d_ByService d
         then ''SELECT timestamp / '' @ b @ '' * '' @ b @ '' AS bucket,'' @ nl @
              Join (map (\<lambda>s. ''       '' @ pivotCase (d_Verb d) s @ '' AS '' @ dslQuoteIdent s) services) ('','' @ nl) @ nl @
              ''FROM metrics'' @ nl @ ''WHERE '' @ wh @ nl @ ''GROUP BY bucket'' @ nl @ ''ORDER BY bucket''
         else if d_BucketMs d \<noteq> 0
         then ''SELECT timestamp / '' @ b @ '' * '' @ b @ '' AS bucket, '' @ fn @ '' AS '' @ alias @ nl @
              ''FROM metrics'' @ nl @ ''WHERE '' @ wh @ nl @ ''GROUP BY bucket'' @ nl @ ''ORDER BY bucket''
         else if d_ByService d
         then ''SELECT service, '' @ fn @ '' AS '' @ alias @ nl @ ''FROM metrics'' @ nl @ ''WHERE '' @ wh @ nl @
              ''GROUP BY service'' @ nl @ ''ORDER BY '' @ alias @ '' DESC''
         else ''SELECT '' @ fn @ '' AS '' @ alias @ nl @ ''FROM metrics'' @ nl @ ''WHERE '' @ wh)"

definition dslSQL :: "DSLQuery \<Rightarrow> string list \<Rightarrow> (dsl_error, string) result" where
  "dslSQL d services0 =
     (if NeedsServices d \<and> services0 = [] then Err (ENoServices (d_Metric d))
      else
        let services = (if NeedsServices d then take pivotServiceCap services0 else services0);
            wh = whereClause d
        in if d_Verb d = ''latest'' then Ok (latestSQL d wh)
           else if d_Verb d = ''increase'' \<or> d_Verb d = ''rate'' then Ok (increaseSQL d wh services)
           else Ok (aggregateSQL d wh services))"

section \<open>Parsed queries are well-formed\<close>

definition filter_ok :: "DSLFilter \<Rightarrow> bool" where
  "filter_ok f \<longleftrightarrow> dslKeyRe (f_Key f) \<and> f_Value f \<noteq> []"

definition duration_ok :: "int \<Rightarrow> bool" where
  "duration_ok ms \<longleftrightarrow> 60000 \<le> ms \<and> ms < 2 ^ 63 \<and> ms mod 60000 = 0"

definition dsl_ok :: "DSLQuery \<Rightarrow> bool" where
  "dsl_ok d \<longleftrightarrow> d_Verb d \<in> set dslVerbs \<and> d_Metric d \<noteq> [] \<and> CHR '')'' \<notin> set (d_Metric d)
     \<and> list_all filter_ok (d_Filters d) \<and> (d_BucketMs d = 0 \<or> duration_ok (d_BucketMs d))
     \<and> duration_ok (d_WindowMs d) \<and> (d_Verb d = ''latest'' \<longrightarrow> d_BucketMs d = 0) \<and> d_toMs d = 0"

lemma duration_unit:
  assumes "0 < n" and "n \<le> go_div (2 ^ 63 - 1) mult" and "mult \<in> {60000, 3600000, 86400000}"
  shows "i64 (n * mult) = n * mult \<and> duration_ok (n * mult)"
proof -
  have m: "0 < mult" "mult mod 60000 = 0" "60000 \<le> mult" using assms(3) by auto
  then have "go_div (2 ^ 63 - 1) mult = (2 ^ 63 - 1) div mult" by (simp add: go_div_nonneg)
  then have "n * mult \<le> (2 ^ 63 - 1) div mult * mult" using assms(2) m by simp
  also have "\<dots> \<le> 2 ^ 63 - 1" using m(1) minus_mod_eq_div_mult [of "2 ^ 63 - 1 :: int" mult] pos_mod_sign [of mult "2 ^ 63 - 1"] by linarith
  finally have u: "n * mult < 2 ^ 63" by simp
  have l: "60000 \<le> n * mult" using assms(1) m(3) mult_mono [of 1 n 60000 mult] by simp
  have "n * mult mod 60000 = 0" using m(2) by (metis mod_mult_right_eq mult_zero_right mod_0)
  with u l show ?thesis by (simp add: duration_ok_def i64_id)
qed

lemma parseDSLDuration_ok: "parseDSLDuration s = Inr ms \<Longrightarrow> duration_ok ms"
  using duration_unit
  by (fastforce simp: parseDSLDuration_def Let_def not_less split: option.splits prod.splits if_splits)

lemma parseFilter_ok: "parseFilter tok = Inr f \<Longrightarrow> filter_ok f"
  by (auto simp: parseFilter_def filter_ok_def Let_def split: prod.splits if_splits)

text \<open>What the token loop maintains: each duration is absent (0) or a whole number of minutes.\<close>

definition tokens_inv :: "DSLQuery \<Rightarrow> bool" where
  "tokens_inv d \<longleftrightarrow> list_all filter_ok (d_Filters d) \<and> (d_BucketMs d = 0 \<or> duration_ok (d_BucketMs d))
     \<and> (d_WindowMs d = 0 \<or> duration_ok (d_WindowMs d)) \<and> d_toMs d = 0"

lemma parseTokens_inv:
  assumes "parseTokens ts d = Inr d'" and "tokens_inv d"
  shows "tokens_inv d' \<and> d_Verb d' = d_Verb d \<and> d_Metric d' = d_Metric d"
  using assms
proof (induction ts d rule: parseTokens.induct)
  case (1 d)
  then show ?case by simp
next
  case (2 tok rest d)
  note ok = parseDSLDuration_ok parseFilter_ok
  consider "ToLower tok = ''per''" | "ToLower tok = ''last''" | "ToLower tok = ''by''"
    | "ToLower tok \<notin> {''per'', ''last'', ''by''}" by blast
  then show ?case
  proof cases
    case 1
    with 2 show ?thesis
      by (auto simp: tokens_inv_def split: list.splits sum.splits if_splits dest: ok)
  next
    case 2
    with "2.prems" "2.IH" show ?thesis
      by (auto simp: tokens_inv_def split: list.splits sum.splits if_splits dest: ok)
  next
    case 3
    with 2 show ?thesis
      by (auto simp: tokens_inv_def split: list.splits sum.splits if_splits)
  next
    case 4
    with 2 show ?thesis
      by (auto simp: tokens_inv_def split: sum.splits if_splits dest: ok)
  qed
qed

lemma trim_re_space_nonempty: "\<not> list_all re_space s \<Longrightarrow> trim_re_space s \<noteq> []"
proof -
  assume "\<not> list_all re_space s"
  then have ne: "dropWhile re_space s \<noteq> []" by (simp add: list_all_iff)
  then have "\<not> re_space (hd (dropWhile re_space s))" by (rule hd_dropWhile)
  with hd_in_set [OF ne] show ?thesis
    unfolding trim_re_space_def rev_is_Nil_conv dropWhile_eq_Nil_conv set_rev by blast
qed

lemma trim_re_space_set: "set (trim_re_space s) \<subseteq> set s"
  by (auto simp: trim_re_space_def dest!: set_dropWhileD)

lemma Cut1_no_sep: "Cut1 s c = (a, b, ok) \<Longrightarrow> c \<notin> set a"
  by (induction s arbitrary: a b) (auto split: if_splits prod.splits)

lemma dslHeadRe_metric:
  assumes "dslHeadRe input = Some (v, m, rest)"
  shows "m \<noteq> [] \<and> CHR '')'' \<notin> set m"
proof -
  from assms obtain s content after ok where cut: "Cut1 s (CHR '')'') = (content, after, ok)"
    and "content \<noteq> []"
    and m: "m = (if list_all re_space content then [last content] else trim_re_space content)"
    by (auto simp: dslHeadRe_def Let_def split: list.splits if_splits prod.splits)
  moreover have "CHR '')'' \<notin> set content" using Cut1_no_sep [OF cut] .
  ultimately show ?thesis
    using trim_re_space_nonempty [of content] trim_re_space_set [of content] last_in_set [of content]
    by (auto split: if_splits)
qed

lemma ParseDSL_ok:
  assumes "ParseDSL input = Inr d"
  shows "dsl_ok d"
proof -
  obtain v m rest where h: "dslHeadRe input = Some (v, m, rest)"
    using assms by (cases "dslHeadRe input") (auto simp: ParseDSL_def)
  define d0 where "d0 = \<lparr>d_Verb = ToLower v, d_Metric = m, d_Filters = [], d_BucketMs = 0, d_WindowMs = 0,
    d_ByService = False, d_fromMs = 0, d_toMs = 0\<rparr>"
  obtain d1 where v: "ToLower v \<in> set dslVerbs" and d1: "parseTokens (Fields rest) d0 = Inr d1"
    and latest: "\<not> (d_Verb d1 = ''latest'' \<and> d_BucketMs d1 \<noteq> 0)"
    and d: "d = (if d_WindowMs d1 = 0 then d1\<lparr>d_WindowMs := dslDefaultWindowMs\<rparr> else d1)"
    using assms h by (auto simp: ParseDSL_def Let_def d0_def split: if_splits sum.splits)
  have "tokens_inv d0" by (simp add: tokens_inv_def d0_def)
  from parseTokens_inv [OF d1 this] have i: "tokens_inv d1" "d_Verb d1 = ToLower v" "d_Metric d1 = m"
    by (auto simp: d0_def)
  have "duration_ok dslDefaultWindowMs" by (simp add: duration_ok_def dslDefaultWindowMs_def)
  with i v latest dslHeadRe_metric [OF h] show ?thesis
    by (auto simp: dsl_ok_def tokens_inv_def d)
qed

section \<open>User text stays inside quotes\<close>

text \<open>A query with all user text removed: only its shape is left.\<close>

definition blankFilter :: "DSLFilter \<Rightarrow> DSLFilter" where
  "blankFilter f = \<lparr>f_Key = (if f_Key f = ''service'' \<or> f_Key f = ''host'' then f_Key f else []), f_Value = []\<rparr>"

definition blankQuery :: "DSLQuery \<Rightarrow> DSLQuery" where
  "blankQuery d = d\<lparr>d_Metric := [], d_Filters := map blankFilter (d_Filters d)\<rparr>"

lemma blankQuery_simps [simp]:
  "d_Verb (blankQuery d) = d_Verb d" "d_BucketMs (blankQuery d) = d_BucketMs d"
  "d_WindowMs (blankQuery d) = d_WindowMs d" "d_ByService (blankQuery d) = d_ByService d"
  "d_fromMs (blankQuery d) = d_fromMs d" "d_toMs (blankQuery d) = d_toMs d"
  by (simp_all add: blankQuery_def)

lemma quoteStr_label: "''$.'' @ ReplaceAll1 k squote q @ r = ReplaceAll1 (''$.'' @ k) squote q @ r"
  by simp

lemma filterCond_frag: "frag (filterCond f) (filterCond (blankFilter f))"
proof (cases "f_Key f = ''service'' \<or> f_Key f = ''host''")
  case True
  then have "plain (f_Key f @ '' = '')" by auto
  then have "frag ((f_Key f @ '' = '') @ [squote] @ dslQuoteStr (f_Value f) @ [squote])
      ((f_Key f @ '' = '') @ [squote] @ dslQuoteStr [] @ [squote])"
    unfolding dslQuoteStr_def by (intro frag_plain frag_lit_end)
  with True show ?thesis by (simp add: filterCond_def blankFilter_def)
next
  case False
  have "frag (''json_extract(labels, '' @ [squote] @ dslQuoteStr (''$.'' @ f_Key f) @ [squote] @ '') = '' @ [squote] @
      dslQuoteStr (f_Value f) @ [squote])
    (''json_extract(labels, '' @ [squote] @ dslQuoteStr (''$.'' @ []) @ [squote] @ '') = '' @ [squote] @
      dslQuoteStr [] @ [squote])"
    unfolding dslQuoteStr_def
    by (rule frag_plain, simp, rule frag_lit, rule frag_plain, simp, rule frag_lit_end) simp_all
  with False show ?thesis
    by (simp add: filterCond_def blankFilter_def dslQuoteStr_def)
qed

lemma filterCond_starts: "starts (filterCond f)"
  by (auto simp: filterCond_def)

lemma windowCond_plain: "plain (windowCond d)"
  by (simp add: windowCond_def)

lemma where_frag: "frag (whereClause d) (whereClause (blankQuery d))"
  unfolding whereClause_def
proof (rule frag_Join)
  let ?P = "\<lambda>a b. frag a b \<and> starts a \<and> starts b"
  have "frag (''name = '' @ [squote] @ dslQuoteStr (d_Metric d) @ [squote])
      (''name = '' @ [squote] @ dslQuoteStr (d_Metric (blankQuery d)) @ [squote])"
    unfolding dslQuoteStr_def by (rule frag_plain, simp, rule frag_lit_end)
  moreover have "list_all2 ?P (map filterCond (d_Filters d)) (map filterCond (d_Filters (blankQuery d)))"
    by (simp add: blankQuery_def list_all2_conv_all_nth filterCond_frag filterCond_starts)
  moreover have "windowCond (blankQuery d) = windowCond d" by (simp add: windowCond_def)
  moreover have "frag (windowCond d) (windowCond d)" by (intro frag_plain_end windowCond_plain)
  moreover have "starts (windowCond d)" by (simp add: windowCond_def)
  ultimately show "list_all2 ?P
      ([''name = '' @ [squote] @ dslQuoteStr (d_Metric d) @ [squote]] @ map filterCond (d_Filters d) @ [windowCond d])
      ([''name = '' @ [squote] @ dslQuoteStr (d_Metric (blankQuery d)) @ [squote]] @
         map filterCond (d_Filters (blankQuery d)) @ [windowCond (blankQuery d)])"
    by (auto intro!: list_all2_appendI)
qed simp_all

lemma frag_ident: "frag (dslQuoteIdent s) (dslQuoteIdent t)"
  unfolding dslQuoteIdent_def by (rule frag_ident_end)

lemma verb_plain: "v \<in> set dslVerbs \<Longrightarrow> plain v"
  by (auto simp: dslVerbs_def)

lemma upper_not_quote: "is_letter c \<Longrightarrow> upper_char c \<noteq> squote \<and> upper_char c \<noteq> dquote"
  by (auto simp: upper_char_def is_letter_def is_upper_def char_of_eq_iff) (auto simp: byte_def)

lemma plain_upper: "list_all is_letter v \<Longrightarrow> plain (map upper_char v)"
  by (induction v) (simp_all add: upper_not_quote)

lemma verb_letters: "v \<in> set dslVerbs \<Longrightarrow> list_all is_letter v \<and> v \<noteq> []"
  by (auto simp: dslVerbs_def is_letter_def is_upper_def byte_def)

lemma verb_upper_plain:
  "v \<in> set dslVerbs \<Longrightarrow> plain (map upper_char v) \<and> starts (map upper_char v @ ''('' @ r)"
  using verb_letters [of v] by (simp add: plain_upper starts_plain)

lemma pivotCase_frag:
  assumes "v \<in> set dslVerbs"
  shows "frag (pivotCase v s @ '' AS '' @ dslQuoteIdent s) (pivotCase v t @ '' AS '' @ dslQuoteIdent t)"
proof (cases "v = ''count''")
  case True
  show ?thesis
    unfolding pivotCase_def dslQuoteStr_def if_P [OF True] append.assoc
    by (rule frag_plain, simp, rule frag_lit, rule frag_plain, simp, rule frag_plain, simp, rule frag_ident) simp_all
next
  case False
  show ?thesis
    unfolding pivotCase_def dslQuoteStr_def if_not_P [OF False] append.assoc
    by (rule frag_plain, simp add: verb_upper_plain assms, rule frag_plain, simp, rule frag_lit, rule frag_plain,
        simp, rule frag_plain, simp, rule frag_ident) simp_all
qed

lemma increaseInner_frag:
  assumes "frag wh wh'"
  shows "frag (increaseInner d wh) (increaseInner (blankQuery d) wh')"
  unfolding increaseInner_def blankQuery_simps
  by (cases "d_BucketMs d \<noteq> 0"; simp only: if_True if_False not_True_eq_False not_False_eq_True;
      (rule frag_append [OF assms] | rule frag_plain | rule frag_plain_end | simp)+)

lemma increaseInner_starts: "starts (increaseInner d wh)"
  by (simp add: increaseInner_def)

lemma perSecond_plain [simp]: "plain (perSecond d)" "perSecond (blankQuery d) = perSecond d"
  by (simp_all add: perSecond_def frameSecs_def)

lemma increaseCol_frag: "frag (increaseCol d s) (increaseCol (blankQuery d) t)"
  unfolding increaseCol_def dslQuoteStr_def perSecond_plain(2)
  by (rule frag_plain, simp, rule frag_lit, rule frag_plain, simp, rule frag_plain, simp, rule frag_plain, simp,
      rule frag_ident) simp_all

text \<open>A fragment between fixed text.\<close>

lemma frag_between:
  "plain p \<Longrightarrow> plain r \<Longrightarrow> r \<noteq> [] \<Longrightarrow> frag a b \<Longrightarrow> frag (p @ a @ r) (p @ b @ r)"
  by (intro frag_plain frag_append frag_plain_end) (auto simp: neq_Nil_conv)

lemma frag_between2:
  "plain p \<Longrightarrow> plain r \<Longrightarrow> r \<noteq> [] \<Longrightarrow> plain t \<Longrightarrow> t \<noteq> [] \<Longrightarrow> frag a b \<Longrightarrow> frag c d \<Longrightarrow>
   frag (p @ a @ r @ c @ t) (p @ b @ r @ d @ t)"
  by (intro frag_plain frag_append frag_plain_end) (auto simp: neq_Nil_conv)

lemma frag_cols:
  assumes "\<And>s t. frag (f s) (g t) \<and> starts (f s) \<and> starts (g t)"
  shows "frag (Join (map f ss) ('','' @ nl)) (Join (map g (map (\<lambda>_. []) ss)) ('','' @ nl))"
  using assms by (intro frag_Join) (simp_all add: list_all2_conv_all_nth)

lemma increaseSQL_frag:
  assumes "frag wh wh'"
  shows "frag (increaseSQL d wh ss) (increaseSQL (blankQuery d) wh' (map (\<lambda>_. []) ss))"
proof -
  note inner = increaseInner_frag [OF assms, of d]
  let ?i = "increaseInner d wh" and ?i' = "increaseInner (blankQuery d) wh'"
  let ?al = "if d_Verb d = ''rate'' then ''rate_per_s'' else ''increase''"
  let ?fin = "nl @ '')'' @ nl @ ''GROUP BY bucket'' @ nl @ ''ORDER BY bucket''"
  have col: "frag (increaseCol d s) (increaseCol (blankQuery d) t) \<and> starts (increaseCol d s)
      \<and> starts (increaseCol (blankQuery d) t)" for s t
    using increaseCol_frag by (simp add: increaseCol_def)
  consider (pivot) "d_BucketMs d \<noteq> 0" "d_ByService d" | (series) "d_BucketMs d \<noteq> 0" "\<not> d_ByService d"
    | (byservice) "d_BucketMs d = 0" "d_ByService d" | (stat) "d_BucketMs d = 0" "\<not> d_ByService d" by blast
  then show ?thesis
  proof cases
    case pivot
    have "frag ((''SELECT bucket,'' @ nl) @ Join (map (increaseCol d) ss) ('','' @ nl) @ (nl @ ''FROM ('' @ nl) @ ?i @ ?fin)
        ((''SELECT bucket,'' @ nl) @ Join (map (increaseCol (blankQuery d)) (map (\<lambda>_. []) ss)) ('','' @ nl) @
           (nl @ ''FROM ('' @ nl) @ ?i' @ ?fin)"
      by (rule frag_between2 [OF _ _ _ _ _ frag_cols [OF col] inner]) simp_all
    with pivot show ?thesis by (simp add: increaseSQL_def Let_def)
  next
    case series
    have "frag ((''SELECT bucket, SUM(inc)'' @ perSecond d @ '' AS '' @ ?al @ nl @ ''FROM ('' @ nl) @ ?i @ ?fin)
        ((''SELECT bucket, SUM(inc)'' @ perSecond d @ '' AS '' @ ?al @ nl @ ''FROM ('' @ nl) @ ?i' @ ?fin)"
      by (rule frag_between [OF _ _ _ inner]) simp_all
    with series show ?thesis by (simp add: increaseSQL_def Let_def)
  next
    case byservice
    have "frag ((''SELECT service, SUM(inc)'' @ perSecond d @ '' AS '' @ ?al @ nl @ ''FROM ('' @ nl) @ ?i @
          nl @ '')'' @ nl @ ''GROUP BY service'' @ nl @ ''ORDER BY '' @ ?al @ '' DESC'')
        ((''SELECT service, SUM(inc)'' @ perSecond d @ '' AS '' @ ?al @ nl @ ''FROM ('' @ nl) @ ?i' @
          nl @ '')'' @ nl @ ''GROUP BY service'' @ nl @ ''ORDER BY '' @ ?al @ '' DESC'')"
      by (rule frag_between [OF _ _ _ inner]) simp_all
    with byservice show ?thesis by (simp add: increaseSQL_def Let_def)
  next
    case stat
    have "frag ((''SELECT SUM(inc)'' @ perSecond d @ '' AS '' @ ?al @ nl @ ''FROM ('' @ nl) @ ?i @ nl @ '')'')
        ((''SELECT SUM(inc)'' @ perSecond d @ '' AS '' @ ?al @ nl @ ''FROM ('' @ nl) @ ?i' @ nl @ '')'')"
      by (rule frag_between [OF _ _ _ inner]) simp_all
    with stat show ?thesis by (simp add: increaseSQL_def Let_def)
  qed
qed

lemma latestSQL_frag:
  assumes "frag wh wh'"
  shows "frag (latestSQL d wh) (latestSQL (blankQuery d) wh')"
proof (cases "d_ByService d")
  case True
  have "frag ((''SELECT service, latest'' @ nl @ ''FROM ('' @ nl @ ''  SELECT service, value AS latest, MAX(id) AS latest_id'' @ nl @
        ''  FROM metrics'' @ nl @ ''  WHERE '') @ wh @ nl @ ''  GROUP BY service'' @ nl @ '')'' @ nl @ ''ORDER BY latest DESC'')
      ((''SELECT service, latest'' @ nl @ ''FROM ('' @ nl @ ''  SELECT service, value AS latest, MAX(id) AS latest_id'' @ nl @
        ''  FROM metrics'' @ nl @ ''  WHERE '') @ wh' @ nl @ ''  GROUP BY service'' @ nl @ '')'' @ nl @ ''ORDER BY latest DESC'')"
    by (rule frag_between [OF _ _ _ assms]) simp_all
  with True show ?thesis by (simp add: latestSQL_def)
next
  case False
  have "frag ((''SELECT value AS latest'' @ nl @ ''FROM metrics'' @ nl @ ''WHERE '') @ wh @ nl @ ''ORDER BY id DESC'' @ nl @ ''LIMIT 1'')
      ((''SELECT value AS latest'' @ nl @ ''FROM metrics'' @ nl @ ''WHERE '') @ wh' @ nl @ ''ORDER BY id DESC'' @ nl @ ''LIMIT 1'')"
    by (rule frag_between [OF _ _ _ assms]) simp_all
  with False show ?thesis by (simp add: latestSQL_def)
qed

lemma pivotCase_starts: "v \<in> set dslVerbs \<Longrightarrow> starts (pivotCase v s @ r)"
  using verb_upper_plain [of v] by (simp add: pivotCase_def)

lemma aggFn_plain: "plain (dslAggFn v)"
  by (auto simp: dslAggFn_def split: option.splits)

lemma aggregateSQL_frag:
  assumes "frag wh wh'" and v: "d_Verb d \<in> set dslVerbs"
  shows "frag (aggregateSQL d wh ss) (aggregateSQL (blankQuery d) wh' (map (\<lambda>_. []) ss))"
proof -
  let ?b = "itoa (d_BucketMs d)" and ?fn = "dslAggFn (d_Verb d)"
  let ?al = "aggAlias (d_Verb d)"
  let ?fin = "nl @ ''GROUP BY bucket'' @ nl @ ''ORDER BY bucket''"
  let ?col = "\<lambda>s. ''       '' @ pivotCase (d_Verb d) s @ '' AS '' @ dslQuoteIdent s"
  have pl: "plain ?al" "plain ?fn" using verb_plain [OF v] aggFn_plain by (simp_all add: aggAlias_def)
  have col: "frag (?col s) (?col t) \<and> starts (?col s) \<and> starts (?col t)" for s t
    using pivotCase_frag [OF v] by (auto intro: frag_plain [of "''       ''", simplified])
  consider (pivot) "d_BucketMs d \<noteq> 0" "d_ByService d" | (series) "d_BucketMs d \<noteq> 0" "\<not> d_ByService d"
    | (byservice) "d_BucketMs d = 0" "d_ByService d" | (stat) "d_BucketMs d = 0" "\<not> d_ByService d" by blast
  then show ?thesis
  proof cases
    case pivot
    have "frag ((''SELECT timestamp / '' @ ?b @ '' * '' @ ?b @ '' AS bucket,'' @ nl) @ Join (map ?col ss) ('','' @ nl) @
          (nl @ ''FROM metrics'' @ nl @ ''WHERE '') @ wh @ ?fin)
        ((''SELECT timestamp / '' @ ?b @ '' * '' @ ?b @ '' AS bucket,'' @ nl) @ Join (map ?col (map (\<lambda>_. []) ss)) ('','' @ nl) @
          (nl @ ''FROM metrics'' @ nl @ ''WHERE '') @ wh' @ ?fin)"
      by (rule frag_between2 [OF _ _ _ _ _ frag_cols [OF col] assms(1)]) simp_all
    with pivot show ?thesis by (simp add: aggregateSQL_def Let_def)
  next
    case series
    have "frag ((''SELECT timestamp / '' @ ?b @ '' * '' @ ?b @ '' AS bucket, '' @ ?fn @ '' AS '' @ ?al @ nl @
          ''FROM metrics'' @ nl @ ''WHERE '') @ wh @ ?fin)
        ((''SELECT timestamp / '' @ ?b @ '' * '' @ ?b @ '' AS bucket, '' @ ?fn @ '' AS '' @ ?al @ nl @
          ''FROM metrics'' @ nl @ ''WHERE '') @ wh' @ ?fin)"
      using pl by (intro frag_between [OF _ _ _ assms(1)]) simp_all
    with series show ?thesis by (simp add: aggregateSQL_def Let_def)
  next
    case byservice
    have "frag ((''SELECT service, '' @ ?fn @ '' AS '' @ ?al @ nl @ ''FROM metrics'' @ nl @ ''WHERE '') @ wh @
          nl @ ''GROUP BY service'' @ nl @ ''ORDER BY '' @ ?al @ '' DESC'')
        ((''SELECT service, '' @ ?fn @ '' AS '' @ ?al @ nl @ ''FROM metrics'' @ nl @ ''WHERE '') @ wh' @
          nl @ ''GROUP BY service'' @ nl @ ''ORDER BY '' @ ?al @ '' DESC'')"
      using pl by (intro frag_between [OF _ _ _ assms(1)]) simp_all
    with byservice show ?thesis by (simp add: aggregateSQL_def Let_def)
  next
    case stat
    have "frag ((''SELECT '' @ ?fn @ '' AS '' @ ?al @ nl @ ''FROM metrics'' @ nl @ ''WHERE '') @ wh)
        ((''SELECT '' @ ?fn @ '' AS '' @ ?al @ nl @ ''FROM metrics'' @ nl @ ''WHERE '') @ wh')"
      using pl assms(1) by (intro frag_plain) simp_all
    with stat show ?thesis by (simp add: aggregateSQL_def Let_def)
  qed
qed

lemma dslSQL_frag:
  assumes "d_Verb d \<in> set dslVerbs" and "dslSQL d ss = Inr q"
  shows "\<exists>q0. dslSQL (blankQuery d) (map (\<lambda>_. []) ss) = Inr q0 \<and> frag q q0"
proof -
  note parts = latestSQL_frag [OF where_frag] increaseSQL_frag [OF where_frag]
    aggregateSQL_frag [OF where_frag assms(1)]
  have n: "NeedsServices (blankQuery d) = NeedsServices d" by (simp add: NeedsServices_def)
  from assms(2) parts show ?thesis
    by (auto simp: dslSQL_def n Let_def take_map split: if_splits)
qed

section \<open>Properties\<close>

text \<open>
  A query the parser accepts is well-formed: a known verb, a metric name without a closing
  parenthesis, filters with valid keys and values, a window and an optional bucket that are
  positive whole minutes inside 64 bits, and no bucket for a point-in-time query.
\<close>

theorem parse_dsl_wellformed:
  assumes "ParseDSL input = Ok d"
  shows "dsl_ok d"
  using assms by (rule ParseDSL_ok)

definition dsl_sample :: DSLQuery where
  "dsl_sample = \<lparr>d_Verb = ''avg'', d_Metric = ''q'', d_Filters = [], d_BucketMs = 600000, d_WindowMs = 86400000,
     d_ByService = False, d_fromMs = 0, d_toMs = 0\<rparr>"

lemma dsl_sample_parses: "ParseDSL ''AVG( q ) per 10m'' = Ok dsl_sample"
  by (simp add: ParseDSL_def dslHeadRe_def skip_space_def re_space_def byte_def is_letter_def is_upper_def Let_def
      trim_re_space_def Fields_def strip_rune_def space_runes_def lower_char_def dslVerbs_def
      parseDSLDuration_def dslDurRe_def is_digit_def ParseInt_def digits_val_def go_div_def i64_def
      dslDefaultWindowMs_def dsl_sample_def eval_nat_numeral char_of_eq_iff)

theorem parse_dsl_wellformed_witness: "dsl_ok dsl_sample"
  using parse_dsl_wellformed [OF dsl_sample_parses] .

text \<open>
  C9: no injection through the DSL. However a metric, a filter or a service is named, the
  compiled statement is well-quoted and its text outside literals and quoted identifiers is the
  same as for the query with all user text removed: user text cannot change what the statement
  does, only what it compares with.
\<close>

theorem dsl_no_injection:
  assumes "ParseDSL input = Ok d" and "dslSQL d services = Ok q"
  shows "\<exists>q0. dslSQL (blankQuery d) (map (\<lambda>_. []) services) = Ok q0
    \<and> skeleton q = skeleton q0 \<and> skeleton q \<noteq> None"
proof -
  have "d_Verb d \<in> set dslVerbs" using ParseDSL_ok [OF assms(1)] by (simp add: dsl_ok_def)
  from dslSQL_frag [OF this assms(2)] show ?thesis using frag_skeleton by blast
qed

theorem dsl_no_injection_witness:
  "\<exists>q q0. dslSQL dsl_sample [] = Ok q \<and> dslSQL (blankQuery dsl_sample) [] = Ok q0 \<and> skeleton q = skeleton q0"
proof -
  obtain q where "dslSQL dsl_sample [] = Ok q" by (auto simp: dslSQL_def dsl_sample_def NeedsServices_def Let_def)
  with dsl_no_injection [OF dsl_sample_parses this] show ?thesis by auto
qed

end
