(* ===== verification/DSL_Print.thy ===== *)
theory DSL_Print
  imports DSL
begin

text \<open>
  The round trip of the metrics query language. The explorer's catalogue and saved panels hold
  queries as text; \<open>dslPrint\<close> writes a query in the grammar of \<open>query/dsl.go\<close> and
  \<open>ParseDSL\<close> reads it back.
\<close>

definition graphic :: "char \<Rightarrow> bool" where
  "graphic c \<longleftrightarrow> 33 \<le> byte c \<and> byte c \<le> 126"

section \<open>Splitting into fields\<close>

lemma strip_rune_graphic: "graphic c \<Longrightarrow> strip_rune space_runes (c # t) = None"
  by (auto simp: strip_rune_None_iff space_runes_def graphic_def byte_def)

lemma strip_rune_blank: "strip_rune space_runes (CHR '' '' # t) = Some t"
  by (simp add: strip_rune_def space_runes_def)

lemma fields_aux_word:
  "list_all graphic w \<Longrightarrow> fields_aux (length w + n) acc (w @ s) = fields_aux n (rev w @ acc) s"
  by (induction w arbitrary: acc) (simp_all add: strip_rune_graphic)

definition spaced :: "string list \<Rightarrow> string" where
  "spaced ts = concat (map (Cons (CHR '' '')) ts)"

lemma fields_aux_spaced:
  assumes "list_all (\<lambda>t. t \<noteq> [] \<and> list_all graphic t) ts"
  shows "fields_aux (Suc (length (spaced ts) + n)) acc (spaced ts) = (if acc = [] then ts else rev acc # ts)"
  using assms
proof (induction ts arbitrary: acc)
  case Nil
  then show ?case by (simp add: spaced_def)
next
  case (Cons t ts)
  let ?k = "Suc (length (spaced ts) + n)"
  have t: "list_all graphic t" "t \<noteq> []" using Cons.prems by simp_all
  have "fields_aux (Suc (length t + ?k)) acc (CHR '' '' # t @ spaced ts) =
      (if acc = [] then fields_aux (length t + ?k) [] (t @ spaced ts)
       else rev acc # fields_aux (length t + ?k) [] (t @ spaced ts))"
    by (simp only: fields_aux.simps list.case strip_rune_blank option.case)
  also have "fields_aux (length t + ?k) [] (t @ spaced ts) = t # ts"
    using Cons t by (simp only: fields_aux_word) simp
  finally show ?case by (simp add: spaced_def add.assoc)
qed

lemma Fields_spaced:
  assumes "list_all (\<lambda>t. t \<noteq> [] \<and> list_all graphic t) ts"
  shows "Fields (skip_space (spaced ts)) = ts"
proof (cases ts)
  case Nil
  then show ?thesis by (simp add: spaced_def skip_space_def Fields_def)
next
  case (Cons t us)
  with assms have t: "list_all graphic t" "t \<noteq> []"
    and us: "list_all (\<lambda>t. t \<noteq> [] \<and> list_all graphic t) us" by simp_all
  have "\<not> re_space (hd t)" using t by (cases t) (auto simp: graphic_def re_space_def)
  then have "skip_space (spaced ts) = t @ spaced us"
    using Cons t(2) by (cases t) (simp_all add: spaced_def skip_space_def re_space_def byte_def)
  moreover have "Fields (t @ spaced us) = t # us"
    using fields_aux_word [OF t(1), of "Suc (length (spaced us))" "[]" "spaced us"]
      fields_aux_spaced [OF us, of 0 "rev t"] t(2)
    by (simp add: Fields_def)
  ultimately show ?thesis using Cons by simp
qed

section \<open>Durations\<close>

lemma takeWhile_digits: "list_all is_digit ds \<Longrightarrow> \<not> is_digit u \<Longrightarrow> takeWhile is_digit (ds @ [u]) = ds"
  by (induction ds) auto

lemma unit_not_digit: "u \<in> set ''mhd'' \<Longrightarrow> \<not> is_digit u"
  by (auto simp: is_digit_def byte_def)

definition unitMs :: "char \<Rightarrow> int" where
  "unitMs u = (if u = CHR ''m'' then 60000 else if u = CHR ''h'' then 3600000 else 86400000)"

lemma ParseInt_nat_str: "ParseInt (nat_str n) = (if int n < 2 ^ 63 then Some (int n) else None)"
proof (cases "int n < 2 ^ 63")
  case True
  then have "n < 2 ^ 63" by simp
  then show ?thesis using True nat_str_nonempty nat_str_digits
    by (simp add: ParseInt_digits)
next
  case False
  obtain c t where s: "nat_str n = c # t" using nat_str_nonempty by (cases "nat_str n") auto
  then have "is_digit c" using nat_str_digits [of n] by simp
  then have "c \<noteq> CHR ''-''" "c \<noteq> CHR ''+''" using not_digit_sign by auto
  then show ?thesis using False s nat_str_digits [of n] digits_val_nat_str [of n]
    by (simp add: ParseInt_def)
qed

lemma zdiv_less_iff: "0 < m \<Longrightarrow> a div m < n \<longleftrightarrow> a < n * m" for a m n :: int
proof -
  assume m: "0 < m"
  have e: "a div m * m + a mod m = a" by simp
  have r: "0 \<le> a mod m" "a mod m < m" using m by simp_all
  show ?thesis
  proof
    assume "a div m < n"
    then have "(a div m + 1) * m \<le> n * m" using m by (intro mult_right_mono) auto
    moreover have "(a div m + 1) * m = a div m * m + m" by (simp add: algebra_simps)
    ultimately show "a < n * m" using e r by linarith
  next
    assume lt: "a < n * m"
    show "a div m < n"
    proof (rule ccontr)
      assume "\<not> a div m < n"
      then have "n * m \<le> a div m * m" using m by (intro mult_right_mono) auto
      with lt e r show False by linarith
    qed
  qed
qed

lemma duration_fits:
  assumes "0 < m" shows "n > go_div (2 ^ 63 - 1) m \<longleftrightarrow> 2 ^ 63 \<le> n * m"
proof -
  have "go_div (2 ^ 63 - 1) m = (2 ^ 63 - 1) div m" using assms by (simp add: go_div_nonneg)
  moreover have "(2 ^ 63 - 1) div m < n \<longleftrightarrow> 2 ^ 63 - 1 < n * m" using assms by (rule zdiv_less_iff)
  ultimately show ?thesis by linarith
qed

lemma parseDSLDuration_print:
  assumes "u \<in> set ''mhd''"
  shows "parseDSLDuration (nat_str n @ [u]) =
    (if int n \<ge> 2 ^ 63 \<or> int n * unitMs u \<ge> 2 ^ 63 then Err (EDurationRange (nat_str n @ [u]))
     else if n = 0 then Err EDurationZero else Ok (int n * unitMs u))"
proof -
  have re: "dslDurRe (nat_str n @ [u]) = Some (nat_str n, u)"
    using takeWhile_digits [OF nat_str_digits unit_not_digit [OF assms]] assms nat_str_nonempty
    by (simp add: dslDurRe_def Let_def)
  have m: "0 < unitMs u" by (simp add: unitMs_def)
  have fit: "(int n > go_div (2 ^ 63 - 1) (unitMs u)) = (2 ^ 63 \<le> int n * unitMs u)"
    using m by (rule duration_fits)
  have "0 \<le> int n * unitMs u" using m by simp
  then have ex: "i64 (int n * unitMs u) = int n * unitMs u" if "int n * unitMs u < 2 ^ 63"
    using that by (intro i64_id) linarith+
  have "parseDSLDuration (nat_str n @ [u]) =
     (if \<not> int n < 2 ^ 63 then Err (EDurationRange (nat_str n @ [u]))
      else if n = 0 then Err EDurationZero
      else if int n > go_div (2 ^ 63 - 1) (unitMs u) then Err (EDurationRange (nat_str n @ [u]))
      else Ok (i64 (int n * unitMs u)))"
    by (simp add: parseDSLDuration_def re ParseInt_nat_str unitMs_def Let_def)
  also have "\<dots> = (if int n \<ge> 2 ^ 63 \<or> int n * unitMs u \<ge> 2 ^ 63 then Err (EDurationRange (nat_str n @ [u]))
      else if n = 0 then Err EDurationZero else Ok (int n * unitMs u))"
    unfolding fit using ex by (simp add: not_le)
  finally show ?thesis .
qed

text \<open>
  A duration is read exactly or refused: the digits times the unit, never a wrapped product.
  Zero and everything that would leave 64 bits is an error.
\<close>

theorem dsl_duration_exact:
  assumes "u \<in> set ''mhd''"
  shows "parseDSLDuration (nat_str n @ [u]) =
    (if int n \<ge> 2 ^ 63 \<or> int n * unitMs u \<ge> 2 ^ 63 then Err (EDurationRange (nat_str n @ [u]))
     else if n = 0 then Err EDurationZero else Ok (int n * unitMs u))"
  using assms by (rule parseDSLDuration_print)

theorem dsl_duration_exact_witness:
  "parseDSLDuration (nat_str 5 @ ''m'') = Ok 300000
   \<and> parseDSLDuration (nat_str (2 ^ 62) @ ''d'') = Err (EDurationRange (nat_str (2 ^ 62) @ ''d''))"
  using dsl_duration_exact [of "CHR ''m''" 5] dsl_duration_exact [of "CHR ''d''" "2 ^ 62"]
  by (simp add: unitMs_def)

section \<open>Printing and parsing\<close>

definition minutes :: "int \<Rightarrow> string" where
  "minutes ms = nat_str (nat (ms div 60000)) @ ''m''"

definition filterToken :: "DSLFilter \<Rightarrow> string" where
  "filterToken f = f_Key f @ ''='' @ f_Value f"

definition dslTokens :: "DSLQuery \<Rightarrow> string list" where
  "dslTokens d = map filterToken (d_Filters d)
     @ (if d_BucketMs d \<noteq> 0 then [''per'', minutes (d_BucketMs d)] else [])
     @ [''last'', minutes (d_WindowMs d)]
     @ (if d_ByService d then [''by'', ''service''] else [])"

definition dslPrint :: "DSLQuery \<Rightarrow> string" where
  "dslPrint d = d_Verb d @ ''('' @ d_Metric d @ '')'' @ spaced (dslTokens d)"

text \<open>What can be printed: names without blanks, values not wrapped in quotes.\<close>

definition quote_free :: "string \<Rightarrow> bool" where
  "quote_free v \<longleftrightarrow> v \<noteq> [] \<and> hd v \<notin> {squote, dquote} \<and> last v \<notin> {squote, dquote}"

definition printable :: "DSLQuery \<Rightarrow> bool" where
  "printable d \<longleftrightarrow> dsl_ok d \<and> d_fromMs d = 0 \<and> list_all graphic (d_Metric d)
     \<and> list_all (\<lambda>f. quote_free (f_Value f) \<and> list_all graphic (f_Value f)) (d_Filters d)"

lemma minutes_parse: "duration_ok ms \<Longrightarrow> parseDSLDuration (minutes ms) = Ok ms"
proof -
  assume ok: "duration_ok ms"
  then have ms: "ms div 60000 * 60000 = ms" "60000 \<le> ms" "ms < 2 ^ 63"
    using minus_mod_eq_div_mult [of ms 60000] by (simp_all add: duration_ok_def)
  then have n: "int (nat (ms div 60000)) = ms div 60000" "nat (ms div 60000) \<noteq> 0" "ms div 60000 < 2 ^ 63" by auto
  show ?thesis
    unfolding minutes_def using parseDSLDuration_print [of "CHR ''m''" "nat (ms div 60000)"] ms n
    by (simp add: unitMs_def)
qed

lemma minutes_token: "minutes ms \<noteq> [] \<and> list_all graphic (minutes ms)"
proof -
  have "is_digit c \<Longrightarrow> graphic c" for c by (simp add: is_digit_def graphic_def)
  with nat_str_digits show ?thesis by (auto simp: minutes_def list_all_iff graphic_def byte_def)
qed

lemma TrimSet_quote_free: "quote_free v \<Longrightarrow> TrimSet v [squote, dquote] = v"
proof -
  assume q: "quote_free v"
  then obtain c t where v: "v = c # t" by (cases v) (auto simp: quote_free_def)
  from q have l: "last v \<noteq> squote" "last v \<noteq> dquote" "v \<noteq> []" by (auto simp: quote_free_def)
  then obtain w where "v = w @ [last v]" by (metis append_butlast_last_id)
  then have "rev v = last v # rev w" by (metis rev.simps(2) rev_append rev_swap append_Nil append_Cons)
  with l have "TrimRightSet v [squote, dquote] = v"
    by (metis (no_types, lifting) TrimRightSet_def dropWhile.simps(2) empty_iff insert_iff list.set(1,2) rev_rev_ident)
  with v q show ?thesis by (simp add: TrimSet_def quote_free_def)
qed

lemma key_no_eq: "dslKeyRe k \<Longrightarrow> CHR ''='' \<notin> set k \<and> list_all graphic k \<and> k \<noteq> []"
  by (auto simp: dslKeyRe_def list_all_iff is_letter_def is_upper_def is_digit_def graphic_def byte_def split: list.splits)

lemma filterToken_parse:
  assumes "filter_ok f" and "quote_free (f_Value f)"
  shows "parseFilter (filterToken f) = Ok f"
  using assms key_no_eq [of "f_Key f"] Cut1_present [of "CHR ''=''" "f_Key f" "f_Value f"]
  by (cases f) (simp add: filterToken_def parseFilter_def filter_ok_def TrimSet_quote_free)

lemma ToLower_graphic: "list_all graphic s \<Longrightarrow> ToLower s = map lower_char s"
  by (induction s rule: ToLower.induct) (auto simp: graphic_def)

lemma lower_eq_sign: "lower_char (CHR ''='') = CHR ''=''"
  by (simp add: lower_char_def is_upper_def byte_def)

lemma filterToken_keyword:
  assumes "filter_ok f" and "list_all graphic (f_Value f)"
  shows "ToLower (filterToken f) \<notin> {''per'', ''last'', ''by''}"
proof -
  have "list_all graphic (filterToken f)"
    using assms key_no_eq [of "f_Key f"] by (simp add: filterToken_def filter_ok_def graphic_def byte_def)
  then have "CHR ''='' \<in> set (ToLower (filterToken f))"
    by (simp add: ToLower_graphic) (simp add: filterToken_def lower_eq_sign)
  then show ?thesis by auto
qed

lemma parseTokens_filters:
  assumes "list_all filter_ok fs" and "list_all (\<lambda>f. quote_free (f_Value f) \<and> list_all graphic (f_Value f)) fs"
  shows "parseTokens (map filterToken fs @ ts) d = parseTokens ts (d\<lparr>d_Filters := d_Filters d @ fs\<rparr>)"
  using assms
proof (induction fs arbitrary: d)
  case Nil
  then show ?case by simp
next
  case (Cons f fs)
  then show ?case
    using filterToken_keyword [of f] filterToken_parse [of f] by simp
qed

lemma keyword_lower [simp]: "ToLower ''per'' = ''per''" "ToLower ''last'' = ''last''" "ToLower ''by'' = ''by''"
  "ToLower ''service'' = ''service''"
  by (simp_all add: lower_char_def is_upper_def byte_def)

lemma parseTokens_per:
  "d_BucketMs d = 0 \<Longrightarrow> parseDSLDuration x = Ok ms \<Longrightarrow>
   parseTokens (''per'' # x # ts) d = parseTokens ts (d\<lparr>d_BucketMs := ms\<rparr>)"
  by (simp del: ToLower.simps)

lemma parseTokens_last:
  "d_WindowMs d = 0 \<Longrightarrow> parseDSLDuration x = Ok ms \<Longrightarrow>
   parseTokens (''last'' # x # ts) d = parseTokens ts (d\<lparr>d_WindowMs := ms\<rparr>)"
  by (simp del: ToLower.simps)

lemma parseTokens_by: "parseTokens (''by'' # ''service'' # ts) d = parseTokens ts (d\<lparr>d_ByService := True\<rparr>)"
  by (simp del: ToLower.simps)

lemmas parse_steps = parseTokens_per parseTokens_last parseTokens_by parseTokens.simps(1)

lemma parseTokens_print:
  assumes "printable d" and "d0 = \<lparr>d_Verb = d_Verb d, d_Metric = d_Metric d, d_Filters = [], d_BucketMs = 0,
    d_WindowMs = 0, d_ByService = False, d_fromMs = 0, d_toMs = 0\<rparr>"
  shows "parseTokens (dslTokens d) d0 = Ok d"
proof -
  have ok: "dsl_ok d" and f: "d_fromMs d = 0" and
    fs: "list_all (\<lambda>f. quote_free (f_Value f) \<and> list_all graphic (f_Value f)) (d_Filters d)"
    using assms(1) by (simp_all add: printable_def)
  then have dur: "d_BucketMs d = 0 \<or> parseDSLDuration (minutes (d_BucketMs d)) = Ok (d_BucketMs d)"
    "parseDSLDuration (minutes (d_WindowMs d)) = Ok (d_WindowMs d)"
    by (auto simp: dsl_ok_def intro: minutes_parse)
  have t: "d_toMs d = 0" and g: "list_all filter_ok (d_Filters d)" using ok by (simp_all add: dsl_ok_def)
  define rest where "rest = (if d_BucketMs d \<noteq> 0 then [''per'', minutes (d_BucketMs d)] else [])
     @ [''last'', minutes (d_WindowMs d)] @ (if d_ByService d then [''by'', ''service''] else [])"
  have "parseTokens (dslTokens d) d0 = parseTokens rest (d0\<lparr>d_Filters := d_Filters d\<rparr>)"
    using parseTokens_filters [OF g fs, of rest d0] by (simp add: dslTokens_def rest_def assms(2))
  also have "\<dots> = Ok d"
    unfolding rest_def assms(2) using dur t f
    by (cases "d_BucketMs d = 0"; cases "d_ByService d") (simp_all add: parse_steps del: parseTokens.simps(2))
  finally show ?thesis .
qed

lemma filterToken_graphic:
  "filter_ok f \<Longrightarrow> list_all graphic (f_Value f) \<Longrightarrow> filterToken f \<noteq> [] \<and> list_all graphic (filterToken f)"
  using key_no_eq [of "f_Key f"] by (simp add: filterToken_def filter_ok_def graphic_def byte_def)

lemma keyword_graphic: "list_all (\<lambda>t. t \<noteq> [] \<and> list_all graphic t) [''per'', ''last'', ''by'', ''service'']"
  by (simp add: graphic_def byte_def)

lemma dslTokens_graphic:
  assumes "printable d"
  shows "list_all (\<lambda>t. t \<noteq> [] \<and> list_all graphic t) (dslTokens d)"
proof -
  have "list_all (\<lambda>t. t \<noteq> [] \<and> list_all graphic t) (map filterToken (d_Filters d))"
    using assms filterToken_graphic by (auto simp: printable_def dsl_ok_def list_all_iff)
  with keyword_graphic minutes_token show ?thesis by (simp add: dslTokens_def)
qed

lemma spaced_no_newline:
  assumes "list_all (\<lambda>t. t \<noteq> [] \<and> list_all graphic t) ts" shows "CHR 0x0A \<notin> set (spaced ts)"
proof -
  have "\<not> graphic (CHR 0x0A)" by (simp add: graphic_def byte_def)
  with assms show ?thesis by (auto simp: spaced_def list_all_iff)
qed

lemma letters_head:
  assumes "list_all is_letter v"
  shows "takeWhile is_letter (v @ CHR ''('' # r) = v" "v \<noteq> [] \<Longrightarrow> skip_space (v @ r) = v @ r"
proof -
  have "\<not> is_letter (CHR ''('')" by (simp add: is_letter_def is_upper_def byte_def)
  with assms show "takeWhile is_letter (v @ CHR ''('' # r) = v" by (induction v) auto
  have "is_letter c \<Longrightarrow> \<not> re_space c" for c by (auto simp: is_letter_def is_upper_def re_space_def)
  with assms show "v \<noteq> [] \<Longrightarrow> skip_space (v @ r) = v @ r" by (cases v) (auto simp: skip_space_def)
qed

lemma graphic_not_space: "graphic c \<Longrightarrow> \<not> re_space c"
  by (auto simp: graphic_def re_space_def)

lemma trim_graphic: "list_all graphic m \<Longrightarrow> trim_re_space m = m"
proof -
  assume g: "list_all graphic m"
  have *: "dropWhile re_space xs = xs" if "list_all graphic xs" for xs
    using that graphic_not_space by (cases xs) auto
  from g have "list_all graphic (rev m)" by (simp add: list_all_iff)
  with g show ?thesis by (simp add: trim_re_space_def *)
qed

lemma dslHeadRe_print:
  assumes "printable d"
  shows "dslHeadRe (dslPrint d) = Some (d_Verb d, d_Metric d, skip_space (spaced (dslTokens d)))"
proof -
  have v: "list_all is_letter (d_Verb d)" "d_Verb d \<noteq> []"
    using assms verb_letters by (auto simp: printable_def dsl_ok_def)
  have m: "d_Metric d \<noteq> []" "CHR '')'' \<notin> set (d_Metric d)" "list_all graphic (d_Metric d)"
    using assms by (simp_all add: printable_def dsl_ok_def)
  have ns: "\<not> list_all re_space (d_Metric d)" using m graphic_not_space by (cases "d_Metric d") auto
  have par: "skip_space (CHR ''('' # r) = CHR ''('' # r" for r by (simp add: skip_space_def re_space_def byte_def)
  have "CHR 0x0A \<notin> set (skip_space (spaced (dslTokens d)))"
    using spaced_no_newline [OF dslTokens_graphic [OF assms]]
    by (auto simp: skip_space_def dest: set_dropWhileD)
  then show ?thesis
    using v m ns Cut1_present [OF m(2), of "spaced (dslTokens d)"]
    by (simp add: dslHeadRe_def dslPrint_def letters_head Let_def par trim_graphic)
qed

text \<open>
  C10: the query language round-trips: a well-formed query with printable names, written in the
  grammar, parses back to exactly the same query, filters, durations and grouping included.
\<close>

theorem dsl_roundtrip:
  assumes "printable d"
  shows "ParseDSL (dslPrint d) = Ok d"
proof -
  have ok: "dsl_ok d" using assms by (simp add: printable_def)
  have lower: "ToLower v = v" if "v \<in> set dslVerbs" for v
    using that by (auto simp: dslVerbs_def lower_char_def is_upper_def byte_def)
  have "d_WindowMs d \<noteq> 0" "\<not> (d_Verb d = ''latest'' \<and> d_BucketMs d \<noteq> 0)" "d_Verb d \<in> set dslVerbs"
    using ok by (auto simp: dsl_ok_def duration_ok_def)
  then show ?thesis
    using parseTokens_print [OF assms refl] lower
    by (simp add: ParseDSL_def dslHeadRe_print [OF assms] Fields_spaced [OF dslTokens_graphic [OF assms]])
qed

theorem dsl_roundtrip_witness: "ParseDSL (dslPrint dsl_sample) = Ok dsl_sample"
proof -
  have "printable dsl_sample"
    by (simp add: printable_def dsl_ok_def dsl_sample_def dslVerbs_def duration_ok_def graphic_def byte_def)
  then show ?thesis by (rule dsl_roundtrip)
qed

end
