(* ===== verification/Sql_Ast.thy ===== *)
theory Sql_Ast
  imports Sql_Text
begin

text \<open>
  Parsed SQL. The parser, its \<open>Walk\<close> and its serializer are the package
  \<open>github.com/rqlite/sql\<close>, which is not part of the repository: they are the fields of
  \<open>sqlp\<close>, a parameter of everything that parses or walks. What the repository's own code
  does with the tree is defined on two views of it:

  \<^item> the fields of a \<open>SELECT\<close> that the rewrites read and write (\<open>SelectStatement\<close>,
    \<open>expr\<close>), with everything they do not look into as \<open>OtherExpr\<close>;
  \<^item> the tree that \<open>Walk\<close> visits (\<open>node\<close>): a node of a kind the visitors
    distinguish, with the children \<open>Walk\<close> descends to. The bodies of common table
    expressions and of expression subqueries are not among these children; the visitors
    recurse into them by hand.
\<close>

section \<open>Statements\<close>

datatype binop = OpAND | OpOR | OpEQ | OpLT | OpGT | OpOther string

datatype expr =
    Ident string
  | QualifiedRef string "string option"
  | StringLit string
  | NumberLit string
  | BindExpr string
  | BinaryExpr expr binop expr
  | ParenExpr expr
  | OtherExpr string

datatype source = JoinClause source source expr | OtherSource string

datatype column = StarColumn | ExprColumn expr | QualifiedStar string

text \<open>The compound parts of a statement (\<open>UNION\<close> ...) are the list \<open>sel_Compound\<close>.\<close>

record select_core =
  sel_Distinct :: bool
  sel_Columns :: "column list"
  sel_Source :: "source option"
  sel_WhereExpr :: "expr option"
  sel_GroupByExprs :: "expr list"
  sel_HavingExpr :: "expr option"
  sel_Windows :: "string list"

record SelectStatement = select_core +
  sel_OrderingTerms :: "(expr \<times> bool) list"
  sel_LimitExpr :: "expr option"
  sel_OffsetExpr :: "expr option"
  sel_Compound :: "select_core list"

datatype statement = SelectStmt SelectStatement | OtherStmt string

section \<open>The tree Walk visits\<close>

datatype node = Node kind "node list"
and kind =
    KWithClause bool "cte list"
  | KSelectExpr node
  | KTableName "string option" string
  | KTableFunction string
  | KCall string bool
  | KOther string
and cte = Cte string node

record sqlp =
  parse_statements :: "string \<Rightarrow> string + statement list"
  walk_select :: "SelectStatement \<Rightarrow> node"
  walk_source :: "source \<Rightarrow> node"
  walk_expr :: "expr \<Rightarrow> node"

text \<open>Every node of a tree, inside subqueries and common table expressions too.\<close>

fun all_nodes :: "node \<Rightarrow> node list" and kind_nodes :: "kind \<Rightarrow> node list"
  and cte_nodes :: "cte \<Rightarrow> node list" where
  "all_nodes (Node k cs) = Node k cs # kind_nodes k @ concat (map all_nodes cs)"
| "kind_nodes (KWithClause r ctes) = concat (map cte_nodes ctes)"
| "kind_nodes (KSelectExpr n) = all_nodes n"
| "kind_nodes _ = []"
| "cte_nodes (Cte name n) = all_nodes n"

fun node_kind :: "node \<Rightarrow> kind" where
  "node_kind (Node k cs) = k"

text \<open>The nodes a plain \<open>Walk\<close> reaches: the ones outside nested bodies.\<close>

fun walk_nodes :: "node \<Rightarrow> node list" where
  "walk_nodes (Node k cs) = Node k cs # concat (map walk_nodes cs)"

end
