(* ===== verification/Validate.thy ===== *)
theory Validate
  imports Sql_Ast
begin

text \<open>
  \<open>query/validate.go\<close>: the gate every user-supplied query passes. The two visitors are
  folds over the walked tree that stop at the first error; the accumulated state of a visitor
  (CTE names, referenced tables) is threaded through. An error of the source is a constructor of
  \<open>verror\<close>.
\<close>

definition MaxRows :: int where "MaxRows = 10000"

datatype Shape = ShapeLogViewer | ShapeAggregation
datatype Scope = ScopeAll | ScopeLogs | ScopeMetrics

datatype verror =
    InvalidSQL string | ErrNotSelect | ErrMultipleStatements
  | ERecursive | ESchemaQualified string string | ETableNotAllowed string
  | ETableFunction string | EFunction string | EMetricsHere | ELogsHere

definition allowedTables :: "string list" where
  "allowedTables = [''logs'', ''logs_fts'', ''metrics'']"

definition bannedFunctions :: "string list" where
  "bannedFunctions = [''load_extension'']"

definition aggregateFunctions :: "string list" where
  "aggregateFunctions = [''count'', ''sum'', ''avg'', ''min'', ''max'', ''total'', ''group_concat'', ''string_agg'']"

record Validated =
  v_stmt :: SelectStatement
  v_Shape :: Shape
  v_Compound :: bool
  v_ReadsLogs :: bool
  v_ReadsMetrics :: bool

section \<open>The visitors\<close>

text \<open>Run a fallible step over a list, threading the state, up to the first error.\<close>

fun fold_err :: "('a \<Rightarrow> 's \<Rightarrow> 'e + 's) \<Rightarrow> 'a list \<Rightarrow> 's \<Rightarrow> 'e + 's" where
  "fold_err f [] s = Inr s"
| "fold_err f (x # xs) s = (case f x s of Inl e \<Rightarrow> Inl e | Inr s' \<Rightarrow> fold_err f xs s')"

lemma fold_err_cong [fundef_cong]:
  "xs = ys \<Longrightarrow> s = t \<Longrightarrow> (\<And>x s. x \<in> set ys \<Longrightarrow> f x s = g x s) \<Longrightarrow> fold_err f xs s = fold_err g ys t"
  by (induction xs arbitrary: s t ys) (auto split: sum.splits)

text \<open>\<open>cteCollector\<close>: the state is the list of names seen.\<close>

fun cte_walk :: "node \<Rightarrow> string list \<Rightarrow> verror + string list"
  and cte_visit :: "kind \<Rightarrow> string list \<Rightarrow> verror + string list"
  and cte_each :: "cte \<Rightarrow> string list \<Rightarrow> verror + string list" where
  "cte_walk (Node k cs) names =
     (case cte_visit k names of Inl e \<Rightarrow> Inl e | Inr names' \<Rightarrow> fold_err cte_walk cs names')"
| "cte_visit (KWithClause recursive ctes) names = (if recursive then Inl ERecursive else fold_err cte_each ctes names)"
| "cte_visit (KSelectExpr n) names = cte_walk n names"
| "cte_visit (KTableName sch nm) names = Inr names"
| "cte_visit (KTableFunction nm) names = Inr names"
| "cte_visit (KCall nm ov) names = Inr names"
| "cte_visit (KOther t) names = Inr names"
| "cte_each (Cte name n) names = cte_walk n (ToLower name # names)"

definition collectCTEs :: "node \<Rightarrow> verror + string list" where
  "collectCTEs sel = cte_walk sel []"

text \<open>\<open>checkVisitor\<close>: the state is the list of real tables referenced.\<close>

definition check_table :: "string list \<Rightarrow> string option \<Rightarrow> string \<Rightarrow> string list \<Rightarrow> verror + string list" where
  "check_table ctes sch nm refd =
     (case sch of
        Some s \<Rightarrow> Inl (ESchemaQualified s nm)
      | None \<Rightarrow>
         let name = ToLower nm
         in if name \<notin> set allowedTables \<and> name \<notin> set ctes then Inl (ETableNotAllowed nm)
            else if name \<in> set allowedTables \<and> name \<notin> set ctes then Inr (name # refd)
            else Inr refd)"

fun check_walk :: "string list \<Rightarrow> node \<Rightarrow> string list \<Rightarrow> verror + string list"
  and check_visit :: "string list \<Rightarrow> kind \<Rightarrow> string list \<Rightarrow> verror + string list"
  and check_each :: "string list \<Rightarrow> cte \<Rightarrow> string list \<Rightarrow> verror + string list" where
  "check_walk ctes (Node k cs) refd =
     (case check_visit ctes k refd of Inl e \<Rightarrow> Inl e | Inr refd' \<Rightarrow> fold_err (check_walk ctes) cs refd')"
| "check_visit ctes (KWithClause recursive cs) refd = fold_err (check_each ctes) cs refd"
| "check_visit ctes (KSelectExpr n) refd = check_walk ctes n refd"
| "check_visit ctes (KTableName sch nm) refd = check_table ctes sch nm refd"
| "check_visit ctes (KTableFunction nm) refd = Inl (ETableFunction nm)"
| "check_visit ctes (KCall nm ov) refd =
     (if ToLower nm \<in> set bannedFunctions then Inl (EFunction nm) else Inr refd)"
| "check_visit ctes (KOther t) refd = Inr refd"
| "check_each ctes (Cte name n) refd = check_walk ctes n refd"

section \<open>Scope, shape and limit\<close>

definition checkScope :: "Scope \<Rightarrow> bool \<Rightarrow> bool \<Rightarrow> verror option" where
  "checkScope scope readsLogs readsMetrics =
     (case scope of
        ScopeLogs \<Rightarrow> if readsMetrics then Some EMetricsHere else None
      | ScopeMetrics \<Rightarrow> if readsLogs then Some ELogsHere else None
      | ScopeAll \<Rightarrow> None)"

definition exprHasAggregate :: "sqlp \<Rightarrow> expr \<Rightarrow> bool" where
  "exprHasAggregate P e = list_ex
     (\<lambda>n. case node_kind n of KCall nm ov \<Rightarrow> ToLower nm \<in> set aggregateFunctions \<or> ov | _ \<Rightarrow> False)
     (walk_nodes (walk_expr P e))"

definition coreShape :: "sqlp \<Rightarrow> 'a select_core_scheme \<Rightarrow> Shape" where
  "coreShape P s =
     (if sel_GroupByExprs s \<noteq> [] \<or> sel_HavingExpr s \<noteq> None \<or> sel_Distinct s \<or> sel_Windows s \<noteq> []
        \<or> list_ex (\<lambda>c. case c of ExprColumn e \<Rightarrow> exprHasAggregate P e | _ \<Rightarrow> False) (sel_Columns s)
      then ShapeAggregation else ShapeLogViewer)"

fun detectCompound :: "sqlp \<Rightarrow> select_core list \<Rightarrow> Shape" where
  "detectCompound P [] = ShapeLogViewer"
| "detectCompound P (c # cs) =
     (if coreShape P c = ShapeAggregation then ShapeAggregation else detectCompound P cs)"

definition detectShape :: "sqlp \<Rightarrow> SelectStatement \<Rightarrow> Shape" where
  "detectShape P s =
     (if coreShape P s = ShapeAggregation then ShapeAggregation else detectCompound P (sel_Compound s))"

definition clampLimit :: "SelectStatement \<Rightarrow> SelectStatement" where
  "clampLimit s =
     (case sel_LimitExpr s of
        None \<Rightarrow> s\<lparr>sel_LimitExpr := Some (NumberLit (itoa MaxRows))\<rparr>
      | Some (NumberLit v) \<Rightarrow>
          (case ParseInt v of
             Some n \<Rightarrow> if n > MaxRows then s\<lparr>sel_LimitExpr := Some (NumberLit (itoa MaxRows))\<rparr> else s
           | None \<Rightarrow> s)
      | Some _ \<Rightarrow> s)"

definition ValidateIn :: "sqlp \<Rightarrow> string \<Rightarrow> Scope \<Rightarrow> (verror, Validated) result" where
  "ValidateIn P q scope =
     (case parse_statements P q of
        Inl e \<Rightarrow> Err (InvalidSQL e)
      | Inr [] \<Rightarrow> Err ErrNotSelect
      | Inr [SelectStmt sel] \<Rightarrow>
          (case collectCTEs (walk_select P sel) of
             Inl e \<Rightarrow> Err e
           | Inr cteNames \<Rightarrow>
              (case check_walk cteNames (walk_select P sel) [] of
                 Inl e \<Rightarrow> Err e
               | Inr refd \<Rightarrow>
                  let readsLogs = (''logs'' \<in> set refd \<or> ''logs_fts'' \<in> set refd);
                      readsMetrics = (''metrics'' \<in> set refd)
                  in case checkScope scope readsLogs readsMetrics of
                       Some e \<Rightarrow> Err e
                     | None \<Rightarrow> Ok \<lparr>v_stmt = clampLimit sel, v_Shape = detectShape P sel,
                         v_Compound = (sel_Compound sel \<noteq> []), v_ReadsLogs = readsLogs,
                         v_ReadsMetrics = readsMetrics\<rparr>))
      | Inr [OtherStmt t] \<Rightarrow> Err ErrNotSelect
      | Inr (_ # _ # _) \<Rightarrow> Err ErrMultipleStatements)"

definition ValidateAll :: "sqlp \<Rightarrow> string \<Rightarrow> (verror, Validated) result" where
  "ValidateAll P q = ValidateIn P q ScopeAll"

section \<open>What the visitors accept\<close>

text \<open>Specification: facts about all nodes of a tree, wherever they are nested.\<close>

fun not_recursive :: "kind \<Rightarrow> bool" where
  "not_recursive (KWithClause r ctes) = (\<not> r)"
| "not_recursive _ = True"

fun cte_name :: "cte \<Rightarrow> string" where
  "cte_name (Cte name n) = ToLower name"

fun declared_names :: "kind \<Rightarrow> string list" where
  "declared_names (KWithClause r ctes) = map cte_name ctes"
| "declared_names _ = []"

fun kind_ok :: "string set \<Rightarrow> kind \<Rightarrow> bool" where
  "kind_ok ctes (KTableName sch nm) =
     (sch = None \<and> (ToLower nm \<in> set allowedTables \<or> ToLower nm \<in> ctes))"
| "kind_ok ctes (KTableFunction nm) = False"
| "kind_ok ctes (KCall nm ov) = (ToLower nm \<notin> set bannedFunctions)"
| "kind_ok ctes _ = True"

fun real_table :: "string set \<Rightarrow> kind \<Rightarrow> string list" where
  "real_table ctes (KTableName sch nm) =
     (if ToLower nm \<in> set allowedTables \<and> ToLower nm \<notin> ctes then [ToLower nm] else [])"
| "real_table ctes _ = []"


text \<open>All nodes satisfy \<open>ok\<close>, and the names \<open>nm\<close> of all nodes together.\<close>

definition everywhere :: "(kind \<Rightarrow> bool) \<Rightarrow> node list \<Rightarrow> bool" where
  "everywhere ok ns \<longleftrightarrow> list_all (\<lambda>n. ok (node_kind n)) ns"

definition gathered :: "(kind \<Rightarrow> string list) \<Rightarrow> node list \<Rightarrow> string set" where
  "gathered nm ns = (\<Union>n \<in> set ns. set (nm (node_kind n)))"

lemma everywhere_simps [simp]:
  "everywhere ok []" "everywhere ok (n # ns) \<longleftrightarrow> ok (node_kind n) \<and> everywhere ok ns"
  "everywhere ok (ns @ ms) \<longleftrightarrow> everywhere ok ns \<and> everywhere ok ms"
  "everywhere ok (concat nss) \<longleftrightarrow> (\<forall>ns \<in> set nss. everywhere ok ns)"
  by (auto simp: everywhere_def list_all_iff)

lemma gathered_simps [simp]:
  "gathered nm [] = {}" "gathered nm (n # ns) = set (nm (node_kind n)) \<union> gathered nm ns"
  "gathered nm (ns @ ms) = gathered nm ns \<union> gathered nm ms"
  "gathered nm (concat nss) = (\<Union>ns \<in> set nss. gathered nm ns)"
  by (auto simp: gathered_def)








section \<open>What validation guarantees\<close>

text \<open>All names declared by a \<open>WITH\<close>, anywhere in the statement.\<close>

definition ctes_of :: "node \<Rightarrow> string set" where
  "ctes_of t = gathered declared_names (all_nodes t)"

definition tables_of :: "node \<Rightarrow> string set" where
  "tables_of t = gathered (real_table (ctes_of t)) (all_nodes t)"

definition scope_ok :: "Scope \<Rightarrow> string set \<Rightarrow> bool" where
  "scope_ok scope tables \<longleftrightarrow>
     (scope = ScopeLogs \<longrightarrow> ''metrics'' \<notin> tables)
   \<and> (scope = ScopeMetrics \<longrightarrow> ''logs'' \<notin> tables \<and> ''logs_fts'' \<notin> tables)"

definition tree_ok :: "Scope \<Rightarrow> node \<Rightarrow> bool" where
  "tree_ok scope t \<longleftrightarrow> everywhere not_recursive (all_nodes t)
     \<and> everywhere (kind_ok (ctes_of t)) (all_nodes t) \<and> scope_ok scope (tables_of t)"

definition limit_ok :: "expr option \<Rightarrow> bool" where
  "limit_ok l = (case l of
      None \<Rightarrow> False
    | Some (NumberLit v) \<Rightarrow> (case ParseInt v of Some n \<Rightarrow> n \<le> MaxRows | None \<Rightarrow> True)
    | Some _ \<Rightarrow> True)"

lemma clampLimit_ok: "limit_ok (sel_LimitExpr (clampLimit s))"
  using ParseInt_itoa [of MaxRows]
  by (auto simp: clampLimit_def limit_ok_def MaxRows_def split: option.splits expr.splits)



lemma ValidateIn_InrD:
  "ValidateIn P q scope = Inr v \<Longrightarrow>
   \<exists>sel. parse_statements P q = Inr [SelectStmt sel] \<and> v_stmt v = clampLimit sel \<and> v_Shape v = detectShape P sel"
  by (auto simp: ValidateIn_def Let_def split: sum.splits list.splits statement.splits option.splits)


text \<open>
  Every accepted statement carries a row limit: when its limit is a decimal literal it is at
  most \<open>MaxRows\<close>, whatever the user wrote.
\<close>

theorem validated_limit:
  "case ValidateIn P q scope of Inl e \<Rightarrow> True | Inr v \<Rightarrow> limit_ok (sel_LimitExpr (v_stmt v))"
  using ValidateIn_InrD [of P q scope] clampLimit_ok by (auto split: sum.splits)

text \<open>
  Names declared by a \<open>WITH\<close> count for the whole statement, not for the scope SQL gives
  them. A subquery that declares \<open>sqlite_master\<close> makes the outer query's use of the real
  table pass.
\<close>

definition leak_tree :: node where
  "leak_tree = Node (KOther ''select'')
     [Node (KTableName None ''sqlite_master'') [],
      Node (KSelectExpr (Node (KOther ''select'')
        [Node (KWithClause False [Cte ''sqlite_master'' (Node (KOther ''select'') [])]) []])) []]"

lemma cte_names_leak_outwards:
  "tree_ok ScopeLogs leak_tree \<and> ''sqlite_master'' \<notin> set allowedTables
   \<and> ''sqlite_master'' \<notin> ctes_of (Node (KOther ''select'') [Node (KTableName None ''sqlite_master'') []])"
  by (simp add: tree_ok_def leak_tree_def ctes_of_def tables_of_def scope_ok_def allowedTables_def
      lower_char_def is_upper_def byte_def)

end
