(* ===== verification/Rewrite.thy ===== *)
theory Rewrite
  imports Validate
begin

text \<open>
  \<open>query/rewrite.go\<close>: the rewrites of a validated statement. They change the statement in
  place; here each returns the changed \<open>Validated\<close>. Subtrees are taken from parsed
  templates; a template that does not parse panics, which is the error \<open>EPanic\<close>, as is a
  template that lacks the clause it is parsed for.
\<close>

datatype rerror = ErrUnsupportedShape | EBadLevel string | EBadColumn string | EPageSize int | EPanic string

definition mustParse :: "sqlp \<Rightarrow> string \<Rightarrow> SelectStatement option" where
  "mustParse P q = (case parse_statements P q of Inr [SelectStmt s] \<Rightarrow> Some s | _ \<Rightarrow> None)"

definition with_template ::
    "sqlp \<Rightarrow> string \<Rightarrow> (SelectStatement \<Rightarrow> 'a option) \<Rightarrow> ('a \<Rightarrow> rerror + 'b) \<Rightarrow> rerror + 'b" where
  "with_template P q get k =
     (case Option.bind (mustParse P q) get of None \<Rightarrow> Inl (EPanic q) | Some x \<Rightarrow> k x)"

fun paren :: "expr \<Rightarrow> expr" where
  "paren (ParenExpr e) = ParenExpr e"
| "paren e = ParenExpr e"

text \<open>The common shape of the rewrites: a condition becomes, or is joined to, the \<open>WHERE\<close>.\<close>

definition andWhere :: "expr \<Rightarrow> SelectStatement \<Rightarrow> SelectStatement" where
  "andWhere cond s = s\<lparr>sel_WhereExpr := Some (case sel_WhereExpr s of
      None \<Rightarrow> cond | Some w \<Rightarrow> BinaryExpr (paren w) OpAND cond)\<rparr>"

definition referencesFTS :: "sqlp \<Rightarrow> Validated \<Rightarrow> bool" where
  "referencesFTS P v =
     (case sel_Source (v_stmt v) of
        None \<Rightarrow> False
      | Some src \<Rightarrow> list_ex (\<lambda>n. case node_kind n of KTableName sch nm \<Rightarrow> EqualFold nm ''logs_fts'' | _ \<Rightarrow> False)
          (walk_nodes (walk_source P src)))"

definition ftsOrTemplate :: string where
  "ftsOrTemplate = ''SELECT * FROM logs WHERE logs.id IN (SELECT '' @ [dquote] @ ''rowid'' @ [dquote] @
     '' FROM logs_fts WHERE logs_fts.raw MATCH ?)''"

definition ftsJoinTemplate :: string where
  "ftsJoinTemplate = ''SELECT * FROM logs JOIN logs_fts ON logs.id = logs_fts.'' @ [dquote] @ ''rowid'' @ [dquote]"

definition joinFTS :: "sqlp \<Rightarrow> Validated \<Rightarrow> source \<Rightarrow> (rerror, Validated) result" where
  "joinFTS P v src =
     (if referencesFTS P v then Ok v
      else with_template P ftsJoinTemplate
        (\<lambda>t. case sel_Source t of Some (JoinClause x y on) \<Rightarrow> Some (y, on) | _ \<Rightarrow> None)
        (\<lambda>(y, on).
          let s1 = (v_stmt v)\<lparr>sel_Source := Some (JoinClause src y on)\<rparr>
          in if sel_Columns s1 = [StarColumn]
             then with_template P ''SELECT logs.* FROM logs'' (\<lambda>t. Some (sel_Columns t))
               (\<lambda>cols. Ok (v\<lparr>v_stmt := s1\<lparr>sel_Columns := cols\<rparr>\<rparr>))
             else Ok (v\<lparr>v_stmt := s1\<rparr>)))"

definition CombineFTS :: "sqlp \<Rightarrow> string \<Rightarrow> Validated \<Rightarrow> (rerror, Validated) result" where
  "CombineFTS P op v =
     (if v_Shape v \<noteq> ShapeLogViewer \<or> v_Compound v then Err ErrUnsupportedShape
      else case sel_Source (v_stmt v) of
        None \<Rightarrow> Err ErrUnsupportedShape
      | Some src \<Rightarrow>
         let isOr = EqualFold op ''or'';
             merge = (\<lambda>tok v match. v\<lparr>v_stmt := (v_stmt v)\<lparr>sel_WhereExpr := Some (case sel_WhereExpr (v_stmt v) of
                 None \<Rightarrow> match | Some w \<Rightarrow> BinaryExpr match tok (paren w))\<rparr>\<rparr>)
         in if isOr
            then with_template P ftsOrTemplate sel_WhereExpr (\<lambda>m. Ok (merge OpOR v m))
            else (case joinFTS P v src of
                    Inl e \<Rightarrow> Err e
                  | Inr v' \<Rightarrow> with_template P ''SELECT * FROM logs_fts WHERE logs_fts.raw MATCH ?'' sel_WhereExpr
                      (\<lambda>m. Ok (merge OpAND v' m))))"

section \<open>Quick filters\<close>

fun eqColName :: "expr \<Rightarrow> string" where
  "eqColName (Ident n) = ToLower n"
| "eqColName (QualifiedRef t (Some c)) = ToLower c"
| "eqColName _ = []"

fun is_literal :: "expr \<Rightarrow> bool" where
  "is_literal (StringLit s) = True"
| "is_literal (NumberLit s) = True"
| "is_literal _ = False"

text \<open>
  \<open>findConjunctEq\<close> returns a pointer into the tree, which the caller overwrites; here the
  tree with that node's right side replaced by \<open>lit\<close> is returned.
\<close>

fun replaceConjunctEq :: "string \<Rightarrow> expr \<Rightarrow> expr \<Rightarrow> expr option" where
  "replaceConjunctEq col lit (ParenExpr x) = map_option ParenExpr (replaceConjunctEq col lit x)"
| "replaceConjunctEq col lit (BinaryExpr x op y) =
     (if op = OpAND
      then (case replaceConjunctEq col lit x of
              Some x' \<Rightarrow> Some (BinaryExpr x' op y)
            | None \<Rightarrow> map_option (\<lambda>y'. BinaryExpr x op y') (replaceConjunctEq col lit y))
      else if op = OpEQ \<and> eqColName x = col \<and> is_literal y then Some (BinaryExpr x op lit)
      else None)"
| "replaceConjunctEq col lit _ = None"

definition filterLiteral :: "string \<Rightarrow> string \<Rightarrow> (rerror, expr) result" where
  "filterLiteral column value =
     (if column = ''service'' \<or> column = ''host'' then Ok (StringLit value)
      else if column = ''level''
      then (case ParseInt value of None \<Rightarrow> Err (EBadLevel value) | Some n \<Rightarrow> Ok (NumberLit value))
      else Err (EBadColumn column))"

definition drillTemplate :: string where
  "drillTemplate = ''SELECT * FROM logs ORDER BY timestamp ASC LIMIT 50''"

definition drillIn :: "sqlp \<Rightarrow> Validated \<Rightarrow> (rerror, Validated) result" where
  "drillIn P v =
     (if v_Shape v = ShapeAggregation
      then with_template P drillTemplate Some
        (\<lambda>t. Ok (v\<lparr>v_stmt := (v_stmt v)\<lparr>sel_Columns := sel_Columns t, sel_GroupByExprs := [], sel_HavingExpr := None,
               sel_Windows := [], sel_Distinct := False, sel_OrderingTerms := sel_OrderingTerms t,
               sel_LimitExpr := sel_LimitExpr t\<rparr>, v_Shape := ShapeLogViewer\<rparr>))
      else Ok v)"

definition setFilter :: "string \<Rightarrow> expr \<Rightarrow> SelectStatement \<Rightarrow> SelectStatement" where
  "setFilter column lit s =
     (case Option.bind (sel_WhereExpr s) (replaceConjunctEq column lit) of
        Some w \<Rightarrow> s\<lparr>sel_WhereExpr := Some w\<rparr>
      | None \<Rightarrow> andWhere (BinaryExpr (Ident column) OpEQ lit) s)"

definition ApplyQuickFilter :: "sqlp \<Rightarrow> string \<Rightarrow> string \<Rightarrow> Validated \<Rightarrow> (rerror, Validated) result" where
  "ApplyQuickFilter P column value v =
     (if v_Compound v then Err ErrUnsupportedShape
      else case filterLiteral column value of
        Inl e \<Rightarrow> Err e
      | Inr lit \<Rightarrow>
         (case drillIn P v of
            Inl e \<Rightarrow> Err e
          | Inr v' \<Rightarrow> Ok (v'\<lparr>v_stmt := setFilter column lit (v_stmt v')\<rparr>)))"

section \<open>Windows, live tail and paging\<close>

definition windowTemplate :: "int \<Rightarrow> int \<Rightarrow> string" where
  "windowTemplate fromMs toMs =
     ''SELECT * FROM logs WHERE timestamp BETWEEN '' @ itoa fromMs @ '' AND '' @ itoa toMs"

definition ApplyWindow :: "sqlp \<Rightarrow> int \<Rightarrow> int \<Rightarrow> Validated \<Rightarrow> (rerror, Validated) result" where
  "ApplyWindow P fromMs toMs v =
     (if v_Compound v then Err ErrUnsupportedShape
      else with_template P (windowTemplate fromMs toMs) sel_WhereExpr
        (\<lambda>cond. Ok (v\<lparr>v_stmt := andWhere cond (v_stmt v)\<rparr>)))"

definition HasConditions :: "Validated \<Rightarrow> bool" where
  "HasConditions v \<longleftrightarrow> sel_WhereExpr (v_stmt v) \<noteq> None"

definition ApplyStreamCursor :: "sqlp \<Rightarrow> int \<Rightarrow> Validated \<Rightarrow> (rerror, Validated) result" where
  "ApplyStreamCursor P limit v =
     (if v_Shape v \<noteq> ShapeLogViewer \<or> v_Compound v then Err ErrUnsupportedShape
      else with_template P ''SELECT * FROM logs ORDER BY id ASC'' Some
        (\<lambda>t. Ok (v\<lparr>v_stmt := (andWhere (BinaryExpr (Ident ''id'') OpGT (BindExpr ''?'')) (v_stmt v))
           \<lparr>sel_OrderingTerms := sel_OrderingTerms t, sel_LimitExpr := Some (NumberLit (itoa limit)),
            sel_OffsetExpr := None\<rparr>\<rparr>)))"

definition beforeCond :: "int \<Rightarrow> int \<Rightarrow> expr" where
  "beforeCond beforeTs beforeID =
     paren (BinaryExpr
       (BinaryExpr (Ident ''timestamp'') OpLT (NumberLit (itoa beforeTs)))
       OpOR
       (paren (BinaryExpr
          (BinaryExpr (Ident ''timestamp'') OpEQ (NumberLit (itoa beforeTs)))
          OpAND
          (BinaryExpr (Ident ''id'') OpLT (NumberLit (itoa beforeID))))))"

definition pageTemplate :: string where
  "pageTemplate = ''SELECT * FROM logs ORDER BY timestamp DESC, id DESC''"

definition ApplyPagination :: "sqlp \<Rightarrow> int \<Rightarrow> int \<Rightarrow> int \<Rightarrow> Validated \<Rightarrow> (rerror, Validated) result" where
  "ApplyPagination P beforeTs beforeID pageSize v =
     (if v_Shape v \<noteq> ShapeLogViewer \<or> v_Compound v then Err ErrUnsupportedShape
      else if pageSize \<le> 0 \<or> pageSize > MaxRows then Err (EPageSize pageSize)
      else with_template P pageTemplate Some
        (\<lambda>t. Ok (v\<lparr>v_stmt := (andWhere (beforeCond beforeTs beforeID) (v_stmt v))
           \<lparr>sel_OrderingTerms := sel_OrderingTerms t, sel_LimitExpr := Some (NumberLit (itoa pageSize)),
            sel_OffsetExpr := None\<rparr>\<rparr>)))"

section \<open>Meaning of conditions\<close>

text \<open>
  SQL's three-valued logic on the constructs the rewrites build; everything else has the meaning
  \<open>base\<close> gives it. The rewrites compare integers with integers and texts with texts, so
  no type affinity is involved.
\<close>

datatype sval = SNull | SInt int | SText string

type_synonym tri = "bool option"

fun and3 :: "tri \<Rightarrow> tri \<Rightarrow> tri" where
  "and3 (Some False) _ = Some False"
| "and3 _ (Some False) = Some False"
| "and3 (Some True) (Some True) = Some True"
| "and3 _ _ = None"

fun or3 :: "tri \<Rightarrow> tri \<Rightarrow> tri" where
  "or3 (Some True) _ = Some True"
| "or3 _ (Some True) = Some True"
| "or3 (Some False) (Some False) = Some False"
| "or3 _ _ = None"

fun eq3 :: "sval \<Rightarrow> sval \<Rightarrow> tri" where
  "eq3 SNull _ = None"
| "eq3 _ SNull = None"
| "eq3 a b = Some (a = b)"

fun lt3 :: "sval \<Rightarrow> sval \<Rightarrow> tri" where
  "lt3 (SInt a) (SInt b) = Some (a < b)"
| "lt3 _ _ = None"

record sql_row =
  col :: "string \<Rightarrow> sval"
  base_val :: "expr \<Rightarrow> sval"
  base_tri :: "expr \<Rightarrow> tri"

fun eval :: "sql_row \<Rightarrow> expr \<Rightarrow> sval" where
  "eval r (Ident c) = col r (ToLower c)"
| "eval r (NumberLit v) = (case ParseInt v of Some n \<Rightarrow> SInt n | None \<Rightarrow> base_val r (NumberLit v))"
| "eval r (StringLit s) = SText s"
| "eval r (ParenExpr e) = eval r e"
| "eval r e = base_val r e"

fun holds3 :: "sql_row \<Rightarrow> expr \<Rightarrow> tri" where
  "holds3 r (ParenExpr e) = holds3 r e"
| "holds3 r (BinaryExpr x op y) =
     (case op of
        OpAND \<Rightarrow> and3 (holds3 r x) (holds3 r y)
      | OpOR \<Rightarrow> or3 (holds3 r x) (holds3 r y)
      | OpEQ \<Rightarrow> eq3 (eval r x) (eval r y)
      | OpLT \<Rightarrow> lt3 (eval r x) (eval r y)
      | OpGT \<Rightarrow> lt3 (eval r y) (eval r x)
      | OpOther t \<Rightarrow> base_tri r (BinaryExpr x op y))"
| "holds3 r e = base_tri r e"

text \<open>The rows a statement selects: those for which its condition is true, not unknown.\<close>

definition selects :: "SelectStatement \<Rightarrow> sql_row \<Rightarrow> bool" where
  "selects s r = (case sel_WhereExpr s of None \<Rightarrow> True | Some w \<Rightarrow> holds3 r w = Some True)"

lemma and3_True [simp]: "and3 a b = Some True \<longleftrightarrow> a = Some True \<and> b = Some True"
  by (cases a; cases b) (auto elim: and3.elims)

lemma holds3_paren [simp]: "holds3 r (paren e) = holds3 r e"
  by (cases e) auto

lemma selects_andWhere: "selects (andWhere c s) r \<longleftrightarrow> selects s r \<and> holds3 r c = Some True"
  by (auto simp: selects_def andWhere_def split: option.splits)

lemma or3_True: "or3 a b = Some True \<longleftrightarrow> a = Some True \<or> b = Some True"
  by (induction a b rule: or3.induct) auto

section \<open>Paging\<close>

lemma lower_consts [simp]: "ToLower ''timestamp'' = ''timestamp''" "ToLower ''id'' = ''id''"
  "ToLower ''service'' = ''service''" "ToLower ''host'' = ''host''" "ToLower ''level'' = ''level''"
  by (simp_all add: lower_char_def is_upper_def byte_def)

declare ToLower.simps [simp del]

definition int64 :: "int \<Rightarrow> bool" where
  "int64 n \<longleftrightarrow> - (2 ^ 63) \<le> n \<and> n < 2 ^ 63"

lemma eval_itoa: "int64 n \<Longrightarrow> eval r (NumberLit (itoa n)) = SInt n"
  by (simp add: int64_def ParseInt_itoa)

lemma beforeCond_holds:
  assumes "int64 ts" and "int64 i" and "col r ''timestamp'' = SInt t" and "col r ''id'' = SInt k"
  shows "holds3 r (beforeCond ts i) = Some True \<longleftrightarrow> t < ts \<or> t = ts \<and> k < i"
  using assms eval_itoa [of ts r] eval_itoa [of i r]
  by (simp add: beforeCond_def or3_True del: eval.simps(2))

text \<open>
  C12: a page fetch selects exactly the rows before the cursor. Of the rows the query selected it
  keeps those that come before (timestamp, id) of the cursor in the lexicographic order, and it
  takes them in the order of the page template, without an offset, up to the page size, which is
  at most \<open>MaxRows\<close>.
\<close>

theorem pagination_cursor:
  assumes "ApplyPagination P ts i n v = Ok v'" and "int64 ts" and "int64 i"
    and "col r ''timestamp'' = SInt t" and "col r ''id'' = SInt k"
  shows "(selects (v_stmt v') r \<longleftrightarrow> selects (v_stmt v) r \<and> (t < ts \<or> t = ts \<and> k < i))
    \<and> sel_LimitExpr (v_stmt v') = Some (NumberLit (itoa n)) \<and> 0 < n \<and> n \<le> MaxRows
    \<and> sel_OffsetExpr (v_stmt v') = None
    \<and> (\<exists>tpl. mustParse P pageTemplate = Some tpl \<and> sel_OrderingTerms (v_stmt v') = sel_OrderingTerms tpl)"
proof -
  from assms(1) obtain tpl where tpl: "mustParse P pageTemplate = Some tpl" and n: "0 < n" "n \<le> MaxRows"
    and v': "v' = v\<lparr>v_stmt := (andWhere (beforeCond ts i) (v_stmt v))
      \<lparr>sel_OrderingTerms := sel_OrderingTerms tpl, sel_LimitExpr := Some (NumberLit (itoa n)), sel_OffsetExpr := None\<rparr>\<rparr>"
    by (cases "mustParse P pageTemplate")
      (auto simp: ApplyPagination_def with_template_def split: if_splits)
  have "selects (v_stmt v') r \<longleftrightarrow> selects (andWhere (beforeCond ts i) (v_stmt v)) r"
    by (simp add: v' selects_def)
  with beforeCond_holds [OF assms(2-5)] tpl n show ?thesis
    by (simp add: selects_andWhere) (simp add: v')
qed

section \<open>Quick filters\<close>

lemma replace_again:
  assumes "replaceConjunctEq c l e = Some e'" and "is_literal l"
  shows "replaceConjunctEq c m e' = replaceConjunctEq c m e"
  using assms(1)
proof (induction e arbitrary: e')
  case (BinaryExpr x op y)
  have none: "replaceConjunctEq c m x = None" if "replaceConjunctEq c l x = None" for x
    using that by (induction x) (auto split: if_splits option.splits)
  show ?case
  proof (cases "op = OpAND")
    case True
    show ?thesis
    proof (cases "replaceConjunctEq c l x")
      case None
      then obtain y' where "replaceConjunctEq c l y = Some y'" "e' = BinaryExpr x op y'"
        using BinaryExpr.prems True by auto
      with BinaryExpr.IH(2) True none [OF None] show ?thesis by simp
    next
      case (Some x')
      then have "e' = BinaryExpr x' op y" using BinaryExpr.prems True by simp
      moreover have "replaceConjunctEq c m x' = replaceConjunctEq c m x" using BinaryExpr.IH(1) Some by blast
      moreover have "replaceConjunctEq c m x \<noteq> None"
        using Some by (induction x arbitrary: x') (auto split: if_splits option.splits)
      ultimately show ?thesis using True by auto
    qed
  next
    case False
    with BinaryExpr.prems assms(2) show ?thesis by (auto split: if_splits)
  qed
qed auto

lemma replace_implies:
  assumes "replaceConjunctEq c l e = Some e'" and "holds3 r e' = Some True"
  shows "\<exists>x. eqColName x = c \<and> eq3 (eval r x) (eval r l) = Some True"
  using assms
proof (induction e arbitrary: e')
  case (BinaryExpr x op y)
  then show ?case by (auto split: if_splits option.splits)
qed auto

lemma replace_found:
  assumes "replaceConjunctEq c l (paren w) = None" and "eqColName (Ident c) = c" and "is_literal l"
  shows "replaceConjunctEq c m (BinaryExpr (paren w) OpAND (BinaryExpr (Ident c) OpEQ l)) =
    Some (BinaryExpr (paren w) OpAND (BinaryExpr (Ident c) OpEQ m))"
proof -
  have "replaceConjunctEq c m x = None" if "replaceConjunctEq c l x = None" for x
    using that by (induction x) (auto split: if_splits option.splits)
  with assms show ?thesis by simp
qed

lemma replace_paren: "replaceConjunctEq c l (paren w) = None \<longleftrightarrow> replaceConjunctEq c l w = None"
  by (cases w) auto

lemma replace_None_lit: "replaceConjunctEq c l e = None \<longleftrightarrow> replaceConjunctEq c m e = None"
  by (induction e) (auto split: if_splits option.splits)

lemma setFilter_again:
  assumes "is_literal a" and "ToLower c = c"
  shows "setFilter c b (setFilter c a s) = setFilter c b s"
proof (cases "Option.bind (sel_WhereExpr s) (replaceConjunctEq c a)")
  case (Some w')
  then obtain w where w: "sel_WhereExpr s = Some w" "replaceConjunctEq c a w = Some w'"
    by (cases "sel_WhereExpr s") auto
  then have s1: "setFilter c a s = s\<lparr>sel_WhereExpr := Some w'\<rparr>" by (simp add: setFilter_def)
  have r: "replaceConjunctEq c b w' = replaceConjunctEq c b w" using w(2) assms(1) by (rule replace_again)
  have "replaceConjunctEq c b w \<noteq> None" using w(2) replace_None_lit [of c a w b] by simp
  then obtain u where "replaceConjunctEq c b w = Some u" by auto
  then show ?thesis unfolding s1 using w r by (simp add: setFilter_def)
next
  case None
  then have s1: "setFilter c a s = andWhere (BinaryExpr (Ident c) OpEQ a) s" by (simp add: setFilter_def)
  have none: "Option.bind (sel_WhereExpr s) (replaceConjunctEq c b) = None"
    using None replace_None_lit [of c a _ b] by (cases "sel_WhereExpr s") auto
  show ?thesis
  proof (cases "sel_WhereExpr s")
    case None
    then show ?thesis unfolding s1 using assms none by (simp add: setFilter_def andWhere_def)
  next
    case (Some w)
    then have "replaceConjunctEq c a (paren w) = None" using None replace_paren by auto
    from replace_found [OF this] assms Some none show ?thesis
      unfolding s1 by (simp add: setFilter_def andWhere_def)
  qed
qed

lemma filterLiteral_InrD:
  "filterLiteral c x = Inr l \<Longrightarrow> is_literal l \<and> ToLower c = c"
  by (auto simp: filterLiteral_def split: if_splits option.splits)

lemma drillIn_again: "drillIn P v = Inr v' \<Longrightarrow> drillIn P (v'\<lparr>v_stmt := s\<rparr>) = Inr (v'\<lparr>v_stmt := s\<rparr>)"
  by (auto simp: drillIn_def with_template_def split: if_splits option.splits)

text \<open>
  A quick filter replaces, it does not pile up. Filtering by a column twice gives exactly the
  statement that the second filter alone gives: repeating a click changes nothing, and clicking
  another value retargets the query. Every row the filtered statement selects has the value asked
  for in that column.
\<close>

theorem quick_filter_retargets:
  assumes "ApplyQuickFilter P c a v = Ok v1"
  shows "ApplyQuickFilter P c a v1 = Ok v1
    \<and> ApplyQuickFilter P c b v1 = ApplyQuickFilter P c b v
    \<and> (\<not> selects (v_stmt v1) r \<or> (\<exists>lit x. filterLiteral c a = Ok lit \<and> eqColName x = c
          \<and> eq3 (eval r x) (eval r lit) = Some True))"
proof -
  from assms obtain l d where l: "filterLiteral c a = Inr l" and d: "drillIn P v = Inr d"
    and v1: "v1 = d\<lparr>v_stmt := setFilter c l (v_stmt d)\<rparr>" and nc: "\<not> v_Compound v"
    by (auto simp: ApplyQuickFilter_def split: if_splits sum.splits)
  note lc = filterLiteral_InrD [OF l]
  have nc1: "\<not> v_Compound v1"
    using nc d by (auto simp: v1 drillIn_def with_template_def split: if_splits option.splits)
  have d1: "drillIn P v1 = Inr v1" unfolding v1 by (rule drillIn_again [OF d])
  have again: "setFilter c m (v_stmt v1) = setFilter c m (v_stmt d)" for m
    using lc by (simp add: v1 setFilter_again)
  have "ApplyQuickFilter P c b v1 = ApplyQuickFilter P c b v"
    using nc nc1 d d1 again by (auto simp: ApplyQuickFilter_def v1 split: sum.splits)
  moreover have "ApplyQuickFilter P c a v1 = Ok v1"
    using nc1 l d1 again by (simp add: ApplyQuickFilter_def) (simp add: v1)
  moreover have "\<exists>x. eqColName x = c \<and> eq3 (eval r x) (eval r l) = Some True" if "selects (v_stmt v1) r"
  proof (cases "Option.bind (sel_WhereExpr (v_stmt d)) (replaceConjunctEq c l)")
    case None
    then have "holds3 r (BinaryExpr (Ident c) OpEQ l) = Some True"
      using that by (simp add: v1 setFilter_def selects_andWhere)
    then show ?thesis using lc by (intro exI [of _ "Ident c"]) simp
  next
    case (Some w')
    then obtain w where w: "replaceConjunctEq c l w = Some w'" by (cases "sel_WhereExpr (v_stmt d)") auto
    moreover have "holds3 r w' = Some True" using that Some by (simp add: v1 setFilter_def selects_def)
    ultimately show ?thesis by (rule replace_implies)
  qed
  ultimately show ?thesis using l by auto
qed

section \<open>Witnesses\<close>

text \<open>A parser that knows one statement, \<open>SELECT * FROM logs\<close>, whatever the text.\<close>

definition stmt_sample :: SelectStatement where
  "stmt_sample = \<lparr>sel_Distinct = False, sel_Columns = [StarColumn], sel_Source = Some (OtherSource ''logs''),
     sel_WhereExpr = None, sel_GroupByExprs = [], sel_HavingExpr = None, sel_Windows = [],
     sel_OrderingTerms = [(Ident ''timestamp'', False), (Ident ''id'', False)], sel_LimitExpr = None,
     sel_OffsetExpr = None, sel_Compound = []\<rparr>"

definition sqlp_sample :: sqlp where
  "sqlp_sample = \<lparr>parse_statements = (\<lambda>_. Inr [SelectStmt stmt_sample]),
     walk_select = (\<lambda>_. Node (KTableName None ''logs'') []), walk_source = (\<lambda>_. Node (KTableName None ''logs'') []),
     walk_expr = (\<lambda>_. Node (KOther ''expr'') [])\<rparr>"

definition validated_sample :: Validated where
  "validated_sample = \<lparr>v_stmt = stmt_sample, v_Shape = ShapeLogViewer, v_Compound = False, v_ReadsLogs = True,
     v_ReadsMetrics = False\<rparr>"

lemma sample_validates_in:
  "scope \<noteq> ScopeMetrics \<Longrightarrow> ValidateIn sqlp_sample q scope = Ok (validated_sample\<lparr>v_stmt := clampLimit stmt_sample\<rparr>)"
proof -
  assume "scope \<noteq> ScopeMetrics"
  moreover have "ToLower ''logs'' = ''logs''" by code_simp
  ultimately show ?thesis
    by (cases scope) (simp_all del: ToLower.simps add: ValidateIn_def sqlp_sample_def collectCTEs_def check_table_def allowedTables_def checkScope_def
        detectShape_def coreShape_def stmt_sample_def validated_sample_def)
qed

definition sqlrow_sample :: sql_row where
  "sqlrow_sample = \<lparr>col = (\<lambda>c. if c = ''timestamp'' then SInt 5 else if c = ''id'' then SInt 7 else SText ''api''),
     base_val = (\<lambda>_. SNull), base_tri = (\<lambda>_. None)\<rparr>"

theorem pagination_cursor_witness:
  "\<exists>v'. ApplyPagination sqlp_sample 5 8 50 validated_sample = Ok v' \<and> selects (v_stmt v') sqlrow_sample"
proof -
  obtain v' where v': "ApplyPagination sqlp_sample 5 8 50 validated_sample = Ok v'"
    by (simp add: ApplyPagination_def validated_sample_def with_template_def mustParse_def sqlp_sample_def MaxRows_def)
  have "selects (v_stmt validated_sample) sqlrow_sample"
    by (simp add: selects_def validated_sample_def stmt_sample_def)
  then show ?thesis
    using v' pagination_cursor [OF v', of sqlrow_sample 5 7] by (simp add: sqlrow_sample_def int64_def)
qed

theorem quick_filter_retargets_witness:
  "\<exists>v1. ApplyQuickFilter sqlp_sample ''service'' ''api'' validated_sample = Ok v1
     \<and> ApplyQuickFilter sqlp_sample ''service'' ''api'' v1 = Ok v1"
proof -
  obtain v1 where "ApplyQuickFilter sqlp_sample ''service'' ''api'' validated_sample = Ok v1"
    by (simp add: ApplyQuickFilter_def filterLiteral_def drillIn_def validated_sample_def)
  then show ?thesis using quick_filter_retargets by blast
qed

end
