(* ===== verification/Query_Exec.thy ===== *)
theory Query_Exec
  imports Validate
begin

text \<open>
  Running a query and preparing its text: \<open>query/execute.go\<close>, \<open>query/fts.go\<close> and
  \<open>query/prettify.go\<close>. The database cursor is the record \<open>row_source\<close>: whether the
  query starts, its columns, and for each row what \<open>Scan\<close> gives.
\<close>

section \<open>Execute\<close>

datatype cell = CNull | CInt int | CReal rat | CText string | CBytes bytes | COther string

definition MaxResultBytes :: nat where "MaxResultBytes = 64 * 2 ^ 20"

record Result =
  res_Columns :: "string list"
  res_Rows :: "cell list list"
  res_Truncated :: bool

record row_source =
  rs_start :: "string option"
  rs_columns :: "string + string list"
  rs_rows :: "(string + cell list) list"
  rs_err :: "string option"

fun cell_bytes :: "cell \<Rightarrow> nat" where
  "cell_bytes (CText s) = length s"
| "cell_bytes (CBytes s) = length s"
| "cell_bytes _ = 0"

fun cell_clean :: "cell \<Rightarrow> cell" where
  "cell_clean (CBytes s) = CText s"
| "cell_clean c = c"

definition row_bytes :: "cell list \<Rightarrow> nat" where
  "row_bytes vals = sum_list (map cell_bytes vals)"

fun scanRows :: "(string + cell list) list \<Rightarrow> nat \<Rightarrow> cell list list \<Rightarrow> string + cell list list \<times> bool" where
  "scanRows [] n rows = Inr (rows, False)"
| "scanRows (r # rs) n rows =
     (if int (length rows) \<ge> MaxRows then Inr (rows, True)
      else case r of
        Inl e \<Rightarrow> Inl e
      | Inr vals \<Rightarrow>
         let n' = n + row_bytes vals; rows' = rows @ [map cell_clean vals]
         in if n' \<ge> MaxResultBytes then Inr (rows', True) else scanRows rs n' rows')"

text \<open>The Go pair of result and error.\<close>

definition Execute :: "row_source \<Rightarrow> Result option \<times> string option" where
  "Execute src =
     (case rs_start src of
        Some e \<Rightarrow> (None, Some e)
      | None \<Rightarrow>
         (case rs_columns src of
            Inl e \<Rightarrow> (None, Some e)
          | Inr cols \<Rightarrow>
             (case scanRows (rs_rows src) 0 [] of
                Inl e \<Rightarrow> (None, Some e)
              | Inr (rows, trunc) \<Rightarrow>
                  (Some \<lparr>res_Columns = cols, res_Rows = rows, res_Truncated = trunc\<rparr>, rs_err src))))"

definition total_bytes :: "cell list list \<Rightarrow> nat" where
  "total_bytes rows = sum_list (map row_bytes rows)"

lemma row_bytes_clean [simp]: "row_bytes (map cell_clean vals) = row_bytes vals"
proof -
  have "cell_bytes (cell_clean c) = cell_bytes c" for c by (cases c) auto
  then show ?thesis by (simp add: row_bytes_def comp_def)
qed

lemma total_bytes_snoc [simp]: "total_bytes (rows @ [r]) = total_bytes rows + row_bytes r"
  by (simp add: total_bytes_def)

text \<open>What a scan of the first \<open>k\<close> source rows has produced.\<close>

definition scanned ::
    "(string + cell list) list \<Rightarrow> cell list list \<Rightarrow> cell list list \<Rightarrow> bool \<Rightarrow> nat \<Rightarrow> bool" where
  "scanned rs rows out trunc k \<longleftrightarrow> k \<le> length rs
     \<and> out = rows @ map (map cell_clean \<circ> projr) (take k rs)
     \<and> int (length out) \<le> MaxRows \<and> total_bytes (butlast out) < MaxResultBytes
     \<and> (if trunc then int (length out) = MaxRows \<and> k < length rs \<or> total_bytes out \<ge> MaxResultBytes
        else k = length rs)"

lemma scanned_Cons:
  "scanned rs (rows @ [map cell_clean vals]) out trunc k \<Longrightarrow> scanned (Inr vals # rs) rows out trunc (Suc k)"
  by (auto simp: scanned_def)

lemma total_bytes_butlast: "total_bytes (butlast rows) \<le> total_bytes rows"
  by (cases rows rule: rev_cases) auto

lemma scanRows_spec:
  assumes "scanRows rs n rows = Inr (out, trunc)" and "n = total_bytes rows" and "n < MaxResultBytes"
    and "int (length rows) \<le> MaxRows"
  shows "\<exists>k. scanned rs rows out trunc k"
  using assms
proof (induction rs n rows rule: scanRows.induct)
  case (1 n rows)
  then show ?case using total_bytes_butlast [of rows] by (auto simp: scanned_def)
next
  case (2 r rs n rows)
  show ?case
  proof (cases "int (length rows) \<ge> MaxRows")
    case True
    with 2 have "out = rows" "trunc" "int (length rows) = MaxRows" by auto
    then show ?thesis using 2 total_bytes_butlast [of rows] by (intro exI [of _ 0]) (auto simp: scanned_def)
  next
    case False
    with "2.prems" obtain vals where r: "r = Inr vals" by (cases r) auto
    show ?thesis
    proof (cases "n + row_bytes vals \<ge> MaxResultBytes")
      case True
      with False r "2.prems" show ?thesis by (intro exI [of _ "Suc 0"]) (auto simp: scanned_def)
    next
      case less: False
      have "scanRows rs (n + row_bytes vals) (rows @ [map cell_clean vals]) = Inr (out, trunc)"
        using less False r "2.prems"(1) by simp
      then have "\<exists>k. scanned rs (rows @ [map cell_clean vals]) out trunc k"
        using "2.IH" [OF False r refl refl less] less "2.prems"(2) False by simp
      then show ?thesis using r scanned_Cons by blast
    qed
  qed
qed

text \<open>
  A result is bounded and honest. Whatever the statement yields, the result holds a prefix of
  its rows, unchanged up to rendering bytes as text, at most \<open>MaxRows\<close> of them and, but for
  the last row, fewer than \<open>MaxResultBytes\<close> bytes of text; it is complete unless it is marked
  truncated, and it is marked only when one of the caps was reached.
\<close>

theorem execute_bounded:
  assumes "Execute src = (Some res, err)"
  shows "\<exists>k \<le> length (rs_rows src). res_Rows res = map (map cell_clean \<circ> projr) (take k (rs_rows src))
    \<and> int (length (res_Rows res)) \<le> MaxRows
    \<and> total_bytes (butlast (res_Rows res)) < MaxResultBytes
    \<and> (if res_Truncated res
       then int (length (res_Rows res)) = MaxRows \<and> k < length (rs_rows src)
          \<or> total_bytes (res_Rows res) \<ge> MaxResultBytes
       else k = length (rs_rows src))"
proof -
  from assms obtain rows trunc where s: "scanRows (rs_rows src) 0 [] = Inr (rows, trunc)"
    and "res_Rows res = rows" "res_Truncated res = trunc"
    by (auto simp: Execute_def split: option.splits sum.splits prod.splits)
  moreover obtain k where "scanned (rs_rows src) [] rows trunc k"
    using scanRows_spec [OF s] by (auto simp: total_bytes_def MaxResultBytes_def MaxRows_def)
  ultimately show ?thesis unfolding scanned_def by (intro exI [of _ k]) auto
qed

definition source_sample :: row_source where
  "source_sample = \<lparr>rs_start = None, rs_columns = Inr [''n''], rs_rows = [Inr [CInt 1], Inr [CBytes ''x'']],
     rs_err = None\<rparr>"

theorem execute_bounded_witness:
  "\<exists>res err. Execute source_sample = (Some res, err) \<and> int (length (res_Rows res)) \<le> MaxRows"
proof -
  obtain res err where "Execute source_sample = (Some res, err)"
    by (simp add: Execute_def source_sample_def MaxRows_def MaxResultBytes_def row_bytes_def)
  with execute_bounded [OF this] show ?thesis by blast
qed

section \<open>Full-text search input\<close>

definition ftsOperators :: "string list" where
  "ftsOperators = [''AND'', ''OR'', ''NOT'', ''NEAR'']"

definition ftsSpecial :: string where
  "ftsSpecial = [dquote, CHR ''*'', CHR ''('', CHR '')'', CHR ''^'']"

text \<open>A term in FTS5 syntax, which makes the whole input pass through.\<close>

definition ftsRaw :: "string \<Rightarrow> bool" where
  "ftsRaw t \<longleftrightarrow> t \<in> set ftsOperators \<or> list_ex (\<lambda>c. c \<in> set ftsSpecial) t"

definition FTSMatch :: "string \<Rightarrow> string" where
  "FTSMatch input0 =
     (let input = TrimSpace input0
      in if input = [] then input
         else let terms = Fields input
              in if list_ex ftsRaw terms then input
                 else Join (map (\<lambda>t. [dquote] @ t @ [dquote, CHR ''*'']) terms) '' '')"

text \<open>Reading the expression back: the quoted strings of an FTS5 expression.\<close>

definition quotedTerms :: "string \<Rightarrow> string list option" where
  "quotedTerms q = map_option (List.map_filter (\<lambda>t. case t of TIdent s \<Rightarrow> Some s | _ \<Rightarrow> None)) (sql_lex q)"

lemma ReplaceAll1_absent: "c \<notin> set s \<Longrightarrow> ReplaceAll1 s c new = s"
  by (induction s) auto

lemma sql_lex_term:
  "dquote \<notin> set t \<Longrightarrow> unquoted dquote s \<Longrightarrow> sql_lex (dquote # t @ dquote # s) = map_option (Cons (TIdent t)) (sql_lex s)"
  using sql_lex_ident [of s t] by (simp add: ReplaceAll1_absent)

lemma sql_lex_terms:
  assumes "\<forall>t \<in> set ts. dquote \<notin> set t"
  shows "\<exists>toks. sql_lex (Join (map (\<lambda>t. [dquote] @ t @ [dquote, CHR ''*'']) ts) '' '') = Some toks
    \<and> List.map_filter (\<lambda>t. case t of TIdent s \<Rightarrow> Some s | _ \<Rightarrow> None) toks = ts"
  using assms
proof (induction ts rule: induct_list012)
  case 1
  then show ?case by (simp add: sql_lex_Nil List.map_filter_def)
next
  case (2 t)
  then show ?case by (simp add: sql_lex_term sql_lex_char sql_lex_Nil List.map_filter_def)
next
  case (3 t u ts)
  then obtain toks where "sql_lex (Join (map (\<lambda>t. [dquote] @ t @ [dquote, CHR ''*'']) (u # ts)) '' '') = Some toks"
    "List.map_filter (\<lambda>t. case t of TIdent s \<Rightarrow> Some s | _ \<Rightarrow> None) toks = u # ts" by auto
  with 3 show ?case by (auto simp: sql_lex_term sql_lex_char List.map_filter_def)
qed

text \<open>
  Search-bar input cannot break the MATCH expression. Input in FTS5 syntax is passed through
  as typed; any other input becomes one quoted prefix term for each word, and reading the quoted
  terms back gives exactly the words: no word splits, merges or escapes its quotes.
\<close>

theorem fts_terms_quoted:
  "FTSMatch input = TrimSpace input
   \<or> quotedTerms (FTSMatch input) = Some (Fields (TrimSpace input))
     \<and> list_all (\<lambda>t. t \<noteq> [] \<and> \<not> ftsRaw t) (Fields (TrimSpace input))"
proof (cases "TrimSpace input = [] \<or> list_ex ftsRaw (Fields (TrimSpace input))")
  case True
  then show ?thesis by (auto simp: FTSMatch_def Let_def)
next
  case False
  let ?ts = "Fields (TrimSpace input)"
  have ok: "\<forall>t \<in> set ?ts. \<not> ftsRaw t" using False by (auto simp: list_ex_iff)
  then have "\<forall>t \<in> set ?ts. dquote \<notin> set t" by (auto simp: ftsRaw_def ftsSpecial_def list_ex_iff)
  from sql_lex_terms [OF this] False have "quotedTerms (FTSMatch input) = Some ?ts"
    by (auto simp: FTSMatch_def Let_def quotedTerms_def)
  moreover have "list_all (\<lambda>t. t \<noteq> [] \<and> \<not> ftsRaw t) ?ts"
    using ok Fields_nonempty [of "TrimSpace input"] by (auto simp: list_all_iff)
  ultimately show ?thesis by simp
qed

section \<open>Prettified SQL\<close>

text \<open>
  The scanner of the SQL package is a parameter: the tokens up to the end or an illegal one, each
  with its offset, whether it is a quoted identifier, and its text; \<open>keyword\<close> tells
  whether a bare word is one. A slice out of range panics, which is \<open>None\<close>.
\<close>

record token =
  tok_offset :: nat
  tok_quoted :: bool
  tok_lit :: string

definition bareIdentRe :: "string \<Rightarrow> bool" where
  "bareIdentRe s = (case s of [] \<Rightarrow> False
     | c # t \<Rightarrow> (is_letter c \<or> c = CHR ''_'') \<and> list_all (\<lambda>c. is_letter c \<or> is_digit c \<or> c = CHR ''_'') t)"

text \<open>The spans to strip; \<open>Inl\<close> is the bail-out that keeps the query.\<close>

fun pretty_spans :: "(string \<Rightarrow> bool) \<Rightarrow> string \<Rightarrow> token list \<Rightarrow> unit + (nat \<times> nat) list" where
  "pretty_spans keyword q [] = Inr []"
| "pretty_spans keyword q (t # ts) =
     (if \<not> tok_quoted t \<or> \<not> bareIdentRe (tok_lit t) \<or> keyword (tok_lit t) then pretty_spans keyword q ts
      else let start = tok_offset t; stop = start + length (tok_lit t) + 2
           in if stop > length q \<or> q ! start \<noteq> dquote \<or> q ! (stop - 1) \<noteq> dquote then Inl ()
              else case pretty_spans keyword q ts of Inl u \<Rightarrow> Inl u | Inr sps \<Rightarrow> Inr ((start, stop) # sps))"

definition slice :: "string \<Rightarrow> nat \<Rightarrow> nat \<Rightarrow> string option" where
  "slice q a b = (if a \<le> b \<and> b \<le> length q then Some (take (b - a) (drop a q)) else None)"

fun strip_spans :: "string \<Rightarrow> nat \<Rightarrow> (nat \<times> nat) list \<Rightarrow> string option" where
  "strip_spans q prev [] = slice q prev (length q)"
| "strip_spans q prev ((a, b) # sps) =
     (case (slice q prev a, slice q (a + 1) (b - 1), strip_spans q b sps) of
        (Some x, Some y, Some z) \<Rightarrow> Some (x @ y @ z)
      | _ \<Rightarrow> None)"

definition prettify :: "(string \<Rightarrow> token list) \<Rightarrow> (string \<Rightarrow> bool) \<Rightarrow> string \<Rightarrow> string option" where
  "prettify scan keyword q =
     (case pretty_spans keyword q (scan q) of
        Inl _ \<Rightarrow> Some q
      | Inr [] \<Rightarrow> Some q
      | Inr sps \<Rightarrow> strip_spans q 0 sps)"

abbreviation without_quotes :: "string \<Rightarrow> string" where
  "without_quotes s \<equiv> filter (\<lambda>c. c \<noteq> dquote) s"

definition span_ok :: "string \<Rightarrow> nat \<times> nat \<Rightarrow> bool" where
  "span_ok q sp = (case sp of (a, b) \<Rightarrow> a + 2 \<le> b \<and> b \<le> length q \<and> q ! a = dquote \<and> q ! (b - 1) = dquote)"

lemma pretty_spans_ok: "pretty_spans keyword q ts = Inr sps \<Longrightarrow> list_all (span_ok q) sps"
  by (induction keyword q ts arbitrary: sps rule: pretty_spans.induct)
    (auto simp: span_ok_def Let_def split: if_splits sum.splits)

lemma drop_split: "a \<le> b \<Longrightarrow> drop a q = take (b - a) (drop a q) @ drop b q"
  by (metis append_take_drop_id drop_drop le_add_diff_inverse2)

lemma drop_span:
  assumes "span_ok q (a, b)"
  shows "without_quotes (drop a q) = without_quotes (take (b - 1 - (a + 1)) (drop (a + 1) q)) @ without_quotes (drop b q)"
proof -
  from assms have ab: "a + 2 \<le> b" "b \<le> length q" "q ! a = dquote" "q ! (b - 1) = dquote"
    by (auto simp: span_ok_def)
  let ?m = "take (b - 1 - (a + 1)) (drop (a + 1) q)"
  have "drop a q = dquote # drop (a + 1) q" using ab Cons_nth_drop_Suc [of a q] by simp
  moreover have "drop (a + 1) q = ?m @ drop (b - 1) q" using ab by (intro drop_split) simp
  moreover have "drop (b - 1) q = dquote # drop b q" using ab Cons_nth_drop_Suc [of "b - 1" q] by simp
  ultimately have "drop a q = dquote # ?m @ dquote # drop b q" by metis
  then show ?thesis by simp
qed

lemma strip_spans_text:
  "list_all (span_ok q) sps \<Longrightarrow> strip_spans q prev sps = Some r \<Longrightarrow> without_quotes r = without_quotes (drop prev q)"
proof (induction q prev sps arbitrary: r rule: strip_spans.induct)
  case (1 q prev)
  then show ?case by (auto simp: slice_def split: if_splits)
next
  case (2 q prev a b sps)
  from "2.prems"(2) obtain x y z where xyz: "slice q prev a = Some x" "slice q (a + 1) (b - 1) = Some y"
    "strip_spans q b sps = Some z" "r = x @ y @ z"
    by (auto split: option.splits)
  then have z: "without_quotes z = without_quotes (drop b q)" using 2 by simp
  from xyz have x: "x = take (a - prev) (drop prev q)" "prev \<le> a" and y: "y = take (b - 1 - (a + 1)) (drop (a + 1) q)"
    by (auto simp: slice_def split: if_splits)
  have "without_quotes (drop prev q) = without_quotes x @ without_quotes (drop a q)"
    using drop_split [OF x(2), of q] x(1) by (metis filter_append)
  with drop_span [of q a b] "2.prems"(1) xyz(4) z y show ?case by simp
qed

text \<open>
  Prettifying changes nothing but identifier quotes. Whatever the scanner reports, when a
  string is returned it is the query with some double quotes removed and every other character
  kept, in order.
\<close>

theorem prettify_only_quotes:
  assumes "prettify scan keyword q = Some r"
  shows "without_quotes r = without_quotes q"
proof (cases "pretty_spans keyword q (scan q)")
  case (Inl u)
  with assms show ?thesis by (simp add: prettify_def)
next
  case (Inr sps)
  with assms have "sps = [] \<and> r = q \<or> strip_spans q 0 sps = Some r"
    by (cases sps) (simp_all add: prettify_def)
  with strip_spans_text [OF pretty_spans_ok [OF Inr], of 0 r] show ?thesis by auto
qed

theorem prettify_only_quotes_witness:
  "prettify (\<lambda>_. [\<lparr>tok_offset = 5, tok_quoted = True, tok_lit = ''logs''\<rparr>]) (\<lambda>_. False)
     (''FROM '' @ [dquote] @ ''logs'' @ [dquote]) = Some ''FROM logs''
   \<and> without_quotes ''FROM logs'' = without_quotes (''FROM '' @ [dquote] @ ''logs'' @ [dquote])"
proof -
  have "prettify (\<lambda>_. [\<lparr>tok_offset = 5, tok_quoted = True, tok_lit = ''logs''\<rparr>]) (\<lambda>_. False)
     (''FROM '' @ [dquote] @ ''logs'' @ [dquote]) = Some ''FROM logs''"
    by (simp add: prettify_def bareIdentRe_def is_letter_def is_upper_def byte_def slice_def Let_def)
  then show ?thesis using prettify_only_quotes by blast
qed

end
