(* ===== verification/Logs_Page.thy ===== *)
theory Logs_Page
  imports Rewrite Query_Exec "HOL-Library.Multiset"
begin

text \<open>
  The log viewer, \<open>ui/logs.go\<close>: a request is parsed, validated, rewritten (quick filters,
  full-text search, paging), executed and turned into the view. The
  outcome of the handler is the view it renders; the templates are in \<open>Log_Templates\<close>. The serializer, the database and the float
  formatter are fields of \<open>ui_env\<close>.
\<close>

record ui_env =
  ue_sqlp :: sqlp
  ue_string :: "SelectStatement \<Rightarrow> string"
  ue_query :: "string \<Rightarrow> string list \<Rightarrow> row_source"
  ue_fmt :: "rat \<Rightarrow> string"
  ue_oor :: "rat \<Rightarrow> int"

definition defaultLogsQuery :: string where
  "defaultLogsQuery = ''SELECT * FROM logs ORDER BY timestamp DESC LIMIT 100''"

definition logsPageSize :: int where "logsPageSize = 50"

definition logViewerColumns :: "string list" where
  "logViewerColumns = [''id'', ''timestamp'', ''ingested_at'', ''level'', ''service'', ''host'', ''message'',
     ''parsed'', ''raw'']"

definition snippetPlaceholderMarker :: string where "snippetPlaceholderMarker = ''REPLACE_WITH_''"

record logsRequest =
  lq_Q :: string
  lq_FTS :: string
  lq_Op :: string

definition parseLogsRequest :: "(string \<Rightarrow> string) \<Rightarrow> logsRequest" where
  "parseLogsRequest qp =
     (let q = TrimSpace (qp ''q'')
      in \<lparr>lq_Q = (if q = [] then defaultLogsQuery else q), lq_FTS = TrimSpace (qp ''fts''),
          lq_Op = (if qp ''op'' \<noteq> ''or'' then ''and'' else qp ''op'')\<rparr>)"

section \<open>Cells\<close>

fun asInt64 :: "ui_env \<Rightarrow> cell \<Rightarrow> int" where
  "asInt64 U (CInt n) = n"
| "asInt64 U (CReal x) = f64_to_int64 (ue_oor U) x"
| "asInt64 U _ = 0"

fun cellString :: "ui_env \<Rightarrow> cell \<Rightarrow> string" where
  "cellString U CNull = []"
| "cellString U (CText s) = s"
| "cellString U (CInt n) = itoa n"
| "cellString U (CReal x) = ue_fmt U x"
| "cellString U (CBytes s) = s"
| "cellString U (COther s) = s"

text \<open>\<open>parse_float\<close> tells whether \<open>strconv.ParseFloat\<close> succeeds.\<close>

definition formulaStart :: "char list" where
  "formulaStart = [CHR ''='', CHR ''+'', CHR ''-'', CHR ''@'', CHR 0x09, CHR 0x0D]"

definition csvSafe :: "(string \<Rightarrow> bool) \<Rightarrow> string \<Rightarrow> string" where
  "csvSafe parse_float s =
     (case s of
        [] \<Rightarrow> s
      | c # _ \<Rightarrow> if c \<in> set formulaStart then (if parse_float s then s else squote # s) else s)"

section \<open>The view\<close>

record LogRow =
  lr_ID :: int
  lr_Ts :: int
  lr_Level :: "int option"
  lr_Service :: string
  lr_Host :: string
  lr_Message :: string
  lr_Raw :: string

datatype view_error = VPlaceholder | VInvalid verror | VFilter rerror | VFTS | VQuery string

record LogsView =
  lv_Q :: string
  lv_FTS :: string
  lv_Op :: string
  lv_Error :: "view_error option"
  lv_IsViewer :: bool
  lv_Rows :: "LogRow list"
  lv_HasMore :: bool
  lv_AtStart :: bool
  lv_NextBeforeTs :: int
  lv_NextBeforeID :: int
  lv_Columns :: "string list"
  lv_Cells :: "string list list"
  lv_Truncated :: bool

definition emptyView :: "string \<Rightarrow> string \<Rightarrow> string \<Rightarrow> LogsView" where
  "emptyView q fts op = \<lparr>lv_Q = q, lv_FTS = fts, lv_Op = op, lv_Error = None, lv_IsViewer = False, lv_Rows = [], lv_HasMore = False,
     lv_AtStart = False, lv_NextBeforeTs = 0, lv_NextBeforeID = 0, lv_Columns = [], lv_Cells = [],
     lv_Truncated = False\<rparr>"

datatype Cursor = Cursor (c_ts: int) (c_id: int)

instantiation Cursor :: linorder
begin

definition less_eq_Cursor :: "Cursor \<Rightarrow> Cursor \<Rightarrow> bool" where
  "less_eq_Cursor a b \<longleftrightarrow> c_ts a < c_ts b \<or> c_ts a = c_ts b \<and> c_id a \<le> c_id b"

definition less_Cursor :: "Cursor \<Rightarrow> Cursor \<Rightarrow> bool" where
  "less_Cursor a b \<longleftrightarrow> c_ts a < c_ts b \<or> c_ts a = c_ts b \<and> c_id a < c_id b"

instance
  by standard (auto simp: less_eq_Cursor_def less_Cursor_def Cursor.expand)

end

definition cursor_of :: "LogRow \<Rightarrow> Cursor" where
  "cursor_of r = Cursor (lr_Ts r) (lr_ID r)"

text \<open>The index of a column: of equal names the last one counts.\<close>

fun colIdxFrom :: "nat \<Rightarrow> string list \<Rightarrow> string \<Rightarrow> nat option" where
  "colIdxFrom i [] c = None"
| "colIdxFrom i (x # xs) c = (case colIdxFrom (Suc i) xs c of Some j \<Rightarrow> Some j | None \<Rightarrow> if x = c then Some i else None)"

definition colIdx :: "string list \<Rightarrow> string \<Rightarrow> nat option" where
  "colIdx cols c = colIdxFrom 0 cols c"

definition cell_at :: "string list \<Rightarrow> cell list \<Rightarrow> string \<Rightarrow> cell" where
  "cell_at cols row c = (case colIdx cols c of Some i \<Rightarrow> row ! i | None \<Rightarrow> row ! 0)"

definition viewerRow :: "ui_env \<Rightarrow> string list \<Rightarrow> cell list \<Rightarrow> LogRow" where
  "viewerRow U cols row =
     (let c = cell_at cols row; raw = cellString U (c ''raw'')
      in \<lparr>lr_ID = asInt64 U (c ''id''), lr_Ts = asInt64 U (c ''timestamp''),
          lr_Level = (if c ''level'' = CNull then None else Some (asInt64 U (c ''level''))),
          lr_Service = cellString U (c ''service''), lr_Host = cellString U (c ''host''),
          lr_Message = (if c ''message'' = CNull then raw else cellString U (c ''message'')), lr_Raw = raw\<rparr>)"

text \<open>\<open>rowFromResult\<close>, used by the live tail: refused when a column is missing.\<close>

definition rowFromResult :: "ui_env \<Rightarrow> string list \<Rightarrow> cell list \<Rightarrow> LogRow option" where
  "rowFromResult U cols row =
     (if list_all (\<lambda>c. colIdx cols c \<noteq> None) logViewerColumns then Some (viewerRow U cols row) else None)"

definition isViewer :: "string list \<Rightarrow> bool" where
  "isViewer cols \<longleftrightarrow> length cols = length logViewerColumns
     \<and> list_all (\<lambda>c. colIdx cols c \<noteq> None) logViewerColumns"

definition fillResults :: "ui_env \<Rightarrow> Result \<Rightarrow> LogsView \<Rightarrow> LogsView" where
  "fillResults U res view0 =
     (let view = view0\<lparr>lv_Truncated := res_Truncated res\<rparr>
      in if \<not> isViewer (res_Columns res)
         then view\<lparr>lv_Columns := res_Columns res, lv_Cells := map (map (cellString U)) (res_Rows res)\<rparr>
         else let rows = sort_key cursor_of (map (viewerRow U (res_Columns res)) (res_Rows res));
                  view1 = view\<lparr>lv_IsViewer := True, lv_Rows := rows\<rparr>
              in case rows of
                   [] \<Rightarrow> view1
                 | r # _ \<Rightarrow> view1\<lparr>lv_NextBeforeTs := lr_Ts r, lv_NextBeforeID := lr_ID r, lv_HasMore := True\<rparr>)"

section \<open>The handler\<close>

datatype page_outcome = PBadRequest | PPage LogsView bool bool

text \<open>The three quick filters, in the order of the loop; the flag says whether one applied.\<close>

fun applyFilters :: "ui_env \<Rightarrow> (string \<Rightarrow> string) \<Rightarrow> string list \<Rightarrow> Validated \<times> bool \<Rightarrow> rerror + Validated \<times> bool" where
  "applyFilters U qp [] (v, done) = Inr (v, done)"
| "applyFilters U qp (c # cs) (v, done) =
     (if qp c = [] then applyFilters U qp cs (v, done)
      else case ApplyQuickFilter (ue_sqlp U) c (qp c) v of
             Inl e \<Rightarrow> Inl e
           | Inr v' \<Rightarrow> applyFilters U qp cs (v', True))"

definition pageParams :: "(string \<Rightarrow> string) \<Rightarrow> (int \<times> int) option" where
  "pageParams qp =
     (case (ParseInt (qp ''before_ts''), ParseInt (qp ''before_id'')) of
        (Some ts, Some i) \<Rightarrow> Some (ts, i) | _ \<Rightarrow> None)"

definition runAndFill :: "ui_env \<Rightarrow> Validated \<Rightarrow> string list \<Rightarrow> bool \<Rightarrow> bool \<Rightarrow> LogsView \<Rightarrow> page_outcome" where
  "runAndFill U v args isPageFetch filterApplied view =
     (case Execute (ue_query U (ue_string U (v_stmt v)) args) of
        (Some res, None) \<Rightarrow>
          let filled = fillResults U res view
          in PPage (filled\<lparr>lv_AtStart := (isPageFetch \<and> lv_Rows filled = [])\<rparr>) isPageFetch filterApplied
      | (_, err) \<Rightarrow> PPage (view\<lparr>lv_Error := Some (VQuery (case err of Some e \<Rightarrow> e | None \<Rightarrow> []))\<rparr>) False filterApplied)"

definition logsPage :: "ui_env \<Rightarrow> (string \<Rightarrow> string) \<Rightarrow> page_outcome" where
  "logsPage U qp =
     (let lr = parseLogsRequest qp; view = emptyView (lq_Q lr) (lq_FTS lr) (lq_Op lr);
          fail = (\<lambda>e. PPage (view\<lparr>lv_Error := Some e\<rparr>) False False)
      in if Contains (lq_Q lr) snippetPlaceholderMarker then fail VPlaceholder
         else case ValidateIn (ue_sqlp U) (lq_Q lr) ScopeLogs of
           Inl e \<Rightarrow> fail (VInvalid e)
         | Inr v0 \<Rightarrow>
            (case applyFilters U qp [''service'', ''level'', ''host''] (v0, False) of
               Inl e \<Rightarrow> fail (VFilter e)
             | Inr (v1, filterApplied) \<Rightarrow>
                let view1 = view\<lparr>lv_Q := ue_string U (v_stmt v1)\<rparr>
                in case (if lq_FTS lr = [] then Inr (v1, [])
                         else case CombineFTS (ue_sqlp U) (lq_Op lr) v1 of
                                Inl e \<Rightarrow> Inl e | Inr v2 \<Rightarrow> Inr (v2, [FTSMatch (lq_FTS lr)])) of
                     Inl e \<Rightarrow> PPage (view1\<lparr>lv_Error := Some VFTS\<rparr>) False filterApplied
                   | Inr (v2, args) \<Rightarrow>
                      if qp ''before_ts'' = [] then runAndFill U v2 args False filterApplied view1
                      else case pageParams qp of
                             None \<Rightarrow> PBadRequest
                           | Some (ts, i) \<Rightarrow>
                              (case ApplyPagination (ue_sqlp U) ts i logsPageSize v2 of
                                 Inl e \<Rightarrow> PBadRequest
                               | Inr v3 \<Rightarrow> runAndFill U v3 args True filterApplied view1)))"

section \<open>Scrolling through history\<close>

text \<open>
  The rows of the database that match the query are given by their cursors. A page fetch returns
  those before the cursor, newest first, up to the page size (\<open>ApplyPagination\<close>); the view
  shows them and takes the smallest as the next cursor (\<open>fillResults\<close>).
\<close>

definition pageOf :: "nat \<Rightarrow> Cursor list \<Rightarrow> Cursor \<Rightarrow> Cursor list" where
  "pageOf n db c = take n (rev (sort (filter (\<lambda>r. r < c) db)))"

definition nextCursor :: "Cursor list \<Rightarrow> Cursor option" where
  "nextCursor rows = (case sort rows of [] \<Rightarrow> None | r # _ \<Rightarrow> Some r)"

text \<open>Scrolling up with \<open>k\<close> fetches, until one comes back empty.\<close>

fun scroll :: "nat \<Rightarrow> nat \<Rightarrow> Cursor list \<Rightarrow> Cursor \<Rightarrow> Cursor list" where
  "scroll 0 n db c = []"
| "scroll (Suc k) n db c =
     (case nextCursor (pageOf n db c) of
        None \<Rightarrow> []
      | Some c' \<Rightarrow> pageOf n db c @ scroll k n db c')"










text \<open>The view's next cursor is the smallest row shown, and the rows are in order.\<close>

lemma sort_key_hd_min:
  fixes f :: "'a \<Rightarrow> 'b::linorder"
  assumes "sort_key f xs = r # rs" and "x \<in> set xs"
  shows "f r \<le> f x"
proof -
  have "sorted (map f (r # rs))" using sorted_sort_key [of f xs] assms(1) by simp
  moreover have "x \<in> set (r # rs)" using assms by (metis set_sort)
  ultimately show ?thesis by auto
qed

text \<open>
  The viewer shows exactly the result rows, oldest first with the id as tie-break, and offers
  as the next cursor the smallest (timestamp, id) it shows.
\<close>

theorem fill_results_cursor:
  assumes "isViewer (res_Columns res)"
  shows "mset (lv_Rows (fillResults U res view)) = mset (map (viewerRow U (res_Columns res)) (res_Rows res))
    \<and> sorted (map cursor_of (lv_Rows (fillResults U res view)))
    \<and> (res_Rows res = [] \<or>
        (let v = fillResults U res view in lv_HasMore v
          \<and> list_all (\<lambda>r. Cursor (lv_NextBeforeTs v) (lv_NextBeforeID v) \<le> cursor_of r) (lv_Rows v)))"
proof -
  let ?rows = "map (viewerRow U (res_Columns res)) (res_Rows res)"
  have rows: "lv_Rows (fillResults U res view) = sort_key cursor_of ?rows"
    using assms by (simp add: fillResults_def Let_def split: list.splits)
  have "sorted (map cursor_of (sort_key cursor_of ?rows))" by simp
  moreover have "lv_HasMore (fillResults U res view)
      \<and> list_all (\<lambda>r. Cursor (lv_NextBeforeTs (fillResults U res view)) (lv_NextBeforeID (fillResults U res view))
          \<le> cursor_of r) (sort_key cursor_of ?rows)" if ne: "res_Rows res \<noteq> []"
  proof -
    have "sort_key cursor_of ?rows \<noteq> []" using ne by (metis length_0_conv length_map length_sort)
    then obtain r rs where s: "sort_key cursor_of ?rows = r # rs" by (cases "sort_key cursor_of ?rows") auto
    have "fillResults U res view = view\<lparr>lv_Truncated := res_Truncated res, lv_IsViewer := True, lv_Rows := r # rs,
        lv_NextBeforeTs := lr_Ts r, lv_NextBeforeID := lr_ID r, lv_HasMore := True\<rparr>"
      using assms s by (simp add: fillResults_def Let_def)
    moreover have "\<forall>x \<in> set (r # rs). cursor_of r \<le> cursor_of x"
      using sort_key_hd_min [OF s] s by (metis set_sort)
    ultimately show ?thesis using s by (simp add: list_all_iff cursor_of_def)
  qed
  ultimately show ?thesis by (auto simp: rows Let_def)
qed

definition ui_sample :: ui_env where
  "ui_sample = \<lparr>ue_sqlp = sqlp_sample, ue_string = (\<lambda>_. []),
     ue_query = (\<lambda>_ _. \<lparr>rs_start = None, rs_columns = Inr [], rs_rows = [], rs_err = None\<rparr>),
     ue_fmt = (\<lambda>_. []), ue_oor = (\<lambda>_. 0)\<rparr>"

definition result_sample :: Result where
  "result_sample = \<lparr>res_Columns = logViewerColumns,
     res_Rows = [[CInt 2, CInt 5, CInt 5, CNull, CText ''api'', CText ''h'', CNull, CNull, CText ''b''],
                 [CInt 1, CInt 5, CInt 5, CNull, CText ''api'', CText ''h'', CNull, CNull, CText ''a'']],
     res_Truncated = False\<rparr>"

theorem fill_results_cursor_witness:
  "sorted (map cursor_of (lv_Rows (fillResults ui_sample result_sample (emptyView [] [] []))))"
proof -
  have "isViewer (res_Columns result_sample)"
    by (simp add: result_sample_def isViewer_def logViewerColumns_def colIdx_def)
  from fill_results_cursor [OF this] show ?thesis by blast
qed

text \<open>
  The first page is not ordered by id within a timestamp: the default query, and any the user
  writes, may order by timestamp alone, and then SQL leaves the order of ties open. When its limit
  cuts through rows of one timestamp, the cursor is the smallest id it happened to return, and the
  rows with greater ids that were cut off lie at no page: here row 2 of two rows is never shown.
\<close>

definition tieDb :: "Cursor list" where
  "tieDb = [Cursor 5 1, Cursor 5 2]"

lemma first_page_tie_skips:
  "\<exists>first. sorted_wrt (\<lambda>a b. c_ts a \<ge> c_ts b) tieDb \<and> first = take 1 tieDb
     \<and> (\<exists>c. nextCursor first = Some c \<and> Cursor 5 2 \<notin> set first \<union> set (scroll k n tieDb c))"
proof -
  have "filter (\<lambda>r. r < Cursor 5 1) tieDb = []" by (simp add: tieDb_def less_Cursor_def)
  then have "scroll k n tieDb (Cursor 5 1) = []" by (cases k) (simp_all add: pageOf_def nextCursor_def)
  then show ?thesis by (simp add: tieDb_def nextCursor_def)
qed

section \<open>Exports\<close>

text \<open>
  An exported cell cannot start a spreadsheet formula: unless the text is a genuine number, no
  cell of the export begins with one of the characters that start one, and a cell is never
  changed otherwise than by a leading quote.
\<close>

lemma csv_no_formula:
  "(csvSafe pf s = s \<or> csvSafe pf s = squote # s)
   \<and> (csvSafe pf s = [] \<or> pf s \<or> hd (csvSafe pf s) \<notin> set formulaStart)"
  by (auto simp: csvSafe_def formulaStart_def split: list.splits)

end
