(* ===== verification/Machine.thy ===== *)
theory Machine
  imports Go_Prelude "HOL-Library.Multiset"
begin

text \<open>
  Concurrent components as transition systems. A component gives an executable operation
  \<open>exec a s\<close>, which performs the atomic action \<open>a\<close> of one goroutine, or is
  \<open>None\<close> when that goroutine is blocked or elsewhere; the interleavings of the program are
  the sequences of such actions. The two ingestion pipelines share their admission protocol
  (\<open>TryIngest\<close> in \<open>ingestion/pipeline.go\<close>, \<open>TryPush\<close> in
  \<open>metrics/pipeline.go\<close>); what both promise about their budget is the locale
  \<open>budget\<close>.
\<close>

section \<open>Reachable states\<close>

inductive reachable :: "('a \<Rightarrow> 's \<Rightarrow> 's option) \<Rightarrow> 's \<Rightarrow> 's \<Rightarrow> bool"
  for exec :: "'a \<Rightarrow> 's \<Rightarrow> 's option" and s0 :: 's where
  reach_init: "reachable exec s0 s0"
| reach_step: "reachable exec s0 s \<Longrightarrow> exec a s = Some s' \<Longrightarrow> reachable exec s0 s'"

fun run :: "('a \<Rightarrow> 's \<Rightarrow> 's option) \<Rightarrow> 'a list \<Rightarrow> 's \<Rightarrow> 's option" where
  "run exec [] s = Some s"
| "run exec (a # as) s = (case exec a s of None \<Rightarrow> None | Some s' \<Rightarrow> run exec as s')"

lemma run_append:
  "run exec (as @ bs) s = (case run exec as s of None \<Rightarrow> None | Some s' \<Rightarrow> run exec bs s')"
  by (induction as arbitrary: s) (auto split: option.splits)

lemma run_reachable:
  "reachable exec s0 s \<Longrightarrow> run exec as s = Some s' \<Longrightarrow> reachable exec s0 s'"
  by (induction as arbitrary: s) (auto split: option.splits intro: reach_step)

lemma reachable_run: "reachable exec s0 s \<longleftrightarrow> (\<exists>as. run exec as s0 = Some s)"
proof
  assume "reachable exec s0 s"
  then show "\<exists>as. run exec as s0 = Some s"
  proof induction
    case reach_init
    have "run exec [] s0 = Some s0" by simp
    then show ?case by blast
  next
    case (reach_step s a s')
    then obtain as where "run exec as s0 = Some s" by blast
    with reach_step have "run exec (as @ [a]) s0 = Some s'" by (simp add: run_append)
    then show ?case by blast
  qed
qed (auto intro: run_reachable reach_init)

lemma reachable_invariant:
  assumes "reachable exec s0 s" and "I s0" and "\<And>a s s'. I s \<Longrightarrow> exec a s = Some s' \<Longrightarrow> I s'"
  shows "I s"
  using assms(1) by induction (auto intro: assms(2,3))

section \<open>Sums over updated lists\<close>

lemma sum_list_map_update:
  fixes f :: "'a \<Rightarrow> nat"
  assumes "i < length xs"
  shows "sum_list (map f (xs[i := x])) + f (xs ! i) = sum_list (map f xs) + f x"
  using assms
proof (induction xs arbitrary: i)
  case Nil
  then show ?case by simp
next
  case (Cons y ys)
  then show ?case by (cases i) (auto simp: algebra_simps)
qed

lemma sum_mset_list_update:
  fixes f :: "'a \<Rightarrow> 'b multiset"
  assumes "i < length xs"
  shows "sum_list (map f (xs[i := x])) + f (xs ! i) = sum_list (map f xs) + f x"
  using assms
proof (induction xs arbitrary: i)
  case Nil
  then show ?case by simp
next
  case (Cons y ys)
  then show ?case by (cases i) (auto simp: algebra_simps)
qed

lemma sum_list_nth_le: "i < length xs \<Longrightarrow> f (xs ! i) \<le> sum_list (map f xs)" for f :: "'a \<Rightarrow> nat"
  by (induction xs arbitrary: i) (auto simp: nth_Cons' intro: trans_le_add2)

lemma list_all_update: "list_all P xs \<Longrightarrow> P x \<Longrightarrow> list_all P (xs[i := x])"
  by (auto simp: list_all_iff dest: set_update_subset_insert [THEN subsetD])

lemma list_all_nth: "list_all P xs \<Longrightarrow> i < length xs \<Longrightarrow> P (xs ! i)"
  by (simp add: list_all_length)

section \<open>Callers of the admission gate\<close>

text \<open>
  A goroutine inside \<open>TryIngest\<close> or \<open>TryPush\<close>: past the closed check and
  holding the read lock (\<open>Entered\<close>), its weight added and within the budget
  (\<open>Reserved\<close>), its weight added and to be taken back (\<open>RollingBack\<close>), or
  returned.
\<close>

datatype 'e caller = Entered 'e | Reserved 'e | RollingBack 'e | Returned bool

fun reserved_weight :: "('e \<Rightarrow> nat) \<Rightarrow> 'e caller \<Rightarrow> nat" where
  "reserved_weight w (Reserved e) = w e"
| "reserved_weight w _ = 0"

fun rolling_weight :: "('e \<Rightarrow> nat) \<Rightarrow> 'e caller \<Rightarrow> nat" where
  "rolling_weight w (RollingBack e) = w e"
| "rolling_weight w _ = 0"

fun returned :: "'e caller \<Rightarrow> bool" where
  "returned (Returned b) = True"
| "returned _ = False"

lemma not_all_returned: "list_all returned cs \<Longrightarrow> i < length cs \<Longrightarrow> cs ! i = c \<Longrightarrow> returned c"
  by (auto dest: list_all_nth)

definition reserved_sum :: "('e \<Rightarrow> nat) \<Rightarrow> 'e caller list \<Rightarrow> nat" where
  "reserved_sum w cs = sum_list (map (reserved_weight w) cs)"

definition rolling_sum :: "('e \<Rightarrow> nat) \<Rightarrow> 'e caller list \<Rightarrow> nat" where
  "rolling_sum w cs = sum_list (map (rolling_weight w) cs)"

lemma caller_sums_snoc [simp]:
  "reserved_sum w (cs @ [c]) = reserved_sum w cs + reserved_weight w c"
  "rolling_sum w (cs @ [c]) = rolling_sum w cs + rolling_weight w c"
  by (simp_all add: reserved_sum_def rolling_sum_def)

lemma caller_sums_update:
  assumes "i < length cs"
  shows "reserved_sum w (cs[i := c]) + reserved_weight w (cs ! i) = reserved_sum w cs + reserved_weight w c"
    and "rolling_sum w (cs[i := c]) + rolling_weight w (cs ! i) = rolling_sum w cs + rolling_weight w c"
  using assms by (simp_all add: reserved_sum_def rolling_sum_def sum_list_map_update)

text \<open>The same as integer equations, for the simplifier.\<close>

lemma int_sum_list_update:
  fixes f :: "'a \<Rightarrow> nat"
  assumes "i < length xs"
  shows "int (sum_list (map f (xs[i := x]))) = int (sum_list (map f xs)) + int (f x) - int (f (xs ! i))"
  using sum_list_map_update [OF assms, of f x] by linarith

lemma caller_sums_int:
  assumes "i < length cs"
  shows "int (reserved_sum w (cs[i := c])) =
      int (reserved_sum w cs) + int (reserved_weight w c) - int (reserved_weight w (cs ! i))"
    and "int (rolling_sum w (cs[i := c])) =
      int (rolling_sum w cs) + int (rolling_weight w c) - int (rolling_weight w (cs ! i))"
  using assms by (simp_all only: reserved_sum_def rolling_sum_def int_sum_list_update)

section \<open>The budget contract\<close>

text \<open>
  A system whose states carry a counter. \<open>admitted\<close> is the weight of what has been let in
  and not yet released, \<open>transient\<close> the weight of the callers that are about to take
  their reservation back. The counter is the sum of both, and \<open>admitted\<close> grows only in
  a step that leaves the counter within the limit.
\<close>

locale budget =
  fixes exec :: "'a \<Rightarrow> 's \<Rightarrow> 's option"
    and init :: 's
    and counter :: "'s \<Rightarrow> int"
    and admitted :: "'s \<Rightarrow> nat"
    and transient :: "'s \<Rightarrow> nat"
    and limit :: int
  assumes limit_nonneg: "0 \<le> limit"
    and init_empty: "counter init = 0" "admitted init = 0" "transient init = 0"
    and accounting: "exec a s = Some s' \<Longrightarrow>
      counter s' - int (admitted s') - int (transient s')
        = counter s - int (admitted s) - int (transient s)"
    and guarded: "exec a s = Some s' \<Longrightarrow> admitted s < admitted s' \<Longrightarrow> counter s' \<le> limit"
begin

lemma counter_exact:
  assumes "reachable exec init s"
  shows "counter s = int (admitted s) + int (transient s)"
  using assms
proof induction
  case reach_init
  show ?case by (simp add: init_empty)
next
  case (reach_step s a s')
  then show ?case using accounting [OF reach_step.hyps(2)] by simp
qed

lemma within_limit:
  assumes "reachable exec init s"
  shows "int (admitted s) \<le> limit"
  using assms
proof induction
  case reach_init
  show ?case by (simp add: init_empty limit_nonneg)
next
  case (reach_step s a s')
  show ?case
  proof (cases "admitted s < admitted s'")
    case True
    then have "counter s' \<le> limit" using guarded reach_step.hyps(2) by blast
    moreover have "counter s' = int (admitted s') + int (transient s')"
      using counter_exact reach_step.hyps by (blast intro: reachable.reach_step)
    ultimately show ?thesis by simp
  next
    case False
    then show ?thesis using reach_step.IH by simp
  qed
qed

lemma budget_safe:
  assumes "reachable exec init s"
  shows "0 \<le> counter s \<and> int (admitted s) \<le> limit \<and> counter s \<le> limit + int (transient s)"
  using counter_exact [OF assms] within_limit [OF assms] by simp

end

end
