(* ===== verification/Auth_State.thy ===== *)
theory Auth_State
  imports Machine
begin

text \<open>
  The in-memory authentication state: failed-login throttling (\<open>services/throttling.go\<close>)
  and UI sessions (\<open>services/sessions.go\<close>). Every operation holds the service's mutex and
  is atomic; the clock is an argument. A Go map is an association list with distinct keys whose
  order stands for the unspecified iteration order: the lemmas hold for every order.
\<close>

section \<open>Sweeping\<close>

text \<open>
  Both services are pruned in the background. What they promise is that a sweep is invisible: an
  observation at or after the time of the sweep does not change.
\<close>

locale sweepable =
  fixes inv :: "'s \<Rightarrow> bool"
    and sweep :: "int \<Rightarrow> 's \<Rightarrow> 's"
    and observe :: "'k \<Rightarrow> int \<Rightarrow> 's \<Rightarrow> bool"
  assumes sweep_inv: "inv s \<Longrightarrow> inv (sweep t s)"
    and sweep_invisible: "inv s \<Longrightarrow> t \<le> t' \<Longrightarrow> observe k t' (sweep t s) = observe k t' s"
begin

lemma sweeps_invisible:
  "inv s \<Longrightarrow> list_all (\<lambda>t. t \<le> t') ts \<Longrightarrow> observe k t' (fold sweep ts s) = observe k t' s"
  by (induction ts arbitrary: s) (auto simp: sweep_invisible sweep_inv)

end

section \<open>Throttling\<close>

definition throttlingWindowMs :: int where "throttlingWindowMs = 60 * 1000"
definition throttlingMaxFails :: nat where "throttlingMaxFails = 5"
definition throttlingLockoutMs :: int where "throttlingLockoutMs = 60 * 1000"
definition throttlingStaleMs :: int where "throttlingStaleMs = 10 * 60 * 1000"
definition throttlingMaxEntries :: nat where "throttlingMaxEntries = 10000"

record throttlingEntry =
  te_failures :: "int list"
  te_lockedUntil :: int
  te_lastSeenMs :: int

type_synonym throttling = "(string \<times> throttlingEntry) list"

definition newEntry :: throttlingEntry where
  "newEntry = \<lparr>te_failures = [], te_lockedUntil = 0, te_lastSeenMs = 0\<rparr>"

definition t_sweep :: "int \<Rightarrow> throttling \<Rightarrow> throttling" where
  "t_sweep nowMs ts =
     filter (\<lambda>(ip, e). \<not> (te_lastSeenMs e < nowMs - throttlingStaleMs \<and> nowMs \<ge> te_lockedUntil e)) ts"

definition IsLocked :: "string \<Rightarrow> int \<Rightarrow> throttling \<Rightarrow> bool" where
  "IsLocked ip now ts = (case map_of ts ip of None \<Rightarrow> False | Some e \<Rightarrow> now < te_lockedUntil e)"

text \<open>The scan for the oldest entry, with the empty string for \<open>none yet\<close>, as the code has it.\<close>

record eviction =
  ev_ip :: string
  ev_ms :: int
  ev_lockedIP :: string
  ev_lockedMs :: int

definition evictStep :: "int \<Rightarrow> string \<times> throttlingEntry \<Rightarrow> eviction \<Rightarrow> eviction" where
  "evictStep now x s =
     (case x of (ip, e) \<Rightarrow>
        if now < te_lockedUntil e
        then (if ev_lockedIP s = [] \<or> te_lastSeenMs e < ev_lockedMs s
              then s\<lparr>ev_lockedMs := te_lastSeenMs e, ev_lockedIP := ip\<rparr> else s)
        else (if ev_ip s = [] \<or> te_lastSeenMs e < ev_ms s
              then s\<lparr>ev_ms := te_lastSeenMs e, ev_ip := ip\<rparr> else s))"

definition evictOldestEntryLocked :: "int \<Rightarrow> throttling \<Rightarrow> throttling" where
  "evictOldestEntryLocked now ts =
     (let s = fold (evictStep now) ts \<lparr>ev_ip = [], ev_ms = 0, ev_lockedIP = [], ev_lockedMs = 0\<rparr>
      in if ev_ip s \<noteq> [] then filter (\<lambda>(ip, e). ip \<noteq> ev_ip s) ts
         else filter (\<lambda>(ip, e). ip \<noteq> ev_lockedIP s) ts)"

definition failEntry :: "int \<Rightarrow> throttlingEntry \<Rightarrow> throttlingEntry" where
  "failEntry now e =
     (let fs = filter (\<lambda>t. t > now - throttlingWindowMs) (te_failures e) @ [now];
          e1 = e\<lparr>te_failures := fs, te_lastSeenMs := now\<rparr>
      in if length fs \<ge> throttlingMaxFails
         then e1\<lparr>te_lockedUntil := now + throttlingLockoutMs, te_failures := []\<rparr> else e1)"

definition RecordFailure :: "string \<Rightarrow> int \<Rightarrow> throttling \<Rightarrow> throttling" where
  "RecordFailure ip now ts =
     (let ts1 = (if map_of ts ip = None
                 then (if length ts \<ge> throttlingMaxEntries then evictOldestEntryLocked now ts else ts) @ [(ip, newEntry)]
                 else ts)
      in map (\<lambda>(k, e). (k, if k = ip then failEntry now e else e)) ts1)"

definition t_inv :: "throttling \<Rightarrow> bool" where
  "t_inv ts \<longleftrightarrow> distinct (map fst ts) \<and> length ts \<le> throttlingMaxEntries"

subsection \<open>Eviction\<close>

lemma map_of_filter_key: "map_of (filter (\<lambda>(k, e). k \<noteq> x) ts) k = (if k = x then None else map_of ts k)"
  by (induction ts) auto

lemma map_of_map_entry:
  "map_of (map (\<lambda>(k, e). (k, if k = ip then f e else e)) ts) k =
     (if k = ip then map_option f (map_of ts k) else map_of ts k)"
  by (induction ts) auto

text \<open>Whatever the scan picks is a key of the map, of the right kind.\<close>

definition picked :: "int \<Rightarrow> throttling \<Rightarrow> eviction \<Rightarrow> bool" where
  "picked now seen s \<longleftrightarrow>
     (ev_ip s \<noteq> [] \<longrightarrow> (\<exists>e. (ev_ip s, e) \<in> set seen \<and> \<not> now < te_lockedUntil e))
   \<and> (ev_lockedIP s \<noteq> [] \<longrightarrow> (\<exists>e. (ev_lockedIP s, e) \<in> set seen \<and> now < te_lockedUntil e))
   \<and> (seen \<noteq> [] \<longrightarrow> ev_ip s \<noteq> [] \<or> ev_lockedIP s \<noteq> [] \<or> [] \<in> fst ` set seen)
   \<and> ((\<exists>ip e. (ip, e) \<in> set seen \<and> \<not> now < te_lockedUntil e) \<and> [] \<notin> fst ` set seen \<longrightarrow> ev_ip s \<noteq> [])"

lemma picked_step:
  assumes "picked now seen s"
  shows "picked now (seen @ [x]) (evictStep now x s)"
proof -
  obtain ip e where x: "x = (ip, e)" by (cases x)
  show ?thesis
  proof (cases "now < te_lockedUntil e")
    case True
    with assms x show ?thesis unfolding picked_def by (auto simp: evictStep_def)
  next
    case False
    with assms x show ?thesis unfolding picked_def by (auto simp: evictStep_def)
  qed
qed

lemma picked_fold: "picked now seen s \<Longrightarrow> picked now (seen @ ts) (fold (evictStep now) ts s)"
proof (induction ts arbitrary: seen s)
  case Nil
  then show ?case by simp
next
  case (Cons x ts)
  from Cons.IH [OF picked_step [OF Cons.prems]] show ?case by simp
qed

definition evictScan :: "int \<Rightarrow> throttling \<Rightarrow> eviction" where
  "evictScan now ts = fold (evictStep now) ts \<lparr>ev_ip = [], ev_ms = 0, ev_lockedIP = [], ev_lockedMs = 0\<rparr>"

lemma evictScan_picked: "picked now ts (evictScan now ts)"
proof -
  have "picked now [] \<lparr>ev_ip = [], ev_ms = 0, ev_lockedIP = [], ev_lockedMs = 0\<rparr>" by (simp add: picked_def)
  from picked_fold [OF this, of ts] show ?thesis by (simp add: evictScan_def)
qed

lemma evict_eq:
  "evictOldestEntryLocked now ts =
     filter (\<lambda>(ip, e). ip \<noteq> (if ev_ip (evictScan now ts) \<noteq> [] then ev_ip (evictScan now ts)
       else ev_lockedIP (evictScan now ts))) ts"
  by (simp add: evictOldestEntryLocked_def evictScan_def Let_def)

lemma evicted_key:
  assumes "ts \<noteq> []"
  shows "(if ev_ip (evictScan now ts) \<noteq> [] then ev_ip (evictScan now ts)
    else ev_lockedIP (evictScan now ts)) \<in> fst ` set ts"
proof -
  note p = evictScan_picked [of now ts, unfolded picked_def]
  consider "ev_ip (evictScan now ts) \<noteq> []" | "ev_ip (evictScan now ts) = []" "ev_lockedIP (evictScan now ts) \<noteq> []"
    | "ev_ip (evictScan now ts) = []" "ev_lockedIP (evictScan now ts) = []" by blast
  then show ?thesis
  proof cases
    case 1
    with p obtain e where "(ev_ip (evictScan now ts), e) \<in> set ts" by blast
    then have "ev_ip (evictScan now ts) \<in> fst ` set ts" by (rule image_eqI [rotated]) simp
    with 1 show ?thesis by (simp only: if_True simp_thms)
  next
    case 2
    with p obtain e where "(ev_lockedIP (evictScan now ts), e) \<in> set ts" by blast
    then have "ev_lockedIP (evictScan now ts) \<in> fst ` set ts" by (rule image_eqI [rotated]) simp
    with 2 show ?thesis by (simp only: if_False simp_thms)
  next
    case 3
    with p assms have "[] \<in> fst ` set ts" by blast
    with 3 show ?thesis by (simp only: if_False simp_thms)
  qed
qed

lemma filter_key_shorter: "x \<in> fst ` set ts \<Longrightarrow> length (filter (\<lambda>(ip, e). ip \<noteq> x) ts) < length ts"
  using length_filter_less [of _ ts "\<lambda>(ip, e). ip \<noteq> x"] by force

lemma evict_shrinks: "ts \<noteq> [] \<Longrightarrow> length (evictOldestEntryLocked now ts) < length ts"
  unfolding evict_eq by (intro filter_key_shorter evicted_key)

text \<open>A locked entry survives an eviction while an unlocked one is left.\<close>

lemma evict_keeps_locked:
  assumes "map_of ts ip = Some e" and "now < te_lockedUntil e" and "distinct (map fst ts)"
    and "[] \<notin> fst ` set ts" and "(ip', e') \<in> set ts" and "\<not> now < te_lockedUntil e'"
  shows "map_of (evictOldestEntryLocked now ts) ip = Some e"
proof -
  let ?x = "ev_ip (evictScan now ts)"
  have x: "?x \<noteq> []" and "\<exists>e'. (?x, e') \<in> set ts \<and> \<not> now < te_lockedUntil e'"
    using evictScan_picked [of now ts] assms(4-6) unfolding picked_def by blast+
  then obtain f where "map_of ts ?x = Some f" "\<not> now < te_lockedUntil f" using assms(3) by auto
  with assms(1,2) have "ip \<noteq> ?x" by auto
  with x assms(1) show ?thesis by (simp add: evict_eq map_of_filter_key)
qed

subsection \<open>The invariant and the lockout\<close>

lemma distinct_filter_keys: "distinct (map fst ts) \<Longrightarrow> distinct (map fst (filter P ts))"
  by (simp add: distinct_map_filter)

lemma fst_map_entry [simp]: "map fst (map (\<lambda>(k, e). (k, if k = ip then f e else e)) ts) = map fst ts"
  by (induction ts) auto

lemma t_inv_sweep: "t_inv ts \<Longrightarrow> t_inv (t_sweep now ts)"
  by (auto simp: t_inv_def t_sweep_def distinct_filter_keys intro: order_trans [OF length_filter_le])

lemma evict_distinct: "distinct (map fst ts) \<Longrightarrow> distinct (map fst (evictOldestEntryLocked now ts))"
  by (simp add: evict_eq distinct_filter_keys)

lemma evict_subset: "set (evictOldestEntryLocked now ts) \<subseteq> set ts"
  by (auto simp: evict_eq)

lemma t_inv_fail:
  assumes "t_inv ts"
  shows "t_inv (RecordFailure ip now ts)"
proof (cases "map_of ts ip")
  case None
  then have new: "ip \<notin> fst ` set ts" by (simp add: map_of_eq_None_iff)
  let ?b = "if length ts \<ge> throttlingMaxEntries then evictOldestEntryLocked now ts else ts"
  have "distinct (map fst ?b)" "set ?b \<subseteq> set ts"
    using assms evict_distinct evict_subset by (simp_all add: t_inv_def)
  moreover have "length ?b < throttlingMaxEntries"
  proof (cases "length ts \<ge> throttlingMaxEntries")
    case True
    then have "ts \<noteq> []" by (auto simp: throttlingMaxEntries_def)
    with True assms evict_shrinks [OF this, of now] show ?thesis by (simp add: t_inv_def)
  qed simp
  ultimately show ?thesis using new None by (auto simp: t_inv_def RecordFailure_def Let_def simp del: map_map)
next
  case (Some e)
  with assms show ?thesis by (simp add: t_inv_def RecordFailure_def Let_def del: map_map)
qed

lemma RecordFailure_entry:
  "map_of (RecordFailure ip now ts) ip =
     Some (failEntry now (case map_of ts ip of None \<Rightarrow> newEntry | Some e \<Rightarrow> e))"
proof (cases "map_of ts ip")
  case None
  have "map_of (evictOldestEntryLocked now ts) ip = None"
    using None by (simp add: evict_eq map_of_filter_key)
  with None show ?thesis
    by (simp add: RecordFailure_def Let_def map_of_map_entry map_add_def del: map_append)
next
  case (Some e)
  then show ?thesis by (simp add: RecordFailure_def Let_def map_of_map_entry)
qed

lemma failEntry_cases:
  obtains "te_lockedUntil (failEntry now e) = now + throttlingLockoutMs"
  | "te_lockedUntil (failEntry now e) = te_lockedUntil e"
    "te_failures (failEntry now e) = filter (\<lambda>t. t > now - throttlingWindowMs) (te_failures e) @ [now]"
    "length (te_failures (failEntry now e)) < throttlingMaxFails"
proof (cases "length (filter (\<lambda>t. t > now - throttlingWindowMs) (te_failures e) @ [now]) \<ge> throttlingMaxFails")
  case True
  then show ?thesis by (intro that(1)) (simp add: failEntry_def Let_def)
next
  case False
  then show ?thesis by (intro that(2)) (simp_all add: failEntry_def Let_def)
qed

text \<open>
  Failures inside one window: the entry is locked at the end, or it has counted them all.
\<close>

lemma failures_counted:
  assumes "\<forall>t \<in> set ts. T - throttlingWindowMs < t \<and> t \<le> T" and "suffix ps (te_failures e)"
    and "\<forall>t \<in> set ps. T - throttlingWindowMs < t" and "length ps < throttlingMaxFails \<or> ts \<noteq> []"
  shows "T < te_lockedUntil (fold failEntry ts e)
    \<or> suffix (ps @ ts) (te_failures (fold failEntry ts e)) \<and> length (ps @ ts) < throttlingMaxFails"
  using assms
proof (induction ts arbitrary: ps e)
  case Nil
  then show ?case by simp
next
  case (Cons t ts)
  have keep: "T < te_lockedUntil (fold failEntry us f)"
    if "T < te_lockedUntil f" and "\<forall>u \<in> set us. T - throttlingWindowMs < u" for us f
    using that
  proof (induction us arbitrary: f)
    case (Cons u us)
    have "T < te_lockedUntil (failEntry u f)"
      using Cons.prems by (cases rule: failEntry_cases [of u f])
        (auto simp: throttlingLockoutMs_def throttlingWindowMs_def)
    with Cons show ?case by simp
  qed simp
  have t: "T - throttlingWindowMs < t" "t \<le> T" using Cons.prems(1) by simp_all
  show ?case
  proof (cases rule: failEntry_cases [of t e])
    case 1
    then have "T < te_lockedUntil (failEntry t e)"
      using t by (simp add: throttlingLockoutMs_def throttlingWindowMs_def)
    with keep Cons.prems(1) show ?thesis by simp
  next
    case 2
    obtain zs where z: "te_failures e = zs @ ps" using Cons.prems(2) by (auto simp: suffix_def)
    have "filter (\<lambda>u. u > t - throttlingWindowMs) ps = ps"
      using Cons.prems(3) t(2) by (fastforce intro: filter_True)
    then have "suffix (ps @ [t]) (te_failures (failEntry t e))" using 2 z by (simp add: suffix_def)
    moreover from this 2(3) have "length (ps @ [t]) < throttlingMaxFails" by (meson le_less_trans suffix_length_le)
    ultimately show ?thesis using Cons.IH [of "ps @ [t]" "failEntry t e"] Cons.prems t by simp
  qed
qed

lemma fold_RecordFailure:
  assumes "ts \<noteq> []"
  shows "map_of (fold (RecordFailure ip) ts s) ip =
    Some (fold failEntry ts (case map_of s ip of None \<Rightarrow> newEntry | Some e \<Rightarrow> e))"
  using assms
proof (induction ts arbitrary: s)
  case (Cons t ts)
  then show ?case by (cases "ts = []") (simp_all add: RecordFailure_entry)
qed simp

lemma map_of_filter_distinct:
  "distinct (map fst s) \<Longrightarrow> map_of (filter P s) k =
     (case map_of s k of None \<Rightarrow> None | Some v \<Rightarrow> if P (k, v) then Some v else None)"
proof (induction s)
  case Nil
  then show ?case by simp
next
  case (Cons x s)
  obtain a b where x: "x = (a, b)" by (cases x)
  have "map_of (filter P s) a = None" if "a \<notin> fst ` set s"
    using that by (auto simp: map_of_eq_None_iff)
  with Cons x show ?case by (auto split: option.splits)
qed

interpretation throttle: sweepable t_inv t_sweep IsLocked
proof
  fix t t' :: int and ip :: string and s :: throttling
  assume "t_inv s" and t: "t \<le> t'"
  then have "map_of (t_sweep t s) ip = (case map_of s ip of None \<Rightarrow> None
      | Some e \<Rightarrow> if \<not> (te_lastSeenMs e < t - throttlingStaleMs \<and> t \<ge> te_lockedUntil e) then Some e else None)"
    by (simp add: t_sweep_def t_inv_def map_of_filter_distinct split: option.splits)
  then show "IsLocked ip t' (t_sweep t s) = IsLocked ip t' s"
    using t by (auto simp: IsLocked_def split: option.splits if_splits)
qed (rule t_inv_sweep)

subsection \<open>Runs of the service\<close>

datatype t_op = TFail string int | TSweep int

fun t_exec :: "t_op \<Rightarrow> throttling \<Rightarrow> throttling" where
  "t_exec (TFail ip now) ts = RecordFailure ip now ts"
| "t_exec (TSweep now) ts = t_sweep now ts"

text \<open>
  The table of tracked addresses is bounded: whatever failures and sweeps happen, from however
  many addresses, it never has more than \<open>throttlingMaxEntries\<close> entries, one for each address.
\<close>

theorem throttle_bounded:
  "length (fold t_exec ops []) \<le> throttlingMaxEntries \<and> distinct (map fst (fold t_exec ops []))"
proof -
  have "t_inv (fold t_exec ops ts)" if "t_inv ts" for ts
    using that
  proof (induction ops arbitrary: ts)
    case (Cons op ops)
    then show ?case by (cases op) (auto intro: t_inv_fail t_inv_sweep)
  qed simp
  from this [of "[]"] show ?thesis by (simp add: t_inv_def)
qed

lemma failures_lock:
  assumes "throttlingMaxFails \<le> length ts" and "list_all (\<lambda>t. now - throttlingWindowMs < t \<and> t \<le> now) ts"
  shows "IsLocked ip now (fold (RecordFailure ip) ts s)"
proof -
  have ne: "ts \<noteq> []" using assms(1) by (auto simp: throttlingMaxFails_def)
  have "now < te_lockedUntil (fold failEntry ts (case map_of s ip of None \<Rightarrow> newEntry | Some e \<Rightarrow> e))"
    using failures_counted [of ts now "[]"] assms ne by (force simp: list_all_iff)
  then show ?thesis by (simp add: IsLocked_def fold_RecordFailure [OF ne])
qed

text \<open>
  Brute force is locked out. After five failures of an address within one window, in whatever
  state the service was, the address is locked, and sweeps up to the moment of asking do not
  unlock it.
\<close>

theorem throttle_locks:
  assumes "t_inv s" and "throttlingMaxFails \<le> length ts"
    and "list_all (\<lambda>t. now - throttlingWindowMs < t \<and> t \<le> now) ts" and "list_all (\<lambda>t. t \<le> now) sweeps"
  shows "IsLocked ip now (fold t_sweep sweeps (fold (RecordFailure ip) ts s))"
proof -
  let ?s = "fold (RecordFailure ip) ts s"
  have inv: "t_inv ?s" using assms(1) by (induction ts arbitrary: s) (auto intro: t_inv_fail)
  from failures_lock [OF assms(2,3)] show ?thesis using throttle.sweeps_invisible [OF inv assms(4)] by blast
qed

theorem throttle_locks_witness:
  "IsLocked ''10.0.0.1'' 5000 (fold t_sweep [4500] (fold (RecordFailure ''10.0.0.1'') [1000, 2000, 3000, 4000, 5000] []))"
  using throttle_locks [of "[]" "[1000, 2000, 3000, 4000, 5000]" 5000 "[4500]"]
  by (simp add: t_inv_def throttlingMaxFails_def throttlingWindowMs_def del: fold.simps)

text \<open>
  Flooding does not lift a lockout. While an address is locked, failures of other addresses
  leave its entry alone, even when the table is full and an entry has to go, as long as the table
  holds an unlocked one.
\<close>

theorem lockout_survives_flood:
  assumes "t_inv ts" and "[] \<notin> fst ` set ts" and "map_of ts ip = Some e" and "now < te_lockedUntil e"
    and "other \<noteq> ip" and "(ip', e') \<in> set ts" and "\<not> now < te_lockedUntil e'"
  shows "map_of (RecordFailure other now ts) ip = Some e"
proof -
  have d: "distinct (map fst ts)" using assms(1) by (simp add: t_inv_def)
  have "map_of (evictOldestEntryLocked now ts) ip = Some e"
    using assms(3,4) d assms(2,6,7) by (rule evict_keeps_locked)
  with assms(3,5) show ?thesis
    by (auto simp: RecordFailure_def Let_def map_of_map_entry map_add_def split: option.splits simp del: map_append)
qed

definition flood_sample :: throttling where
  "flood_sample = [(''10.0.0.1'', \<lparr>te_failures = [], te_lockedUntil = 60000, te_lastSeenMs = 0\<rparr>),
     (''10.0.0.2'', newEntry)]"

theorem lockout_survives_flood_witness:
  "map_of (RecordFailure ''10.0.0.3'' 1000 flood_sample) ''10.0.0.1'' =
     Some \<lparr>te_failures = [], te_lockedUntil = 60000, te_lastSeenMs = 0\<rparr>"
  using lockout_survives_flood [of flood_sample "''10.0.0.1''" "\<lparr>te_failures = [], te_lockedUntil = 60000, te_lastSeenMs = 0\<rparr>"
      1000 "''10.0.0.3''" "''10.0.0.2''" newEntry]
  by (simp add: flood_sample_def t_inv_def throttlingMaxEntries_def newEntry_def)

section \<open>Sessions\<close>

definition sessionExpiryDurationMs :: int where "sessionExpiryDurationMs = 7 * 24 * 60 * 60 * 1000"

type_synonym sessions = "string \<rightharpoonup> int"

definition s_sweep :: "int \<Rightarrow> sessions \<Rightarrow> sessions" where
  "s_sweep nowMs ss = (\<lambda>i. case ss i of None \<Rightarrow> None | Some expiry \<Rightarrow> if expiry < nowMs then None else Some expiry)"

text \<open>The id comes from \<open>uuid.New\<close>.\<close>

definition CreateSession :: "string \<Rightarrow> int \<Rightarrow> sessions \<Rightarrow> (string \<times> int) \<times> sessions" where
  "CreateSession uuid now ss =
     (let expiresAt = now + sessionExpiryDurationMs in ((uuid, expiresAt), ss(uuid \<mapsto> expiresAt)))"

definition IsSessionValid :: "string \<Rightarrow> int \<Rightarrow> sessions \<Rightarrow> bool" where
  "IsSessionValid sid now ss = (case ss sid of None \<Rightarrow> False | Some expiry \<Rightarrow> now < expiry)"

definition InvalidateSession :: "string \<Rightarrow> sessions \<Rightarrow> sessions" where
  "InvalidateSession sid ss = ss(sid := None)"

interpretation session: sweepable "\<lambda>_. True" s_sweep IsSessionValid
  by standard (auto simp: IsSessionValid_def s_sweep_def split: option.splits)

datatype s_op = SCreate string int | SInvalidate string | SSweep int

fun s_exec :: "s_op \<Rightarrow> sessions \<Rightarrow> sessions" where
  "s_exec (SCreate uuid now) ss = snd (CreateSession uuid now ss)"
| "s_exec (SInvalidate sid) ss = InvalidateSession sid ss"
| "s_exec (SSweep now) ss = s_sweep now ss"

text \<open>Reference: the last creation of the session that was not followed by an invalidation.\<close>

fun live_since :: "string \<Rightarrow> s_op list \<Rightarrow> int option \<Rightarrow> int option" where
  "live_since sid [] t = t"
| "live_since sid (SCreate uuid now # ops) t = live_since sid ops (if uuid = sid then Some now else t)"
| "live_since sid (SInvalidate i # ops) t = live_since sid ops (if i = sid then None else t)"
| "live_since sid (SSweep now # ops) t = live_since sid ops t"

fun op_before :: "int \<Rightarrow> s_op \<Rightarrow> bool" where
  "op_before T (SCreate uuid now) = True"
| "op_before T (SInvalidate i) = True"
| "op_before T (SSweep now) = (now \<le> T)"

lemma session_history:
  assumes "list_all (op_before T) ops"
    and "IsSessionValid sid T ss = (case t of None \<Rightarrow> False | Some c \<Rightarrow> T < c + sessionExpiryDurationMs)"
  shows "IsSessionValid sid T (fold s_exec ops ss) =
    (case live_since sid ops t of None \<Rightarrow> False | Some c \<Rightarrow> T < c + sessionExpiryDurationMs)"
  using assms
proof (induction ops arbitrary: ss t)
  case Nil
  then show ?case by simp
next
  case (Cons op ops)
  show ?case
  proof (cases op)
    case (SCreate uuid now)
    with Cons show ?thesis by (simp add: CreateSession_def IsSessionValid_def Let_def)
  next
    case (SInvalidate i)
    with Cons show ?thesis by (simp add: InvalidateSession_def IsSessionValid_def)
  next
    case (SSweep now)
    with Cons show ?thesis using session.sweep_invisible [of now T sid ss] by simp
  qed
qed

text \<open>
  C19: a session is valid for seven days from its creation, until it is invalidated, and at no other
  time. Background sweeps, whenever they ran, make no difference.
\<close>

theorem session_valid_iff:
  assumes "list_all (op_before T) ops"
  shows "IsSessionValid sid T (fold s_exec ops Map.empty) =
    (case live_since sid ops None of None \<Rightarrow> False | Some c \<Rightarrow> T < c + sessionExpiryDurationMs)"
  using session_history [OF assms, of sid Map.empty None] by (simp add: IsSessionValid_def)

theorem session_valid_iff_witness:
  "IsSessionValid ''a'' 1000 (fold s_exec [SCreate ''a'' 10, SSweep 900, SInvalidate ''b''] Map.empty)"
  using session_valid_iff [of 1000 "[SCreate ''a'' 10, SSweep 900, SInvalidate ''b'']" "''a''"]
  by (simp add: sessionExpiryDurationMs_def del: fold.simps)

end
