(* ===== verification/Meta_Table.thy ===== *)
theory Meta_Table
  imports Machine
begin

text \<open>
  Tables of \<open>meta.db\<close> with an \<open>INTEGER PRIMARY KEY\<close>
  (\<open>db/migrations/meta\<close>): rows under a row id. SQLite gives a new row the largest id in
  use plus one, so the id of a deleted last row is used again. What the services rely on is the
  contract \<open>id_store\<close>.
\<close>

type_synonym 'r table = "(int \<times> 'r) list"

definition next_rowid :: "'r table \<Rightarrow> int" where
  "next_rowid t = (if t = [] then 1 else Max (set (map fst t)) + 1)"

definition row_get :: "int \<Rightarrow> 'r table \<Rightarrow> 'r option" where
  "row_get i t = map_of t i"

definition row_insert :: "'r \<Rightarrow> 'r table \<Rightarrow> int \<times> 'r table" where
  "row_insert r t = (next_rowid t, t @ [(next_rowid t, r)])"

definition row_delete :: "int \<Rightarrow> 'r table \<Rightarrow> 'r table" where
  "row_delete i t = filter (\<lambda>(k, r). k \<noteq> i) t"

definition row_update :: "int \<Rightarrow> ('r \<Rightarrow> 'r) \<Rightarrow> 'r table \<Rightarrow> 'r table" where
  "row_update i f t = map (\<lambda>(k, r). (k, if k = i then f r else r)) t"

lemma next_rowid_fresh: "row_get (next_rowid t) t = None"
proof -
  have "next_rowid t \<notin> set (map fst t)"
  proof
    assume "next_rowid t \<in> set (map fst t)"
    then have "next_rowid t \<le> Max (set (map fst t))" by simp
    with \<open>next_rowid t \<in> set (map fst t)\<close> show False by (cases t) (auto simp: next_rowid_def)
  qed
  then show ?thesis by (simp add: row_get_def map_of_eq_None_iff)
qed

lemma row_get_insert:
  "row_get i (snd (row_insert r t)) = (if i = fst (row_insert r t) then Some r else row_get i t)"
  using next_rowid_fresh [of t]
  by (auto simp: row_insert_def row_get_def map_add_def split: option.splits)

lemma row_get_delete: "row_get i (row_delete j t) = (if i = j then None else row_get i t)"
  by (induction t) (auto simp: row_get_def row_delete_def)

lemma row_get_update: "row_get i (row_update j f t) = (if i = j then map_option f (row_get i t) else row_get i t)"
  by (induction t) (auto simp: row_get_def row_update_def)

section \<open>Row ids\<close>

text \<open>Every table keeps its row ids distinct.\<close>

definition keyed :: "'r table \<Rightarrow> bool" where
  "keyed t \<longleftrightarrow> distinct (map fst t)"

lemma keyed_Nil [simp]: "keyed []"
  by (simp add: keyed_def)

lemma keyed_insert [simp]: "keyed (snd (row_insert r t)) \<longleftrightarrow> keyed t"
proof -
  have "next_rowid t \<notin> set (map fst t)" using next_rowid_fresh [of t] by (simp add: row_get_def map_of_eq_None_iff)
  then show ?thesis by (auto simp: keyed_def row_insert_def)
qed

lemma keyed_delete: "keyed t \<Longrightarrow> keyed (row_delete i t)"
  by (auto simp: keyed_def row_delete_def distinct_map inj_on_def)

lemma keyed_update [simp]: "keyed (row_update i f t) \<longleftrightarrow> keyed t"
  by (simp add: keyed_def row_update_def comp_def case_prod_beta)

lemma keyed_filter: "keyed t \<Longrightarrow> keyed (filter P t)"
  by (auto simp: keyed_def distinct_map intro: inj_on_subset)

lemma row_get_mem: "keyed t \<Longrightarrow> row_get i t = Some r \<longleftrightarrow> (i, r) \<in> set t"
  by (simp add: keyed_def row_get_def)

text \<open>\<open>ORDER BY created_at DESC, id DESC\<close>\<close>

definition newest_first :: "('r \<Rightarrow> int) \<Rightarrow> 'r table \<Rightarrow> 'r table" where
  "newest_first created t = rev (sort_key (\<lambda>(i, r). created r) (sort_key fst t))"

lemma set_newest_first [simp]: "set (newest_first created t) = set t"
  by (simp add: newest_first_def)

lemma mset_newest_first: "mset (newest_first created t) = mset t"
  by (simp add: newest_first_def)

lemma keyed_newest_first [simp]: "keyed (newest_first created t) \<longleftrightarrow> keyed t"
proof -
  have "mset (map fst (newest_first created t)) = mset (map fst t)" by (simp add: mset_newest_first)
  then show ?thesis unfolding keyed_def by (metis mset_eq_imp_distinct_iff)
qed

section \<open>The contract of a table\<close>

text \<open>The contract of a table, and what every client gets from it.\<close>

locale id_store =
  fixes get :: "int \<Rightarrow> 's \<Rightarrow> 'r option"
    and insert :: "'r \<Rightarrow> 's \<Rightarrow> int \<times> 's"
    and delete :: "int \<Rightarrow> 's \<Rightarrow> 's"
    and update :: "int \<Rightarrow> ('r \<Rightarrow> 'r) \<Rightarrow> 's \<Rightarrow> 's"
  assumes insert_fresh: "get (fst (insert r s)) s = None"
    and get_insert: "get i (snd (insert r s)) = (if i = fst (insert r s) then Some r else get i s)"
    and get_delete: "get i (delete j s) = (if i = j then None else get i s)"
    and get_update: "get i (update j f s) = (if i = j then map_option f (get i s) else get i s)"
begin

lemma insert_keeps: "get i s = Some x \<Longrightarrow> get i (snd (insert r s)) = Some x"
  using insert_fresh [of r s] by (auto simp: get_insert)

lemma insert_then_get: "get (fst (insert r s)) (snd (insert r s)) = Some r"
  by (simp add: get_insert)

lemma delete_insert_get: "get i (delete (fst (insert r s)) (snd (insert r s))) = get i s"
  using insert_fresh [of r s] by (simp add: get_delete get_insert)

lemma update_absent: "get j s = None \<Longrightarrow> get i (update j f s) = get i s"
  by (auto simp: get_update)

end

interpretation meta: id_store row_get row_insert row_delete row_update
proof
  show "row_get (fst (row_insert r s)) s = None" for r :: 'a and s
    by (simp add: row_insert_def next_rowid_fresh)
qed (rule row_get_insert row_get_delete row_get_update)+

end
