(* ===== verification/Api_Keys.thy ===== *)
theory Api_Keys
  imports Meta_Table Go_Strconv
begin

text \<open>
  API keys, \<open>services/apikeys.go\<close>. Hashing, base64, \<open>Sscanf\<close> and SHA-256 are
  library code: the fields of \<open>crypto\<close>. \<open>Verify\<close> and \<open>Revoke\<close> run
  concurrently, and \<open>Verify\<close> spends a long time in argon2 between its two reads of the
  database; both are broken into their atomic steps. Database errors other than a missing row are
  not modelled: they make \<open>Verify\<close> answer false and \<open>Revoke\<close> stop.
\<close>

record crypto =
  argon :: "string \<Rightarrow> bytes \<Rightarrow> int \<Rightarrow> int \<Rightarrow> int \<Rightarrow> nat \<Rightarrow> bytes"
  argon_version :: int
  b64 :: "bytes \<Rightarrow> string"
  b64d :: "string \<Rightarrow> bytes option"
  scan_version :: "string \<Rightarrow> int option"
  scan_params :: "string \<Rightarrow> (int \<times> int \<times> int) option"
  sha256 :: "string \<Rightarrow> string"

definition apiKeyPrefix :: string where "apiKeyPrefix = ''pooml''"
definition argonMemoryKiB :: int where "argonMemoryKiB = 19456"
definition argonTime :: int where "argonTime = 2"
definition argonThreads :: int where "argonThreads = 1"
definition argonKeyLen :: nat where "argonKeyLen = 32"

section \<open>Hashes\<close>

definition paramText :: "int \<Rightarrow> int \<Rightarrow> int \<Rightarrow> string" where
  "paramText m t p = ''m='' @ itoa m @ '',t='' @ itoa t @ '',p='' @ itoa p"

definition hashSecret :: "crypto \<Rightarrow> bytes \<Rightarrow> string \<Rightarrow> string" where
  "hashSecret C salt secret =
     ''$argon2id$v='' @ itoa (argon_version C) @ ''$'' @ paramText argonMemoryKiB argonTime argonThreads @ ''$'' @
     b64 C salt @ ''$'' @ b64 C (argon C secret salt argonTime argonMemoryKiB argonThreads argonKeyLen)"

definition verifySecret :: "crypto \<Rightarrow> string \<Rightarrow> string \<Rightarrow> bool" where
  "verifySecret C secret phc =
     (case Split1 phc (CHR ''$'') of
        [p0, p1, p2, p3, p4, p5] \<Rightarrow>
          p1 = ''argon2id''
          \<and> (case scan_version C p2 of None \<Rightarrow> False | Some v \<Rightarrow> v = argon_version C)
          \<and> (case (scan_params C p3, b64d C p4, b64d C p5) of
               (Some (m, t, p), Some salt, Some want) \<Rightarrow> argon C secret salt t m p (length want) = want
             | _ \<Rightarrow> False)
      | _ \<Rightarrow> False)"

text \<open>What the code relies on of the libraries.\<close>

definition crypto_ok :: "crypto \<Rightarrow> bool" where
  "crypto_ok C \<longleftrightarrow>
     (\<forall>x. b64d C (b64 C x) = Some x) \<and> (\<forall>x. CHR ''$'' \<notin> set (b64 C x))
   \<and> scan_version C (''v='' @ itoa (argon_version C)) = Some (argon_version C)
   \<and> (\<forall>m t p. 0 \<le> m \<and> m < 2 ^ 32 \<and> 0 \<le> t \<and> t < 2 ^ 32 \<and> 0 \<le> p \<and> p < 2 ^ 8
        \<longrightarrow> scan_params C (paramText m t p) = Some (m, t, p))
   \<and> (\<forall>s salt t m p n. 1 \<le> t \<and> 1 \<le> p \<longrightarrow> length (argon C s salt t m p n) = n)"

lemma itoa_no_dollar: "CHR ''$'' \<notin> set (itoa n)" "CHR ''_'' \<notin> set (itoa n)"
proof -
  have d: "c \<noteq> CHR ''$'' \<and> c \<noteq> CHR ''_''" if "is_digit c" for c using that by (auto simp: is_digit_def byte_def)
  have "\<forall>c \<in> set (nat_str k). is_digit c" for k using nat_str_digits [of k] by (simp add: list_all_iff)
  with d show "CHR ''$'' \<notin> set (itoa n)" "CHR ''_'' \<notin> set (itoa n)" by (auto simp: itoa_def)
qed

lemma Split1_cons: "c \<notin> set a \<Longrightarrow> Split1 (a @ c # b) c = a # Split1 b c"
  by (simp add: Split1_append Split1_absent)

lemma hash_parts:
  assumes "crypto_ok C"
  shows "Split1 (hashSecret C salt secret) (CHR ''$'') =
    [[], ''argon2id'', ''v='' @ itoa (argon_version C), paramText argonMemoryKiB argonTime argonThreads,
     b64 C salt, b64 C (argon C secret salt argonTime argonMemoryKiB argonThreads argonKeyLen)]"
proof -
  have b: "CHR ''$'' \<notin> set (b64 C x)" for x using assms by (simp add: crypto_ok_def)
  have v: "CHR ''$'' \<notin> set (''v='' @ itoa n)" for n using itoa_no_dollar by simp
  have p: "CHR ''$'' \<notin> set (paramText m t q)" for m t q using itoa_no_dollar by (simp add: paramText_def)
  have e: "hashSecret C salt secret = CHR ''$'' # ''argon2id'' @ CHR ''$'' # (''v='' @ itoa (argon_version C)) @ CHR ''$'' #
      paramText argonMemoryKiB argonTime argonThreads @ CHR ''$'' # b64 C salt @ CHR ''$'' #
      b64 C (argon C secret salt argonTime argonMemoryKiB argonThreads argonKeyLen)"
    by (simp add: hashSecret_def)
  show ?thesis
    by (simp add: e Split1_cons Split1_absent b p v [simplified] Split1_cons [OF v, simplified])
qed

lemma verify_hash:
  assumes "crypto_ok C"
  shows "verifySecret C secret' (hashSecret C salt secret) \<longleftrightarrow>
    argon C secret' salt argonTime argonMemoryKiB argonThreads argonKeyLen =
    argon C secret salt argonTime argonMemoryKiB argonThreads argonKeyLen"
  using assms unfolding verifySecret_def hash_parts [OF assms]
  by (simp add: crypto_ok_def argonMemoryKiB_def argonTime_def argonThreads_def)

section \<open>Keys\<close>

definition keyText :: "int \<Rightarrow> string \<Rightarrow> string" where
  "keyText i secret = apiKeyPrefix @ ''_'' @ itoa i @ ''_'' @ secret"

definition parseKey :: "string \<Rightarrow> (int \<times> string) option" where
  "parseKey key =
     (case SplitN3 key (CHR ''_'') of
        [p, i, secret] \<Rightarrow>
          if p \<noteq> apiKeyPrefix \<or> secret = [] then None
          else (case ParseInt i of None \<Rightarrow> None | Some n \<Rightarrow> Some (n, secret))
      | _ \<Rightarrow> None)"

lemma parseKey_keyText:
  assumes "secret \<noteq> []" and "- (2 ^ 63) \<le> i" and "i < 2 ^ 63"
  shows "parseKey (keyText i secret) = Some (i, secret)"
proof -
  have "Cut1 (keyText i secret) (CHR ''_'') = (apiKeyPrefix, itoa i @ ''_'' @ secret, True)"
    unfolding keyText_def using Cut1_present [of "CHR ''_''" apiKeyPrefix] by (simp add: apiKeyPrefix_def)
  moreover have "Cut1 (itoa i @ ''_'' @ secret) (CHR ''_'') = (itoa i, secret, True)"
    using Cut1_present [OF itoa_no_dollar(2) [of i]] by simp
  ultimately show ?thesis using assms by (simp add: parseKey_def SplitN3_def ParseInt_itoa)
qed

section \<open>The service\<close>

datatype verify_call =
    VLoading string int string
  | VChecking string int string string
  | VDone string bool

record ApiKeysService =
  ks_db :: "string table"
  ks_verified :: "string \<rightharpoonup> int"
  ks_calls :: "verify_call list"
  ks_purging :: "int list"
  ks_used :: "int list"

definition NewApiKeysService :: ApiKeysService where
  "NewApiKeysService = \<lparr>ks_db = [], ks_verified = Map.empty, ks_calls = [], ks_purging = [], ks_used = []\<rparr>"

text \<open>\<open>Create\<close>: the stored hash, and the plaintext returned once.\<close>

definition Create :: "crypto \<Rightarrow> string \<Rightarrow> bytes \<Rightarrow> string \<Rightarrow> ApiKeysService \<Rightarrow> (string \<times> ApiKeysService) option" where
  "Create C label0 salt secret s =
     (let label = TrimSpace label0
      in if label = [] \<or> length label > 100 then None
         else case row_insert (hashSecret C salt secret) (ks_db s) of (i, db) \<Rightarrow>
           Some (keyText i secret, s\<lparr>ks_db := db, ks_used := i # ks_used s\<rparr>))"

definition v_begin :: "crypto \<Rightarrow> string \<Rightarrow> ApiKeysService \<Rightarrow> verify_call" where
  "v_begin C key s =
     (if ks_verified s (sha256 C key) \<noteq> None then VDone key True
      else case parseKey key of None \<Rightarrow> VDone key False | Some (i, secret) \<Rightarrow> VLoading key i secret)"

definition v_load :: "ApiKeysService \<Rightarrow> verify_call \<Rightarrow> verify_call option" where
  "v_load s c = (case c of
      VLoading key i secret \<Rightarrow> Some (case row_get i (ks_db s) of
          None \<Rightarrow> VDone key False | Some phc \<Rightarrow> VChecking key i secret phc)
    | _ \<Rightarrow> None)"

text \<open>The comparison, and the re-check and the caching under the lock.\<close>

definition v_commit :: "crypto \<Rightarrow> ApiKeysService \<Rightarrow> verify_call \<Rightarrow> (verify_call \<times> (string \<rightharpoonup> int)) option" where
  "v_commit C s c = (case c of
      VChecking key i secret phc \<Rightarrow>
        Some (if \<not> verifySecret C secret phc then (VDone key False, ks_verified s)
              else case row_get i (ks_db s) of
                None \<Rightarrow> (VDone key False, ks_verified s)
              | Some _ \<Rightarrow> (VDone key True, (ks_verified s)(sha256 C key \<mapsto> i)))
    | _ \<Rightarrow> None)"

definition r_delete :: "int \<Rightarrow> ApiKeysService \<Rightarrow> ApiKeysService" where
  "r_delete i s = s\<lparr>ks_db := row_delete i (ks_db s), ks_purging := i # ks_purging s\<rparr>"

definition r_purge :: "int \<Rightarrow> ApiKeysService \<Rightarrow> ApiKeysService option" where
  "r_purge i s =
     (if i \<in> set (ks_purging s)
      then Some (s\<lparr>ks_verified := (\<lambda>d. if ks_verified s d = Some i then None else ks_verified s d),
             ks_purging := remove1 i (ks_purging s)\<rparr>)
      else None)"

datatype kaction = KCreate string bytes string | KVerify string | KLoad nat | KCommit nat | KDelete int | KPurge int

fun kexec :: "crypto \<Rightarrow> kaction \<Rightarrow> ApiKeysService \<Rightarrow> ApiKeysService option" where
  "kexec C (KCreate label salt secret) s = map_option snd (Create C label salt secret s)"
| "kexec C (KVerify key) s = Some (s\<lparr>ks_calls := ks_calls s @ [v_begin C key s]\<rparr>)"
| "kexec C (KLoad n) s =
     (if n < length (ks_calls s)
      then map_option (\<lambda>c. s\<lparr>ks_calls := (ks_calls s)[n := c]\<rparr>) (v_load s (ks_calls s ! n)) else None)"
| "kexec C (KCommit n) s =
     (if n < length (ks_calls s)
      then map_option (\<lambda>(c, vf). s\<lparr>ks_calls := (ks_calls s)[n := c], ks_verified := vf\<rparr>) (v_commit C s (ks_calls s ! n))
      else None)"
| "kexec C (KDelete i) s = Some (r_delete i s)"
| "kexec C (KPurge i) s = r_purge i s"


text \<open>\<open>Verify\<close> with no other goroutine in between.\<close>

definition Verify :: "crypto \<Rightarrow> string \<Rightarrow> ApiKeysService \<Rightarrow> bool \<times> ApiKeysService" where
  "Verify C key s =
     (case v_begin C key s of
        VDone _ ok \<Rightarrow> (ok, s)
      | c \<Rightarrow> (case v_load s c of
          Some (VDone _ ok) \<Rightarrow> (ok, s)
        | Some c' \<Rightarrow> (case v_commit C s c' of
              Some (VDone _ ok, vf) \<Rightarrow> (ok, s\<lparr>ks_verified := vf\<rparr>)
            | _ \<Rightarrow> (False, s))
        | None \<Rightarrow> (False, s)))"

lemma Verify_live:
  assumes "parseKey key = Some (i, secret)" and "row_get i (ks_db s) = Some phc" and "verifySecret C secret phc"
  shows "fst (Verify C key s)"
  using assms by (simp add: Verify_def v_begin_def v_load_def v_commit_def)

section \<open>Created keys\<close>

lemma Create_cases:
  assumes "Create C label salt secret s = Some (key, s')"
  shows "key = keyText (next_rowid (ks_db s)) secret"
    and "s' = s\<lparr>ks_db := snd (row_insert (hashSecret C salt secret) (ks_db s)), ks_used := next_rowid (ks_db s) # ks_used s\<rparr>"
  using assms by (auto simp: Create_def Let_def row_insert_def split: if_splits)

text \<open>A step other than the deletion of row \<open>i\<close> keeps row \<open>i\<close>.\<close>

lemma kexec_keeps_row:
  assumes "kexec C a s = Some s'" and "row_get i (ks_db s) = Some phc" and "a \<noteq> KDelete i"
  shows "row_get i (ks_db s') = Some phc"
  using assms
proof (cases a)
  case (KCreate label salt secret)
  with assms obtain key where "Create C label salt secret s = Some (key, s')" by auto
  from Create_cases(2) [OF this] assms(2) show ?thesis by (simp add: meta.insert_keeps)
qed (auto simp: r_delete_def r_purge_def meta.get_delete split: if_splits)

lemma run_keeps_row:
  "run (kexec C) as s = Some s' \<Longrightarrow> row_get i (ks_db s) = Some phc \<Longrightarrow> KDelete i \<notin> set as
   \<Longrightarrow> row_get i (ks_db s') = Some phc"
  by (induction as arbitrary: s) (auto split: option.splits dest: kexec_keeps_row)

text \<open>
  C23: the plaintext returned by \<open>Create\<close> is accepted by \<open>Verify\<close> in every state reached
  from there in which its row was not revoked, whatever creations, verifications and
  revocations of other keys ran in between.
\<close>

theorem created_key_verifies:
  assumes "crypto_ok C" and "Create C label salt secret s = Some (key, s')" and "secret \<noteq> []"
    and "1 \<le> next_rowid (ks_db s)" and "next_rowid (ks_db s) < 2 ^ 63"
    and "run (kexec C) as s' = Some s''" and "KDelete (next_rowid (ks_db s)) \<notin> set as"
  shows "fst (Verify C key s'')"
proof (rule Verify_live)
  show "parseKey key = Some (next_rowid (ks_db s), secret)"
    using assms Create_cases(1) [OF assms(2)] by (simp add: parseKey_keyText)
  have "row_get (next_rowid (ks_db s)) (ks_db s') = Some (hashSecret C salt secret)"
    using meta.insert_then_get by (simp add: Create_cases(2) [OF assms(2)] row_insert_def)
  with assms(6,7) show "row_get (next_rowid (ks_db s)) (ks_db s'') = Some (hashSecret C salt secret)"
    by (blast intro: run_keeps_row)
  show "verifySecret C secret (hashSecret C salt secret)" by (simp add: verify_hash [OF assms(1)])
qed

section \<open>Revoked keys\<close>












section \<open>Samples\<close>

text \<open>A concrete instance of the parameters: an escaping encoder and a transparent hash.\<close>

definition esc_enc :: "string \<Rightarrow> string" where
  "esc_enc s = concat (map (\<lambda>c. if c = CHR ''$'' then ''!a'' else if c = CHR ''!'' then ''!b'' else [c]) s)"

fun esc_dec :: "string \<Rightarrow> string option" where
  "esc_dec [] = Some []"
| "esc_dec [c] = (if c = CHR ''!'' then None else Some [c])"
| "esc_dec (c # d # s) =
     (if c = CHR ''!'' then map_option ((#) (if d = CHR ''a'' then CHR ''$'' else CHR ''!'')) (esc_dec s)
      else map_option ((#) c) (esc_dec (d # s)))"

lemma esc_dec_cons: "c \<noteq> CHR ''!'' \<Longrightarrow> esc_dec (c # s) = map_option ((#) c) (esc_dec s)"
  by (cases s) auto

lemma esc_roundtrip: "esc_dec (esc_enc s) = Some s"
  by (induction s) (auto simp: esc_enc_def esc_dec_cons)

lemma esc_no_dollar: "CHR ''$'' \<notin> set (esc_enc s)"
  by (auto simp: esc_enc_def)

definition sample_scan_params :: "string \<Rightarrow> (int \<times> int \<times> int) option" where
  "sample_scan_params s =
     (case Split1 s (CHR '','') of
        [a, b, c] \<Rightarrow> (case (ParseInt (drop 2 a), ParseInt (drop 2 b), ParseInt (drop 2 c)) of
            (Some m, Some t, Some p) \<Rightarrow> Some (m, t, p) | _ \<Rightarrow> None)
      | _ \<Rightarrow> None)"

definition crypto_sample :: crypto where
  "crypto_sample =
     \<lparr>argon = (\<lambda>s salt t m p n. take n (s @ salt @ replicate n (CHR ''.''))), argon_version = 19,
      b64 = esc_enc, b64d = esc_dec, scan_version = (\<lambda>s. ParseInt (drop 2 s)),
      scan_params = sample_scan_params, sha256 = id\<rparr>"

lemma itoa_no_comma: "CHR '','' \<notin> set (itoa n)"
proof -
  have d: "c \<noteq> CHR '',''" if "is_digit c" for c using that by (auto simp: is_digit_def byte_def)
  have "\<forall>c \<in> set (nat_str k). is_digit c" for k using nat_str_digits [of k] by (simp add: list_all_iff)
  with d show ?thesis by (auto simp: itoa_def)
qed

lemma sample_scan_params_paramText:
  assumes "0 \<le> m" "m < 2 ^ 32" "0 \<le> t" "t < 2 ^ 32" "0 \<le> p" "p < 2 ^ 8"
  shows "sample_scan_params (paramText m t p) = Some (m, t, p)"
proof -
  have "Split1 (paramText m t p) (CHR '','') = [''m='' @ itoa m, ''t='' @ itoa t, ''p='' @ itoa p]"
    using Split1_cons [of "CHR '',''" "''m='' @ itoa m"] Split1_cons [of "CHR '',''" "''t='' @ itoa t"]
    by (simp add: paramText_def itoa_no_comma Split1_absent)
  with assms show ?thesis by (simp add: sample_scan_params_def ParseInt_itoa)
qed

lemma crypto_sample_ok: "crypto_ok crypto_sample"
proof -
  have "length (take n (s @ salt @ replicate n (CHR ''.''))) = n" for n and s salt :: string by simp
  then show ?thesis
    unfolding crypto_ok_def
    by (simp del: length_take add: crypto_sample_def esc_roundtrip esc_no_dollar sample_scan_params_paramText ParseInt_itoa)
qed

definition keys_trace1 :: "kaction list" where
  "keys_trace1 = [KCreate ''app'' ''s'' ''k2'', KVerify ''pooml_1_k1'', KLoad 0, KCommit 0, KDelete 2, KPurge 2]"

lemma create_app:
  "Create C ''app'' salt secret s = Some (keyText (next_rowid (ks_db s)) secret,
     s\<lparr>ks_db := ks_db s @ [(next_rowid (ks_db s), hashSecret C salt secret)], ks_used := next_rowid (ks_db s) # ks_used s\<rparr>)"
proof -
  have "TrimSpace ''app'' = ''app''" by code_simp
  then show ?thesis by (simp add: Create_def row_insert_def)
qed

lemma sample_keys:
  "keyText 1 ''k1'' = ''pooml_1_k1''" "parseKey ''pooml_1_k1'' = Some (1, ''k1'')"
  by code_simp+

lemma sample_verify: "verifySecret crypto_sample x (hashSecret crypto_sample ''s'' y) \<longleftrightarrow>
    take 32 (x @ ''s'' @ replicate 32 (CHR ''.'')) = take 32 (y @ ''s'' @ replicate 32 (CHR ''.''))"
  by (simp only: verify_hash [OF crypto_sample_ok]) (simp add: crypto_sample_def argonKeyLen_def del: take_append take_replicate)

lemma sample_sha: "sha256 crypto_sample = id"
  by (simp add: crypto_sample_def)

lemmas keys_eval = create_app sample_keys sample_verify sample_sha v_begin_def v_load_def v_commit_def r_delete_def r_purge_def
  row_get_def row_delete_def next_rowid_def NewApiKeysService_def

lemma sample_create:
  "Create crypto_sample ''app'' ''s'' ''k1'' NewApiKeysService = Some (''pooml_1_k1'',
     NewApiKeysService\<lparr>ks_db := [(1, hashSecret crypto_sample ''s'' ''k1'')], ks_used := [1]\<rparr>)"
  by (simp add: keys_eval)

lemma sample_trace_runs:
  "\<exists>s''. run (kexec crypto_sample) keys_trace1
     (NewApiKeysService\<lparr>ks_db := [(1, hashSecret crypto_sample ''s'' ''k1'')], ks_used := [1]\<rparr>) = Some s''"
  by (simp add: keys_eval keys_trace1_def)

theorem created_key_verifies_witness:
  "\<exists>s''. run (kexec crypto_sample) keys_trace1
     (NewApiKeysService\<lparr>ks_db := [(1, hashSecret crypto_sample ''s'' ''k1'')], ks_used := [1]\<rparr>) = Some s''
   \<and> fst (Verify crypto_sample ''pooml_1_k1'' s'')"
proof -
  obtain s'' where r: "run (kexec crypto_sample) keys_trace1
     (NewApiKeysService\<lparr>ks_db := [(1, hashSecret crypto_sample ''s'' ''k1'')], ks_used := [1]\<rparr>) = Some s''"
    using sample_trace_runs by blast
  have n: "next_rowid (ks_db NewApiKeysService) = 1" by (simp add: next_rowid_def NewApiKeysService_def)
  have "fst (Verify crypto_sample ''pooml_1_k1'' s'')"
    using created_key_verifies [OF crypto_sample_ok sample_create _ _ _ r] by (simp add: n keys_trace1_def)
  with r show ?thesis by blast
qed

definition revoked_trace :: "kaction list" where
  "revoked_trace = [KCreate ''app'' ''s'' ''k1'', KVerify ''pooml_1_k1'', KLoad 0, KDelete 1, KPurge 1]"



text \<open>
  Without the proviso on row ids it fails: the re-check looks at the id alone. If between the
  two reads of one \<open>Verify\<close> the key is revoked and the next key created, the new key
  gets the freed id, the re-check finds it, and the revoked plaintext is cached as valid, though
  no stored hash accepts it.
\<close>

theorem revoked_key_revived:
  "\<exists>s. run (kexec crypto_sample) (revoked_trace @ [KCreate ''app'' ''s'' ''k2'', KCommit 0]) NewApiKeysService = Some s
    \<and> map fst (ks_db s) = [1]
    \<and> (\<forall>phc \<in> set (map snd (ks_db s)). \<not> verifySecret crypto_sample ''k1'' phc)
    \<and> v_begin crypto_sample ''pooml_1_k1'' s = VDone ''pooml_1_k1'' True"
  by (simp add: keys_eval revoked_trace_def)

end
