(* ===== verification/Api_Auth.thy ===== *)
theory Api_Auth
  imports Auth_State Api_Keys
begin

text \<open>
  The gate in front of the HTTP API: the client address (\<open>utils/http.go\<close>), the comparison of
  secrets (\<open>utils/secure.go\<close>) and the middlewares of \<open>api/middleware.go\<close>, over the throttling and
  the key services. A request carries the moments at which the clock is read: twice by the gate and
  once by the handler. Header names are in canonical form, as \<open>net/http\<close> stores them.
  \<open>net.ParseIP\<close>, followed by \<open>String\<close>, is the parameter \<open>ca_parseIP\<close>.
\<close>

datatype body_read = Body bytes | BodyError

record api_request =
  rq_method :: string
  rq_path :: string
  rq_remoteAddr :: string
  rq_headers :: "(string \<times> string) list"
  rq_body :: body_read
  rq_now :: ms
  rq_failAt :: ms
  rq_handledAt :: ms

record api_response =
  rp_code :: int
  rp_headers :: "(string \<times> string) list"
  rp_body :: bytes

definition HeaderValues :: "string \<Rightarrow> api_request \<Rightarrow> string list" where
  "HeaderValues name req = map snd (filter (\<lambda>(n, v). n = name) (rq_headers req))"

definition HeaderGet :: "string \<Rightarrow> api_request \<Rightarrow> string" where
  "HeaderGet name req = (case HeaderValues name req of [] \<Rightarrow> [] | v # _ \<Rightarrow> v)"

section \<open>The client address\<close>

text \<open>Cut at the last separator.\<close>

definition cut_last :: "string \<Rightarrow> char \<Rightarrow> (string \<times> string) option" where
  "cut_last s c = (if c \<in> set s
     then Some (rev (tl (dropWhile (\<lambda>x. x \<noteq> c) (rev s))), rev (takeWhile (\<lambda>x. x \<noteq> c) (rev s))) else None)"

text \<open>\<open>net.SplitHostPort\<close>: the host, or None for an error.\<close>

definition SplitHostPort :: "string \<Rightarrow> string option" where
  "SplitHostPort s =
     (case cut_last s (CHR '':'') of
        None \<Rightarrow> None
      | Some (pre, post) \<Rightarrow>
          if s \<noteq> [] \<and> hd s = CHR ''[''
          then (case Cut1 (tl s) (CHR '']'') of (host, after, found) \<Rightarrow>
                  if \<not> found \<or> after \<noteq> CHR '':'' # post then None
                  else if CHR ''['' \<in> set (tl s) \<or> CHR '']'' \<in> set after then None
                  else Some host)
          else if CHR '':'' \<in> set pre \<or> CHR ''['' \<in> set s \<or> CHR '']'' \<in> set s then None
          else Some pre)"

definition remoteHost :: "api_request \<Rightarrow> string" where
  "remoteHost req = (case SplitHostPort (rq_remoteAddr req) of None \<Rightarrow> rq_remoteAddr req | Some host \<Rightarrow> host)"

definition ClientIP :: "(string \<Rightarrow> string option) \<Rightarrow> api_request \<Rightarrow> bool \<Rightarrow> string" where
  "ClientIP parseIP req trustProxyHeaders =
     (let parts = concat (map (\<lambda>line. Split1 line (CHR '','')) (HeaderValues ''X-Forwarded-For'' req))
      in if trustProxyHeaders \<and> parts \<noteq> []
         then (case parseIP (TrimSpace (last parts)) of Some ip \<Rightarrow> ip | None \<Rightarrow> remoteHost req)
         else remoteHost req)"

text \<open>
  What a client writes in front of the proxy's own entry has no influence: on the same line, on
  earlier lines, or in other headers.
\<close>

lemma last_Split1: "last (Split1 (a @ CHR '','' # b) (CHR '','')) = last (Split1 b (CHR '',''))"
  by (simp add: Split1_append)

lemma client_ip_unspoofable:
  assumes "rq_remoteAddr req = rq_remoteAddr req'"
    and "HeaderValues ''X-Forwarded-For'' req = pre @ [a @ CHR '','' # entry]"
    and "HeaderValues ''X-Forwarded-For'' req' = [entry]"
  shows "ClientIP parseIP req trust = ClientIP parseIP req' trust"
proof -
  have "remoteHost req = remoteHost req'" unfolding remoteHost_def assms(1) ..
  with assms(2,3) show ?thesis by (simp add: ClientIP_def Let_def Split1_append split: option.split)
qed

section \<open>The middlewares\<close>

record api_config =
  ca_crypto :: crypto
  ca_parseIP :: "string \<Rightarrow> string option"
  ca_trustProxy :: bool
  ca_env :: string
  ca_marshalError :: "string \<Rightarrow> string \<Rightarrow> bytes"

record auth_state =
  au_throttle :: throttling
  au_keys :: ApiKeysService

type_synonym 'a handler = "'a auth_state_scheme \<Rightarrow> api_response \<times> 'a auth_state_scheme"

definition SecureCompare :: "crypto \<Rightarrow> string \<Rightarrow> string \<Rightarrow> bool" where
  "SecureCompare C a b \<longleftrightarrow> sha256 C a = sha256 C b"

definition sendUnauthorizedErrorResponse :: "api_config \<Rightarrow> api_response" where
  "sendUnauthorizedErrorResponse K =
     \<lparr>rp_code = 401, rp_headers = [(''Content-Type'', ''application/json'')], rp_body = ca_marshalError K ''unauthorized'' []\<rparr>"

definition sendTooManyRequestsResponse :: "api_config \<Rightarrow> api_response" where
  "sendTooManyRequestsResponse K =
     \<lparr>rp_code = 429, rp_headers = [(''Content-Type'', ''application/json'')], rp_body = ca_marshalError K ''too_many_requests'' []\<rparr>"

text \<open>The common part of both gates: throttle, check, count the failure.\<close>

definition throttled :: "api_config \<Rightarrow> ('a auth_state_scheme \<Rightarrow> bool \<times> 'a auth_state_scheme) \<Rightarrow> 'a handler \<Rightarrow> api_request \<Rightarrow> 'a handler" where
  "throttled K check next req s =
     (let ip = ClientIP (ca_parseIP K) req (ca_trustProxy K)
      in if IsLocked ip (rq_now req) (au_throttle s) then (sendTooManyRequestsResponse K, s)
         else (case check s of (ok, s1) \<Rightarrow>
                 if ok then next s1
                 else (sendUnauthorizedErrorResponse K, s1\<lparr>au_throttle := RecordFailure ip (rq_failAt req) (au_throttle s1)\<rparr>)))"

definition keyCheck :: "api_config \<Rightarrow> api_request \<Rightarrow> 'a auth_state_scheme \<Rightarrow> bool \<times> 'a auth_state_scheme" where
  "keyCheck K req s =
     (let key = HeaderGet ''X-Api-Key'' req
      in if key = [] then (False, s)
         else (case Verify (ca_crypto K) key (au_keys s) of (ok, ks) \<Rightarrow> (ok, s\<lparr>au_keys := ks\<rparr>)))"

definition secretCheck :: "api_config \<Rightarrow> string \<Rightarrow> api_request \<Rightarrow> 'a auth_state_scheme \<Rightarrow> bool \<times> 'a auth_state_scheme" where
  "secretCheck K secret req s = (SecureCompare (ca_crypto K) (HeaderGet ''X-Api-Key'' req) secret, s)"

definition apiKeyTokenAuth :: "api_config \<Rightarrow> 'a handler \<Rightarrow> api_request \<Rightarrow> 'a handler" where
  "apiKeyTokenAuth K next req = throttled K (keyCheck K req) next req"

definition secretAuth :: "api_config \<Rightarrow> string \<Rightarrow> 'a handler \<Rightarrow> api_request \<Rightarrow> 'a handler" where
  "secretAuth K secret next req = throttled K (secretCheck K secret req) next req"

definition securityHeaders :: "api_config \<Rightarrow> 'a handler \<Rightarrow> 'a handler" where
  "securityHeaders K next s =
     (case next s of (r, s1) \<Rightarrow>
        (r\<lparr>rp_headers := [(''X-Content-Type-Options'', ''nosniff''), (''X-Frame-Options'', ''DENY''), (''Referrer-Policy'', ''no-referrer'')]
             @ (if ca_env K = ''pro'' then [(''Strict-Transport-Security'', ''max-age=31536000; includeSubDomains'')] else [])
             @ rp_headers r\<rparr>, s1))"

section \<open>The contract of a gate\<close>

text \<open>Requests served one after the other; the answers' status codes.\<close>

fun serveAll :: "(api_request \<Rightarrow> 'a handler) \<Rightarrow> api_request list \<Rightarrow> 'a auth_state_scheme \<Rightarrow> int list \<times> 'a auth_state_scheme" where
  "serveAll srv [] s = ([], s)"
| "serveAll srv (r # rs) s =
     (case srv r s of (p, s1) \<Rightarrow> (case serveAll srv rs s1 of (ps, s2) \<Rightarrow> (rp_code p # ps, s2)))"

text \<open>
  A gated service: on gated requests a locked address gets 429, wrong credentials get 401 and
  are counted, and in neither case does anything else happen.
\<close>

locale gate =
  fixes client :: "api_request \<Rightarrow> string"
    and gated :: "api_request \<Rightarrow> bool"
    and wrong :: "api_request \<Rightarrow> 'a auth_state_scheme \<Rightarrow> bool"
    and srv :: "api_request \<Rightarrow> 'a handler"
  assumes locked: "gated req \<Longrightarrow> IsLocked (client req) (rq_now req) (au_throttle s) \<Longrightarrow> srv req s = (p, s') \<Longrightarrow> rp_code p = 429 \<and> s' = s"
    and refused: "gated req \<Longrightarrow> \<not> IsLocked (client req) (rq_now req) (au_throttle s) \<Longrightarrow> wrong req s \<Longrightarrow> srv req s = (p, s')
      \<Longrightarrow> rp_code p = 401 \<and> (\<exists>ks. s' = s\<lparr>au_keys := ks, au_throttle := RecordFailure (client req) (rq_failAt req) (au_throttle s)\<rparr>)"
begin

lemma refusals_counted:
  assumes "serveAll srv rs s = (codes, s')" and "\<forall>r \<in> set rs. gated r \<and> client r = ip \<and> (\<forall>s. wrong r s)"
  shows "au_throttle s' = fold (RecordFailure ip) (map (rq_failAt \<circ> fst) (filter (\<lambda>(r, c). c = 401) (zip rs codes))) (au_throttle s)
    \<and> set codes \<subseteq> {401, 429}"
  using assms
proof (induction rs arbitrary: s codes)
  case (Cons r rs)
  obtain p s1 where p: "srv r s = (p, s1)" by fastforce
  obtain cs where cs: "codes = rp_code p # cs" "serveAll srv rs s1 = (cs, s')" using Cons.prems(1) p by (auto split: prod.splits)
  have r: "gated r" "client r = ip" "wrong r s" using Cons.prems(2) by auto
  show ?case
  proof (cases "IsLocked ip (rq_now r) (au_throttle s)")
    case True
    with locked [of r s p s1] r p have "rp_code p = 429" "s1 = s" by auto
    with Cons.IH [OF cs(2)] Cons.prems(2) cs(1) show ?thesis by simp
  next
    case False
    with refused [of r s p s1] r p have "rp_code p = 401" "au_throttle s1 = RecordFailure ip (rq_failAt r) (au_throttle s)" by auto
    with Cons.IH [OF cs(2)] Cons.prems(2) cs(1) show ?thesis by simp
  qed
qed simp

text \<open>
  Five refusals within a window, counted over all gated requests of the address, lock it: the next
  gated request gets 429 and has no effect, even with the right credentials.
\<close>

lemma bruteforce:
  assumes "serveAll srv rs s = (codes, s')" and "\<forall>r \<in> set rs. gated r \<and> client r = ip \<and> (\<forall>s. wrong r s)"
    and "\<forall>r \<in> set rs. T - throttlingWindowMs < rq_failAt r \<and> rq_failAt r \<le> T"
    and "throttlingMaxFails \<le> length (filter (\<lambda>c. c = 401) codes)"
    and "gated req" and "client req = ip" and "rq_now req = T" and "srv req s' = (p, s2)"
  shows "rp_code p = 429 \<and> s2 = s'"
proof -
  let ?ts = "map (rq_failAt \<circ> fst) (filter (\<lambda>(r, c). c = 401) (zip rs codes))"
  have len: "length codes = length rs" using assms(1)
    by (induction rs arbitrary: s codes) (auto split: prod.splits)
  have c: "map snd (zip rs codes) = codes" using len by simp
  have "length ?ts = length (filter (\<lambda>c. c = 401) (map snd (zip rs codes)))"
    unfolding filter_map by (simp add: case_prod_beta' comp_def)
  then have "length ?ts = length (filter (\<lambda>c. c = 401) codes)" unfolding c .
  with assms(4) have "throttlingMaxFails \<le> length ?ts" by simp
  moreover have "list_all (\<lambda>t. T - throttlingWindowMs < t \<and> t \<le> T) ?ts"
    using assms(3) by (auto simp: list_all_iff dest: set_zip_leftD)
  ultimately have "IsLocked ip T (au_throttle s')"
    using refusals_counted [OF assms(1,2)] failures_lock by simp
  with locked assms(5-8) show ?thesis by blast
qed

end

lemma throttled_locked:
  "IsLocked (ClientIP (ca_parseIP K) req (ca_trustProxy K)) (rq_now req) (au_throttle s)
     \<Longrightarrow> throttled K check next req s = (sendTooManyRequestsResponse K, s)"
  by (simp add: throttled_def)

lemma throttled_refused:
  assumes "\<not> IsLocked (ClientIP (ca_parseIP K) req (ca_trustProxy K)) (rq_now req) (au_throttle s)" and "check s = (False, s1)"
  shows "throttled K check next req s = (sendUnauthorizedErrorResponse K,
    s1\<lparr>au_throttle := RecordFailure (ClientIP (ca_parseIP K) req (ca_trustProxy K)) (rq_failAt req) (au_throttle s1)\<rparr>)"
  using assms by (simp add: throttled_def)

lemma throttled_passed:
  assumes "\<not> IsLocked (ClientIP (ca_parseIP K) req (ca_trustProxy K)) (rq_now req) (au_throttle s)" and "check s = (True, s1)"
  shows "throttled K check next req s = next s1"
  using assms by (simp add: throttled_def)

lemma keyCheck_state: "keyCheck K req s = (ok, s1) \<Longrightarrow> \<exists>ks. s1 = s\<lparr>au_keys := ks\<rparr>"
  by (auto simp: keyCheck_def Let_def split: if_splits prod.splits) (metis auth_state.surjective auth_state.update_convs(2))

interpretation key_gate: gate "\<lambda>req. ClientIP (ca_parseIP K) req (ca_trustProxy K)" "\<lambda>_. True"
    "\<lambda>req s. \<not> fst (keyCheck K req s)" "\<lambda>req. apiKeyTokenAuth K (next req) req" for K "next"
proof
  fix req and s s' :: "'a auth_state_scheme" and p
  assume "\<not> IsLocked (ClientIP (ca_parseIP K) req (ca_trustProxy K)) (rq_now req) (au_throttle s)" "\<not> fst (keyCheck K req s)"
    "apiKeyTokenAuth K (next req) req s = (p, s')"
  moreover obtain s1 where c: "keyCheck K req s = (False, s1)" using calculation(2) by (cases "keyCheck K req s") auto
  moreover from keyCheck_state [OF c] obtain ks where "s1 = s\<lparr>au_keys := ks\<rparr>" by blast
  ultimately show "rp_code p = 401 \<and> (\<exists>ks. s' = s\<lparr>au_keys := ks, au_throttle := RecordFailure (ClientIP (ca_parseIP K) req (ca_trustProxy K)) (rq_failAt req) (au_throttle s)\<rparr>)"
    by (auto simp: apiKeyTokenAuth_def throttled_refused sendUnauthorizedErrorResponse_def)
qed (auto simp: apiKeyTokenAuth_def throttled_locked sendTooManyRequestsResponse_def)

interpretation secret_gate: gate "\<lambda>req. ClientIP (ca_parseIP K) req (ca_trustProxy K)" "\<lambda>_. True"
    "\<lambda>req s. \<not> fst (secretCheck K secret req s)" "\<lambda>req. secretAuth K secret (next req) req" for K secret "next"
proof
  fix req and s s' :: "'a auth_state_scheme" and p
  assume "\<not> IsLocked (ClientIP (ca_parseIP K) req (ca_trustProxy K)) (rq_now req) (au_throttle s)" "\<not> fst (secretCheck K secret req s)"
    "secretAuth K secret (next req) req s = (p, s')"
  then have "rp_code p = 401" and "s' = s\<lparr>au_keys := au_keys s, au_throttle := RecordFailure (ClientIP (ca_parseIP K) req (ca_trustProxy K)) (rq_failAt req) (au_throttle s)\<rparr>"
    by (auto simp: secretAuth_def secretCheck_def throttled_refused sendUnauthorizedErrorResponse_def)
  then show "rp_code p = 401 \<and> (\<exists>ks. s' = s\<lparr>au_keys := ks, au_throttle := RecordFailure (ClientIP (ca_parseIP K) req (ca_trustProxy K)) (rq_failAt req) (au_throttle s)\<rparr>)"
    by blast
qed (auto simp: secretAuth_def throttled_locked sendTooManyRequestsResponse_def)

end
