(* ===== verification/Utf8.thy ===== *)
theory Utf8
  imports Go_Prelude
begin

text \<open>
  Cutting UTF-8 texts at a byte limit: \<open>truncateAtRune\<close> of \<open>services/notify.go\<close>, whose loop is
  also that of \<open>clampString\<close> in \<open>api/query.go\<close>.
\<close>

definition flame :: string where "flame = [CHR 0xF0, CHR 0x9F, CHR 0x94, CHR 0xA5]"
definition ellipsis :: string where "ellipsis = [CHR 0xE2, CHR 0x80, CHR 0xA6]"

text \<open>The loop that backs up to the start of a code point. Every caller ensures that \<open>maxLen\<close> is an index of \<open>s\<close>.\<close>

fun runeCut :: "string \<Rightarrow> nat \<Rightarrow> nat" where
  "runeCut s 0 = 0"
| "runeCut s (Suc n) = (if RuneStart (s ! Suc n) then Suc n else runeCut s n)"

definition truncateAtRune :: "string \<Rightarrow> nat \<Rightarrow> string" where
  "truncateAtRune s maxLen = take (runeCut s maxLen) s"

section \<open>Truncation keeps UTF-8 whole\<close>

definition cont :: "char \<Rightarrow> bool" where
  "cont c \<longleftrightarrow> 0x80 \<le> byte c \<and> byte c \<le> 0xBF"

text \<open>The well-formed encodings of one code point.\<close>

fun is_rune :: "string \<Rightarrow> bool" where
  "is_rune [a] = (byte a < 0x80)"
| "is_rune [a, b] = (0xC2 \<le> byte a \<and> byte a \<le> 0xDF \<and> cont b)"
| "is_rune [a, b, c] =
     (cont b \<and> cont c \<and> 0xE0 \<le> byte a \<and> byte a \<le> 0xEF
      \<and> (byte a = 0xE0 \<longrightarrow> 0xA0 \<le> byte b) \<and> (byte a = 0xED \<longrightarrow> byte b \<le> 0x9F))"
| "is_rune [a, b, c, d] =
     (cont b \<and> cont c \<and> cont d \<and> 0xF0 \<le> byte a \<and> byte a \<le> 0xF4
      \<and> (byte a = 0xF0 \<longrightarrow> 0x90 \<le> byte b) \<and> (byte a = 0xF4 \<longrightarrow> byte b \<le> 0x8F))"
| "is_rune _ = False"

lemma is_rune_shape:
  "is_rune r \<Longrightarrow> r \<noteq> [] \<and> length r \<le> 4 \<and> RuneStart (r ! 0) \<and> (\<forall>j < length r. 0 < j \<longrightarrow> \<not> RuneStart (r ! j))"
  by (cases r rule: is_rune.cases) (auto simp: RuneStart_def cont_def nth_Cons split: nat.splits)

lemma runeCut_le: "runeCut s n \<le> n"
  by (induction n) auto

lemma runeCut_inside:
  assumes "\<forall>j \<le> n. 0 < j \<longrightarrow> \<not> RuneStart (s ! j)"
  shows "runeCut s n = 0"
  using assms by (induction n) auto

lemma runeCut_append:
  assumes "r \<noteq> []" and "RuneStart (t ! 0)"
  shows "runeCut (r @ t) (length r + m) = length r + runeCut t m"
proof (induction m)
  case 0
  from assms show ?case by (cases "length r") (auto simp: nth_append)
next
  case (Suc m)
  then show ?case by (simp add: nth_append)
qed

text \<open>
  Cutting a well-formed UTF-8 text, made of the encoded code points \<open>rs\<close>, at \<open>n\<close> bytes keeps
  a whole number of code points, and as many as fit.
\<close>

lemma truncate_whole_runes:
  assumes "list_all is_rune rs" and "n < length (concat rs)"
  shows "\<exists>k < length rs. truncateAtRune (concat rs) n = concat (take k rs)
    \<and> length (concat (take k rs)) \<le> n \<and> n < length (concat (take (Suc k) rs))"
  using assms
proof (induction rs arbitrary: n)
  case Nil
  then show ?case by simp
next
  case (Cons r rs)
  from Cons.prems(1) have r: "r \<noteq> []" "RuneStart (r ! 0)" "\<forall>j < length r. 0 < j \<longrightarrow> \<not> RuneStart (r ! j)"
    and rs: "list_all is_rune rs" using is_rune_shape [of r] by auto
  show ?case
  proof (cases "n < length r")
    case True
    then have "\<forall>j \<le> n. 0 < j \<longrightarrow> \<not> RuneStart ((r @ concat rs) ! j)" using r(3) by (simp add: nth_append)
    then have "truncateAtRune (concat (r # rs)) n = concat (take 0 (r # rs))"
      by (simp add: truncateAtRune_def runeCut_inside)
    with True show ?thesis by fastforce
  next
    case False
    then have n: "n - length r < length (concat rs)" "length r + (n - length r) = n" using Cons.prems(2) by auto
    then obtain x xs where "rs = x # xs" by (cases rs) auto
    with rs have "RuneStart (concat rs ! 0)" using is_rune_shape [of x] by (auto simp: nth_append)
    from runeCut_append [OF r(1) this, of "n - length r"] n(2)
    have "truncateAtRune (concat (r # rs)) n = r @ truncateAtRune (concat rs) (n - length r)"
      by (simp add: truncateAtRune_def)
    moreover obtain k where "k < length rs" "truncateAtRune (concat rs) (n - length r) = concat (take k rs)"
      "length (concat (take k rs)) \<le> n - length r" "n - length r < length (concat (take (Suc k) rs))"
      using Cons.IH [OF rs n(1)] by blast
    ultimately have "Suc k < length (r # rs) \<and> truncateAtRune (concat (r # rs)) n = concat (take (Suc k) (r # rs))
        \<and> length (concat (take (Suc k) (r # rs))) \<le> n \<and> n < length (concat (take (Suc (Suc k)) (r # rs)))"
      using n(2) False by auto
    then show ?thesis by blast
  qed
qed

lemma truncate_whole_runes_witness:
  "truncateAtRune (concat [''a'', ellipsis, flame, ''b'']) 6 = concat [''a'', ellipsis]"
proof -
  let ?rs = "[''a'', ellipsis, flame, ''b'']"
  have "list_all is_rune ?rs" by (simp add: ellipsis_def flame_def cont_def byte_def)
  moreover have "6 < length (concat ?rs)" by (simp add: ellipsis_def flame_def)
  ultimately have "\<exists>k < 4. truncateAtRune (concat ?rs) 6 = concat (take k ?rs)
      \<and> length (concat (take k ?rs)) \<le> 6 \<and> 6 < length (concat (take (Suc k) ?rs))"
    using truncate_whole_runes [of ?rs 6] by (simp add: numeral_eq_Suc)
  then obtain k where "k < 4" and t: "truncateAtRune (concat ?rs) 6 = concat (take k ?rs)"
    and "length (concat (take k ?rs)) \<le> 6" "6 < length (concat (take (Suc k) ?rs))" by blast
  moreover from \<open>k < 4\<close> have "k = 0 \<or> k = 1 \<or> k = 2 \<or> k = 3" by auto
  ultimately have "k = 2" by (auto simp: ellipsis_def flame_def)
  with t show ?thesis by simp
qed

end
