(* ===== verification/Query_Api.thy ===== *)
theory Query_Api
  imports Api_Auth Rewrite Query_Exec Utf8
begin

text \<open>
  The read-only SQL-over-HTTP surface, \<open>api/query.go\<close>: a query is validated for the surface's
  scope, executed and answered within the budgets of programmatic consumers. JSON decoding and
  encoding, the text of a validation error and the SQL printer are parameters; the database is a
  function of the SQL text. \<open>queryCatalog\<close>'s statement is fixed, so its database rows are a
  parameter as they are.
\<close>

record queryRequest =
  qr_SQL :: string
  qr_MaxRows :: int

record queryResponse =
  qp_Columns :: "string list"
  qp_Rows :: "cell list list"
  qp_RowCount :: nat
  qp_Truncated :: bool

record catalogRow =
  ct_Name :: string
  ct_Type :: string
  ct_Service :: string
  ct_LastSeenMs :: int

record query_env =
  qe_sqlp :: sqlp
  qe_string :: "SelectStatement \<Rightarrow> string"
  qe_verr :: "verror \<Rightarrow> string"
  qe_unmarshal :: "bytes \<Rightarrow> queryRequest option"
  qe_response :: "queryResponse \<Rightarrow> bytes option"
  qe_error :: "string \<Rightarrow> string \<Rightarrow> bytes option"
  qe_catalog :: "catalogRow list \<Rightarrow> bytes option"

definition queryDefaultMaxRows :: int where "queryDefaultMaxRows = 200"
definition queryMaxMaxRows :: int where "queryMaxMaxRows = 1000"
definition queryMaxCellBytes :: nat where "queryMaxCellBytes = 4096"
definition queryMaxBodyBytes :: nat where "queryMaxBodyBytes = 64 * 2 ^ 10"

section \<open>Answers\<close>

definition sendJsonResponse :: "int \<Rightarrow> bytes option \<Rightarrow> api_response" where
  "sendJsonResponse httpCode body =
     (case body of
        None \<Rightarrow> \<lparr>rp_code = 500, rp_headers = [], rp_body = []\<rparr>
      | Some b \<Rightarrow> \<lparr>rp_code = httpCode, rp_headers = [(''Content-Type'', ''application/json'')], rp_body = b\<rparr>)"

definition sendErrorResponse :: "query_env \<Rightarrow> int \<Rightarrow> string \<Rightarrow> api_response" where
  "sendErrorResponse Q httpCode errCode = sendJsonResponse httpCode (qe_error Q errCode [])"

definition sendQueryError :: "query_env \<Rightarrow> int \<Rightarrow> string \<Rightarrow> api_response" where
  "sendQueryError Q code msg = sendJsonResponse code (qe_error Q ''bad_request'' msg)"

definition sendNoContentEmptyResponse :: api_response where
  "sendNoContentEmptyResponse = \<lparr>rp_code = 204, rp_headers = [], rp_body = []\<rparr>"

text \<open>A body read through \<open>http.MaxBytesReader\<close>: too large, unreadable, or the bytes.\<close>

datatype read_error = TooLarge | Unreadable

definition readAll :: "nat \<Rightarrow> body_read \<Rightarrow> (read_error, bytes) result" where
  "readAll limit b = (case b of BodyError \<Rightarrow> Err Unreadable | Body bs \<Rightarrow> if length bs > limit then Err TooLarge else Ok bs)"

section \<open>Cells\<close>

definition truncatedMark :: string where "truncatedMark = ellipsis @ ''(truncated)''"

definition clampString :: "string \<Rightarrow> string" where
  "clampString s = (if length s \<le> queryMaxCellBytes then s else take (runeCut s queryMaxCellBytes) s @ truncatedMark)"

fun sanitizeCell :: "cell \<Rightarrow> cell" where
  "sanitizeCell (CBytes s) = CText (clampString s)"
| "sanitizeCell (CText s) = CText (clampString s)"
| "sanitizeCell c = c"

section \<open>The handlers\<close>

definition effectiveMaxRows :: "int \<Rightarrow> int" where
  "effectiveMaxRows requested =
     (let m = (if requested \<le> 0 then queryDefaultMaxRows else requested)
      in if m > queryMaxMaxRows then queryMaxMaxRows else m)"

definition budgetRows :: "int \<Rightarrow> Result \<Rightarrow> queryResponse" where
  "budgetRows requested res =
     (let maxRows = nat (effectiveMaxRows requested);
          (rows, truncated) = (if length (res_Rows res) > maxRows then (take maxRows (res_Rows res), True) else (res_Rows res, res_Truncated res));
          out = map (map sanitizeCell) rows
      in \<lparr>qp_Columns = res_Columns res, qp_Rows = out, qp_RowCount = length out, qp_Truncated = truncated\<rparr>)"

definition runQuery :: "query_env \<Rightarrow> Scope \<Rightarrow> (string \<Rightarrow> row_source) \<Rightarrow> api_request \<Rightarrow> api_response" where
  "runQuery Q scope db req =
     (case readAll queryMaxBodyBytes (rq_body req) of
        Inl _ \<Rightarrow> sendQueryError Q 400 ''request body unreadable or over 64KB''
      | Inr body \<Rightarrow>
         (case qe_unmarshal Q body of
            None \<Rightarrow> sendQueryError Q 400 (''body must be JSON: {'' @ [dquote] @ ''sql'' @ [dquote] @ '': '' @ [dquote] @ ''...'' @ [dquote] @ '', '' @ [dquote] @ ''max_rows'' @ [dquote] @ '': 200}'')
          | Some q \<Rightarrow>
             if qr_SQL q = [] then sendQueryError Q 400 ''sql is required''
             else (case ValidateIn (qe_sqlp Q) (qr_SQL q) scope of
                Inl e \<Rightarrow> sendQueryError Q 400 (qe_verr Q e)
              | Inr v \<Rightarrow>
                 (case Execute (db (qe_string Q (v_stmt v))) of
                    (_, Some e) \<Rightarrow> sendQueryError Q 400 e
                  | (None, None) \<Rightarrow> sendQueryError Q 400 []
                  | (Some res, None) \<Rightarrow> sendJsonResponse 200 (qe_response Q (budgetRows (qr_MaxRows q) res))))))"

definition queryLogs :: "query_env \<Rightarrow> (string \<Rightarrow> row_source) \<Rightarrow> api_request \<Rightarrow> api_response" where
  "queryLogs Q db = runQuery Q ScopeLogs db"

definition queryMetrics :: "query_env \<Rightarrow> (string \<Rightarrow> row_source) \<Rightarrow> api_request \<Rightarrow> api_response" where
  "queryMetrics Q db = runQuery Q ScopeMetrics db"

text \<open>The rows of the catalog statement: an error of the query, or rows that scan or do not.\<close>

type_synonym catalog_source = "(string, (string \<times> string \<times> int \<times> int) option list) result"

fun scanCatalog :: "(string \<times> string \<times> int \<times> int) option list \<Rightarrow> catalogRow list option" where
  "scanCatalog [] = Some []"
| "scanCatalog (None # rs) = None"
| "scanCatalog (Some (name, service, ty, seen) # rs) =
     map_option ((#) \<lparr>ct_Name = name, ct_Type = (if ty = 1 then ''gauge'' else ''counter''), ct_Service = service, ct_LastSeenMs = seen\<rparr>) (scanCatalog rs)"

definition queryCatalog :: "query_env \<Rightarrow> catalog_source \<Rightarrow> api_response" where
  "queryCatalog Q src =
     (case src of
        Inl _ \<Rightarrow> sendErrorResponse Q 500 ''internal''
      | Inr rows \<Rightarrow> (case scanCatalog rows of None \<Rightarrow> sendErrorResponse Q 500 ''internal'' | Some out \<Rightarrow> sendJsonResponse 200 (qe_catalog Q out)))"

section \<open>Budgets\<close>

lemma effectiveMaxRows_range: "1 \<le> effectiveMaxRows n \<and> effectiveMaxRows n \<le> queryMaxMaxRows"
  by (simp add: effectiveMaxRows_def Let_def queryDefaultMaxRows_def queryMaxMaxRows_def)

lemma clampString_length: "length (clampString s) \<le> queryMaxCellBytes + length truncatedMark"
  using runeCut_le [of s queryMaxCellBytes] by (simp add: clampString_def)

text \<open>A long text is cut to whole code points, as many as fit.\<close>

lemma clampString_runes:
  assumes "list_all is_rune rs" and "queryMaxCellBytes < length (concat rs)"
  shows "\<exists>k < length rs. clampString (concat rs) = concat (take k rs) @ truncatedMark
    \<and> length (concat (take k rs)) \<le> queryMaxCellBytes \<and> queryMaxCellBytes < length (concat (take (Suc k) rs))"
  using truncate_whole_runes [OF assms] assms(2) by (auto simp: clampString_def truncateAtRune_def)

fun cell_text :: "cell \<Rightarrow> string" where
  "cell_text (CText s) = s"
| "cell_text _ = []"

lemma sanitizeCell_bounded: "length (cell_text (sanitizeCell c)) \<le> queryMaxCellBytes + length truncatedMark"
  using clampString_length by (cases c) simp_all

text \<open>
  C26: an answered query is within every budget and honest about it: at most the requested number
  of rows and never more than a thousand, every text cell cut to the cell budget, and, when it is
  not marked as truncated, all rows of the result, in order. The SQL that ran is a validated
  statement of the surface's own scope.
\<close>

theorem query_api_budgets:
  assumes "qe_unmarshal Q body = Some q" and "rq_body req = Body body" and "rp_code (runQuery Q scope db req) = 200"
    and "\<And>c m. qe_error Q c m \<noteq> None"
  shows "\<exists>v res. ValidateIn (qe_sqlp Q) (qr_SQL q) scope = Ok v \<and> Execute (db (qe_string Q (v_stmt v))) = (Some res, None)
    \<and> (let out = budgetRows (qr_MaxRows q) res
       in qe_response Q out = Some (rp_body (runQuery Q scope db req))
        \<and> qp_RowCount out = length (qp_Rows out) \<and> int (qp_RowCount out) \<le> 1000 \<and> (0 < qr_MaxRows q \<longrightarrow> int (qp_RowCount out) \<le> qr_MaxRows q)
        \<and> (\<forall>row \<in> set (qp_Rows out). \<forall>c \<in> set row. length (cell_text c) \<le> queryMaxCellBytes + length truncatedMark)
        \<and> qp_Rows out = map (map sanitizeCell) (take (qp_RowCount out) (res_Rows res))
        \<and> (\<not> qp_Truncated out \<longrightarrow> qp_Rows out = map (map sanitizeCell) (res_Rows res) \<and> \<not> res_Truncated res))"
proof -
  have e: "rp_code (sendQueryError Q 400 m) \<noteq> 200" for m
    using assms(4) by (auto simp: sendQueryError_def sendJsonResponse_def split: option.splits)
  from assms(1-3) e obtain v res where v: "ValidateIn (qe_sqlp Q) (qr_SQL q) scope = Ok v" "Execute (db (qe_string Q (v_stmt v))) = (Some res, None)"
    and r: "runQuery Q scope db req = sendJsonResponse 200 (qe_response Q (budgetRows (qr_MaxRows q) res))"
    by (auto simp: runQuery_def readAll_def split: if_splits sum.splits option.splits prod.splits)
  let ?out = "budgetRows (qr_MaxRows q) res" and ?m = "effectiveMaxRows (qr_MaxRows q)"
  have b: "qe_response Q ?out = Some (rp_body (runQuery Q scope db req))"
    using r assms(3) by (auto simp: sendJsonResponse_def split: option.splits)
  have m: "1 \<le> ?m" "?m \<le> 1000" using effectiveMaxRows_range [of "qr_MaxRows q"] by (auto simp: queryMaxMaxRows_def)
  have m': "?m \<le> qr_MaxRows q" if "0 < qr_MaxRows q" using that by (simp add: effectiveMaxRows_def Let_def)
  have rows: "qp_Rows ?out = map (map sanitizeCell) (take (nat ?m) (res_Rows res))" "qp_RowCount ?out = length (qp_Rows ?out)"
    "\<not> qp_Truncated ?out \<Longrightarrow> length (res_Rows res) \<le> nat ?m \<and> \<not> res_Truncated res"
    by (auto simp: budgetRows_def Let_def split: if_splits)
  have c: "int (qp_RowCount ?out) \<le> ?m" using rows m by simp
  have "\<forall>row \<in> set (qp_Rows ?out). \<forall>c \<in> set row. length (cell_text c) \<le> queryMaxCellBytes + length truncatedMark"
    unfolding rows(1) using sanitizeCell_bounded by fastforce
  moreover have "qp_Rows ?out = map (map sanitizeCell) (take (qp_RowCount ?out) (res_Rows res))"
    unfolding rows(2) unfolding rows(1) by (simp add: min_def)
  moreover have "\<not> qp_Truncated ?out \<longrightarrow> qp_Rows ?out = map (map sanitizeCell) (res_Rows res) \<and> \<not> res_Truncated res"
    using rows(1,3) by simp
  moreover have "int (qp_RowCount ?out) \<le> 1000" "0 < qr_MaxRows q \<longrightarrow> int (qp_RowCount ?out) \<le> qr_MaxRows q"
    using c m(2) m' by linarith+
  ultimately show ?thesis using v b rows(2) unfolding Let_def by blast
qed

definition query_env_sample :: query_env where
  "query_env_sample = \<lparr>qe_sqlp = sqlp_sample, qe_string = (\<lambda>_. ''SELECT''), qe_verr = (\<lambda>_. ''invalid''),
     qe_unmarshal = (\<lambda>b. Some \<lparr>qr_SQL = b, qr_MaxRows = 1\<rparr>), qe_response = (\<lambda>r. Some (replicate (qp_RowCount r) (CHR ''r''))),
     qe_error = (\<lambda>c m. Some m), qe_catalog = (\<lambda>_. Some [])\<rparr>"

definition query_request_sample :: api_request where
  "query_request_sample = \<lparr>rq_method = ''POST'', rq_path = ''/api/v1/query/logs'', rq_remoteAddr = ''10.0.0.9:5555'',
     rq_headers = [(''X-Api-Key'', ''k'')], rq_body = Body ''SELECT'', rq_now = 1000, rq_failAt = 1001, rq_handledAt = 1002\<rparr>"

definition two_rows :: row_source where
  "two_rows = \<lparr>rs_start = None, rs_columns = Inr [''n''], rs_rows = [Inr [CInt 1], Inr [CText ''x'']], rs_err = None\<rparr>"

theorem query_api_budgets_witness:
  "rp_code (runQuery query_env_sample ScopeLogs (\<lambda>_. two_rows) query_request_sample) = 200
   \<and> rp_body (runQuery query_env_sample ScopeLogs (\<lambda>_. two_rows) query_request_sample) = ''r''"
proof -
  have x: "Execute two_rows = (Some \<lparr>res_Columns = [''n''], res_Rows = [[CInt 1], [CText ''x'']], res_Truncated = False\<rparr>, None)"
    by (simp add: Execute_def two_rows_def MaxRows_def MaxResultBytes_def row_bytes_def)
  have "runQuery query_env_sample ScopeLogs (\<lambda>_. two_rows) query_request_sample =
    sendJsonResponse 200 (qe_response query_env_sample (budgetRows 1 \<lparr>res_Columns = [''n''], res_Rows = [[CInt 1], [CText ''x'']], res_Truncated = False\<rparr>))"
    by (simp add: runQuery_def readAll_def query_request_sample_def query_env_sample_def queryMaxBodyBytes_def sample_validates_in x)
  then have c: "rp_code (runQuery query_env_sample ScopeLogs (\<lambda>_. two_rows) query_request_sample) = 200"
    by (simp add: sendJsonResponse_def query_env_sample_def)
  have q: "qe_unmarshal query_env_sample ''SELECT'' = Some \<lparr>qr_SQL = ''SELECT'', qr_MaxRows = 1\<rparr>" "rq_body query_request_sample = Body ''SELECT''"
    "\<And>c m. qe_error query_env_sample c m \<noteq> None" by (simp_all add: query_env_sample_def query_request_sample_def)
  from query_api_budgets [OF q(1,2) c q(3)] obtain res where res: "Execute two_rows = (Some res, None)"
    and r: "qe_response query_env_sample (budgetRows 1 res) = Some (rp_body (runQuery query_env_sample ScopeLogs (\<lambda>_. two_rows) query_request_sample))"
    unfolding Let_def queryRequest.simps by blast
  from res x have "res = \<lparr>res_Columns = [''n''], res_Rows = [[CInt 1], [CText ''x'']], res_Truncated = False\<rparr>" by simp
  with r have "qe_response query_env_sample (budgetRows 1 \<lparr>res_Columns = [''n''], res_Rows = [[CInt 1], [CText ''x'']], res_Truncated = False\<rparr>)
      = Some (rp_body (runQuery query_env_sample ScopeLogs (\<lambda>_. two_rows) query_request_sample))" by simp
  then show ?thesis using c
    by (simp add: query_env_sample_def budgetRows_def effectiveMaxRows_def queryMaxMaxRows_def)
qed

end
