(* ===== verification/Common_Model.thy ===== *)
theory Common_Model
  imports Go_Strconv
begin

text \<open>
  The shared vocabulary of package \<open>common\<close>: log levels, the normalized log record every
  parser produces (\<open>common/models.go\<close>) and the clamp that guards client-supplied event
  times, with its 64-bit arithmetic.
\<close>

definition LevelTrace :: int where "LevelTrace = 0"
definition LevelDebug :: int where "LevelDebug = 1"
definition LevelInfo :: int where "LevelInfo = 2"
definition LevelWarn :: int where "LevelWarn = 3"
definition LevelError :: int where "LevelError = 4"
definition LevelFatal :: int where "LevelFatal = 5"

lemmas level_defs = LevelTrace_def LevelDebug_def LevelInfo_def LevelWarn_def LevelError_def
  LevelFatal_def

text \<open>Nil pointers of the Go struct are \<open>None\<close>.\<close>

record StandardLog =
  sl_Timestamp :: ms
  sl_IngestedAt :: ms
  sl_Level :: "int option"
  sl_Service :: string
  sl_Host :: string
  sl_Message :: "string option"
  sl_Parsed :: "string option"
  sl_Raw :: string

text \<open>The zero value of the struct.\<close>

definition zero_log :: StandardLog where
  "zero_log = \<lparr>sl_Timestamp = 0, sl_IngestedAt = 0, sl_Level = None, sl_Service = [],
     sl_Host = [], sl_Message = None, sl_Parsed = None, sl_Raw = []\<rparr>"

lemma zero_log_simps [simp]:
  "sl_Timestamp zero_log = 0" "sl_Level zero_log = None" "sl_Raw zero_log = []"
  "sl_Message zero_log = None" "sl_Parsed zero_log = None" "sl_Service zero_log = []"
  by (simp_all add: zero_log_def)

definition maxFutureMs :: int where "maxFutureMs = 24 * 60 * 60 * 1000"
definition maxPastMs :: int where "maxPastMs = 3650 * 24 * 60 * 60 * 1000"

definition ClampTimestamp :: "ms \<Rightarrow> ms \<Rightarrow> ms" where
  "ClampTimestamp ts receivedAt =
     (if ts > i64 (receivedAt + maxFutureMs) \<or> ts < i64 (receivedAt - maxPastMs)
      then receivedAt else ts)"

lemma clamp_bounds_exact:
  assumes "0 \<le> receivedAt" and "receivedAt < 2 ^ 62"
  shows "i64 (receivedAt + maxFutureMs) = receivedAt + maxFutureMs"
    and "i64 (receivedAt - maxPastMs) = receivedAt - maxPastMs"
  using assms by (auto intro!: i64_id simp: maxFutureMs_def maxPastMs_def)

lemma ClampTimestamp_window:
  assumes "0 \<le> receivedAt" and "receivedAt < 2 ^ 62"
  shows "receivedAt - maxPastMs \<le> ClampTimestamp ts receivedAt \<and>
     ClampTimestamp ts receivedAt \<le> receivedAt + maxFutureMs"
proof -
  have "0 \<le> maxFutureMs" "0 \<le> maxPastMs" by (simp_all add: maxFutureMs_def maxPastMs_def)
  then show ?thesis by (auto simp: ClampTimestamp_def clamp_bounds_exact [OF assms])
qed

lemma ClampTimestamp_inside:
  assumes "0 \<le> receivedAt" and "receivedAt < 2 ^ 62"
    and "receivedAt - maxPastMs \<le> ts" and "ts \<le> receivedAt + maxFutureMs"
  shows "ClampTimestamp ts receivedAt = ts"
  using assms(3,4) by (simp add: ClampTimestamp_def clamp_bounds_exact [OF assms(1,2)])

lemma ClampTimestamp_outside:
  assumes "0 \<le> receivedAt" and "receivedAt < 2 ^ 62"
    and "ts < receivedAt - maxPastMs \<or> receivedAt + maxFutureMs < ts"
  shows "ClampTimestamp ts receivedAt = receivedAt"
  using assms(3) by (auto simp: ClampTimestamp_def clamp_bounds_exact [OF assms(1,2)])

text \<open>
  Whatever event time a client supplies, the stored time lies in the window from 3650 days
  before to one day after its arrival; inside the window the client's time is kept, outside it
  the arrival time is used. The 64-bit sums do not wrap for any realistic arrival time.
\<close>

theorem clamp_timestamp_sound:
  assumes "0 \<le> receivedAt" and "receivedAt < 2 ^ 62"
  shows "receivedAt - maxPastMs \<le> ClampTimestamp ts receivedAt
     \<and> ClampTimestamp ts receivedAt \<le> receivedAt + maxFutureMs
     \<and> ClampTimestamp ts receivedAt =
         (if receivedAt - maxPastMs \<le> ts \<and> ts \<le> receivedAt + maxFutureMs then ts else receivedAt)"
  using ClampTimestamp_window [OF assms] ClampTimestamp_inside [OF assms]
    ClampTimestamp_outside [OF assms] by force

theorem clamp_timestamp_sound_witness:
  "ClampTimestamp 1700000000000 1700000500000 = 1700000000000
   \<and> ClampTimestamp 99999999999999 1700000500000 = 1700000500000"
  using clamp_timestamp_sound [of 1700000500000 1700000000000]
    clamp_timestamp_sound [of 1700000500000 99999999999999]
  by (simp add: maxFutureMs_def maxPastMs_def)

section \<open>Statement arguments\<close>

text \<open>The values bound to the placeholders of a SQL statement.\<close>

text \<open>A \<open>float64\<close> as the metrics carry it.\<close>

datatype double = Finite rat | PosInf | NegInf | NaN

datatype sql_arg = AInt int | AText string | ANull | AReal double

definition placeholders :: "string \<Rightarrow> nat" where
  "placeholders q = length (filter (\<lambda>c. c = CHR ''?'') q)"

lemma placeholders_append [simp]: "placeholders (a @ b) = placeholders a + placeholders b"
  by (simp add: placeholders_def)

lemma placeholders_repeat: "placeholders (concat (replicate n s)) = n * placeholders s"
  by (induction n) (simp_all add: placeholders_def)

lemma placeholders_TrimSuffix: "placeholders (TrimSuffix s '','') = placeholders s"
proof (cases "HasPrefix (rev s) '',''")
  case True
  then obtain t where "rev s = '','' @ t" by (auto simp: HasPrefix_iff)
  then have "s = rev t @ '',''" by (metis rev_append rev_rev_ident rev_singleton_conv)
  then show ?thesis by (simp add: TrimSuffix_def placeholders_def)
next
  case False
  then show ?thesis by (simp add: TrimSuffix_def)
qed

lemma length_concat_const: "(\<And>x. length (f x) = k) \<Longrightarrow> length (concat (map f xs)) = k * length xs"
  by (induction xs) auto

end
