(* ===== verification/Metrics_Pipeline.thy ===== *)
theory Metrics_Pipeline
  imports Common_Model Machine
begin

text \<open>
  The metrics ingestion path, \<open>metrics/pipeline.go\<close>: producers push whole batches of rows
  through \<open>TryPush\<close>, one writer appends them to its buffer and flushes it in chunks. The
  conventions are those of the log pipeline; the admission protocol meets the same
  \<open>budget\<close> contract, with rows for bytes. There is a single queue and a single consumer,
  so the order of rows is preserved exactly.
\<close>

definition TypeCounter :: int where "TypeCounter = 0"
definition TypeGauge :: int where "TypeGauge = 1"

definition batchChanSize :: nat where "batchChanSize = 100"
definition metricsBatchSize :: nat where "metricsBatchSize = 500"
definition maxBufferedRows :: int where "maxBufferedRows = 500000"

record Row =
  r_Timestamp :: ms
  r_Name :: string
  r_Type :: int
  r_Value :: double
  r_Service :: string
  r_Host :: string
  r_Labels :: string

datatype mp_phase = MRunning | MGateClosed | MChClosed | MFinished

record MPipeline =
  mp_closed :: bool
  mp_callers :: "Row list caller list"
  mp_bufferedRows :: int
  mp_batchCh :: "Row list list"
  mp_chClosed :: bool
  mp_buf :: "Row list"
  mp_writerDone :: bool
  mp_db :: "Row list"
  mp_dropped :: "Row list"
  mp_shutdown :: mp_phase
  mp_panic :: bool
  mp_accepted :: "Row list list"

definition NewMPipeline :: MPipeline where
  "NewMPipeline = \<lparr>mp_closed = False, mp_callers = [], mp_bufferedRows = 0, mp_batchCh = [],
     mp_chClosed = False, mp_buf = [], mp_writerDone = False, mp_db = [], mp_dropped = [],
     mp_shutdown = MRunning, mp_panic = False, mp_accepted = []\<rparr>"

definition caller_at :: "nat \<Rightarrow> MPipeline \<Rightarrow> Row list caller option" where
  "caller_at i p = (if i < length (mp_callers p) then Some (mp_callers p ! i) else None)"

lemma caller_at_SomeD [dest!]: "caller_at i p = Some c \<Longrightarrow> i < length (mp_callers p) \<and> mp_callers p ! i = c"
  by (simp add: caller_at_def split: if_splits)

section \<open>TryPush\<close>

definition tp_enter :: "Row list \<Rightarrow> MPipeline \<Rightarrow> MPipeline option" where
  "tp_enter rows p = Some (p\<lparr>mp_callers := mp_callers p @
     [if rows = [] then Returned True else if mp_closed p then Returned False else Entered rows]\<rparr>)"

definition tp_add :: "nat \<Rightarrow> MPipeline \<Rightarrow> MPipeline option" where
  "tp_add i p = (case caller_at i p of
      Some (Entered rows) \<Rightarrow>
        let c = mp_bufferedRows p + int (length rows)
        in Some (p\<lparr>mp_bufferedRows := c,
             mp_callers := (mp_callers p)[i := if c > maxBufferedRows then RollingBack rows else Reserved rows]\<rparr>)
    | _ \<Rightarrow> None)"

definition tp_rollback :: "nat \<Rightarrow> MPipeline \<Rightarrow> MPipeline option" where
  "tp_rollback i p = (case caller_at i p of
      Some (RollingBack rows) \<Rightarrow>
        Some (p\<lparr>mp_bufferedRows := mp_bufferedRows p - int (length rows),
          mp_callers := (mp_callers p)[i := Returned False]\<rparr>)
    | _ \<Rightarrow> None)"

definition tp_send :: "nat \<Rightarrow> MPipeline \<Rightarrow> MPipeline option" where
  "tp_send i p = (case caller_at i p of
      Some (Reserved rows) \<Rightarrow>
        Some (if mp_chClosed p then p\<lparr>mp_panic := True\<rparr>
          else if length (mp_batchCh p) < batchChanSize
          then p\<lparr>mp_batchCh := mp_batchCh p @ [rows], mp_accepted := mp_accepted p @ [rows],
                 mp_callers := (mp_callers p)[i := Returned True]\<rparr>
          else p\<lparr>mp_callers := (mp_callers p)[i := RollingBack rows]\<rparr>)
    | _ \<Rightarrow> None)"

text \<open>The whole call, when no other goroutine runs in between.\<close>

definition TryPush :: "Row list \<Rightarrow> MPipeline \<Rightarrow> bool \<times> MPipeline" where
  "TryPush rows p =
     (if rows = [] then (True, p)
      else if mp_closed p then (False, p)
      else
        let n = int (length rows); c = mp_bufferedRows p + n
        in if c > maxBufferedRows then (False, p\<lparr>mp_bufferedRows := c - n\<rparr>)
           else if length (mp_batchCh p) < batchChanSize
           then (True, p\<lparr>mp_bufferedRows := c, mp_batchCh := mp_batchCh p @ [rows]\<rparr>)
           else (False, p\<lparr>mp_bufferedRows := c - n\<rparr>))"

section \<open>The writer\<close>

text \<open>
  \<open>tryFlush\<close> writes the buffer chunk by chunk and stops at the first failing insert;
  \<open>k\<close> is the number of inserts that succeed before one fails. The result is what was
  written and what stays in the buffer.
\<close>

fun mtryFlush :: "nat \<Rightarrow> Row list \<Rightarrow> Row list \<times> Row list" where
  "mtryFlush 0 buf = ([], buf)"
| "mtryFlush (Suc k) buf =
     (if buf = [] then ([], [])
      else let n = min (length buf) metricsBatchSize
           in case mtryFlush k (drop n buf) of (w, r) \<Rightarrow> (take n buf @ w, r))"

lemma mtryFlush_append: "mtryFlush k buf = (w, r) \<Longrightarrow> w @ r = buf"
  by (induction k buf arbitrary: w r rule: mtryFlush.induct) (auto simp: Let_def split: if_splits prod.splits)

lemma mtryFlush_complete: "length buf \<le> k * metricsBatchSize \<Longrightarrow> mtryFlush k buf = (buf, [])"
proof (induction k buf rule: mtryFlush.induct)
  case (1 buf)
  then show ?case by simp
next
  case (2 k buf)
  then show ?case by (auto simp: Let_def split: prod.splits)
qed

definition wr_flush :: "nat \<Rightarrow> MPipeline \<Rightarrow> MPipeline" where
  "wr_flush k p = (case mtryFlush k (mp_buf p) of (w, r) \<Rightarrow> p\<lparr>mp_db := mp_db p @ w, mp_buf := r\<rparr>)"

definition wr_full :: "nat \<Rightarrow> MPipeline \<Rightarrow> MPipeline option" where
  "wr_full k p =
     (if \<not> mp_writerDone p \<and> length (mp_buf p) \<ge> metricsBatchSize then Some (wr_flush k p) else None)"

definition wr_recv :: "MPipeline \<Rightarrow> MPipeline option" where
  "wr_recv p =
     (if mp_writerDone p \<or> length (mp_buf p) \<ge> metricsBatchSize then None
      else case mp_batchCh p of
        rows # rest \<Rightarrow> Some (p\<lparr>mp_batchCh := rest, mp_bufferedRows := mp_bufferedRows p - int (length rows),
           mp_buf := mp_buf p @ rows\<rparr>)
      | [] \<Rightarrow> None)"

definition wr_tick :: "nat \<Rightarrow> MPipeline \<Rightarrow> MPipeline option" where
  "wr_tick k p =
     (if mp_writerDone p \<or> length (mp_buf p) \<ge> metricsBatchSize then None else Some (wr_flush k p))"

definition wr_close :: "nat \<Rightarrow> MPipeline \<Rightarrow> MPipeline option" where
  "wr_close k p =
     (if mp_writerDone p \<or> length (mp_buf p) \<ge> metricsBatchSize \<or> mp_batchCh p \<noteq> [] \<or> \<not> mp_chClosed p
      then None
      else let q = wr_flush k p
           in Some (q\<lparr>mp_dropped := mp_dropped q @ mp_buf q, mp_buf := [], mp_writerDone := True\<rparr>))"

section \<open>Shutdown\<close>

definition md_gate :: "MPipeline \<Rightarrow> MPipeline option" where
  "md_gate p =
     (if mp_shutdown p = MRunning \<and> list_all returned (mp_callers p)
      then Some (p\<lparr>mp_closed := True, mp_shutdown := MGateClosed\<rparr>) else None)"

definition md_close :: "MPipeline \<Rightarrow> MPipeline option" where
  "md_close p =
     (if mp_shutdown p = MGateClosed then Some (p\<lparr>mp_chClosed := True, mp_shutdown := MChClosed\<rparr>) else None)"

definition md_finish :: "MPipeline \<Rightarrow> MPipeline option" where
  "md_finish p =
     (if mp_shutdown p = MChClosed \<and> mp_writerDone p then Some (p\<lparr>mp_shutdown := MFinished\<rparr>) else None)"

datatype maction =
    TpEnter "Row list" | TpAdd nat | TpRollback nat | TpSend nat
  | WrFull nat | WrRecv | WrTick nat | WrClose nat
  | MdGate | MdClose | MdFinish

fun mexec :: "maction \<Rightarrow> MPipeline \<Rightarrow> MPipeline option" where
  "mexec (TpEnter rows) p = tp_enter rows p"
| "mexec (TpAdd i) p = tp_add i p"
| "mexec (TpRollback i) p = tp_rollback i p"
| "mexec (TpSend i) p = tp_send i p"
| "mexec (WrFull k) p = wr_full k p"
| "mexec WrRecv p = wr_recv p"
| "mexec (WrTick k) p = wr_tick k p"
| "mexec (WrClose k) p = wr_close k p"
| "mexec MdGate p = md_gate p"
| "mexec MdClose p = md_close p"
| "mexec MdFinish p = md_finish p"

lemmas mp_defs = tp_enter_def tp_add_def tp_rollback_def tp_send_def wr_full_def wr_recv_def
  wr_tick_def wr_close_def md_gate_def md_close_def md_finish_def

lemmas mp_splits = option.splits list.splits caller.splits if_splits prod.splits

lemma wr_flush_frame [simp]:
  "mp_callers (wr_flush k p) = mp_callers p" "mp_bufferedRows (wr_flush k p) = mp_bufferedRows p"
  "mp_batchCh (wr_flush k p) = mp_batchCh p" "mp_chClosed (wr_flush k p) = mp_chClosed p"
  "mp_closed (wr_flush k p) = mp_closed p" "mp_writerDone (wr_flush k p) = mp_writerDone p"
  "mp_dropped (wr_flush k p) = mp_dropped p" "mp_shutdown (wr_flush k p) = mp_shutdown p"
  "mp_panic (wr_flush k p) = mp_panic p" "mp_accepted (wr_flush k p) = mp_accepted p"
  by (simp_all add: wr_flush_def split: prod.splits)

lemma wr_flush_append: "mp_db (wr_flush k p) @ mp_buf (wr_flush k p) = mp_db p @ mp_buf p"
  using mtryFlush_append [of k "mp_buf p"] by (auto simp: wr_flush_def split: prod.splits)

lemma wr_flush_shorter: "length (mp_buf (wr_flush k p)) \<le> length (mp_buf p)"
  using wr_flush_append [of k p, THEN arg_cong [where f = length]]
  by (auto simp: wr_flush_def split: prod.splits)

section \<open>The row budget\<close>

definition held_rows :: "MPipeline \<Rightarrow> nat" where
  "held_rows p = reserved_sum length (mp_callers p) + sum_list (map length (mp_batchCh p))"

definition rolling_rows :: "MPipeline \<Rightarrow> nat" where
  "rolling_rows p = rolling_sum length (mp_callers p)"

lemma mexec_accounting:
  "mexec a p = Some q \<Longrightarrow>
     mp_bufferedRows q - int (held_rows q) - int (rolling_rows q)
     = mp_bufferedRows p - int (held_rows p) - int (rolling_rows p)"
  by (cases a) (auto simp: mp_defs Let_def held_rows_def rolling_rows_def caller_sums_int split: mp_splits)

lemma mexec_guarded:
  assumes "mexec a p = Some q" and "held_rows p < held_rows q"
  shows "mp_bufferedRows q \<le> maxBufferedRows"
proof -
  have "int (held_rows p) < int (held_rows q)" using assms(2) by simp
  with assms(1) show ?thesis
    by (cases a) (auto simp: mp_defs Let_def held_rows_def caller_sums_int split: mp_splits)
qed

interpretation metrics_budget: budget mexec NewMPipeline mp_bufferedRows held_rows rolling_rows maxBufferedRows
proof
  show "0 \<le> maxBufferedRows" by (simp add: maxBufferedRows_def)
  show "mp_bufferedRows NewMPipeline = 0" "held_rows NewMPipeline = 0" "rolling_rows NewMPipeline = 0"
    by (simp_all add: NewMPipeline_def held_rows_def rolling_rows_def reserved_sum_def rolling_sum_def)
qed (fact mexec_accounting mexec_guarded)+

section \<open>Order, bounds and shutdown\<close>

definition fifo_inv :: "MPipeline \<Rightarrow> bool" where
  "fifo_inv p \<longleftrightarrow>
     concat (mp_accepted p) = mp_db p @ mp_dropped p @ mp_buf p @ concat (mp_batchCh p)
   \<and> (mp_dropped p \<noteq> [] \<longrightarrow> mp_writerDone p) \<and> length (mp_dropped p) < metricsBatchSize
   \<and> (mp_writerDone p \<longrightarrow> mp_chClosed p \<and> mp_batchCh p = [] \<and> mp_buf p = [])
   \<and> (mp_shutdown p = MFinished \<longrightarrow> mp_writerDone p)"

fun mp_flags :: "mp_phase \<Rightarrow> bool \<times> bool" where
  "mp_flags MRunning = (False, False)"
| "mp_flags MGateClosed = (True, False)"
| "mp_flags MChClosed = (True, True)"
| "mp_flags MFinished = (True, True)"

definition gate_inv :: "MPipeline \<Rightarrow> bool" where
  "gate_inv p \<longleftrightarrow> (mp_closed p, mp_chClosed p) = mp_flags (mp_shutdown p)
     \<and> (mp_closed p \<longrightarrow> list_all returned (mp_callers p)) \<and> \<not> mp_panic p
     \<and> length (mp_batchCh p) \<le> batchChanSize"

lemma fifo_flush:
  assumes "fifo_inv p" and "\<not> mp_writerDone p"
  shows "fifo_inv (wr_flush k p)"
    and "fifo_inv ((wr_flush k p)\<lparr>mp_dropped := mp_dropped (wr_flush k p) @ mp_buf (wr_flush k p),
      mp_buf := [], mp_writerDone := True\<rparr>)
      \<longleftrightarrow> mp_chClosed p \<and> mp_batchCh p = [] \<and> length (mp_buf (wr_flush k p)) < metricsBatchSize"
  using assms wr_flush_append [of k p] by (auto simp: fifo_inv_def)

lemma fifo_step: 
  assumes "fifo_inv p" and "mexec a p = Some q"
  shows "fifo_inv q"
proof (cases a)
  case (WrFull k)
  with assms fifo_flush(1) [OF assms(1)] show ?thesis by (auto simp: wr_full_def split: if_splits)
next
  case (WrTick k)
  with assms fifo_flush(1) [OF assms(1)] show ?thesis by (auto simp: wr_tick_def split: if_splits)
next
  case (WrClose k)
  with assms fifo_flush(2) [OF assms(1), of k] wr_flush_shorter [of k p] show ?thesis
    by (auto simp: wr_close_def Let_def split: if_splits)
next
  case WrRecv
  with assms show ?thesis by (auto simp: wr_recv_def fifo_inv_def split: if_splits list.splits)
qed (use assms in \<open>auto simp: mp_defs Let_def fifo_inv_def split: mp_splits\<close>)

lemma gate_step:
  assumes "gate_inv p" and "mexec a p = Some q"
  shows "gate_inv q"
proof (cases "mp_closed p")
  case True
  with assms show ?thesis
    by (cases a) (auto simp: mp_defs Let_def gate_inv_def split: mp_splits
        dest: not_all_returned intro: list_all_update)
next
  case False
  with assms(1) have "mp_shutdown p = MRunning" by (cases "mp_shutdown p") (auto simp: gate_inv_def)
  with assms False show ?thesis
    by (cases a) (auto simp: mp_defs Let_def gate_inv_def split: mp_splits)
qed

lemma mp_invs_init: "fifo_inv NewMPipeline" "gate_inv NewMPipeline"
  by (simp_all add: fifo_inv_def gate_inv_def NewMPipeline_def metricsBatchSize_def)

lemma fifo_reachable: "reachable mexec NewMPipeline p \<Longrightarrow> fifo_inv p"
  by (erule reachable_invariant) (auto intro: mp_invs_init fifo_step)

lemma gate_reachable: "reachable mexec NewMPipeline p \<Longrightarrow> gate_inv p"
  by (erule reachable_invariant) (auto intro: mp_invs_init gate_step)

text \<open>The buffer takes whole batches, so its bound is a chunk plus one admissible batch.\<close>

lemma batch_le_held: "rows \<in> set (mp_batchCh p) \<Longrightarrow> length rows \<le> held_rows p"
  by (auto simp: held_rows_def in_set_conv_decomp)

lemma buf_reachable:
  assumes "reachable mexec NewMPipeline p"
  shows "int (length (mp_buf p)) < int metricsBatchSize + maxBufferedRows"
  using assms
proof induction
  case reach_init
  show ?case by (simp add: NewMPipeline_def metricsBatchSize_def maxBufferedRows_def)
next
  case (reach_step p a q)
  have "int (held_rows p) \<le> maxBufferedRows" by (rule metrics_budget.within_limit [OF reach_step.hyps(1)])
  then have *: "int (length rows) \<le> maxBufferedRows" if "rows \<in> set (mp_batchCh p)" for rows
    using batch_le_held [OF that] by linarith
  from reach_step show ?case
  proof (cases a)
    case WrRecv
    with reach_step show ?thesis using * [of "hd (mp_batchCh p)"]
      by (auto simp: wr_recv_def split: if_splits list.splits)
  qed (auto simp: mp_defs Let_def split: mp_splits simp: metricsBatchSize_def maxBufferedRows_def
      intro: le_less_trans [OF wr_flush_shorter])
qed

section \<open>Properties\<close>

definition row_sample :: Row where
  "row_sample = \<lparr>r_Timestamp = 1, r_Name = ''up'', r_Type = TypeGauge, r_Value = Finite 1, r_Service = ''api'',
     r_Host = ''h'', r_Labels = []\<rparr>"

text \<open>A sample run: one batch is pushed, received, and flushed at shutdown.\<close>

definition mp_sample :: MPipeline where
  "mp_sample = NewMPipeline\<lparr>mp_callers := [Returned True], mp_accepted := [[row_sample]], mp_db := [row_sample],
     mp_closed := True, mp_chClosed := True, mp_writerDone := True, mp_shutdown := MFinished\<rparr>"

lemma mp_sample_reachable: "reachable mexec NewMPipeline mp_sample"
proof -
  have "run mexec [TpEnter [row_sample], TpAdd 0, TpSend 0, WrRecv, MdGate, MdClose, WrClose 1, MdFinish]
      NewMPipeline = Some mp_sample"
    by (simp add: mp_defs caller_at_def NewMPipeline_def mp_sample_def maxBufferedRows_def batchChanSize_def
        metricsBatchSize_def wr_flush_def Let_def)
  then show ?thesis by (rule run_reachable [OF reach_init])
qed

text \<open>
  The row budget holds under every interleaving of producers: the rows queued or reserved
  never exceed \<open>maxBufferedRows\<close>, the counter is exact up to the callers rolling back, and the
  writer's buffer stays below one chunk plus one admissible batch.
\<close>

theorem metrics_budget_safe:
  assumes "reachable mexec NewMPipeline p"
  shows "int (held_rows p) \<le> maxBufferedRows
    \<and> mp_bufferedRows p = int (held_rows p) + int (rolling_rows p)
    \<and> int (length (mp_buf p)) < int metricsBatchSize + maxBufferedRows"
  using metrics_budget.within_limit [OF assms] metrics_budget.counter_exact [OF assms]
    buf_reachable [OF assms] by simp

theorem metrics_budget_safe_witness:
  "int (held_rows mp_sample) \<le> maxBufferedRows \<and> mp_bufferedRows mp_sample = int (held_rows mp_sample) + int (rolling_rows mp_sample)"
  using metrics_budget_safe [OF mp_sample_reachable] by simp

text \<open>
  C7: metric rows are stored in order and none is lost. At every moment the rows of the accepted
  batches, in the order of acceptance, are exactly the stored rows, followed by the rows given
  up at shutdown, the buffer and the queue; when \<open>Shutdown\<close> has returned only a failing last
  flush leaves rows unstored, fewer than one chunk. No producer panics on the closed channel.
\<close>

theorem metrics_fifo:
  assumes "reachable mexec NewMPipeline p"
  shows "concat (mp_accepted p) = mp_db p @ mp_dropped p @ mp_buf p @ concat (mp_batchCh p)
    \<and> (mp_shutdown p = MFinished \<longrightarrow>
        concat (mp_accepted p) = mp_db p @ mp_dropped p \<and> length (mp_dropped p) < metricsBatchSize)
    \<and> \<not> mp_panic p"
  using fifo_reachable [OF assms] gate_reachable [OF assms] by (auto simp: fifo_inv_def gate_inv_def)

theorem metrics_fifo_witness: "concat (mp_accepted mp_sample) = mp_db mp_sample @ mp_dropped mp_sample"
  using metrics_fifo [OF mp_sample_reachable] by (simp add: mp_sample_def NewMPipeline_def)

text \<open>
  The insert statement of a flush.
\<close>

definition metricsInsertPrefix :: string where
  "metricsInsertPrefix = ''INSERT INTO metrics(timestamp,name,type,value,service,host,labels) VALUES ''"

definition flush :: "Row list \<Rightarrow> string \<times> sql_arg list" where
  "flush rows =
     (metricsInsertPrefix @ TrimSuffix (concat (replicate (length rows) ''(?,?,?,?,?,?,?),'')) '','',
      concat (map (\<lambda>r. [AInt (r_Timestamp r), AText (r_Name r), AInt (r_Type r), AReal (r_Value r),
         AText (r_Service r), AText (r_Host r), (if r_Labels r \<noteq> [] then AText (r_Labels r) else ANull)]) rows))"

lemma flush_args: "length (snd (flush rows)) = 7 * length rows"
  unfolding flush_def snd_conv by (rule length_concat_const) simp

lemma flush_holes: "placeholders (fst (flush rows)) = 7 * length rows"
  by (simp add: flush_def placeholders_TrimSuffix placeholders_repeat)
    (simp add: placeholders_def metricsInsertPrefix_def)

section \<open>Values the table refuses\<close>











end
