(* ===== verification/Otlp.thy ===== *)
theory Otlp
  imports Metrics_Pipeline "HOL-Library.Word"
begin

unbundle bit_operations_syntax

text \<open>
  OTLP metrics ingestion, the conversion half of \<open>api/otlp.go\<close>: from a decoded export request to
  metric rows. The protobuf messages are records with the fields the code reads; a getter on an
  absent message gives the zero value, which is what the records hold there. \<open>json.Marshal\<close> of
  a map of texts, \<open>strconv.FormatFloat\<close> and the debug print of the attribute kinds that the code
  does not name are the fields of \<open>otlp_env\<close>. The handler itself is in \<open>Api_Server\<close>.
\<close>

record otlp_env =
  oe_json :: "(string \<rightharpoonup> string) \<Rightarrow> string option"
  oe_float :: "double \<Rightarrow> string"

text \<open>Arrays, lists and bytes are kept as the text that \<open>%v\<close> prints for them.\<close>

datatype AnyValue = StringValue string | BoolValue bool | IntValue int | DoubleValue double | OtherValue string

record KeyValue =
  kv_Key :: string
  kv_Value :: AnyValue

datatype number_value = AsDouble double | AsInt int | NoNumber

record NumberDataPoint =
  np_Attributes :: "KeyValue list"
  np_TimeUnixNano :: "64 word"
  np_Flags :: "32 word"
  np_Value :: number_value

record sum_point =
  sp_Attributes :: "KeyValue list"
  sp_TimeUnixNano :: "64 word"
  sp_Flags :: "32 word"
  sp_Sum :: "double option"
  sp_Count :: "64 word"

datatype metric_data =
    MGauge "NumberDataPoint list" | MSum bool "NumberDataPoint list"
  | MHistogram "sum_point list" | MExponentialHistogram "sum_point list" | MSummary "sum_point list" | MNoData

record Metric =
  me_Name :: string
  me_Data :: metric_data

record ResourceMetrics =
  rm_Attributes :: "KeyValue list"
  rm_Scopes :: "Metric list list"

definition maxOTLPRowsPerRequest :: nat where "maxOTLPRowsPerRequest = 50000"
definition noRecordedValueMask :: "32 word" where "noRecordedValueMask = 1"

text \<open>\<open>float64\<close> of a 64-bit integer; rounding to nearest is symmetric in the sign.\<close>

definition float64_int :: "int \<Rightarrow> double" where
  "float64_int n = Finite (if 0 \<le> n then f64 (rat_of_int n) else - f64 (rat_of_int (- n)))"

definition otlpTimestampMs :: "64 word \<Rightarrow> ms \<Rightarrow> ms" where
  "otlpTimestampMs nano receivedAt =
     (if nano = 0 then receivedAt else ClampTimestamp (sint (nano div 1000000)) receivedAt)"

fun anyValueString :: "otlp_env \<Rightarrow> AnyValue \<Rightarrow> string" where
  "anyValueString E (StringValue s) = s"
| "anyValueString E (BoolValue b) = (if b then ''true'' else ''false'')"
| "anyValueString E (IntValue n) = itoa n"
| "anyValueString E (DoubleValue d) = oe_float E d"
| "anyValueString E (OtherValue s) = s"

text \<open>A key that occurs twice keeps its last value.\<close>

definition labelsJSON :: "otlp_env \<Rightarrow> KeyValue list \<Rightarrow> string" where
  "labelsJSON E attrs =
     (if attrs = [] then []
      else case oe_json E (fold (\<lambda>kv m. if kv_Key kv \<noteq> [] then m(kv_Key kv \<mapsto> anyValueString E (kv_Value kv)) else m) attrs Map.empty)
           of None \<Rightarrow> [] | Some b \<Rightarrow> b)"

fun GetStringValue :: "AnyValue \<Rightarrow> string" where
  "GetStringValue (StringValue s) = s"
| "GetStringValue _ = []"

definition identityStep :: "KeyValue \<Rightarrow> string \<times> string \<Rightarrow> string \<times> string" where
  "identityStep kv = (\<lambda>(service, host).
     let v = GetStringValue (kv_Value kv)
     in if kv_Key kv = ''service.name'' then (if v \<noteq> [] then v else service, host)
        else if kv_Key kv = ''host.name'' then (service, if v \<noteq> [] then v else host)
        else (service, host))"

definition resourceIdentity :: "KeyValue list \<Rightarrow> string \<times> string" where
  "resourceIdentity attrs = fold identityStep attrs (''unknown'', ''unknown'')"

definition baseRow :: "string \<Rightarrow> string \<Rightarrow> Row" where
  "baseRow service host = \<lparr>r_Timestamp = 0, r_Name = [], r_Type = 0, r_Value = Finite 0, r_Service = service, r_Host = host, r_Labels = []\<rparr>"

definition appendNumberPoint :: "otlp_env \<Rightarrow> Row \<Rightarrow> string \<Rightarrow> int \<Rightarrow> ms \<Rightarrow> NumberDataPoint \<Rightarrow> Row list \<Rightarrow> Row list" where
  "appendNumberPoint E base name ty receivedAt dp rows =
     (if np_Flags dp AND noRecordedValueMask \<noteq> 0 then rows
      else let r = base\<lparr>r_Name := name, r_Type := ty, r_Timestamp := otlpTimestampMs (np_TimeUnixNano dp) receivedAt,
                  r_Labels := labelsJSON E (np_Attributes dp)\<rparr>
           in case np_Value dp of
                AsDouble d \<Rightarrow> rows @ [r\<lparr>r_Value := d\<rparr>]
              | AsInt n \<Rightarrow> rows @ [r\<lparr>r_Value := float64_int n\<rparr>]
              | NoNumber \<Rightarrow> rows)"

definition appendSumCount :: "otlp_env \<Rightarrow> Row \<Rightarrow> string \<Rightarrow> double \<Rightarrow> bool \<Rightarrow> ms \<Rightarrow> sum_point \<Rightarrow> Row list \<Rightarrow> Row list" where
  "appendSumCount E base name sumv hasSum receivedAt dp rows =
     (if sp_Flags dp AND noRecordedValueMask \<noteq> 0 then rows
      else let ts = otlpTimestampMs (sp_TimeUnixNano dp) receivedAt; labels = labelsJSON E (sp_Attributes dp);
               r = base\<lparr>r_Type := TypeCounter, r_Timestamp := ts, r_Labels := labels\<rparr>;
               rows1 = (if hasSum then rows @ [r\<lparr>r_Name := name @ ''_sum'', r_Value := sumv\<rparr>] else rows)
           in rows1 @ [r\<lparr>r_Name := name @ ''_count'', r_Value := float64_int (uint (sp_Count dp))\<rparr>])"

definition GetSum :: "sum_point \<Rightarrow> double" where
  "GetSum dp = (case sp_Sum dp of None \<Rightarrow> Finite 0 | Some d \<Rightarrow> d)"

definition appendMetric :: "otlp_env \<Rightarrow> string \<Rightarrow> string \<Rightarrow> ms \<Rightarrow> Metric \<Rightarrow> Row list \<Rightarrow> Row list" where
  "appendMetric E service host receivedAt m rows =
     (if me_Name m = [] then rows
      else let base = baseRow service host
           in case me_Data m of
                MGauge dps \<Rightarrow> fold (appendNumberPoint E base (me_Name m) TypeGauge receivedAt) dps rows
              | MSum isMonotonic dps \<Rightarrow>
                  fold (appendNumberPoint E base (me_Name m) (if \<not> isMonotonic then TypeGauge else TypeCounter) receivedAt) dps rows
              | MHistogram dps \<Rightarrow> fold (\<lambda>dp. appendSumCount E base (me_Name m) (GetSum dp) (sp_Sum dp \<noteq> None) receivedAt dp) dps rows
              | MExponentialHistogram dps \<Rightarrow> fold (\<lambda>dp. appendSumCount E base (me_Name m) (GetSum dp) (sp_Sum dp \<noteq> None) receivedAt dp) dps rows
              | MSummary dps \<Rightarrow> fold (\<lambda>dp. appendSumCount E base (me_Name m) (GetSum dp) True receivedAt dp) dps rows
              | MNoData \<Rightarrow> rows)"

text \<open>A loop whose body may return from the function: the flag says that it did.\<close>

fun foldStop :: "('a \<Rightarrow> 'b \<Rightarrow> 'b \<times> bool) \<Rightarrow> 'a list \<Rightarrow> 'b \<Rightarrow> 'b \<times> bool" where
  "foldStop f [] b = (b, False)"
| "foldStop f (x # xs) b = (case f x b of (b', stop) \<Rightarrow> if stop then (b', True) else foldStop f xs b')"

definition otlpToRows :: "otlp_env \<Rightarrow> ResourceMetrics list \<Rightarrow> ms \<Rightarrow> Row list" where
  "otlpToRows E req receivedAt =
     fst (foldStop (\<lambda>rm. case resourceIdentity (rm_Attributes rm) of (service, host) \<Rightarrow>
            foldStop (foldStop (\<lambda>m rows. let rows' = appendMetric E service host receivedAt m rows
                                         in (rows', length rows' > maxOTLPRowsPerRequest))) (rm_Scopes rm)) req [])"

section \<open>The rows of a request\<close>

text \<open>Specification: the rows of each data point, with no cap.\<close>

definition number_rows :: "otlp_env \<Rightarrow> Row \<Rightarrow> string \<Rightarrow> int \<Rightarrow> ms \<Rightarrow> NumberDataPoint \<Rightarrow> Row list" where
  "number_rows E base name ty t dp = appendNumberPoint E base name ty t dp []"

definition sum_rows :: "otlp_env \<Rightarrow> Row \<Rightarrow> string \<Rightarrow> bool \<Rightarrow> ms \<Rightarrow> sum_point \<Rightarrow> Row list" where
  "sum_rows E base name always t dp = appendSumCount E base name (GetSum dp) (always \<or> sp_Sum dp \<noteq> None) t dp []"

fun data_rows :: "otlp_env \<Rightarrow> Row \<Rightarrow> string \<Rightarrow> ms \<Rightarrow> metric_data \<Rightarrow> Row list" where
  "data_rows E base name t (MGauge dps) = concat (map (number_rows E base name TypeGauge t) dps)"
| "data_rows E base name t (MSum incr dps) = concat (map (number_rows E base name (if incr then TypeCounter else TypeGauge) t) dps)"
| "data_rows E base name t (MHistogram dps) = concat (map (sum_rows E base name False t) dps)"
| "data_rows E base name t (MExponentialHistogram dps) = concat (map (sum_rows E base name False t) dps)"
| "data_rows E base name t (MSummary dps) = concat (map (sum_rows E base name True t) dps)"
| "data_rows E base name t MNoData = []"

definition metric_rows :: "otlp_env \<Rightarrow> string \<Rightarrow> string \<Rightarrow> ms \<Rightarrow> Metric \<Rightarrow> Row list" where
  "metric_rows E service host t m = (if me_Name m = [] then [] else data_rows E (baseRow service host) (me_Name m) t (me_Data m))"

definition all_rows :: "otlp_env \<Rightarrow> ResourceMetrics list \<Rightarrow> ms \<Rightarrow> Row list" where
  "all_rows E req t =
     concat (map (\<lambda>rm. case resourceIdentity (rm_Attributes rm) of (service, host) \<Rightarrow>
        concat (map (metric_rows E service host t) (concat (rm_Scopes rm)))) req)"

lemma fold_appends:
  assumes "\<And>x b. f x b = b @ g x"
  shows "fold f xs b = b @ concat (map g xs)"
  by (induction xs arbitrary: b) (auto simp: assms)

lemma appendNumberPoint_rows: "appendNumberPoint E base name ty t dp rows = rows @ number_rows E base name ty t dp"
  by (simp add: number_rows_def appendNumberPoint_def Let_def split: number_value.splits)

lemma appendSumCount_rows:
  "appendSumCount E base name (GetSum dp) (sp_Sum dp \<noteq> None) t dp rows = rows @ sum_rows E base name False t dp"
  "appendSumCount E base name (GetSum dp) True t dp rows = rows @ sum_rows E base name True t dp"
  by (simp_all add: sum_rows_def appendSumCount_def Let_def)

lemma appendMetric_rows: "appendMetric E service host t m rows = rows @ metric_rows E service host t m"
proof -
  have n: "fold (appendNumberPoint E base name ty t) dps rows = rows @ concat (map (number_rows E base name ty t) dps)" for base name ty dps
    by (rule fold_appends) (rule appendNumberPoint_rows)
  have h: "fold (\<lambda>dp. appendSumCount E base name (GetSum dp) (sp_Sum dp \<noteq> None) t dp) dps rows = rows @ concat (map (sum_rows E base name False t) dps)" for base name dps
    by (rule fold_appends) (rule appendSumCount_rows)
  have s: "fold (\<lambda>dp. appendSumCount E base name (GetSum dp) True t dp) dps rows = rows @ concat (map (sum_rows E base name True t) dps)" for base name dps
    by (rule fold_appends) (rule appendSumCount_rows)
  show ?thesis
    by (cases "me_Data m") (simp_all add: appendMetric_def metric_rows_def Let_def n s h [simplified])
qed

text \<open>
  A stopping loop whose body appends: below the limit it appends everything, and otherwise it
  stops above the limit after a prefix. Loops of such bodies are such bodies.
\<close>

definition appends_until :: "nat \<Rightarrow> ('a \<Rightarrow> 'c list \<Rightarrow> 'c list \<times> bool) \<Rightarrow> ('a \<Rightarrow> 'c list) \<Rightarrow> bool" where
  "appends_until n f g \<longleftrightarrow>
     (\<forall>x b. length b \<le> n \<longrightarrow>
        f x b = (b @ g x, False) \<and> length b + length (g x) \<le> n
        \<or> (\<exists>c d. g x = c @ d \<and> f x b = (b @ c, True) \<and> n < length b + length c))"

lemma appends_untilE:
  assumes "appends_until n f g" and "length b \<le> n"
  obtains "f x b = (b @ g x, False)" and "length b + length (g x) \<le> n"
  | c d where "g x = c @ d" and "f x b = (b @ c, True)" and "n < length b + length c"
  using assms unfolding appends_until_def by blast

lemma appends_until_loop:
  assumes "appends_until n f g"
  shows "appends_until n (foldStop f) (\<lambda>xs. concat (map g xs))"
proof -
  have "foldStop f xs b = (b @ concat (map g xs), False) \<and> length b + length (concat (map g xs)) \<le> n
      \<or> (\<exists>c d. concat (map g xs) = c @ d \<and> foldStop f xs b = (b @ c, True) \<and> n < length b + length c)"
    if "length b \<le> n" for xs b
    using that
  proof (induction xs arbitrary: b)
    case (Cons x xs)
    from assms Cons.prems show ?case
    proof (cases rule: appends_untilE [of n f g b x])
      case 1
      from 1(2) have "length (b @ g x) \<le> n" by simp
      from Cons.IH [OF this] show ?thesis
      proof (elim disjE exE conjE)
        fix c d assume "concat (map g xs) = c @ d" "foldStop f xs (b @ g x) = ((b @ g x) @ c, True)" "n < length (b @ g x) + length c"
        then show ?thesis using 1(1) by (intro disjI2 exI [of _ "g x @ c"] exI [of _ d]) simp
      qed (simp add: 1(1))
    next
      case (2 c d)
      then show ?thesis by (intro disjI2 exI [of _ c] exI [of _ "d @ concat (map g xs)"]) simp
    qed
  qed simp
  then show ?thesis unfolding appends_until_def by blast
qed

lemma appendMetric_until:
  "appends_until n (\<lambda>m rows. let rows' = appendMetric E service host t m rows in (rows', length rows' > n)) (metric_rows E service host t)"
  unfolding appends_until_def Let_def by (auto simp: appendMetric_rows)

lemma resource_until:
  "appends_until n
     (\<lambda>rm. case resourceIdentity (rm_Attributes rm) of (service, host) \<Rightarrow>
        foldStop (foldStop (\<lambda>m rows. let rows' = appendMetric E service host t m rows in (rows', length rows' > n))) (rm_Scopes rm))
     (\<lambda>rm. case resourceIdentity (rm_Attributes rm) of (service, host) \<Rightarrow> concat (map (metric_rows E service host t) (concat (rm_Scopes rm))))"
  unfolding appends_until_def
proof (intro allI impI)
  fix rm and b :: "Row list"
  assume b: "length b \<le> n"
  obtain service host where id: "resourceIdentity (rm_Attributes rm) = (service, host)" by fastforce
  have c: "concat (map (\<lambda>ms. concat (map g ms)) mss) = concat (map g (concat mss))" for g :: "Metric \<Rightarrow> Row list" and mss
    by (induction mss) auto
  from appends_until_loop [OF appends_until_loop [OF appendMetric_until [of n E service host t]]] b
  show "(case resourceIdentity (rm_Attributes rm) of (service, host) \<Rightarrow>
        foldStop (foldStop (\<lambda>m rows. let rows' = appendMetric E service host t m rows in (rows', length rows' > n))) (rm_Scopes rm)) b =
      (b @ (case resourceIdentity (rm_Attributes rm) of (service, host) \<Rightarrow> concat (map (metric_rows E service host t) (concat (rm_Scopes rm)))), False)
      \<and> length b + length (case resourceIdentity (rm_Attributes rm) of (service, host) \<Rightarrow> concat (map (metric_rows E service host t) (concat (rm_Scopes rm)))) \<le> n
    \<or> (\<exists>c d. (case resourceIdentity (rm_Attributes rm) of (service, host) \<Rightarrow> concat (map (metric_rows E service host t) (concat (rm_Scopes rm)))) = c @ d
      \<and> (case resourceIdentity (rm_Attributes rm) of (service, host) \<Rightarrow>
        foldStop (foldStop (\<lambda>m rows. let rows' = appendMetric E service host t m rows in (rows', length rows' > n))) (rm_Scopes rm)) b = (b @ c, True)
      \<and> n < length b + length c)"
    unfolding id prod.case appends_until_def c by blast
qed

lemma otlpToRows_cases:
  obtains "otlpToRows E req t = all_rows E req t" and "length (all_rows E req t) \<le> maxOTLPRowsPerRequest"
  | d where "all_rows E req t = otlpToRows E req t @ d" and "maxOTLPRowsPerRequest < length (otlpToRows E req t)"
proof -
  have n: "length ([] :: Row list) \<le> maxOTLPRowsPerRequest" by simp
  from appends_until_loop [OF resource_until, of maxOTLPRowsPerRequest E t] n
  show thesis by (cases rule: appends_untilE [where b = "[]" and x = req]) (auto simp: otlpToRows_def all_rows_def intro: that)
qed

text \<open>
  The early return does not change what a request gives: below the row cap the rows are
  exactly those of all data points, in order; above it they are a prefix that is still over the
  cap, so the handler refuses the request as it would have with the full list.
\<close>

theorem otlp_rows_exact:
  "if length (all_rows E req t) \<le> maxOTLPRowsPerRequest then otlpToRows E req t = all_rows E req t
   else (\<exists>d. all_rows E req t = otlpToRows E req t @ d) \<and> maxOTLPRowsPerRequest < length (otlpToRows E req t)"
  by (cases rule: otlpToRows_cases [of E req t]) auto

section \<open>What the rows hold\<close>

text \<open>A nanosecond time of 64 bits is a millisecond time that fits.\<close>

lemma nano_fits: "sint ((nano :: 64 word) div 1000000) = uint nano div 1000000"
proof -
  have u: "uint (nano div 1000000) = uint nano div 1000000" by (simp add: uint_div)
  have "uint nano < 2 ^ 64" using uint_lt2p [of nano] by simp
  then have "uint nano div 1000000 < 2 ^ 63" by simp
  moreover have "0 \<le> uint nano div 1000000" by (simp add: pos_imp_zdiv_nonneg_iff)
  ultimately show ?thesis by (simp add: sint_uint signed_take_bit_int_eq_self_iff u)
qed

definition row_fine :: "ms \<Rightarrow> Row \<Rightarrow> bool" where
  "row_fine t r \<longleftrightarrow> r_Name r \<noteq> [] \<and> r_Type r \<in> {TypeCounter, TypeGauge} \<and> r_Service r \<noteq> [] \<and> r_Host r \<noteq> []
     \<and> t - maxPastMs \<le> r_Timestamp r \<and> r_Timestamp r \<le> t + maxFutureMs"

lemma otlpTimestamp_window:
  assumes "0 \<le> t" and "t < 2 ^ 62"
  shows "t - maxPastMs \<le> otlpTimestampMs nano t \<and> otlpTimestampMs nano t \<le> t + maxFutureMs"
  using ClampTimestamp_window [OF assms] by (auto simp: otlpTimestampMs_def maxPastMs_def maxFutureMs_def)

lemma resourceIdentity_nonempty:
  assumes "resourceIdentity attrs = (service, host)"
  shows "service \<noteq> [] \<and> host \<noteq> []"
proof -
  have "(\<lambda>(s, h). s \<noteq> [] \<and> h \<noteq> []) (resourceIdentity attrs)"
    unfolding resourceIdentity_def
    by (rule fold_invariant [where Q = "\<lambda>_. True"]) (auto simp: identityStep_def Let_def split: prod.splits)
  with assms show ?thesis by simp
qed

lemma metric_rows_fine:
  assumes "0 \<le> t" and "t < 2 ^ 62" and "service \<noteq> []" and "host \<noteq> []"
  shows "list_all (row_fine t) (metric_rows E service host t m)"
proof -
  note w = otlpTimestamp_window [OF assms(1,2)]
  have n: "list_all (row_fine t) (number_rows E (baseRow service host) name ty t dp)" if "name \<noteq> []" "ty \<in> {TypeCounter, TypeGauge}" for name ty dp
    using that assms w by (auto simp: number_rows_def appendNumberPoint_def Let_def row_fine_def baseRow_def split: number_value.splits)
  have s: "list_all (row_fine t) (sum_rows E (baseRow service host) name b t dp)" if "name \<noteq> []" for name b dp
    using that assms w by (auto simp: sum_rows_def appendSumCount_def Let_def row_fine_def baseRow_def)
  show ?thesis
    using n s by (cases "me_Data m") (auto simp: metric_rows_def list_all_iff)
qed

lemma otlp_rows_fine:
  assumes "0 \<le> t" and "t < 2 ^ 62"
  shows "list_all (row_fine t) (otlpToRows E req t)"
proof -
  have "list_all (row_fine t) (all_rows E req t)"
    unfolding all_rows_def list_all_iff
    by (auto split: prod.splits dest!: resourceIdentity_nonempty [OF sym]
        intro: metric_rows_fine [OF assms, unfolded list_all_iff, rule_format])
  moreover obtain d where "all_rows E req t = otlpToRows E req t @ d" by (cases rule: otlpToRows_cases [of E req t]) auto
  ultimately show ?thesis by simp
qed

end
