(* ===== verification/Parsers.thy ===== *)
theory Parsers
  imports Common_Model "HOL-Library.Monad_Syntax"
begin

text \<open>
  Log parsing: \<open>ingestion/parsers.go\<close> and \<open>ingestion/fluentbit.go\<close>. One HTTP
  payload becomes a list of normalized logs: a FluentBit envelope is unwrapped whole, anything
  else is parsed line by line as JSON, Common Log Format or plain text.

  The JSON codec and \<open>time.Parse\<close> are parameters, collected in the record
  \<open>go_env\<close>: \<open>unmarshal_obj\<close> decodes an object, \<open>unmarshal_recs\<close> an
  array of objects (a \<open>null\<close> element is \<open>None\<close>), \<open>marshal_obj\<close>
  encodes, \<open>time_parse layout s\<close> is the parsed instant in milliseconds, and
  \<open>float_oor\<close> is the implementation-defined result of converting an out-of-range float.
  The regular expressions are written out as scanners.
\<close>

datatype jval = JString string | JFloat rat | JInt int | JOther string

type_synonym jobject = "string \<rightharpoonup> jval"

record go_env =
  unmarshal_obj :: "string \<Rightarrow> jobject option"
  unmarshal_recs :: "string \<Rightarrow> jobject option list option"
  marshal_obj :: "jobject \<Rightarrow> string option"
  time_parse :: "string \<Rightarrow> string \<Rightarrow> ms option"
  float_oor :: "rat \<Rightarrow> int"

text \<open>A concrete environment, in which no JSON and no time stamp parses.\<close>

definition bare_env :: go_env where
  "bare_env = \<lparr>unmarshal_obj = (\<lambda>_. None), unmarshal_recs = (\<lambda>_. None), marshal_obj = (\<lambda>_. None),
     time_parse = (\<lambda>_ _. None), float_oor = (\<lambda>_. 0)\<rparr>"

definition maxRecordsPerPayload :: nat where "maxRecordsPerPayload = 100000"

definition levelNames :: "string \<Rightarrow> int option" where
  "levelNames = map_of
     [(''trace'', LevelTrace), (''debug'', LevelDebug), (''info'', LevelInfo),
      (''information'', LevelInfo), (''warn'', LevelWarn), (''warning'', LevelWarn),
      (''error'', LevelError), (''err'', LevelError), (''fatal'', LevelFatal),
      (''panic'', LevelFatal), (''critical'', LevelFatal)]"

definition timeLayouts :: "string list" where
  "timeLayouts =
     [''2006-01-02T15:04:05.999999999Z07:00'', ''2006-01-02T15:04:05Z07:00'',
      ''2006-01-02T15:04:05'', ''2006-01-02 15:04:05'']"

section \<open>Values: levels and timestamps\<close>

text \<open>\<open>toMs\<close> normalizes an epoch of unknown unit (s, ms, us, ns) to milliseconds.\<close>

definition toMs :: "go_env \<Rightarrow> rat \<Rightarrow> ms" where
  "toMs E v =
     (if v \<le> 0 then 0
      else if v < 10 ^ 11 then f64_to_int64 (float_oor E) (f64 (v * 1000))
      else if v < 10 ^ 14 then f64_to_int64 (float_oor E) v
      else if v < 10 ^ 17 then f64_to_int64 (float_oor E) (f64 (v / 10 ^ 3))
      else f64_to_int64 (float_oor E) (f64 (v / 10 ^ 6)))"

fun parseTimeStringIn :: "go_env \<Rightarrow> string list \<Rightarrow> string \<Rightarrow> ms" where
  "parseTimeStringIn E [] s = 0"
| "parseTimeStringIn E (layout # ls) s =
     (case time_parse E layout s of Some t \<Rightarrow> t | None \<Rightarrow> parseTimeStringIn E ls s)"

definition parseTimeString :: "go_env \<Rightarrow> string \<Rightarrow> ms" where
  "parseTimeString E s = parseTimeStringIn E timeLayouts s"

definition leadingTimestamp :: "go_env \<Rightarrow> string \<Rightarrow> ms" where
  "leadingTimestamp E s =
     (case Cut1 s (CHR '' '') of (fst_tok, rest, _) \<Rightarrow>
        let ts = parseTimeString E fst_tok
        in if ts \<noteq> 0 then ts
           else case Cut1 rest (CHR '' '') of (second, _, _) \<Rightarrow>
             if second \<noteq> [] then parseTimeString E (fst_tok @ '' '' @ second) else 0)"

fun tsFrom :: "go_env \<Rightarrow> jval \<Rightarrow> ms" where
  "tsFrom E (JFloat t) = toMs E t"
| "tsFrom E (JString t) = parseTimeString E t"
| "tsFrom E _ = 0"

text \<open>Numeric levels: 0 to 5 as they are, and bunyan's 10, 20, .., 60.\<close>

fun levelFrom :: "go_env \<Rightarrow> jval \<Rightarrow> int option" where
  "levelFrom E (JString t) = levelNames (ToLower t)"
| "levelFrom E (JFloat t) =
     (let n = f64_to_int64 (float_oor E) t
      in if 0 \<le> n \<and> n \<le> 5 then Some n
         else if 10 \<le> n \<and> n \<le> 60 \<and> n mod 10 = 0 then Some (n div 10 - 1)
         else None)"
| "levelFrom E _ = None"

definition splitRequest :: "string \<Rightarrow> string \<times> string \<times> string" where
  "splitRequest req =
     (case SplitN3 req (CHR '' '') of
        [a, b, c] \<Rightarrow> (a, b, c)
      | [a, b] \<Rightarrow> (a, b, [])
      | _ \<Rightarrow> (req, [], []))"

section \<open>The line parsers\<close>

text \<open>The first key present whose value converts, as the \<open>for .. break\<close> loops find it.\<close>

fun first_key :: "(jval \<Rightarrow> 'a option) \<Rightarrow> jobject \<Rightarrow> string list \<Rightarrow> 'a option" where
  "first_key f m [] = None"
| "first_key f m (k # ks) =
     (case m k of
        None \<Rightarrow> first_key f m ks
      | Some v \<Rightarrow> (case f v of Some x \<Rightarrow> Some x | None \<Rightarrow> first_key f m ks))"

fun nonempty_string :: "jval \<Rightarrow> string option" where
  "nonempty_string (JString s) = (if s \<noteq> [] then Some s else None)"
| "nonempty_string _ = None"

definition nonzero_ts :: "go_env \<Rightarrow> jval \<Rightarrow> ms option" where
  "nonzero_ts E v = (let ts = tsFrom E v in if ts \<noteq> 0 then Some ts else None)"

text \<open>\<open>line[0]\<close> would panic on an empty line; both callers pass a non-empty one.\<close>

definition parseJSONLine :: "go_env \<Rightarrow> string \<Rightarrow> StandardLog option" where
  "parseJSONLine E line =
     (case line of [] \<Rightarrow> None
      | c # _ \<Rightarrow>
         if c \<noteq> CHR ''{'' then None
         else case unmarshal_obj E line of
           None \<Rightarrow> None
         | Some m \<Rightarrow> Some (zero_log
             \<lparr>sl_Raw := line, sl_Parsed := Some line,
              sl_Level := first_key (levelFrom E) m [''level'', ''lvl'', ''severity''],
              sl_Timestamp := (case first_key (nonzero_ts E) m
                  [''ts'', ''time'', ''timestamp'', ''@timestamp'', ''date'']
                of Some ts \<Rightarrow> ts | None \<Rightarrow> 0),
              sl_Message := first_key nonempty_string m [''msg'', ''message'']\<rparr>))"

subsection \<open>Common Log Format\<close>

text \<open>
  The scanner for
  \<^verbatim>\<open>^(\S+) \S+ (\S+) \[([^\]]+)\] "([^"]*)" (\d{3}) (\S+)(?:\s+"([^"]*)"\s+"([^"]*)")?\<close>.
  Each run is delimited by a byte it cannot contain, so the greedy match is the only one.
\<close>

definition word_run :: "string \<Rightarrow> (string \<times> string) option" where
  "word_run s =
     (let w = takeWhile (\<lambda>c. \<not> re_space c) s
      in if w = [] then None else Some (w, drop (length w) s))"

definition until_char :: "char \<Rightarrow> string \<Rightarrow> (string \<times> string) option" where
  "until_char c s =
     (case Cut1 s c of (a, b, ok) \<Rightarrow> if ok then Some (a, b) else None)"

fun expect :: "string \<Rightarrow> string \<Rightarrow> string option" where
  "expect [] s = Some s"
| "expect (p # ps) [] = None"
| "expect (p # ps) (c # s) = (if c = p then expect ps s else None)"

definition spaces1 :: "string \<Rightarrow> string option" where
  "spaces1 s = (case s of [] \<Rightarrow> None
     | c # _ \<Rightarrow> if re_space c then Some (dropWhile re_space s) else None)"

definition clf_tail :: "string \<Rightarrow> (string \<times> string) option" where
  "clf_tail s = do {
     s1 \<leftarrow> spaces1 s;
     s2 \<leftarrow> expect [dquote] s1;
     (ref, s3) \<leftarrow> until_char dquote s2;
     s4 \<leftarrow> spaces1 s3;
     s5 \<leftarrow> expect [dquote] s4;
     (ua, _) \<leftarrow> until_char dquote s5;
     Some (ref, ua) }"

definition three_digits :: "string \<Rightarrow> (string \<times> string) option" where
  "three_digits s = (case s of a # b # c # r \<Rightarrow>
      if is_digit a \<and> is_digit b \<and> is_digit c then Some ([a, b, c], r) else None
    | _ \<Rightarrow> None)"

record clf_groups =
  g_ip :: string
  g_user :: string
  g_time :: string
  g_req :: string
  g_status :: string
  g_bytes :: string
  g_ref :: string
  g_ua :: string

definition clfRe :: "string \<Rightarrow> clf_groups option" where
  "clfRe s = do {
     (ip, s1) \<leftarrow> word_run s;
     s2 \<leftarrow> expect '' '' s1;
     (_, s3) \<leftarrow> word_run s2;
     s4 \<leftarrow> expect '' '' s3;
     (user, s5) \<leftarrow> word_run s4;
     s6 \<leftarrow> expect '' ['' s5;
     (tm, s7) \<leftarrow> until_char (CHR '']'') s6;
     s8 \<leftarrow> (if tm = [] then None else expect [CHR '' '', dquote] s7);
     (rq, s9) \<leftarrow> until_char dquote s8;
     s10 \<leftarrow> expect '' '' s9;
     (st, s11) \<leftarrow> three_digits s10;
     s12 \<leftarrow> expect '' '' s11;
     (by, s13) \<leftarrow> word_run s12;
     let (ref, ua) = (case clf_tail s13 of Some p \<Rightarrow> p | None \<Rightarrow> ([], []));
     Some \<lparr>g_ip = ip, g_user = user, g_time = tm, g_req = rq, g_status = st, g_bytes = by,
       g_ref = ref, g_ua = ua\<rparr> }"

text \<open>The level a status code maps to.\<close>

definition statusLevel :: "int \<Rightarrow> int" where
  "statusLevel status =
     (if status \<ge> 500 then LevelError else if status \<ge> 400 then LevelWarn else LevelInfo)"

definition clfParsed :: "clf_groups \<Rightarrow> int \<Rightarrow> jobject" where
  "clfParsed m status =
     (case splitRequest (g_req m) of (meth, path, proto) \<Rightarrow>
        let p0 = Map.empty(''ip'' \<mapsto> JString (g_ip m), ''method'' \<mapsto> JString meth,
                   ''path'' \<mapsto> JString path, ''status'' \<mapsto> JInt status);
            p1 = (if proto \<noteq> [] then p0(''proto'' \<mapsto> JString proto) else p0);
            p2 = (if g_user m \<noteq> ''-'' \<and> g_user m \<noteq> [] then p1(''user'' \<mapsto> JString (g_user m)) else p1);
            p3 = (case ParseInt (g_bytes m) of Some b \<Rightarrow> p2(''bytes'' \<mapsto> JInt b) | None \<Rightarrow> p2);
            p4 = (if g_ref m \<noteq> [] \<and> g_ref m \<noteq> ''-'' then p3(''referer'' \<mapsto> JString (g_ref m)) else p3)
        in if g_ua m \<noteq> [] \<and> g_ua m \<noteq> ''-'' then p4(''user_agent'' \<mapsto> JString (g_ua m)) else p4)"

definition parseCLFLine :: "go_env \<Rightarrow> string \<Rightarrow> StandardLog option" where
  "parseCLFLine E line =
     (case clfRe line of None \<Rightarrow> None
      | Some m \<Rightarrow>
         let status = (case ParseInt (g_status m) of Some n \<Rightarrow> n | None \<Rightarrow> 0)
         in case splitRequest (g_req m) of (meth, path, _) \<Rightarrow>
           Some (zero_log
             \<lparr>sl_Raw := line, sl_Level := Some (statusLevel status),
              sl_Timestamp := (case time_parse E ''02/Jan/2006:15:04:05 -0700'' (g_time m) of
                 Some t \<Rightarrow> t | None \<Rightarrow> 0),
              sl_Message := Some (meth @ '' '' @ path @ '' '' @ itoa status),
              sl_Parsed := marshal_obj E (clfParsed m status)\<rparr>))"

subsection \<open>Plain text\<close>

text \<open>
  \<^verbatim>\<open>(?i)\b(trace|debug|info|warn|warning|error|fatal|panic|critical)\b\<close>: the
  leftmost position at a word boundary where one of the words ends at a word boundary.
\<close>

definition is_word :: "char \<Rightarrow> bool" where
  "is_word c \<longleftrightarrow> is_letter c \<or> is_digit c \<or> c = CHR ''_''"

definition plainWords :: "string list" where
  "plainWords = [''trace'', ''debug'', ''info'', ''warn'', ''warning'', ''error'', ''fatal'',
     ''panic'', ''critical'']"

definition word_at :: "string \<Rightarrow> string \<Rightarrow> bool" where
  "word_at s w \<longleftrightarrow> map lower_char (take (length w) s) = w
     \<and> (case drop (length w) s of [] \<Rightarrow> True | c # _ \<Rightarrow> \<not> is_word c)"

fun plainLevelRe :: "bool \<Rightarrow> string \<Rightarrow> string" where
  "plainLevelRe prev [] = []"
| "plainLevelRe prev (c # s) =
     (case (if prev then None else find (word_at (c # s)) plainWords) of
        Some w \<Rightarrow> take (length w) (c # s)
      | None \<Rightarrow> plainLevelRe (is_word c) s)"

definition parsePlainLine :: "go_env \<Rightarrow> string \<Rightarrow> StandardLog" where
  "parsePlainLine E s =
     (let m = plainLevelRe False s
      in zero_log
        \<lparr>sl_Raw := s, sl_Message := Some s,
         sl_Level := (if m \<noteq> [] then levelNames (ToLower m) else None),
         sl_Timestamp := leadingTimestamp E s\<rparr>)"

definition parseLine :: "go_env \<Rightarrow> string \<Rightarrow> StandardLog" where
  "parseLine E line =
     (case parseJSONLine E line of Some l \<Rightarrow> l
      | None \<Rightarrow> (case parseCLFLine E line of Some l \<Rightarrow> l | None \<Rightarrow> parsePlainLine E line))"

section \<open>Payloads\<close>

definition fallbackLevel :: "StandardLog \<Rightarrow> StandardLog" where
  "fallbackLevel l = (if sl_Level l = None then l\<lparr>sl_Level := Some LevelInfo\<rparr> else l)"

text \<open>
  One record of a FluentBit envelope: the log it carries (\<open>None\<close> when the whole record
  cannot be encoded and is skipped), and the envelope metadata stamped on it.
\<close>

definition fluentLine :: "go_env \<Rightarrow> jobject \<Rightarrow> StandardLog option" where
  "fluentLine E r =
     (let line0 = (case r ''log'' of Some (JString s) \<Rightarrow> s | _ \<Rightarrow> []);
          line = TrimRightSet line0 [CHR 0x0D, CHR 0x0A]
      in if line \<noteq> [] then Some (parseLine E line)
         else map_option (\<lambda>s. zero_log\<lparr>sl_Raw := s, sl_Parsed := Some s\<rparr>) (marshal_obj E r))"

definition fluentStamp ::
    "go_env \<Rightarrow> string \<Rightarrow> string \<Rightarrow> ms \<Rightarrow> jobject \<Rightarrow> StandardLog \<Rightarrow> StandardLog" where
  "fluentStamp E service host receivedAt r l =
     (let t1 = (if sl_Timestamp l = 0
                then (case r ''date'' of Some (JFloat d) \<Rightarrow> toMs E d | _ \<Rightarrow> 0)
                else sl_Timestamp l);
          t2 = (if t1 = 0 then receivedAt else t1);
          svc = (case r ''container_name'' of
                   Some (JString cn) \<Rightarrow> if cn \<noteq> [] then TrimPrefix cn ''/'' else service
                 | _ \<Rightarrow> service)
      in fallbackLevel (l\<lparr>sl_Timestamp := t2, sl_Service := svc, sl_Host := host,
           sl_IngestedAt := receivedAt\<rparr>))"

definition fluentRecord ::
    "go_env \<Rightarrow> string \<Rightarrow> string \<Rightarrow> ms \<Rightarrow> jobject \<Rightarrow> StandardLog option" where
  "fluentRecord E service host receivedAt r =
     map_option (fluentStamp E service host receivedAt r) (fluentLine E r)"

definition parseFluentBit ::
    "go_env \<Rightarrow> string \<Rightarrow> string \<Rightarrow> string \<Rightarrow> ms \<Rightarrow> StandardLog list option" where
  "parseFluentBit E service host payload receivedAt =
     (case TrimSpace payload of
        [] \<Rightarrow> None
      | c # rest \<Rightarrow>
         if c \<noteq> CHR ''['' then None
         else case unmarshal_recs E (c # rest) of
           None \<Rightarrow> None
         | Some records \<Rightarrow>
            if records = [] then None
            else if \<exists>r \<in> set records. (case r of None \<Rightarrow> True
                    | Some m \<Rightarrow> m ''log'' = None \<and> m ''date'' = None) then None
            else Some (List.map_filter (fluentRecord E service host receivedAt)
                   (take maxRecordsPerPayload (map the records))))"

text \<open>What the line loop does with one trimmed, non-empty line.\<close>

definition lineRecord :: "go_env \<Rightarrow> string \<Rightarrow> string \<Rightarrow> ms \<Rightarrow> string \<Rightarrow> StandardLog" where
  "lineRecord E service host receivedAt line =
     (let l = (parseLine E line)\<lparr>sl_Service := service, sl_Host := host, sl_IngestedAt := receivedAt\<rparr>;
          l' = (if sl_Timestamp l = 0 then l\<lparr>sl_Timestamp := receivedAt\<rparr> else l)
      in fallbackLevel l')"

lemma Cut1_rest_shorter: "s \<noteq> [] \<Longrightarrow> Cut1 s c = (a, b, ok) \<Longrightarrow> length b < length s"
proof (induction s arbitrary: a b ok)
  case Nil
  then show ?case by simp
next
  case (Cons x s)
  then show ?case by (cases "s = []") (fastforce split: if_splits prod.splits)+
qed

function payloadLoop ::
    "go_env \<Rightarrow> string \<Rightarrow> string \<Rightarrow> ms \<Rightarrow> string \<Rightarrow> StandardLog list \<Rightarrow> StandardLog list" where
  "payloadLoop E service host receivedAt rest out =
     (if rest = [] then out
      else case Cut1 rest (CHR 0x0A) of (line0, rest', _) \<Rightarrow>
        let line = TrimSpace line0
        in if line = [] then payloadLoop E service host receivedAt rest' out
           else if length out \<ge> maxRecordsPerPayload then out
           else payloadLoop E service host receivedAt rest'
                  (out @ [lineRecord E service host receivedAt line]))"
  by pat_completeness auto
termination
  by (relation "measure (\<lambda>(E, sv, h, t, rest, out). length rest)") (auto dest: Cut1_rest_shorter [OF _ sym])

declare payloadLoop.simps [simp del]

definition parsePayload ::
    "go_env \<Rightarrow> string \<Rightarrow> string \<Rightarrow> string \<Rightarrow> ms \<Rightarrow> StandardLog list" where
  "parsePayload E service host payload receivedAt =
     (case parseFluentBit E service host payload receivedAt of
        Some logs \<Rightarrow> logs
      | None \<Rightarrow> payloadLoop E service host receivedAt payload [])"


section \<open>What the parsers promise\<close>

named_theorems parse_level \<open>levels are in range\<close>

definition level_ok :: "int option \<Rightarrow> bool" where
  "level_ok lv = (case lv of None \<Rightarrow> True | Some n \<Rightarrow> 0 \<le> n \<and> n \<le> 5)"

lemma level_ok_simps [simp]: "level_ok None" "level_ok (Some n) \<longleftrightarrow> 0 \<le> n \<and> n \<le> 5"
  by (simp_all add: level_ok_def)

lemma levelNames_ok [parse_level]: "level_ok (levelNames s)"
  by (simp add: levelNames_def level_defs)

lemma levelFrom_ok [parse_level]: "level_ok (levelFrom E v)"
proof (cases v)
  case (JFloat t)
  have "n div 10 - 1 \<le> 5" if "n \<le> 60" for n :: int using that by linarith
  moreover have "0 \<le> n div 10 - 1" if "10 \<le> n" for n :: int using that by linarith
  ultimately show ?thesis using JFloat by (auto simp: Let_def)
qed (auto simp: levelNames_ok)

lemma first_key_ok:
  assumes "\<And>v. level_ok (f v)" shows "level_ok (first_key f m ks)"
proof (induction ks)
  case Nil
  then show ?case by simp
next
  case (Cons k ks)
  show ?case
  proof (cases "m k")
    case None
    with Cons show ?thesis by simp
  next
    case (Some v)
    with Cons assms [of v] show ?thesis by (cases "f v") simp_all
  qed
qed

lemma statusLevel_ok [parse_level]: "level_ok (Some (statusLevel n))"
  by (simp add: statusLevel_def level_defs)

lemma parseJSONLine_SomeD:
  assumes "parseJSONLine E line = Some l"
  shows "sl_Raw l = line \<and> level_ok (sl_Level l)"
proof -
  note keys = first_key_ok [of "levelFrom E", OF levelFrom_ok]
  from assms obtain m where "unmarshal_obj E line = Some m"
    by (cases "unmarshal_obj E line") (auto simp: parseJSONLine_def split: list.splits if_splits)
  with assms show ?thesis
    by (auto simp: parseJSONLine_def keys simp del: first_key.simps split: list.splits if_splits)
qed

lemma parseCLFLine_SomeD:
  assumes "parseCLFLine E line = Some l"
  shows "sl_Raw l = line \<and> level_ok (sl_Level l)"
  using assms statusLevel_ok
  by (auto simp: parseCLFLine_def Let_def split: option.splits prod.splits)

lemma parsePlainLine_ok: "sl_Raw (parsePlainLine E s) = s \<and> level_ok (sl_Level (parsePlainLine E s))"
  by (simp add: parsePlainLine_def Let_def levelNames_ok)

text \<open>No parser changes the raw line, and every level it finds is one of the six.\<close>

lemma parseLine_ok: "sl_Raw (parseLine E line) = line \<and> level_ok (sl_Level (parseLine E line))"
  using parseJSONLine_SomeD [of E line] parseCLFLine_SomeD [of E line] parsePlainLine_ok [of E line]
  by (auto simp: parseLine_def split: option.splits)

definition log_ok :: "string \<Rightarrow> ms \<Rightarrow> StandardLog \<Rightarrow> bool" where
  "log_ok host receivedAt l \<longleftrightarrow>
     (case sl_Level l of None \<Rightarrow> False | Some n \<Rightarrow> 0 \<le> n \<and> n \<le> 5) \<and> sl_Host l = host
     \<and> sl_IngestedAt l = receivedAt \<and> (receivedAt \<noteq> 0 \<longrightarrow> sl_Timestamp l \<noteq> 0)"

lemma fallbackLevel_simps [simp]:
  "sl_Raw (fallbackLevel l) = sl_Raw l" "sl_Host (fallbackLevel l) = sl_Host l"
  "sl_IngestedAt (fallbackLevel l) = sl_IngestedAt l"
  "sl_Timestamp (fallbackLevel l) = sl_Timestamp l" "sl_Service (fallbackLevel l) = sl_Service l"
  by (simp_all add: fallbackLevel_def)

lemma fallbackLevel_level:
  "level_ok (sl_Level l) \<Longrightarrow> \<exists>n. sl_Level (fallbackLevel l) = Some n \<and> 0 \<le> n \<and> n \<le> 5"
  by (cases "sl_Level l") (auto simp: fallbackLevel_def level_defs)

lemma log_ok_fallback:
  assumes "level_ok (sl_Level l)" "sl_Host l = host" "sl_IngestedAt l = receivedAt"
    "receivedAt \<noteq> 0 \<longrightarrow> sl_Timestamp l \<noteq> 0"
  shows "log_ok host receivedAt (fallbackLevel l)"
  using assms fallbackLevel_level [of l] by (auto simp: log_ok_def)

lemma lineRecord_ok: "log_ok host receivedAt (lineRecord E service host receivedAt line)"
  unfolding lineRecord_def Let_def
  by (rule log_ok_fallback) (simp_all add: parseLine_ok)

lemma lineRecord_raw [simp]:
  "sl_Raw (lineRecord E service host receivedAt line) = line"
  "sl_Service (lineRecord E service host receivedAt line) = service"
  by (simp_all add: lineRecord_def Let_def parseLine_ok)

lemma fluentLine_level: "fluentLine E r = Some l \<Longrightarrow> level_ok (sl_Level l)"
  using parseLine_ok [of E] by (auto simp: fluentLine_def Let_def split: if_splits)

lemma fluentStamp_ok:
  "level_ok (sl_Level l) \<Longrightarrow> log_ok host receivedAt (fluentStamp E service host receivedAt r l)"
  unfolding fluentStamp_def Let_def by (rule log_ok_fallback) simp_all

lemma fluentRecord_ok:
  "fluentRecord E service host receivedAt r = Some l \<Longrightarrow> log_ok host receivedAt l"
  by (auto simp: fluentRecord_def dest: fluentLine_level intro: fluentStamp_ok)

section \<open>The line loop against a reference\<close>

text \<open>The non-blank lines of a payload, trimmed.\<close>

definition payloadLines :: "string \<Rightarrow> string list" where
  "payloadLines p = filter (\<lambda>l. l \<noteq> []) (map TrimSpace (Split1 p (CHR 0x0A)))"

lemma payloadLines_Nil [simp]: "payloadLines [] = []"
  by (simp add: payloadLines_def)

lemma Split1_Cut1:
  "Cut1 s c = (a, b, ok) \<Longrightarrow> Split1 s c = (if ok then a # Split1 b c else [a]) \<and> (\<not> ok \<longrightarrow> b = [])"
proof (induction s arbitrary: a b ok)
  case Nil
  then show ?case by auto
next
  case (Cons x s)
  then show ?case by (fastforce split: if_splits prod.splits)
qed

lemma payloadLines_Cut1:
  assumes "Cut1 s (CHR 0x0A) = (a, b, ok)"
  shows "payloadLines s = (if TrimSpace a = [] then [] else [TrimSpace a]) @ payloadLines b"
  using Split1_Cut1 [OF assms] by (auto simp: payloadLines_def)

lemma payloadLoop_eq:
  assumes "length out \<le> maxRecordsPerPayload"
  shows "payloadLoop E service host receivedAt rest out =
    out @ map (lineRecord E service host receivedAt)
      (take (maxRecordsPerPayload - length out) (payloadLines rest))"
  using assms
proof (induction E service host receivedAt rest out rule: payloadLoop.induct)
  case (1 E service host receivedAt rest out)
  show ?case
  proof (cases "rest = []")
    case True
    then show ?thesis by (simp add: payloadLoop.simps)
  next
    case False
    obtain a b ok where cut: "Cut1 rest (CHR 0x0A) = (a, b, ok)" by (cases "Cut1 rest (CHR 0x0A)")
    note lines = payloadLines_Cut1 [OF cut]
    consider (blank) "TrimSpace a = []" | (full) "TrimSpace a \<noteq> []" "length out \<ge> maxRecordsPerPayload"
      | (more) "TrimSpace a \<noteq> []" "length out < maxRecordsPerPayload" by linarith
    then show ?thesis
    proof cases
      case blank
      with 1 False cut lines show ?thesis by (simp add: payloadLoop.simps [of E service host receivedAt rest])
    next
      case full
      with 1 False cut lines show ?thesis by (simp add: payloadLoop.simps [of E service host receivedAt rest])
    next
      case more
      then have k: "maxRecordsPerPayload - length out = Suc (maxRecordsPerPayload - Suc (length out))"
        by simp
      from more False cut have "payloadLoop E service host receivedAt rest out =
          payloadLoop E service host receivedAt b
            (out @ [lineRecord E service host receivedAt (TrimSpace a)])"
        by (simp add: payloadLoop.simps [of E service host receivedAt rest])
      also have "\<dots> = (out @ [lineRecord E service host receivedAt (TrimSpace a)]) @
          map (lineRecord E service host receivedAt)
            (take (maxRecordsPerPayload - Suc (length out)) (payloadLines b))"
        using "1.IH"(2) [OF False cut [symmetric] refl refl] more by simp
      finally show ?thesis using more lines by (simp add: k)
    qed
  qed
qed

lemma fluent_logs_ok:
  assumes "parseFluentBit E service host payload receivedAt = Some logs"
  shows "length logs \<le> maxRecordsPerPayload \<and> (\<forall>l \<in> set logs. log_ok host receivedAt l)"
proof -
  from assms obtain rs where
    "logs = List.map_filter (fluentRecord E service host receivedAt) (take maxRecordsPerPayload rs)"
    by (auto simp: parseFluentBit_def split: list.splits if_splits option.splits)
  moreover have "length (List.map_filter (fluentRecord E service host receivedAt) xs) \<le> length xs" for xs
    by (simp add: List.map_filter_def)
  then have "length (List.map_filter (fluentRecord E service host receivedAt) (take maxRecordsPerPayload rs))
      \<le> maxRecordsPerPayload"
    by (rule order_trans) simp
  ultimately show ?thesis
    by (auto simp: List.map_filter_def intro: fluentRecord_ok)
qed


section \<open>The level of a plain line\<close>

text \<open>Reference: the maximal runs of word characters, in order.\<close>

function wordsOf :: "string \<Rightarrow> string list" where
  "wordsOf s =
     (case dropWhile (\<lambda>c. \<not> is_word c) s of
        [] \<Rightarrow> []
      | c # t \<Rightarrow> (c # takeWhile is_word t) # wordsOf (dropWhile is_word t))"
  by pat_completeness auto
termination
proof (relation "measure length", simp)
  fix s c t
  assume "dropWhile (\<lambda>c. \<not> is_word c) s = c # t"
  then have "length (c # t) \<le> length s" by (metis length_dropWhile_le)
  then have "length t < length s" by simp
  then show "(dropWhile is_word t, s) \<in> measure length"
    using le_less_trans [OF length_dropWhile_le] by auto
qed

declare wordsOf.simps [simp del]

definition plainLevel :: "string \<Rightarrow> string option" where
  "plainLevel s = find (\<lambda>w. map lower_char w \<in> set plainWords) (wordsOf s)"

lemma wordsOf_skip: "\<not> is_word c \<Longrightarrow> wordsOf (c # s) = wordsOf s"
  by (subst wordsOf.simps) (simp add: wordsOf.simps [of s])

lemma wordsOf_word:
  "is_word c \<Longrightarrow> wordsOf (c # s) = (c # takeWhile is_word s) # wordsOf (dropWhile is_word s)"
  by (subst wordsOf.simps) simp

lemma wordsOf_Nil [simp]: "wordsOf [] = []"
  by (subst wordsOf.simps) simp

lemma byte_char_of: "n < 256 \<Longrightarrow> byte (char_of n) = n"
  by (simp add: byte_def)

lemma lower_char_letter: "is_letter (lower_char c) \<Longrightarrow> is_word c"
  by (auto simp: lower_char_def is_word_def is_letter_def split: if_splits)

lemma plainWords_letters: "w \<in> set plainWords \<Longrightarrow> w \<noteq> [] \<and> list_all is_letter w"
  by (auto simp: plainWords_def is_letter_def is_upper_def byte_def)

text \<open>A word of the pattern matches at a position exactly if it is the whole word there.\<close>

lemma word_at_iff:
  assumes "w \<in> set plainWords"
  shows "word_at s w \<longleftrightarrow> map lower_char (takeWhile is_word s) = w"
proof
  assume at: "word_at s w"
  then have tk: "map lower_char (take (length w) s) = w"
    and nx: "case drop (length w) s of [] \<Rightarrow> True | c # _ \<Rightarrow> \<not> is_word c"
    by (simp_all add: word_at_def)
  have all: "\<forall>c \<in> set (take (length w) s). is_word c"
  proof
    fix c assume "c \<in> set (take (length w) s)"
    then have "lower_char c \<in> set w" by (metis tk image_eqI set_map)
    with plainWords_letters [OF assms] have "is_letter (lower_char c)" by (simp add: list_all_iff)
    then show "is_word c" by (rule lower_char_letter)
  qed
  have "takeWhile is_word s = take (length w) s"
  proof -
    have "takeWhile is_word (take (length w) s @ drop (length w) s) =
        take (length w) s @ takeWhile is_word (drop (length w) s)"
      using all by (intro takeWhile_append2) auto
    moreover have "takeWhile is_word (drop (length w) s) = []" using nx by (auto split: list.splits)
    ultimately show ?thesis by simp
  qed
  with tk show "map lower_char (takeWhile is_word s) = w" by simp
next
  assume m: "map lower_char (takeWhile is_word s) = w"
  then have len: "length w = length (takeWhile is_word s)" by auto
  have "take (length w) s = takeWhile is_word s" unfolding len by (metis takeWhile_eq_take)
  moreover have "drop (length w) s = dropWhile is_word s" unfolding len by (metis dropWhile_eq_drop)
  moreover have "\<not> is_word c" if "dropWhile is_word s = c # t" for c t
    using hd_dropWhile [of is_word s] that by (simp del: dropWhile_eq_Nil_conv)
  ultimately show "word_at s w" using m by (auto simp: word_at_def split: list.splits)
qed

lemma find_word_at:
  "find (word_at s) plainWords =
     (let w = map lower_char (takeWhile is_word s) in if w \<in> set plainWords then Some w else None)"
proof (cases "find (word_at s) plainWords")
  case None
  then show ?thesis using word_at_iff by (auto simp: find_None_iff Let_def)
next
  case (Some w)
  then have "w \<in> set plainWords" "word_at s w" by (auto dest: find_SomeD)
  then show ?thesis using Some word_at_iff by (auto simp: Let_def)
qed

lemma plainLevelRe_in_word:
  "plainLevelRe True s = plainLevelRe False (dropWhile is_word s)"
proof (induction s)
  case Nil
  then show ?case by simp
next
  case (Cons c s)
  show ?case
  proof (cases "is_word c")
    case True
    with Cons show ?thesis by simp
  next
    case False
    then have "find (word_at (c # s)) plainWords = None"
      using plainWords_letters by (auto simp: find_word_at Let_def)
    with False show ?thesis by simp
  qed
qed

lemma plainLevelRe_eq:
  "plainLevelRe False s = (case plainLevel s of None \<Rightarrow> [] | Some w \<Rightarrow> w)"
proof (induction s rule: length_induct)
  case (1 s)
  show ?case
  proof (cases s)
    case Nil
    then show ?thesis by (simp add: plainLevel_def)
  next
    case (Cons c t)
    let ?w = "takeWhile is_word s"
    show ?thesis
    proof (cases "is_word c")
      case False
      then have "find (word_at s) plainWords = None"
        using plainWords_letters Cons by (auto simp: find_word_at Let_def)
      with False Cons 1 show ?thesis by (simp add: plainLevel_def wordsOf_skip)
    next
      case True
      show ?thesis
      proof (cases "map lower_char ?w \<in> set plainWords")
        case hit: True
        then have "plainLevelRe False s = take (length ?w) s"
          using Cons by (simp add: find_word_at Let_def)
        also have "\<dots> = ?w" by (metis takeWhile_eq_take)
        finally show ?thesis using hit True Cons by (simp add: plainLevel_def wordsOf_word)
      next
        case False
        then have "plainLevelRe False s = plainLevelRe False (dropWhile is_word t)"
          using Cons True by (simp add: find_word_at Let_def plainLevelRe_in_word)
        moreover have "length (dropWhile is_word t) < length s"
          using Cons by (simp add: le_imp_less_Suc length_dropWhile_le)
        ultimately show ?thesis using 1 False True Cons by (simp add: plainLevel_def wordsOf_word)
      qed
    qed
  qed
qed

section \<open>Epoch units\<close>

lemma floor_f64_near:
  assumes "0 < x" and "x < 10 ^ 14"
  shows "of_int \<lfloor>f64 x\<rfloor> \<le> x + 1 / 10 \<and> x - 2 < of_int \<lfloor>f64 x\<rfloor>"
proof -
  have "x / 2 ^ 53 \<le> 10 ^ 14 / 2 ^ 53" using assms by (simp add: divide_right_mono)
  also have "\<dots> \<le> (1 / 10 :: rat)" by simp
  finally have "\<bar>f64 x - x\<bar> \<le> 1 / 10" using f64_error [OF assms(1)] by linarith
  then have "f64 x \<le> x + 1 / 10" and "x - 1 / 10 \<le> f64 x" unfolding abs_le_iff by linarith+
  moreover have "of_int \<lfloor>f64 x\<rfloor> \<le> f64 x" "f64 x < of_int \<lfloor>f64 x\<rfloor> + 1" by linarith+
  ultimately show ?thesis by linarith
qed

lemma f64_to_int64_in_range:
  assumes "0 \<le> x" and "x < 10 ^ 15"
  shows "f64_to_int64 oor x = \<lfloor>x\<rfloor>"
proof -
  have "0 \<le> \<lfloor>x\<rfloor>" using assms by simp
  moreover have "of_int \<lfloor>x\<rfloor> < (10 ^ 15 :: rat)" using assms by linarith
  then have "\<lfloor>x\<rfloor> < 10 ^ 15" by (metis of_int_less_iff of_int_numeral of_int_power)
  ultimately show ?thesis using assms by (simp add: f64_to_int64_def)
qed

lemma f64_upper: "0 < x \<Longrightarrow> f64 x \<le> x + x / 2 ^ 53"
  using f64_error [of x] unfolding abs_le_iff by linarith

lemma f64_nonneg: "0 < x \<Longrightarrow> 0 \<le> f64 x"
proof -
  assume "0 < x"
  then have "x / 2 ^ 53 \<le> x" by (simp add: field_simps)
  moreover have "x - f64 x \<le> x / 2 ^ 53"
    using f64_error [OF \<open>0 < x\<close>] unfolding abs_le_iff by linarith
  ultimately show ?thesis by linarith
qed

lemma toMs_scaled:
  assumes "0 < x" and "x < 10 ^ 14"
  shows "\<bar>of_int (f64_to_int64 oor (f64 x)) - x\<bar> < 2"
proof -
  have "f64 x \<le> x + x / 2 ^ 53" using assms(1) by (rule f64_upper)
  moreover have "x / 2 ^ 53 \<le> x" using assms(1) by (simp add: field_simps)
  ultimately have "f64 x \<le> 2 * x" by linarith
  also have "\<dots> < 10 ^ 15" using assms(2) by simp
  finally have "f64 x < 10 ^ 15" .
  then have "f64_to_int64 oor (f64 x) = \<lfloor>f64 x\<rfloor>"
    using f64_nonneg [OF assms(1)] by (simp add: f64_to_int64_in_range)
  then show ?thesis using floor_f64_near [OF assms] unfolding abs_less_iff by (simp only:) linarith
qed

lemma toMs_seconds:
  assumes "0 < n" and "n < 10 ^ 11"
  shows "toMs E (of_int n) = n * 1000"
proof -
  have lt: "(of_int n :: rat) < 10 ^ 11" using assms(2) by (metis of_int_less_iff of_int_numeral of_int_power)
  have "f64 (of_int n * 1000) = of_int (n * 1000)"
    using f64_int [of "n * 1000"] assms by simp
  moreover have "(of_int (n * 1000) :: rat) < 10 ^ 15" using lt by simp
  ultimately have "f64_to_int64 (float_oor E) (f64 (of_int n * 1000)) = n * 1000"
    using assms f64_to_int64_in_range [of "of_int (n * 1000)"] by (simp only: floor_of_int)
  then show ?thesis using lt assms by (simp add: toMs_def)
qed

lemma toMs_millis:
  assumes "10 ^ 11 \<le> n" and "n < 10 ^ 14"
  shows "toMs E (of_int n) = n"
proof -
  have "(10 ^ 11 :: rat) \<le> of_int n" "(of_int n :: rat) < 10 ^ 14"
    using assms by (metis of_int_le_iff of_int_less_iff of_int_numeral of_int_power)+
  then show ?thesis using f64_to_int64_in_range [of "of_int n"] by (simp add: toMs_def)
qed

lemma toMs_micros:
  assumes "10 ^ 14 \<le> v" and "v < 10 ^ 17"
  shows "\<bar>of_int (toMs E v) - v / 10 ^ 3\<bar> < 2"
  using toMs_scaled [of "v / 10 ^ 3"] assms by (simp add: toMs_def)

lemma toMs_nanos:
  assumes "10 ^ 17 \<le> v" and "v < 10 ^ 20"
  shows "\<bar>of_int (toMs E v) - v / 10 ^ 6\<bar> < 2"
  using toMs_scaled [of "v / 10 ^ 6"] assms by (simp add: toMs_def)

section \<open>Properties\<close>

lemma ToLower_word: "list_all is_word w \<Longrightarrow> ToLower w = map lower_char w"
  by (induction w rule: ToLower.induct)
    (auto simp: is_word_def is_letter_def is_upper_def is_digit_def byte_def)

lemma wordsOf_words: "w \<in> set (wordsOf s) \<Longrightarrow> w \<noteq> [] \<and> list_all is_word w"
proof (induction s rule: wordsOf.induct)
  case (1 s)
  show ?case
  proof (cases "dropWhile (\<lambda>c. \<not> is_word c) s")
    case Nil
    with 1 show ?thesis by (simp add: wordsOf.simps [of s])
  next
    case (Cons c t)
    then have "is_word c" using hd_dropWhile [of "\<lambda>c. \<not> is_word c" s]
      by (simp del: dropWhile_eq_Nil_conv)
    moreover have "list_all is_word (takeWhile is_word t)"
      by (auto simp: list_all_iff dest: set_takeWhileD)
    ultimately show ?thesis using 1 Cons by (auto simp: wordsOf.simps [of s])
  qed
qed

text \<open>
  C8: whatever bytes arrive, a payload yields at most \<open>maxRecordsPerPayload\<close> logs, and every
  one of them is storable: its level is one of the six, its host and arrival time are those of
  the request, and its event time is set.
\<close>

theorem parse_payload_wellformed:
  "length (parsePayload E service host payload receivedAt) \<le> maxRecordsPerPayload
   \<and> list_all (log_ok host receivedAt) (parsePayload E service host payload receivedAt)"
proof (cases "parseFluentBit E service host payload receivedAt")
  case None
  then show ?thesis by (auto simp: parsePayload_def payloadLoop_eq list_all_iff lineRecord_ok)
next
  case (Some logs)
  then show ?thesis using fluent_logs_ok [OF Some] by (simp add: parsePayload_def list_all_iff)
qed

text \<open>
  The line loop is the reference reading of a payload. A payload that is no FluentBit
  envelope gives one log for each non-blank line, in order, up to the cap, and the raw text of
  each log is exactly its trimmed line: no parser drops, merges or rewrites a line.
\<close>

theorem payload_lines_preserved:
  "(case parseFluentBit E service host payload receivedAt of
      Some logs \<Rightarrow> parsePayload E service host payload receivedAt = logs
    | None \<Rightarrow>
        map sl_Raw (parsePayload E service host payload receivedAt) =
          take maxRecordsPerPayload (payloadLines payload)
        \<and> list_all (\<lambda>l. sl_Service l = service) (parsePayload E service host payload receivedAt))"
  by (simp add: parsePayload_def payloadLoop_eq comp_def list_all_iff split: option.splits)

text \<open>
  The level of a plain-text line is the level of its first whole word that names one, in
  any letter case; a level name inside a longer word does not count.
\<close>

theorem plain_level_first_word:
  "sl_Level (parsePlainLine E s) =
     (case find (\<lambda>w. map lower_char w \<in> set plainWords) (wordsOf s) of
        None \<Rightarrow> None
      | Some w \<Rightarrow> levelNames (map lower_char w))"
proof (cases "plainLevel s")
  case None
  then show ?thesis by (simp add: parsePlainLine_def plainLevelRe_eq Let_def plainLevel_def [symmetric])
next
  case (Some w)
  then have "w \<in> set (wordsOf s)" by (auto simp: plainLevel_def dest: find_SomeD)
  then have "w \<noteq> [] \<and> ToLower w = map lower_char w" using wordsOf_words ToLower_word by blast
  with Some show ?thesis
    by (simp add: parsePlainLine_def plainLevelRe_eq Let_def plainLevel_def [symmetric])
qed

text \<open>
  An epoch means the same instant in every unit: between the years 1973 and 5138 a whole
  second given in seconds or milliseconds is read exactly, and given in micro- or nanoseconds
  is read to within one millisecond, in spite of the rounding of 64-bit floats.
\<close>

theorem epoch_units:
  assumes "10 ^ 8 \<le> s" and "s < 10 ^ 11"
  shows "toMs E (of_int s) = s * 1000
    \<and> toMs E (of_int (s * 1000)) = s * 1000
    \<and> \<bar>toMs E (of_int (s * 10 ^ 6)) - s * 1000\<bar> \<le> 1
    \<and> \<bar>toMs E (of_int (s * 10 ^ 9)) - s * 1000\<bar> \<le> 1"
proof -
  have near: "\<bar>x - y\<bar> \<le> 1" if "\<bar>of_int x - of_int y :: rat\<bar> < 2" for x y :: int
  proof -
    have "(of_int \<bar>x - y\<bar> :: rat) < of_int 2" using that by simp
    then have "\<bar>x - y\<bar> < 2" by (simp only: of_int_less_iff)
    then show ?thesis by simp
  qed
  have r: "(10 ^ 8 :: rat) \<le> of_int s" "(of_int s :: rat) < 10 ^ 11"
    using assms by (metis of_int_le_iff of_int_less_iff of_int_numeral of_int_power)+
  have "\<bar>toMs E (of_int (s * 10 ^ 6)) - s * 1000\<bar> \<le> 1"
    using r toMs_micros [of "of_int (s * 10 ^ 6)" E] by (intro near) simp
  moreover have "\<bar>toMs E (of_int (s * 10 ^ 9)) - s * 1000\<bar> \<le> 1"
    using r toMs_nanos [of "of_int (s * 10 ^ 9)" E] by (intro near) simp
  moreover have "toMs E (of_int s) = s * 1000" using assms by (intro toMs_seconds) simp_all
  moreover have "toMs E (of_int (s * 1000)) = s * 1000" using assms by (intro toMs_millis) simp_all
  ultimately show ?thesis by blast
qed

theorem epoch_units_witness:
  "toMs bare_env (of_int 1700000000) = 1700000000000
   \<and> \<bar>toMs bare_env (of_int (1700000000 * 10 ^ 9)) - 1700000000 * 1000\<bar> \<le> 1"
  using epoch_units [of 1700000000 bare_env] by simp

section \<open>Common Log Format round trip\<close>

text \<open>A combined-format line as the servers print it, and when its parts are printable.\<close>

definition clfPrint :: "clf_groups \<Rightarrow> string" where
  "clfPrint g = g_ip g @ '' - '' @ g_user g @ '' ['' @ g_time g @ [CHR '']'', CHR '' '', dquote] @
     g_req g @ [dquote, CHR '' ''] @ g_status g @ '' '' @ g_bytes g @ [CHR '' '', dquote] @
     g_ref g @ [dquote, CHR '' '', dquote] @ g_ua g @ [dquote]"

definition clf_word :: "string \<Rightarrow> bool" where
  "clf_word w \<longleftrightarrow> w \<noteq> [] \<and> list_all (\<lambda>c. \<not> re_space c) w"

definition clf_ok :: "clf_groups \<Rightarrow> bool" where
  "clf_ok g \<longleftrightarrow> clf_word (g_ip g) \<and> clf_word (g_user g) \<and> clf_word (g_bytes g)
     \<and> g_time g \<noteq> [] \<and> CHR '']'' \<notin> set (g_time g)
     \<and> length (g_status g) = 3 \<and> list_all is_digit (g_status g)
     \<and> dquote \<notin> set (g_req g) \<and> dquote \<notin> set (g_ref g) \<and> dquote \<notin> set (g_ua g)"

lemma re_space_consts [simp]: "re_space (CHR '' '')" "\<not> re_space dquote"
  by (simp_all add: re_space_def byte_def)

lemma word_run_print: "clf_word w \<Longrightarrow> word_run (w @ CHR '' '' # r) = Some (w, CHR '' '' # r)"
  by (simp add: word_run_def clf_word_def Let_def list_all_iff takeWhile_tail)

lemma word_run_dash: "word_run (CHR ''-'' # CHR '' '' # r) = Some (''-'', CHR '' '' # r)"
  using word_run_print [of "''-''" r] by (simp add: clf_word_def re_space_def byte_def)

lemma until_char_print: "c \<notin> set w \<Longrightarrow> until_char c (w @ c # r) = Some (w, r)"
  by (simp add: until_char_def Cut1_present)

lemma three_digits_print:
  assumes "length st = 3" and "list_all is_digit st"
  shows "three_digits (st @ r) = Some (st, r)"
proof -
  obtain a b c where "st = [a, b, c]" using assms(1) by (auto simp: numeral_3_eq_3 length_Suc_conv)
  with assms(2) show ?thesis by (simp add: three_digits_def)
qed

lemma clf_tail_print:
  assumes "dquote \<notin> set ref" and "dquote \<notin> set ua"
  shows "clf_tail (CHR '' '' # dquote # ref @ dquote # CHR '' '' # dquote # ua @ [dquote]) = Some (ref, ua)"
  using assms by (simp add: clf_tail_def spaces1_def until_char_print)

lemma clfRe_print: "clf_ok g \<Longrightarrow> clfRe (clfPrint g) = Some g"
  by (cases g) (simp add: clf_ok_def clfPrint_def clfRe_def word_run_print word_run_dash until_char_print
      three_digits_print clf_tail_print clf_word_def)

lemma three_digit_value:
  assumes "length st = 3" and "list_all is_digit st"
  shows "ParseInt st = Some (int (digits_val st))"
proof -
  obtain a b c where st: "st = [a, b, c]" using assms(1) by (auto simp: numeral_3_eq_3 length_Suc_conv)
  have "digits_val st < 2 ^ 63"
    using st byte_less [of a] byte_less [of b] byte_less [of c] by (simp add: digits_val_def)
  with st assms(2) show ?thesis by (intro ParseInt_digits) simp_all
qed

text \<open>
  A Common Log Format line round-trips. Printed from its fields and parsed again it is
  recognized, and the log carries the line, the request and the status, the status class as
  its level.
\<close>

theorem clf_roundtrip:
  assumes "clf_ok g"
  shows "clfRe (clfPrint g) = Some g
    \<and> map_option sl_Raw (parseCLFLine E (clfPrint g)) = Some (clfPrint g)
    \<and> map_option sl_Level (parseCLFLine E (clfPrint g)) =
        Some (Some (statusLevel (int (digits_val (g_status g)))))
    \<and> map_option sl_Parsed (parseCLFLine E (clfPrint g)) =
        Some (marshal_obj E (clfParsed g (int (digits_val (g_status g)))))"
proof -
  have "ParseInt (g_status g) = Some (int (digits_val (g_status g)))"
    using assms by (intro three_digit_value) (simp_all add: clf_ok_def)
  with clfRe_print [OF assms] show ?thesis
    by (simp add: parseCLFLine_def Let_def split: prod.splits)
qed

definition clf_sample :: clf_groups where
  "clf_sample = \<lparr>g_ip = ''10.0.0.1'', g_user = ''-'', g_time = ''10/Oct/2000:13:55:36 -0700'',
     g_req = ''GET /x HTTP/1.1'', g_status = ''503'', g_bytes = ''12'', g_ref = ''-'', g_ua = ''curl''\<rparr>"

theorem clf_roundtrip_witness:
  "map_option sl_Level (parseCLFLine bare_env (clfPrint clf_sample)) = Some (Some LevelError)"
proof -
  have "clf_ok clf_sample"
    by (simp add: clf_ok_def clf_sample_def clf_word_def re_space_def byte_def is_digit_def)
  moreover have "statusLevel (int (digits_val (g_status clf_sample))) = LevelError"
    by (simp add: clf_sample_def digits_val_def byte_def statusLevel_def)
  ultimately show ?thesis using clf_roundtrip [of clf_sample bare_env] by simp
qed

end
