(* ===== verification/Broadcaster.thy ===== *)
theory Broadcaster
  imports Parsers Machine
begin

text \<open>
  The live-tail fan-out, \<open>ingestion/broadcaster.go\<close>. A subscriber is a buffered channel
  under an id; \<open>mu\<close> makes every operation atomic. The map of subscribers is an association
  list: each operation treats the entries independently, so the iteration order does not show.
\<close>

definition subscriberBufSize :: nat where "subscriberBufSize = 100"

record Broadcaster =
  bc_subs :: "(nat \<times> StandardLog list) list"
  bc_nextID :: nat

definition NewBroadcaster :: Broadcaster where
  "NewBroadcaster = \<lparr>bc_subs = [], bc_nextID = 0\<rparr>"

text \<open>A non-blocking send: dropped when the buffer is full.\<close>

definition offer :: "StandardLog \<Rightarrow> StandardLog list \<Rightarrow> StandardLog list" where
  "offer l ch = (if length ch < subscriberBufSize then ch @ [l] else ch)"

definition broadcast :: "StandardLog \<Rightarrow> Broadcaster \<Rightarrow> Broadcaster" where
  "broadcast l b = b\<lparr>bc_subs := map (\<lambda>(i, ch). (i, offer l ch)) (bc_subs b)\<rparr>"

definition Subscribe :: "Broadcaster \<Rightarrow> nat \<times> Broadcaster" where
  "Subscribe b = (bc_nextID b,
     b\<lparr>bc_nextID := bc_nextID b + 1, bc_subs := bc_subs b @ [(bc_nextID b, [])]\<rparr>)"

definition Unsubscribe :: "nat \<Rightarrow> Broadcaster \<Rightarrow> Broadcaster" where
  "Unsubscribe i b = b\<lparr>bc_subs := filter (\<lambda>(j, ch). j \<noteq> i) (bc_subs b)\<rparr>"

text \<open>A subscriber takes the next log from its channel, when there is one.\<close>

definition Receive :: "nat \<Rightarrow> Broadcaster \<Rightarrow> (StandardLog \<times> Broadcaster) option" where
  "Receive i b = (case map_of (bc_subs b) i of
      Some (l # ls) \<Rightarrow>
        Some (l, b\<lparr>bc_subs := map (\<lambda>(j, ch). (j, if j = i then ls else ch)) (bc_subs b)\<rparr>)
    | _ \<Rightarrow> None)"

definition bc_inv :: "Broadcaster \<Rightarrow> bool" where
  "bc_inv b \<longleftrightarrow> distinct (map fst (bc_subs b)) \<and> list_all (\<lambda>(i, ch). i < bc_nextID b) (bc_subs b)
     \<and> list_all (\<lambda>(i, ch). length ch \<le> subscriberBufSize) (bc_subs b)"

named_theorems bc_simps \<open>the channel of a subscriber after each operation\<close>

lemma map_of_map_snd: "map_of (map (\<lambda>(i, ch). (i, f i ch)) xs) k = map_option (f k) (map_of xs k)"
  by (induction xs) auto

lemma map_of_filter_neq: "map_of (filter (\<lambda>(j, ch). j \<noteq> i) xs) k = (if k = i then None else map_of xs k)"
  by (induction xs) auto

lemma fst_pairs [simp]: "fst \<circ> (\<lambda>(i, ch). (i, f i ch)) = fst"
  by auto

lemma channel_broadcast [bc_simps]:
  "map_of (bc_subs (broadcast l b)) k = map_option (offer l) (map_of (bc_subs b) k)"
  by (simp add: broadcast_def map_of_map_snd)

lemma channel_unsubscribe [bc_simps]:
  "map_of (bc_subs (Unsubscribe i b)) k = (if k = i then None else map_of (bc_subs b) k)"
  by (simp add: Unsubscribe_def map_of_filter_neq)

lemma channel_receive [bc_simps]:
  "Receive i b = Some (l, b') \<Longrightarrow>
   map_of (bc_subs b) i = Some (l # ls) \<Longrightarrow>
   map_of (bc_subs b') k = (if k = i then Some ls else map_of (bc_subs b) k)"
  by (auto simp: Receive_def map_of_map_snd map_option_case split: option.splits)

lemma bc_fresh: "bc_inv b \<Longrightarrow> bc_nextID b \<notin> fst ` set (bc_subs b)"
  by (auto simp: bc_inv_def list_all_iff)

lemma channel_subscribe [bc_simps]:
  assumes "bc_inv b"
  shows "map_of (bc_subs (snd (Subscribe b))) k =
    (if k = bc_nextID b then Some [] else map_of (bc_subs b) k)"
proof -
  have "map_of (bc_subs b) (bc_nextID b) = None"
    using bc_fresh [OF assms] by (simp add: map_of_eq_None_iff)
  then show ?thesis by (auto simp: Subscribe_def map_add_def split: option.splits)
qed

lemma bc_inv_new: "bc_inv NewBroadcaster"
  by (simp add: bc_inv_def NewBroadcaster_def)

lemma bc_inv_broadcast: "bc_inv b \<Longrightarrow> bc_inv (broadcast l b)"
  by (auto simp: bc_inv_def broadcast_def offer_def list_all_iff subscriberBufSize_def)

lemma bc_inv_subscribe: "bc_inv b \<Longrightarrow> bc_inv (snd (Subscribe b))"
  using bc_fresh [of b] by (fastforce simp: bc_inv_def Subscribe_def list_all_iff)

lemma bc_inv_unsubscribe: "bc_inv b \<Longrightarrow> bc_inv (Unsubscribe i b)"
  by (auto simp: bc_inv_def Unsubscribe_def list_all_iff distinct_map inj_on_def)

lemma bc_inv_receive:
  assumes "bc_inv b" and "Receive i b = Some (l, b')"
  shows "bc_inv b'"
proof -
  from assms(2) obtain ls where m: "map_of (bc_subs b) i = Some (l # ls)"
    and b': "b' = b\<lparr>bc_subs := map (\<lambda>(j, ch). (j, if j = i then ls else ch)) (bc_subs b)\<rparr>"
    by (auto simp: Receive_def split: option.splits list.splits)
  from m have "(i, l # ls) \<in> set (bc_subs b)" by (rule map_of_SomeD)
  with assms(1) have "length ls \<le> subscriberBufSize" by (auto simp: bc_inv_def list_all_iff)
  with assms(1) show ?thesis by (auto simp: bc_inv_def b' list_all_iff)
qed

lemmas bc_inv_intros = bc_inv_new bc_inv_broadcast bc_inv_subscribe bc_inv_unsubscribe bc_inv_receive

section \<open>What one subscriber sees\<close>

datatype bc_op = OpBroadcast StandardLog | OpSubscribe | OpUnsubscribe nat | OpReceive nat

text \<open>Runs of the broadcaster; subscriber \<open>k\<close>'s received logs are collected.\<close>

fun bc_step :: "nat \<Rightarrow> bc_op \<Rightarrow> Broadcaster \<times> StandardLog list \<Rightarrow> Broadcaster \<times> StandardLog list" where
  "bc_step k (OpBroadcast l) (b, got) = (broadcast l b, got)"
| "bc_step k OpSubscribe (b, got) = (snd (Subscribe b), got)"
| "bc_step k (OpUnsubscribe i) (b, got) = (Unsubscribe i b, got)"
| "bc_step k (OpReceive i) (b, got) =
     (case Receive i b of None \<Rightarrow> (b, got)
      | Some (l, b') \<Rightarrow> (b', if i = k then got @ [l] else got))"

definition bc_exec :: "nat \<Rightarrow> bc_op list \<Rightarrow> Broadcaster \<times> StandardLog list \<Rightarrow> Broadcaster \<times> StandardLog list" where
  "bc_exec k ops s = fold (bc_step k) ops s"

fun sent :: "bc_op list \<Rightarrow> StandardLog list" where
  "sent [] = []"
| "sent (OpBroadcast l # ops) = l # sent ops"
| "sent (_ # ops) = sent ops"

lemma sent_append [simp]: "sent (xs @ ys) = sent xs @ sent ys"
  by (induction xs rule: sent.induct) auto

definition seen :: "nat \<Rightarrow> Broadcaster \<times> StandardLog list \<Rightarrow> StandardLog list" where
  "seen k s = snd s @ (case map_of (bc_subs (fst s)) k of None \<Rightarrow> [] | Some ch \<Rightarrow> ch)"

lemma subseq_snoc: "subseq xs ys \<Longrightarrow> subseq (xs @ [l]) (ys @ [l])"
  by (simp add: list_emb_append_mono)

lemma Receive_cases:
  "Receive i b = None \<or> (\<exists>l ls b'. Receive i b = Some (l, b') \<and> map_of (bc_subs b) i = Some (l # ls))"
  by (auto simp: Receive_def split: option.splits list.splits)

lemma bc_step_inv: "bc_inv (fst s) \<Longrightarrow> bc_inv (fst (bc_step k op s))"
  by (cases s; cases op) (auto intro: bc_inv_intros split: option.splits)

lemma seen_step:
  assumes "bc_inv (fst s)" and "subseq (seen k s) xs"
  shows "subseq (seen k (bc_step k op s)) (xs @ sent [op])"
proof -
  obtain b got where s: "s = (b, got)" by (cases s)
  have sub: "subseq ys (xs @ [l])" if "subseq ys xs" for ys l
    using that by (rule subseq_order.trans) (simp add: subseq_rev_drop_many)
  show ?thesis
  proof (cases op)
    case (OpBroadcast l)
    with assms(2) s show ?thesis
      by (auto simp: seen_def bc_simps offer_def split: option.splits
          intro: sub subseq_snoc subseq_snoc [of "got @ _", simplified])
  next
    case OpSubscribe
    with assms s show ?thesis
      by (auto simp: seen_def bc_simps split: option.splits elim: subseq_order.trans [rotated])
  next
    case (OpUnsubscribe i)
    with assms(2) s show ?thesis
      by (auto simp: seen_def bc_simps elim: subseq_order.trans [rotated])
  next
    case (OpReceive i)
    then show ?thesis using Receive_cases [of i b] assms(2) s
      by (auto simp: seen_def channel_receive)
  qed
qed

lemma bc_exec_seen:
  assumes "bc_inv (fst s)" and "subseq (seen k s) xs"
  shows "bc_inv (fst (bc_exec k ops s)) \<and> subseq (seen k (bc_exec k ops s)) (xs @ sent ops)"
  using assms
proof (induction ops arbitrary: s xs)
  case Nil
  then show ?case by (simp add: bc_exec_def)
next
  case (Cons op ops)
  from Cons.IH [OF bc_step_inv [OF Cons.prems(1)] seen_step [OF Cons.prems]]
  show ?case using sent_append [of "[op]" ops] by (simp add: bc_exec_def)
qed

text \<open>
  A live-tail subscriber sees a subsequence of the stream. Whatever the interleaving of
  broadcasts, subscriptions and receives, the logs a subscriber took together with the ones
  waiting in its channel appear in the order they were broadcast, none twice; and no channel
  ever holds more than \<open>subscriberBufSize\<close> logs, so a slow reader only loses logs of its own.
\<close>

theorem subscriber_sees_subsequence:
  "subseq (seen k (bc_exec k ops (NewBroadcaster, []))) (sent ops)
   \<and> list_all (\<lambda>(i, ch). length ch \<le> subscriberBufSize)
       (bc_subs (fst (bc_exec k ops (NewBroadcaster, []))))"
  using bc_exec_seen [of "(NewBroadcaster, [])" k "[]" ops] bc_inv_new
  by (simp add: seen_def NewBroadcaster_def bc_inv_def)

end
