(* ===== verification/Log_Pipeline.thy ===== *)
theory Log_Pipeline
  imports Broadcaster
begin

text \<open>
  The log ingestion pipeline, \<open>ingestion/pipeline.go\<close>, as a transition system of its
  goroutines: HTTP handlers inside \<open>TryIngest\<close>, the parser workers, the fan-out, the batch
  writer and \<open>Shutdown\<close>. One action is one atomic access to shared state (the byte
  counter, a channel operation, the write lock), so every interleaving of the program is a
  sequence of actions. A send on a closed channel sets \<open>lp_panic\<close>.

  The read lock of \<open>TryIngest\<close> is held exactly while its caller has not returned;
  \<open>Shutdown\<close> takes the write lock when no caller is inside. The outcome of a database
  write is part of the action: a failed multi-row \<open>INSERT\<close> writes nothing. The ghost field
  \<open>lp_accepted\<close> collects the events for which \<open>TryIngest\<close> answered true.
\<close>

definition ingestChanSize :: nat where "ingestChanSize = 1000"
definition parsedChanSize :: nat where "parsedChanSize = 5000"
definition batchInputChanSize :: nat where "batchInputChanSize = 1000"
definition batchSize :: nat where "batchSize = 1000"
definition maxBufferedBytes :: int where "maxBufferedBytes = 256 * 2 ^ 20"

record ingestEvent =
  ie_service :: string
  ie_host :: string
  ie_payload :: bytes
  ie_receivedAt :: ms

datatype worker = WIdle | WSending ingestEvent "StandardLog list" | WDone
datatype fanout = FIdle | FSending StandardLog | FDone

text \<open>How far \<open>Shutdown\<close> has come.\<close>

datatype sd_phase = Running | GateClosed | IngestClosed | ParsedClosed | BatchClosed | Finished

record Pipeline =
  lp_closed :: bool
  lp_callers :: "ingestEvent caller list"
  lp_bufferedBytes :: int
  lp_ingestChan :: "ingestEvent list"
  lp_ingestClosed :: bool
  lp_workers :: "worker list"
  lp_parsedChan :: "StandardLog list"
  lp_parsedClosed :: bool
  lp_fanout :: fanout
  lp_broadcaster :: Broadcaster
  lp_batchInputChan :: "StandardLog list"
  lp_batchClosed :: bool
  lp_buf :: "StandardLog list"
  lp_armed :: bool
  lp_writerDone :: bool
  lp_db :: "StandardLog list"
  lp_dropped :: "StandardLog list"
  lp_shutdown :: sd_phase
  lp_panic :: bool
  lp_accepted :: "ingestEvent list"

text \<open>\<open>NewPipeline\<close> followed by \<open>Start\<close> on a machine with \<open>n\<close> processors.\<close>

definition NewPipeline :: "nat \<Rightarrow> Pipeline" where
  "NewPipeline n = \<lparr>lp_closed = False, lp_callers = [], lp_bufferedBytes = 0, lp_ingestChan = [],
     lp_ingestClosed = False, lp_workers = replicate n WIdle, lp_parsedChan = [], lp_parsedClosed = False,
     lp_fanout = FIdle, lp_broadcaster = NewBroadcaster, lp_batchInputChan = [], lp_batchClosed = False,
     lp_buf = [], lp_armed = False, lp_writerDone = False, lp_db = [], lp_dropped = [],
     lp_shutdown = Running, lp_panic = False, lp_accepted = []\<rparr>"

definition ev_weight :: "ingestEvent \<Rightarrow> nat" where
  "ev_weight ev = length (ie_payload ev)"

definition nth_opt :: "'a list \<Rightarrow> nat \<Rightarrow> 'a option" where
  "nth_opt xs i = (if i < length xs then Some (xs ! i) else None)"

lemma nth_opt_SomeD [dest!]: "nth_opt xs i = Some x \<Longrightarrow> i < length xs \<and> xs ! i = x"
  by (simp add: nth_opt_def split: if_splits)

section \<open>TryIngest\<close>

definition ti_enter :: "ingestEvent \<Rightarrow> Pipeline \<Rightarrow> Pipeline option" where
  "ti_enter ev p = Some (p\<lparr>lp_callers := lp_callers p @ [if lp_closed p then Returned False else Entered ev]\<rparr>)"

definition ti_add :: "nat \<Rightarrow> Pipeline \<Rightarrow> Pipeline option" where
  "ti_add i p = (case nth_opt (lp_callers p) i of
      Some (Entered ev) \<Rightarrow>
        let c = lp_bufferedBytes p + int (ev_weight ev)
        in Some (p\<lparr>lp_bufferedBytes := c,
             lp_callers := (lp_callers p)[i := if c > maxBufferedBytes then RollingBack ev else Reserved ev]\<rparr>)
    | _ \<Rightarrow> None)"

definition ti_rollback :: "nat \<Rightarrow> Pipeline \<Rightarrow> Pipeline option" where
  "ti_rollback i p = (case nth_opt (lp_callers p) i of
      Some (RollingBack ev) \<Rightarrow>
        Some (p\<lparr>lp_bufferedBytes := lp_bufferedBytes p - int (ev_weight ev),
          lp_callers := (lp_callers p)[i := Returned False]\<rparr>)
    | _ \<Rightarrow> None)"

definition ti_send :: "nat \<Rightarrow> Pipeline \<Rightarrow> Pipeline option" where
  "ti_send i p = (case nth_opt (lp_callers p) i of
      Some (Reserved ev) \<Rightarrow>
        Some (if lp_ingestClosed p then p\<lparr>lp_panic := True\<rparr>
          else if length (lp_ingestChan p) < ingestChanSize
          then p\<lparr>lp_ingestChan := lp_ingestChan p @ [ev], lp_accepted := lp_accepted p @ [ev],
                 lp_callers := (lp_callers p)[i := Returned True]\<rparr>
          else p\<lparr>lp_callers := (lp_callers p)[i := RollingBack ev]\<rparr>)
    | _ \<Rightarrow> None)"

text \<open>The whole call, when no other goroutine runs in between.\<close>

definition TryIngest :: "string \<Rightarrow> string \<Rightarrow> bytes \<Rightarrow> ms \<Rightarrow> Pipeline \<Rightarrow> bool \<times> Pipeline" where
  "TryIngest service host payload receivedAt p =
     (if lp_closed p then (False, p)
      else
        let n = int (length payload); c = lp_bufferedBytes p + n;
            ev = \<lparr>ie_service = service, ie_host = host, ie_payload = payload, ie_receivedAt = receivedAt\<rparr>
        in if c > maxBufferedBytes then (False, p\<lparr>lp_bufferedBytes := c - n\<rparr>)
           else if length (lp_ingestChan p) < ingestChanSize
           then (True, p\<lparr>lp_bufferedBytes := c, lp_ingestChan := lp_ingestChan p @ [ev]\<rparr>)
           else (False, p\<lparr>lp_bufferedBytes := c - n\<rparr>))"

section \<open>The parser workers\<close>

definition parsedEvent :: "go_env \<Rightarrow> ingestEvent \<Rightarrow> StandardLog list" where
  "parsedEvent E ev =
     map (\<lambda>l. l\<lparr>sl_Timestamp := ClampTimestamp (sl_Timestamp l) (ie_receivedAt ev)\<rparr>)
       (parsePayload E (ie_service ev) (ie_host ev) (ie_payload ev) (ie_receivedAt ev))"

definition pw_take :: "go_env \<Rightarrow> nat \<Rightarrow> Pipeline \<Rightarrow> Pipeline option" where
  "pw_take E i p = (case (nth_opt (lp_workers p) i, lp_ingestChan p) of
      (Some WIdle, ev # evs) \<Rightarrow>
        Some (p\<lparr>lp_ingestChan := evs, lp_workers := (lp_workers p)[i := WSending ev (parsedEvent E ev)]\<rparr>)
    | _ \<Rightarrow> None)"

definition pw_send :: "nat \<Rightarrow> Pipeline \<Rightarrow> Pipeline option" where
  "pw_send i p = (case nth_opt (lp_workers p) i of
      Some (WSending ev (l # ls)) \<Rightarrow>
        if lp_parsedClosed p then Some (p\<lparr>lp_panic := True\<rparr>)
        else if length (lp_parsedChan p) < parsedChanSize
        then Some (p\<lparr>lp_parsedChan := lp_parsedChan p @ [l], lp_workers := (lp_workers p)[i := WSending ev ls]\<rparr>)
        else None
    | _ \<Rightarrow> None)"

definition pw_release :: "nat \<Rightarrow> Pipeline \<Rightarrow> Pipeline option" where
  "pw_release i p = (case nth_opt (lp_workers p) i of
      Some (WSending ev []) \<Rightarrow>
        Some (p\<lparr>lp_bufferedBytes := lp_bufferedBytes p - int (ev_weight ev),
          lp_workers := (lp_workers p)[i := WIdle]\<rparr>)
    | _ \<Rightarrow> None)"

definition pw_exit :: "nat \<Rightarrow> Pipeline \<Rightarrow> Pipeline option" where
  "pw_exit i p = (case (nth_opt (lp_workers p) i, lp_ingestChan p) of
      (Some WIdle, []) \<Rightarrow>
        if lp_ingestClosed p then Some (p\<lparr>lp_workers := (lp_workers p)[i := WDone]\<rparr>) else None
    | _ \<Rightarrow> None)"

section \<open>The fan-out\<close>

definition fo_take :: "Pipeline \<Rightarrow> Pipeline option" where
  "fo_take p = (case (lp_fanout p, lp_parsedChan p) of
      (FIdle, l # ls) \<Rightarrow>
        Some (p\<lparr>lp_parsedChan := ls, lp_broadcaster := broadcast l (lp_broadcaster p), lp_fanout := FSending l\<rparr>)
    | _ \<Rightarrow> None)"

definition fo_send :: "Pipeline \<Rightarrow> Pipeline option" where
  "fo_send p = (case lp_fanout p of
      FSending l \<Rightarrow>
        if lp_batchClosed p then Some (p\<lparr>lp_panic := True\<rparr>)
        else if length (lp_batchInputChan p) < batchInputChanSize
        then Some (p\<lparr>lp_batchInputChan := lp_batchInputChan p @ [l], lp_fanout := FIdle\<rparr>)
        else None
    | _ \<Rightarrow> None)"

definition fo_exit :: "Pipeline \<Rightarrow> Pipeline option" where
  "fo_exit p = (case (lp_fanout p, lp_parsedChan p) of
      (FIdle, []) \<Rightarrow> if lp_parsedClosed p then Some (p\<lparr>lp_fanout := FDone\<rparr>) else None
    | _ \<Rightarrow> None)"

section \<open>The batch writer\<close>

text \<open>\<open>tryFlush\<close>, given whether the \<open>INSERT\<close> succeeds.\<close>

definition tryFlush :: "bool \<Rightarrow> Pipeline \<Rightarrow> Pipeline" where
  "tryFlush ok p =
     (if lp_buf p = [] then p
      else if ok then p\<lparr>lp_db := lp_db p @ lp_buf p, lp_buf := []\<rparr> else p)"

text \<open>The buffer is full: flush, or back off without pulling more.\<close>

definition bw_full :: "bool \<Rightarrow> Pipeline \<Rightarrow> Pipeline option" where
  "bw_full ok p =
     (if \<not> lp_writerDone p \<and> length (lp_buf p) \<ge> batchSize then Some (tryFlush ok p) else None)"

definition bw_recv :: "Pipeline \<Rightarrow> Pipeline option" where
  "bw_recv p =
     (if lp_writerDone p \<or> length (lp_buf p) \<ge> batchSize then None
      else case lp_batchInputChan p of
        l # ls \<Rightarrow> Some (p\<lparr>lp_batchInputChan := ls, lp_buf := lp_buf p @ [l], lp_armed := True\<rparr>)
      | [] \<Rightarrow> None)"

definition bw_timer :: "bool \<Rightarrow> Pipeline \<Rightarrow> Pipeline option" where
  "bw_timer ok p =
     (if lp_writerDone p \<or> length (lp_buf p) \<ge> batchSize \<or> \<not> lp_armed p then None
      else let q = tryFlush ok p in Some (q\<lparr>lp_armed := lp_buf q \<noteq> []\<rparr>))"

text \<open>The input is closed and empty: a last flush, then the goroutine ends.\<close>

definition bw_drain :: "bool \<Rightarrow> Pipeline \<Rightarrow> Pipeline option" where
  "bw_drain ok p =
     (if lp_writerDone p \<or> length (lp_buf p) \<ge> batchSize \<or> lp_batchInputChan p \<noteq> [] \<or> \<not> lp_batchClosed p
      then None
      else let q = tryFlush ok p
           in Some (q\<lparr>lp_dropped := lp_dropped q @ lp_buf q, lp_buf := [], lp_writerDone := True\<rparr>))"

section \<open>Shutdown\<close>

definition sd_gate :: "Pipeline \<Rightarrow> Pipeline option" where
  "sd_gate p =
     (if lp_shutdown p = Running \<and> list_all returned (lp_callers p)
      then Some (p\<lparr>lp_closed := True, lp_shutdown := GateClosed\<rparr>) else None)"

definition sd_ingest :: "Pipeline \<Rightarrow> Pipeline option" where
  "sd_ingest p =
     (if lp_shutdown p = GateClosed then Some (p\<lparr>lp_ingestClosed := True, lp_shutdown := IngestClosed\<rparr>) else None)"

definition sd_parsed :: "Pipeline \<Rightarrow> Pipeline option" where
  "sd_parsed p =
     (if lp_shutdown p = IngestClosed \<and> list_all (\<lambda>w. w = WDone) (lp_workers p)
      then Some (p\<lparr>lp_parsedClosed := True, lp_shutdown := ParsedClosed\<rparr>) else None)"

definition sd_batch :: "Pipeline \<Rightarrow> Pipeline option" where
  "sd_batch p =
     (if lp_shutdown p = ParsedClosed \<and> lp_fanout p = FDone
      then Some (p\<lparr>lp_batchClosed := True, lp_shutdown := BatchClosed\<rparr>) else None)"

definition sd_finish :: "Pipeline \<Rightarrow> Pipeline option" where
  "sd_finish p =
     (if lp_shutdown p = BatchClosed \<and> lp_writerDone p then Some (p\<lparr>lp_shutdown := Finished\<rparr>) else None)"

section \<open>The transition system\<close>

datatype laction =
    TiEnter ingestEvent | TiAdd nat | TiRollback nat | TiSend nat
  | PwTake nat | PwSend nat | PwRelease nat | PwExit nat
  | FoTake | FoSend | FoExit
  | BwFull bool | BwRecv | BwTimer bool | BwDrain bool
  | BcSubscribe | BcUnsubscribe nat | BcReceive nat
  | SdGate | SdIngest | SdParsed | SdBatch | SdFinish

fun lexec :: "go_env \<Rightarrow> laction \<Rightarrow> Pipeline \<Rightarrow> Pipeline option" where
  "lexec E (TiEnter ev) p = ti_enter ev p"
| "lexec E (TiAdd i) p = ti_add i p"
| "lexec E (TiRollback i) p = ti_rollback i p"
| "lexec E (TiSend i) p = ti_send i p"
| "lexec E (PwTake i) p = pw_take E i p"
| "lexec E (PwSend i) p = pw_send i p"
| "lexec E (PwRelease i) p = pw_release i p"
| "lexec E (PwExit i) p = pw_exit i p"
| "lexec E FoTake p = fo_take p"
| "lexec E FoSend p = fo_send p"
| "lexec E FoExit p = fo_exit p"
| "lexec E (BwFull ok) p = bw_full ok p"
| "lexec E BwRecv p = bw_recv p"
| "lexec E (BwTimer ok) p = bw_timer ok p"
| "lexec E (BwDrain ok) p = bw_drain ok p"
| "lexec E BcSubscribe p = Some (p\<lparr>lp_broadcaster := snd (Subscribe (lp_broadcaster p))\<rparr>)"
| "lexec E (BcUnsubscribe i) p = Some (p\<lparr>lp_broadcaster := Unsubscribe i (lp_broadcaster p)\<rparr>)"
| "lexec E (BcReceive i) p = (case Receive i (lp_broadcaster p) of None \<Rightarrow> None
     | Some (l, b) \<Rightarrow> Some (p\<lparr>lp_broadcaster := b\<rparr>))"
| "lexec E SdGate p = sd_gate p"
| "lexec E SdIngest p = sd_ingest p"
| "lexec E SdParsed p = sd_parsed p"
| "lexec E SdBatch p = sd_batch p"
| "lexec E SdFinish p = sd_finish p"

lemmas lp_defs = ti_enter_def ti_add_def ti_rollback_def ti_send_def pw_take_def pw_send_def
  pw_release_def pw_exit_def fo_take_def fo_send_def fo_exit_def bw_full_def bw_recv_def bw_timer_def
  bw_drain_def tryFlush_def sd_gate_def sd_ingest_def sd_parsed_def sd_batch_def sd_finish_def

text \<open>The effect of each enabled action.\<close>

lemma ti_addE:
  assumes "ti_add i p = Some q"
  obtains ev where "i < length (lp_callers p)" "lp_callers p ! i = Entered ev"
    "q = p\<lparr>lp_bufferedBytes := lp_bufferedBytes p + int (ev_weight ev), lp_callers := (lp_callers p)[i :=
       if lp_bufferedBytes p + int (ev_weight ev) > maxBufferedBytes then RollingBack ev else Reserved ev]\<rparr>"
  using assms by (auto simp: ti_add_def Let_def split: option.splits caller.splits)

lemma ti_rollbackE:
  assumes "ti_rollback i p = Some q"
  obtains ev where "i < length (lp_callers p)" "lp_callers p ! i = RollingBack ev"
    "q = p\<lparr>lp_bufferedBytes := lp_bufferedBytes p - int (ev_weight ev), lp_callers := (lp_callers p)[i := Returned False]\<rparr>"
  using assms by (auto simp: ti_rollback_def split: option.splits caller.splits)

lemma ti_sendE:
  assumes "ti_send i p = Some q"
  obtains
    (panic) ev where "i < length (lp_callers p)" "lp_callers p ! i = Reserved ev" "lp_ingestClosed p"
      "q = p\<lparr>lp_panic := True\<rparr>"
  | (sent) ev where "i < length (lp_callers p)" "lp_callers p ! i = Reserved ev" "\<not> lp_ingestClosed p"
      "length (lp_ingestChan p) < ingestChanSize"
      "q = p\<lparr>lp_ingestChan := lp_ingestChan p @ [ev], lp_accepted := lp_accepted p @ [ev],
         lp_callers := (lp_callers p)[i := Returned True]\<rparr>"
  | (full) ev where "i < length (lp_callers p)" "lp_callers p ! i = Reserved ev" "\<not> lp_ingestClosed p"
      "q = p\<lparr>lp_callers := (lp_callers p)[i := RollingBack ev]\<rparr>"
  using assms by (auto simp: ti_send_def split: option.splits caller.splits if_splits)

lemma pw_takeE:
  assumes "pw_take E i p = Some q"
  obtains ev evs where "i < length (lp_workers p)" "lp_workers p ! i = WIdle" "lp_ingestChan p = ev # evs"
    "q = p\<lparr>lp_ingestChan := evs, lp_workers := (lp_workers p)[i := WSending ev (parsedEvent E ev)]\<rparr>"
  using assms by (auto simp: pw_take_def split: option.splits worker.splits list.splits)

lemma pw_sendE:
  assumes "pw_send i p = Some q"
  obtains
    (panic) ev l ls where "i < length (lp_workers p)" "lp_workers p ! i = WSending ev (l # ls)"
      "lp_parsedClosed p" "q = p\<lparr>lp_panic := True\<rparr>"
  | (sent) ev l ls where "i < length (lp_workers p)" "lp_workers p ! i = WSending ev (l # ls)"
      "\<not> lp_parsedClosed p" "length (lp_parsedChan p) < parsedChanSize"
      "q = p\<lparr>lp_parsedChan := lp_parsedChan p @ [l], lp_workers := (lp_workers p)[i := WSending ev ls]\<rparr>"
  using assms by (auto simp: pw_send_def split: option.splits worker.splits list.splits if_splits)

lemma pw_releaseE:
  assumes "pw_release i p = Some q"
  obtains ev where "i < length (lp_workers p)" "lp_workers p ! i = WSending ev []"
    "q = p\<lparr>lp_bufferedBytes := lp_bufferedBytes p - int (ev_weight ev), lp_workers := (lp_workers p)[i := WIdle]\<rparr>"
  using assms by (auto simp: pw_release_def split: option.splits worker.splits list.splits)

lemma pw_exitE:
  assumes "pw_exit i p = Some q"
  obtains "i < length (lp_workers p)" "lp_workers p ! i = WIdle" "lp_ingestChan p = []" "lp_ingestClosed p"
    "q = p\<lparr>lp_workers := (lp_workers p)[i := WDone]\<rparr>"
  using assms by (auto simp: pw_exit_def split: option.splits worker.splits list.splits if_splits)

lemma fo_takeE:
  assumes "fo_take p = Some q"
  obtains l ls where "lp_fanout p = FIdle" "lp_parsedChan p = l # ls"
    "q = p\<lparr>lp_parsedChan := ls, lp_broadcaster := broadcast l (lp_broadcaster p), lp_fanout := FSending l\<rparr>"
  using assms by (auto simp: fo_take_def split: fanout.splits list.splits)

lemma fo_sendE:
  assumes "fo_send p = Some q"
  obtains
    (panic) l where "lp_fanout p = FSending l" "lp_batchClosed p" "q = p\<lparr>lp_panic := True\<rparr>"
  | (sent) l where "lp_fanout p = FSending l" "\<not> lp_batchClosed p"
      "length (lp_batchInputChan p) < batchInputChanSize"
      "q = p\<lparr>lp_batchInputChan := lp_batchInputChan p @ [l], lp_fanout := FIdle\<rparr>"
  using assms by (auto simp: fo_send_def split: fanout.splits if_splits)

lemma fo_exitE:
  assumes "fo_exit p = Some q"
  obtains "lp_fanout p = FIdle" "lp_parsedChan p = []" "lp_parsedClosed p" "q = p\<lparr>lp_fanout := FDone\<rparr>"
  using assms by (auto simp: fo_exit_def split: fanout.splits list.splits if_splits)

lemma bw_recvE:
  assumes "bw_recv p = Some q"
  obtains l ls where "\<not> lp_writerDone p" "length (lp_buf p) < batchSize" "lp_batchInputChan p = l # ls"
    "q = p\<lparr>lp_batchInputChan := ls, lp_buf := lp_buf p @ [l], lp_armed := True\<rparr>"
  using assms by (auto simp: bw_recv_def split: list.splits if_splits)

lemmas lp_elims = ti_addE ti_rollbackE ti_sendE pw_takeE pw_sendE pw_releaseE pw_exitE
  fo_takeE fo_sendE fo_exitE bw_recvE

lemmas lp_rest = ti_enter_def bw_full_def bw_timer_def bw_drain_def tryFlush_def sd_gate_def
  sd_ingest_def sd_parsed_def sd_batch_def sd_finish_def

section \<open>The byte budget\<close>

fun worker_weight :: "worker \<Rightarrow> nat" where
  "worker_weight (WSending ev ls) = ev_weight ev"
| "worker_weight _ = 0"

text \<open>The payload bytes the pipeline holds: reserved by a caller, queued, or being parsed.\<close>

definition held_bytes :: "Pipeline \<Rightarrow> nat" where
  "held_bytes p = reserved_sum ev_weight (lp_callers p) + sum_list (map ev_weight (lp_ingestChan p))
     + sum_list (map worker_weight (lp_workers p))"

definition rolling_bytes :: "Pipeline \<Rightarrow> nat" where
  "rolling_bytes p = rolling_sum ev_weight (lp_callers p)"

lemmas held_defs = held_bytes_def rolling_bytes_def

text \<open>Every action keeps the counter equal to the bytes held plus the bytes being rolled back.\<close>

lemma lexec_accounting:
  assumes "lexec E a p = Some q"
  shows "lp_bufferedBytes q - int (held_bytes q) - int (rolling_bytes q)
    = lp_bufferedBytes p - int (held_bytes p) - int (rolling_bytes p)"
  using assms
  by (cases a) (auto elim!: lp_elims simp: lp_rest Let_def held_defs caller_sums_int int_sum_list_update
 split: if_splits option.splits)

lemma lexec_guarded:
  assumes "lexec E a p = Some q" and "held_bytes p < held_bytes q"
  shows "lp_bufferedBytes q \<le> maxBufferedBytes"
proof -
  have "int (held_bytes p) < int (held_bytes q)" using assms(2) by simp
  with assms(1) show ?thesis
    by (cases a) (auto elim!: lp_elims simp: lp_rest Let_def held_defs caller_sums_int int_sum_list_update
 split: if_splits option.splits)
qed

interpretation log_budget: budget "lexec E" "NewPipeline n" lp_bufferedBytes held_bytes rolling_bytes
  maxBufferedBytes
proof
  show "0 \<le> maxBufferedBytes" by (simp add: maxBufferedBytes_def)
  show "lp_bufferedBytes (NewPipeline n) = 0" by (simp add: NewPipeline_def)
  show "held_bytes (NewPipeline n) = 0" "rolling_bytes (NewPipeline n) = 0"
    by (simp_all add: NewPipeline_def held_defs reserved_sum_def rolling_sum_def sum_list_replicate)
qed (fact lexec_accounting lexec_guarded)+

section \<open>Closing, capacities, conservation\<close>

text \<open>The stages close in producer-to-consumer order, and a closed stage has no producer left.\<close>

fun closed_flags :: "sd_phase \<Rightarrow> bool \<times> bool \<times> bool \<times> bool" where
  "closed_flags Running = (False, False, False, False)"
| "closed_flags GateClosed = (True, False, False, False)"
| "closed_flags IngestClosed = (True, True, False, False)"
| "closed_flags ParsedClosed = (True, True, True, False)"
| "closed_flags BatchClosed = (True, True, True, True)"
| "closed_flags Finished = (True, True, True, True)"

definition phase_inv :: "Pipeline \<Rightarrow> bool" where
  "phase_inv p \<longleftrightarrow>
     (lp_closed p, lp_ingestClosed p, lp_parsedClosed p, lp_batchClosed p) = closed_flags (lp_shutdown p)"

lemma phase_ingest: "phase_inv p \<Longrightarrow> lp_ingestClosed p \<Longrightarrow> lp_closed p"
  by (cases "lp_shutdown p") (auto simp: phase_inv_def)

definition caller_inv :: "Pipeline \<Rightarrow> bool" where
  "caller_inv p \<longleftrightarrow> (lp_closed p \<longrightarrow> list_all returned (lp_callers p))"

definition worker_inv :: "Pipeline \<Rightarrow> bool" where
  "worker_inv p \<longleftrightarrow>
     (WDone \<in> set (lp_workers p) \<longrightarrow> lp_ingestClosed p \<and> lp_ingestChan p = [])
   \<and> (lp_parsedClosed p \<longrightarrow> list_all (\<lambda>w. w = WDone) (lp_workers p))"

definition fanout_inv :: "Pipeline \<Rightarrow> bool" where
  "fanout_inv p \<longleftrightarrow>
     (lp_fanout p = FDone \<longrightarrow> lp_parsedClosed p \<and> lp_parsedChan p = [])
   \<and> (lp_batchClosed p \<longrightarrow> lp_fanout p = FDone)"

definition writer_inv :: "Pipeline \<Rightarrow> bool" where
  "writer_inv p \<longleftrightarrow>
     (lp_writerDone p \<longrightarrow> lp_batchClosed p \<and> lp_batchInputChan p = [] \<and> lp_buf p = [])
   \<and> (lp_dropped p \<noteq> [] \<longrightarrow> lp_writerDone p) \<and> length (lp_dropped p) < batchSize
   \<and> (lp_shutdown p = Finished \<longrightarrow> lp_writerDone p)"

definition closing_inv :: "Pipeline \<Rightarrow> bool" where
  "closing_inv p \<longleftrightarrow> phase_inv p \<and> caller_inv p \<and> worker_inv p \<and> fanout_inv p \<and> writer_inv p \<and> \<not> lp_panic p"

lemma in_set_update: "x \<in> set (xs[i := y]) \<Longrightarrow> x = y \<or> x \<in> set xs"
  using set_update_subset_insert by fastforce

lemma WDone_update: "w \<noteq> WDone \<Longrightarrow> WDone \<in> set (ws[i := w]) \<Longrightarrow> WDone \<in> set ws"
  by (auto dest: in_set_update)

lemma not_all_done:
  "list_all (\<lambda>w. w = WDone) ws \<Longrightarrow> i < length ws \<Longrightarrow> ws ! i = WDone"
  by (auto dest: list_all_nth)

lemma phase_step: "phase_inv p \<Longrightarrow> lexec E a p = Some q \<Longrightarrow> phase_inv q"
  by (cases a) (auto elim!: lp_elims simp: lp_rest Let_def phase_inv_def split: if_splits option.splits)

lemma caller_step: "caller_inv p \<Longrightarrow> lexec E a p = Some q \<Longrightarrow> caller_inv q"
  by (cases a) (auto elim!: lp_elims simp: lp_rest Let_def caller_inv_def split: if_splits option.splits
      intro: list_all_update dest: not_all_returned)

lemma worker_inv_update:
  "worker_inv p \<Longrightarrow> i < length (lp_workers p) \<Longrightarrow> lp_workers p ! i \<noteq> WDone \<Longrightarrow> w \<noteq> WDone \<Longrightarrow>
   (lp_ingestClosed p \<and> lp_ingestChan p = [] \<Longrightarrow> lp_ingestChan q = []) \<Longrightarrow>
   lp_workers q = (lp_workers p)[i := w] \<Longrightarrow> lp_ingestClosed q = lp_ingestClosed p \<Longrightarrow>
   lp_parsedClosed q = lp_parsedClosed p \<Longrightarrow> worker_inv q"
  using not_all_done [of "lp_workers p" i] WDone_update [of w "lp_workers p" i]
  by (simp add: worker_inv_def) blast

lemma worker_exit_inv:
  "worker_inv p \<Longrightarrow> lp_ingestChan p = [] \<Longrightarrow> lp_ingestClosed p \<Longrightarrow>
   worker_inv (p\<lparr>lp_workers := (lp_workers p)[i := WDone]\<rparr>)"
  by (simp add: worker_inv_def list_all_update)

lemma worker_step:
  assumes "worker_inv p" and "lexec E a p = Some q"
  shows "worker_inv q"
proof (cases a)
  case (PwTake i)
  with assms show ?thesis by (auto elim!: pw_takeE intro!: worker_inv_update [OF assms(1), of i])
next
  case (PwSend i)
  with assms(2) have "pw_send i p = Some q" by simp
  then show ?thesis
  proof (cases rule: pw_sendE)
    case panic
    with assms(1) show ?thesis by (simp add: worker_inv_def)
  next
    case sent
    with assms(1) show ?thesis by (auto intro!: worker_inv_update [OF assms(1), of i])
  qed
next
  case (PwRelease i)
  with assms show ?thesis by (auto elim!: pw_releaseE intro!: worker_inv_update [OF assms(1), of i WIdle])
next
  case (PwExit i)
  with assms show ?thesis by (auto elim!: pw_exitE intro: worker_exit_inv)
qed (use assms in \<open>auto elim!: lp_elims simp: lp_rest Let_def worker_inv_def split: if_splits option.splits\<close>)

lemma fanout_step: "fanout_inv p \<Longrightarrow> lexec E a p = Some q \<Longrightarrow> fanout_inv q"
  by (cases a) (auto elim!: lp_elims simp: lp_rest Let_def fanout_inv_def split: if_splits option.splits)

lemma tryFlush_frame [simp]:
  "lp_writerDone (tryFlush ok p) = lp_writerDone p" "lp_dropped (tryFlush ok p) = lp_dropped p"
  "lp_batchClosed (tryFlush ok p) = lp_batchClosed p" "lp_shutdown (tryFlush ok p) = lp_shutdown p"
  "lp_batchInputChan (tryFlush ok p) = lp_batchInputChan p"
  by (simp_all add: tryFlush_def)

lemma tryFlush_buf: "lp_buf (tryFlush ok p) = (if ok then [] else lp_buf p)"
  by (simp add: tryFlush_def)

lemma writer_step:
  assumes "writer_inv p" and "lexec E a p = Some q"
  shows "writer_inv q"
proof (cases "lp_writerDone p")
  case True
  with assms show ?thesis
    by (cases a) (auto elim!: lp_elims simp: lp_rest Let_def writer_inv_def split: if_splits option.splits)
next
  case False
  with assms(1) have "lp_dropped p = []" "lp_shutdown p \<noteq> Finished" "0 < batchSize"
    by (auto simp: writer_inv_def)
  with assms(2) False show ?thesis
    by (cases a) (auto elim!: lp_elims simp: ti_enter_def bw_full_def bw_timer_def bw_drain_def sd_gate_def
        sd_ingest_def sd_parsed_def sd_batch_def sd_finish_def tryFlush_buf Let_def writer_inv_def
        split: if_splits option.splits)
qed

text \<open>Each of the three sends meets an open channel.\<close>

lemma no_panic_step:
  assumes "closing_inv p" and "lexec E a p = Some q"
  shows "\<not> lp_panic q"
proof (cases a)
  case (TiSend i)
  with assms show ?thesis
    by (auto elim!: lp_elims simp: closing_inv_def caller_inv_def dest: not_all_returned phase_ingest)
next
  case (PwSend i)
  with assms show ?thesis
    by (auto elim!: lp_elims simp: closing_inv_def worker_inv_def dest: not_all_done)
next
  case FoSend
  with assms show ?thesis
    by (auto elim!: lp_elims simp: closing_inv_def fanout_inv_def)
qed (use assms in \<open>auto elim!: lp_elims simp: lp_rest Let_def closing_inv_def split: if_splits option.splits\<close>)

lemma closing_step: "closing_inv p \<Longrightarrow> lexec E a p = Some q \<Longrightarrow> closing_inv q"
  using no_panic_step [of p E a q]
  by (auto simp: closing_inv_def intro: phase_step caller_step worker_step fanout_step writer_step)

lemma closing_init: "closing_inv (NewPipeline n)"
  by (simp add: closing_inv_def phase_inv_def caller_inv_def worker_inv_def fanout_inv_def
      writer_inv_def NewPipeline_def batchSize_def)

lemma closing_reachable: "reachable (lexec E) (NewPipeline n) p \<Longrightarrow> closing_inv p"
  by (erule reachable_invariant) (auto intro: closing_init closing_step)

definition capacity_inv :: "Pipeline \<Rightarrow> bool" where
  "capacity_inv p \<longleftrightarrow> length (lp_ingestChan p) \<le> ingestChanSize
     \<and> length (lp_parsedChan p) \<le> parsedChanSize
     \<and> length (lp_batchInputChan p) \<le> batchInputChanSize
     \<and> length (lp_buf p) \<le> batchSize"

lemma capacity_step: "capacity_inv p \<Longrightarrow> lexec E a p = Some q \<Longrightarrow> capacity_inv q"
  by (cases a) (auto elim!: lp_elims simp: lp_rest Let_def capacity_inv_def split: if_splits option.splits)

lemma workers_step: "lexec E a p = Some q \<Longrightarrow> length (lp_workers q) = length (lp_workers p)"
  by (cases a) (auto elim!: lp_elims simp: lp_rest Let_def split: if_splits option.splits)

lemma capacity_reachable:
  "reachable (lexec E) (NewPipeline n) p \<Longrightarrow> capacity_inv p \<and> length (lp_workers p) = n"
proof (erule reachable_invariant)
  show "capacity_inv (NewPipeline n) \<and> length (lp_workers (NewPipeline n)) = n"
    by (simp add: NewPipeline_def capacity_inv_def)
qed (auto dest: capacity_step workers_step)

fun worker_logs :: "worker \<Rightarrow> StandardLog multiset" where
  "worker_logs (WSending ev ls) = mset ls"
| "worker_logs _ = {#}"

fun fanout_logs :: "fanout \<Rightarrow> StandardLog multiset" where
  "fanout_logs (FSending l) = {#l#}"
| "fanout_logs _ = {#}"

definition logs_of :: "go_env \<Rightarrow> ingestEvent list \<Rightarrow> StandardLog multiset" where
  "logs_of E evs = mset (concat (map (parsedEvent E) evs))"

text \<open>Where a log can be between its acceptance and the database.\<close>

definition in_transit :: "go_env \<Rightarrow> Pipeline \<Rightarrow> StandardLog multiset" where
  "in_transit E p = logs_of E (lp_ingestChan p) + sum_list (map worker_logs (lp_workers p))
     + mset (lp_parsedChan p) + fanout_logs (lp_fanout p) + mset (lp_batchInputChan p) + mset (lp_buf p)"

definition conserved :: "go_env \<Rightarrow> Pipeline \<Rightarrow> bool" where
  "conserved E p \<longleftrightarrow>
     logs_of E (lp_accepted p) = in_transit E p + mset (lp_db p) + mset (lp_dropped p)"

lemma logs_of_simps [simp]:
  "logs_of E [] = {#}"
  "logs_of E (ev # evs) = mset (parsedEvent E ev) + logs_of E evs"
  "logs_of E (evs @ evs') = logs_of E evs + logs_of E evs'"
  by (simp_all add: logs_of_def)

lemma logs_of_middle: "logs_of E (xs @ [ev] @ ys) = M \<Longrightarrow> mset (parsedEvent E ev) \<subseteq># M"
  by (auto simp: ac_simps)

lemma worker_logs_update:
  "i < length ws \<Longrightarrow> sum_list (map worker_logs (ws[i := w])) + worker_logs (ws ! i) =
     sum_list (map worker_logs ws) + worker_logs w"
  by (rule sum_mset_list_update)

lemma worker_logs_take:
  "i < length ws \<Longrightarrow> ws ! i = WIdle \<Longrightarrow>
   sum_list (map worker_logs (ws[i := WSending ev ls])) = mset ls + sum_list (map worker_logs ws)"
  using worker_logs_update [of i ws "WSending ev ls"] by simp

lemma worker_logs_send:
  assumes "i < length ws" and "ws ! i = WSending ev (l # ls)"
  shows "sum_list (map worker_logs ws) = add_mset l (sum_list (map worker_logs (ws[i := WSending ev ls])))"
proof -
  have "add_mset l (sum_list (map worker_logs (ws[i := WSending ev ls]))) + mset ls =
      sum_list (map worker_logs ws) + mset ls"
    using worker_logs_update [OF assms(1), of "WSending ev ls"] assms(2) by simp
  then show ?thesis by (simp only: add_right_cancel)
qed

lemma worker_logs_idle:
  "i < length ws \<Longrightarrow> worker_logs (ws ! i) = {#} \<Longrightarrow> worker_logs w = {#} \<Longrightarrow>
   sum_list (map worker_logs (ws[i := w])) = sum_list (map worker_logs ws)"
  using worker_logs_update [of i ws w] by simp

lemma conserved_step: "conserved E p \<Longrightarrow> lexec E a p = Some q \<Longrightarrow> conserved E q"
  by (cases a) (auto elim!: lp_elims simp: lp_rest Let_def conserved_def in_transit_def
      worker_logs_take worker_logs_send worker_logs_idle split: if_splits option.splits)

lemma conserved_reachable: "reachable (lexec E) (NewPipeline n) p \<Longrightarrow> conserved E p"
proof (erule reachable_invariant)
  show "conserved E (NewPipeline n)"
    by (induction n) (simp_all add: NewPipeline_def conserved_def in_transit_def)
qed (rule conserved_step)

section \<open>Draining\<close>

text \<open>The actions of a shutdown in which no database write fails.\<close>

fun drain_action :: "laction \<Rightarrow> bool" where
  "drain_action (PwTake i) = True"
| "drain_action (PwSend i) = True"
| "drain_action (PwRelease i) = True"
| "drain_action (PwExit i) = True"
| "drain_action FoTake = True"
| "drain_action FoSend = True"
| "drain_action FoExit = True"
| "drain_action (BwFull ok) = ok"
| "drain_action BwRecv = True"
| "drain_action (BwTimer ok) = ok"
| "drain_action (BwDrain ok) = ok"
| "drain_action SdIngest = True"
| "drain_action SdParsed = True"
| "drain_action SdBatch = True"
| "drain_action SdFinish = True"
| "drain_action _ = False"

fun worker_work :: "worker \<Rightarrow> nat" where
  "worker_work WIdle = 1"
| "worker_work (WSending ev ls) = 2 + 6 * length ls"
| "worker_work WDone = 0"

fun fanout_work :: "fanout \<Rightarrow> nat" where
  "fanout_work FIdle = 1"
| "fanout_work (FSending l) = 5"
| "fanout_work FDone = 0"

fun phase_work :: "sd_phase \<Rightarrow> nat" where
  "phase_work Running = 5"
| "phase_work GateClosed = 4"
| "phase_work IngestClosed = 3"
| "phase_work ParsedClosed = 2"
| "phase_work BatchClosed = 1"
| "phase_work Finished = 0"

definition event_work :: "go_env \<Rightarrow> ingestEvent \<Rightarrow> nat" where
  "event_work E ev = 2 + 6 * length (parsedEvent E ev)"

definition work_left :: "go_env \<Rightarrow> Pipeline \<Rightarrow> nat" where
  "work_left E p = phase_work (lp_shutdown p) + sum_list (map (event_work E) (lp_ingestChan p))
     + sum_list (map worker_work (lp_workers p)) + 5 * length (lp_parsedChan p) + fanout_work (lp_fanout p)
     + 3 * length (lp_batchInputChan p) + length (lp_buf p) + (if lp_armed p then 1 else 0)
     + (if lp_writerDone p then 0 else 1)"

lemma worker_work_update:
  "i < length ws \<Longrightarrow> sum_list (map worker_work (ws[i := w])) + worker_work (ws ! i) =
     sum_list (map worker_work ws) + worker_work w"
  by (rule sum_list_map_update)

lemma work_left_worker:
  assumes "lexec E a p = Some q" and "\<not> lp_panic q"
    and "a = PwTake i \<or> a = PwSend i \<or> a = PwRelease i \<or> a = PwExit i"
  shows "work_left E q < work_left E p"
  using assms(3)
proof (elim disjE)
  assume "a = PwTake i"
  with assms show ?thesis
    using worker_work_update [of i "lp_workers p" "WSending ev (parsedEvent E ev)" for ev]
    by (auto elim!: pw_takeE simp: work_left_def event_work_def)
next
  assume "a = PwSend i"
  with assms(1,2) obtain ev l ls where "i < length (lp_workers p)" "lp_workers p ! i = WSending ev (l # ls)"
    "q = p\<lparr>lp_parsedChan := lp_parsedChan p @ [l], lp_workers := (lp_workers p)[i := WSending ev ls]\<rparr>"
    by (auto elim!: pw_sendE)
  then show ?thesis using worker_work_update [of i "lp_workers p" "WSending ev ls"]
    by (simp add: work_left_def)
next
  assume "a = PwRelease i"
  with assms show ?thesis using worker_work_update [of i "lp_workers p" WIdle]
    by (auto elim!: pw_releaseE simp: work_left_def)
next
  assume "a = PwExit i"
  with assms show ?thesis using worker_work_update [of i "lp_workers p" WDone]
    by (auto elim!: pw_exitE simp: work_left_def)
qed

lemma work_left_decreases:
  assumes "lexec E a p = Some q" and "\<not> lp_panic q" and "drain_action a"
  shows "work_left E q < work_left E p"
  using assms work_left_worker [OF assms(1,2)]
  by (cases a) (auto elim!: lp_elims simp: lp_rest Let_def work_left_def batchSize_def
      split: if_splits)

lemma writer_progress:
  assumes "writer_inv p" and "lp_batchInputChan p \<noteq> []"
  shows "\<exists>a. drain_action a \<and> lexec E a p \<noteq> None"
proof (cases "length (lp_buf p) \<ge> batchSize")
  case True
  with assms have "lexec E (BwFull True) p \<noteq> None" by (auto simp: bw_full_def writer_inv_def)
  then show ?thesis by (intro exI [of _ "BwFull True"]) simp
next
  case False
  with assms have "lexec E BwRecv p \<noteq> None" by (auto simp: bw_recv_def writer_inv_def split: list.splits)
  then show ?thesis by (intro exI [of _ BwRecv]) simp
qed

lemma fanout_progress:
  assumes "closing_inv p" and "lp_parsedChan p \<noteq> [] \<or> (\<exists>l. lp_fanout p = FSending l)"
  shows "\<exists>a. drain_action a \<and> lexec E a p \<noteq> None"
proof (cases "lp_fanout p")
  case FIdle
  with assms have "lexec E FoTake p \<noteq> None" by (auto simp: fo_take_def split: list.splits)
  then show ?thesis by (intro exI [of _ FoTake]) simp
next
  case (FSending l)
  show ?thesis
  proof (cases "lp_batchInputChan p = []")
    case True
    with FSending have "lexec E FoSend p \<noteq> None" by (simp add: fo_send_def batchInputChanSize_def)
    then show ?thesis by (intro exI [of _ FoSend]) simp
  next
    case False
    with assms(1) show ?thesis unfolding closing_inv_def by (blast intro: writer_progress)
  qed
next
  case FDone
  with assms show ?thesis by (auto simp: closing_inv_def fanout_inv_def)
qed

lemma worker_progress:
  assumes "closing_inv p" and "lp_ingestClosed p" and "i < length (lp_workers p)" and "lp_workers p ! i \<noteq> WDone"
  shows "\<exists>a. drain_action a \<and> lexec E a p \<noteq> None"
proof (cases "lp_workers p ! i")
  case WIdle
  show ?thesis
  proof (cases "lp_ingestChan p")
    case Nil
    with WIdle assms have "lexec E (PwExit i) p \<noteq> None" by (simp add: pw_exit_def nth_opt_def)
    then show ?thesis by (intro exI [of _ "PwExit i"]) simp
  next
    case (Cons ev evs)
    with WIdle assms have "lexec E (PwTake i) p \<noteq> None" by (simp add: pw_take_def nth_opt_def)
    then show ?thesis by (intro exI [of _ "PwTake i"]) simp
  qed
next
  case (WSending ev ls)
  consider "ls = []" | "ls \<noteq> []" "lp_parsedChan p = []" | "lp_parsedChan p \<noteq> []" by blast
  then show ?thesis
  proof cases
    case 1
    with WSending assms have "lexec E (PwRelease i) p \<noteq> None" by (simp add: pw_release_def nth_opt_def)
    then show ?thesis by (intro exI [of _ "PwRelease i"]) simp
  next
    case 2
    with WSending assms have "lexec E (PwSend i) p \<noteq> None"
      by (auto simp: pw_send_def nth_opt_def parsedChanSize_def neq_Nil_conv)
    then show ?thesis by (intro exI [of _ "PwSend i"]) simp
  next
    case 3
    with assms(1) show ?thesis by (blast intro: fanout_progress)
  qed
qed (use assms in simp)

lemma drain_progress:
  assumes "closing_inv p" and "lp_closed p" and "lp_shutdown p \<noteq> Finished"
  shows "\<exists>a. drain_action a \<and> lexec E a p \<noteq> None"
proof (cases "lp_shutdown p")
  case Running
  with assms show ?thesis by (auto simp: closing_inv_def phase_inv_def)
next
  case GateClosed
  then have "lexec E SdIngest p \<noteq> None" by (simp add: sd_ingest_def)
  then show ?thesis by (intro exI [of _ SdIngest]) simp
next
  case IngestClosed
  show ?thesis
  proof (cases "list_all (\<lambda>w. w = WDone) (lp_workers p)")
    case True
    with IngestClosed have "lexec E SdParsed p \<noteq> None" by (simp add: sd_parsed_def)
    then show ?thesis by (intro exI [of _ SdParsed]) simp
  next
    case False
    then obtain i where "i < length (lp_workers p)" "lp_workers p ! i \<noteq> WDone" by (auto simp: list_all_length)
    moreover have "lp_ingestClosed p" using IngestClosed assms(1) by (auto simp: closing_inv_def phase_inv_def)
    ultimately show ?thesis using assms(1) by (blast intro: worker_progress)
  qed
next
  case ParsedClosed
  consider "lp_fanout p = FDone" | "lp_fanout p = FIdle" "lp_parsedChan p = []"
    | "lp_parsedChan p \<noteq> [] \<or> (\<exists>l. lp_fanout p = FSending l)" by (cases "lp_fanout p") auto
  then show ?thesis
  proof cases
    case 1
    with ParsedClosed have "lexec E SdBatch p \<noteq> None" by (simp add: sd_batch_def)
    then show ?thesis by (intro exI [of _ SdBatch]) simp
  next
    case 2
    with ParsedClosed assms have "lexec E FoExit p \<noteq> None"
      by (auto simp: fo_exit_def closing_inv_def phase_inv_def)
    then show ?thesis by (intro exI [of _ FoExit]) simp
  next
    case 3
    with assms(1) show ?thesis by (blast intro: fanout_progress)
  qed
next
  case BatchClosed
  then have c: "lp_batchClosed p" using assms(1) by (auto simp: closing_inv_def phase_inv_def)
  consider "lp_writerDone p" | "lp_batchInputChan p \<noteq> []"
    | "\<not> lp_writerDone p" "lp_batchInputChan p = []" by blast
  then show ?thesis
  proof cases
    case 1
    with BatchClosed have "lexec E SdFinish p \<noteq> None" by (simp add: sd_finish_def)
    then show ?thesis by (intro exI [of _ SdFinish]) simp
  next
    case 2
    with assms(1) show ?thesis unfolding closing_inv_def by (blast intro: writer_progress)
  next
    case 3
    then have "lexec E (BwFull True) p \<noteq> None \<or> lexec E (BwDrain True) p \<noteq> None"
      using c by (simp add: bw_full_def bw_drain_def Let_def)
    then show ?thesis
      by (elim disjE) (intro exI [of _ "BwFull True"], simp, intro exI [of _ "BwDrain True"], simp)
  qed
qed (use assms in simp)

lemma drain_frame:
  assumes "lexec E a p = Some q" and "drain_action a" and "lp_closed p"
  shows "lp_accepted q = lp_accepted p \<and> lp_dropped q = lp_dropped p \<and> lp_closed q"
  using assms by (cases a) (auto elim!: lp_elims simp: lp_rest Let_def split: if_splits)

lemma drain_completes:
  assumes "closing_inv p" and "lp_closed p"
  shows "\<exists>as q. list_all drain_action as \<and> run (lexec E) as p = Some q \<and> lp_shutdown q = Finished
    \<and> lp_accepted q = lp_accepted p \<and> lp_dropped q = lp_dropped p"
  using assms
proof (induction "work_left E p" arbitrary: p rule: less_induct)
  case less
  show ?case
  proof (cases "lp_shutdown p = Finished")
    case True
    then show ?thesis by (intro exI [of _ "[]"]) simp
  next
    case False
    with less.prems obtain a r where a: "drain_action a" "lexec E a p = Some r"
      using drain_progress [of p E] by auto
    have inv: "closing_inv r" using less.prems(1) a(2) by (rule closing_step)
    then have "work_left E r < work_left E p"
      using work_left_decreases [OF a(2) _ a(1)] by (simp add: closing_inv_def)
    moreover note fr = drain_frame [OF a(2,1) less.prems(2)]
    ultimately obtain as q where "list_all drain_action as" "run (lexec E) as r = Some q"
      "lp_shutdown q = Finished" "lp_accepted q = lp_accepted r" "lp_dropped q = lp_dropped r"
      using less.hyps [of r] inv by blast
    with a fr show ?thesis by (intro exI [of _ "a # as"]) simp
  qed
qed

lemma finished_empty:
  assumes "closing_inv p" and "lp_shutdown p = Finished" and "0 < length (lp_workers p)"
  shows "in_transit E p = {#} \<and> held_bytes p = 0 \<and> rolling_bytes p = 0"
proof -
  note inv = assms(1) [unfolded closing_inv_def]
  from inv assms(2) have fl: "lp_closed p" "lp_ingestClosed p" "lp_parsedClosed p" "lp_batchClosed p"
    by (auto simp: phase_inv_def)
  with inv have dn: "list_all (\<lambda>w. w = WDone) (lp_workers p)" by (auto simp: worker_inv_def)
  with assms(3) have "WDone \<in> set (lp_workers p)" by (cases "lp_workers p") auto
  with inv have q: "lp_ingestChan p = []" by (auto simp: worker_inv_def)
  have zero: "sum_list (map worker_weight ws) = 0" "sum_list (map worker_logs ws) = {#}"
    if "list_all (\<lambda>w. w = WDone) ws" for ws using that by (induction ws) auto
  have ret: "reserved_sum ev_weight cs = 0" "rolling_sum ev_weight cs = 0" if "list_all returned cs" for cs
    using that by (induction cs) (auto simp: reserved_sum_def rolling_sum_def elim: returned.elims)
  from inv fl have "list_all returned (lp_callers p)" by (auto simp: caller_inv_def)
  moreover from inv fl assms(2) have "lp_fanout p = FDone" "lp_parsedChan p = []"
    "lp_batchInputChan p = []" "lp_buf p = []"
    by (auto simp: fanout_inv_def writer_inv_def)
  ultimately show ?thesis using q zero [OF dn] ret by (simp add: in_transit_def held_defs)
qed

section \<open>Properties\<close>

text \<open>The uninterrupted call is the sequence of its atomic actions.\<close>

lemma TryIngest_actions:
  fixes p :: Pipeline
  defines "i \<equiv> length (lp_callers p)"
  assumes "ev = \<lparr>ie_service = sv, ie_host = h, ie_payload = pl, ie_receivedAt = t\<rparr>"
    and "TryIngest sv h pl t p = (b, q)" and "lp_ingestClosed p \<longrightarrow> lp_closed p"
  shows "\<exists>as r. run (lexec E) (TiEnter ev # as) p = Some r \<and> set as \<subseteq> {TiAdd i, TiRollback i, TiSend i}
    \<and> lp_callers r = lp_callers p @ [Returned b] \<and> lp_bufferedBytes r = lp_bufferedBytes q
    \<and> lp_ingestChan r = lp_ingestChan q \<and> lp_accepted r = lp_accepted p @ (if b then [ev] else [])"
proof -
  have w: "ev_weight ev = length pl" using assms(2) by (simp add: ev_weight_def)
  consider (closed) "lp_closed p"
    | (over) "\<not> lp_closed p" "lp_bufferedBytes p + int (length pl) > maxBufferedBytes"
    | (full) "\<not> lp_closed p" "lp_bufferedBytes p + int (length pl) \<le> maxBufferedBytes"
        "\<not> length (lp_ingestChan p) < ingestChanSize"
    | (sent) "\<not> lp_closed p" "lp_bufferedBytes p + int (length pl) \<le> maxBufferedBytes"
        "length (lp_ingestChan p) < ingestChanSize" by linarith
  then show ?thesis
  proof cases
    case closed
    with assms show ?thesis
      by (intro exI [of _ "[]"]) (auto simp: TryIngest_def ti_enter_def)
  next
    case over
    with assms w show ?thesis
      by (intro exI [of _ "[TiAdd i, TiRollback i]"])
        (auto simp: TryIngest_def Let_def ti_enter_def ti_add_def ti_rollback_def nth_opt_def)
  next
    case full
    with assms w show ?thesis
      by (intro exI [of _ "[TiAdd i, TiSend i, TiRollback i]"])
        (auto simp: TryIngest_def Let_def ti_enter_def ti_add_def ti_rollback_def ti_send_def nth_opt_def)
  next
    case sent
    with assms w show ?thesis
      by (intro exI [of _ "[TiAdd i, TiSend i]"])
        (auto simp: TryIngest_def Let_def ti_enter_def ti_add_def ti_send_def nth_opt_def)
  qed
qed

lemma accepted_step: "lexec E a p = Some q \<Longrightarrow> prefix (lp_accepted p) (lp_accepted q)"
  by (cases a) (auto simp: lp_rest Let_def elim!: lp_elims split: if_splits option.splits)

lemma accepted_mono: "reachable (lexec E) p q \<Longrightarrow> prefix (lp_accepted p) (lp_accepted q)"
  by (erule reachable_invariant) (auto dest: accepted_step intro: prefix_order.trans)

lemma finished_stored:
  assumes "reachable (lexec E) (NewPipeline n) p" and "0 < n" and "lp_shutdown p = Finished"
  shows "logs_of E (lp_accepted p) = mset (lp_db p) + mset (lp_dropped p)"
proof -
  have n: "0 < length (lp_workers p)" using capacity_reachable [OF assms(1)] assms(2) by simp
  have "in_transit E p = {#}" using finished_empty [OF closing_reachable [OF assms(1)] assms(3) n] by auto
  then show ?thesis using conserved_reachable [OF assms(1)] by (simp add: conserved_def)
qed

text \<open>
  C6: the byte budget holds under every interleaving. Concurrent handlers may push the atomic
  counter past the limit for a moment, but what the pipeline really holds never exceeds
  \<open>maxBufferedBytes\<close>, the counter is never negative, and its excess is exactly what the
  rejected callers are about to give back.
\<close>

theorem log_budget_safe:
  assumes "reachable (lexec E) (NewPipeline n) p"
  shows "int (held_bytes p) \<le> maxBufferedBytes \<and> 0 \<le> lp_bufferedBytes p
    \<and> lp_bufferedBytes p = int (held_bytes p) + int (rolling_bytes p)"
  using log_budget.budget_safe [OF assms] log_budget.counter_exact [OF assms] by simp

definition ev_sample :: ingestEvent where
  "ev_sample = \<lparr>ie_service = ''api'', ie_host = ''h'', ie_payload = ''x'', ie_receivedAt = 5\<rparr>"

text \<open>A sample run: one event is admitted and queued.\<close>

definition lp_sample :: Pipeline where
  "lp_sample = (NewPipeline 1)\<lparr>lp_callers := [Returned True], lp_bufferedBytes := 1,
     lp_ingestChan := [ev_sample], lp_accepted := [ev_sample]\<rparr>"

lemma lp_sample_reachable: "reachable (lexec bare_env) (NewPipeline 1) lp_sample"
proof -
  have "run (lexec bare_env) [TiEnter ev_sample, TiAdd 0, TiSend 0] (NewPipeline 1) = Some lp_sample"
    by (simp add: ti_enter_def ti_add_def ti_send_def nth_opt_def NewPipeline_def ev_weight_def
        ev_sample_def lp_sample_def maxBufferedBytes_def ingestChanSize_def)
  then show ?thesis by (rule run_reachable [OF reach_init])
qed

lemma lp_sample_closed:
  "reachable (lexec bare_env) (NewPipeline 1) (lp_sample\<lparr>lp_closed := True, lp_shutdown := GateClosed\<rparr>)"
proof -
  have "lexec bare_env SdGate lp_sample = Some (lp_sample\<lparr>lp_closed := True, lp_shutdown := GateClosed\<rparr>)"
    by (simp add: sd_gate_def lp_sample_def NewPipeline_def)
  with lp_sample_reachable show ?thesis by (rule reach_step)
qed

theorem log_budget_safe_witness:
  "int (held_bytes lp_sample) \<le> maxBufferedBytes \<and> lp_bufferedBytes lp_sample = 1"
  using log_budget_safe [OF lp_sample_reachable] by (simp add: lp_sample_def)

text \<open>
  C4: no log is lost or duplicated. In every reachable state each log of each accepted payload
  is in exactly one place: queued, with a worker, between two stages, in the write buffer,
  in the database, or among the rows given up at shutdown.
\<close>

theorem log_conservation:
  assumes "reachable (lexec E) (NewPipeline n) p"
  shows "logs_of E (lp_accepted p) = in_transit E p + mset (lp_db p) + mset (lp_dropped p)"
  using conserved_reachable [OF assms] by (simp add: conserved_def)

theorem log_conservation_witness:
  "logs_of bare_env (lp_accepted lp_sample) =
     in_transit bare_env lp_sample + mset (lp_db lp_sample) + mset (lp_dropped lp_sample)"
  using log_conservation [OF lp_sample_reachable] .

text \<open>
  A finished shutdown has stored everything. When \<open>Shutdown\<close> returns, every log of every
  payload that was answered with success is in the database, except the at most one unwritten
  batch of a failing last flush; the byte counter is back to zero.
\<close>

theorem shutdown_drains:
  assumes "reachable (lexec E) (NewPipeline n) p" and "0 < n" and "lp_shutdown p = Finished"
  shows "logs_of E (lp_accepted p) = mset (lp_db p) + mset (lp_dropped p)
    \<and> length (lp_dropped p) < batchSize \<and> lp_bufferedBytes p = 0"
proof -
  have n: "0 < length (lp_workers p)" using capacity_reachable [OF assms(1)] assms(2) by simp
  note inv = closing_reachable [OF assms(1)]
  have "held_bytes p = 0" "rolling_bytes p = 0"
    using finished_empty [OF inv assms(3) n] by auto
  then show ?thesis
    using finished_stored [OF assms] log_budget.counter_exact [OF assms(1)] inv
    by (simp add: closing_inv_def writer_inv_def)
qed

theorem shutdown_drains_witness:
  "\<exists>p :: Pipeline. lp_shutdown p = Finished \<and> lp_accepted p = [ev_sample]
    \<and> logs_of bare_env [ev_sample] = mset (lp_db p) + mset (lp_dropped p)"
proof -
  note r = lp_sample_closed
  from drain_completes [OF closing_reachable [OF r], of bare_env] obtain as q
    where "run (lexec bare_env) as (lp_sample\<lparr>lp_closed := True, lp_shutdown := GateClosed\<rparr>) = Some q"
      and q: "lp_shutdown q = Finished" "lp_accepted q = [ev_sample]"
    by (auto simp: lp_sample_def)
  then have "reachable (lexec bare_env) (NewPipeline 1) q" using r by (blast intro: run_reachable)
  with q show ?thesis using shutdown_drains [of bare_env 1 q] by - (rule exI [of _ q], auto)
qed

text \<open>
  The pipeline never panics and never grows without bound: no goroutine sends on a closed
  channel, in any interleaving with \<open>Shutdown\<close>, and every channel and the write buffer stay
  within their capacities.
\<close>

theorem no_send_on_closed:
  assumes "reachable (lexec E) (NewPipeline n) p"
  shows "\<not> lp_panic p \<and> length (lp_ingestChan p) \<le> ingestChanSize
    \<and> length (lp_parsedChan p) \<le> parsedChanSize \<and> length (lp_batchInputChan p) \<le> batchInputChanSize
    \<and> length (lp_buf p) \<le> batchSize"
  using closing_reachable [OF assms] capacity_reachable [OF assms]
  by (simp add: closing_inv_def capacity_inv_def)

theorem no_send_on_closed_witness: "\<not> lp_panic lp_sample \<and> length (lp_ingestChan lp_sample) \<le> ingestChanSize"
  using no_send_on_closed [OF lp_sample_reachable] by simp

text \<open>
  C5: shutdown always can finish, and cannot run forever. Once the gate is closed, as long as
  database writes succeed some goroutine can move until \<open>Shutdown\<close> returns, every move
  makes the remaining work smaller, and the run ends with all accepted logs stored or already
  given up before.
\<close>

theorem shutdown_terminates:
  assumes "reachable (lexec E) (NewPipeline n) p" and "0 < n" and "lp_closed p"
  shows "(\<exists>as q. list_all drain_action as \<and> run (lexec E) as p = Some q \<and> lp_shutdown q = Finished
      \<and> logs_of E (lp_accepted p) = mset (lp_db q) + mset (lp_dropped p))
    \<and> (\<forall>a q. lexec E a p = Some q \<and> drain_action a \<longrightarrow> work_left E q < work_left E p)"
proof -
  note inv = closing_reachable [OF assms(1)]
  obtain as q where q: "list_all drain_action as" "run (lexec E) as p = Some q" "lp_shutdown q = Finished"
    "lp_accepted q = lp_accepted p" "lp_dropped q = lp_dropped p"
    using drain_completes [OF inv assms(3), of E] by blast
  have "reachable (lexec E) (NewPipeline n) q" using assms(1) q(2) by (rule run_reachable)
  then have c: "conserved E q" "closing_inv q" "length (lp_workers q) = n"
    using conserved_reachable closing_reachable capacity_reachable by blast+
  have "in_transit E q = {#}" using finished_empty [OF c(2) q(3)] c(3) assms(2) by simp
  then have "logs_of E (lp_accepted p) = mset (lp_db q) + mset (lp_dropped p)"
    using c(1) q by (simp add: conserved_def)
  moreover have "work_left E r < work_left E p" if "lexec E a p = Some r" "drain_action a" for a r
    using work_left_decreases [OF that(1) _ that(2)] closing_step [OF inv that(1)]
    by (simp add: closing_inv_def)
  ultimately show ?thesis using q by blast
qed

theorem shutdown_terminates_witness:
  "\<exists>as q. list_all drain_action as
     \<and> run (lexec bare_env) as (lp_sample\<lparr>lp_closed := True, lp_shutdown := GateClosed\<rparr>) = Some q
     \<and> lp_shutdown q = Finished \<and> logs_of bare_env [ev_sample] = mset (lp_db q)"
  using shutdown_terminates [OF lp_sample_closed] by (simp add: lp_sample_def NewPipeline_def)

section \<open>The insert statement\<close>

text \<open>\<open>flushBatch\<close> builds one multi-row statement and its argument list.\<close>

definition insertPrefix :: string where
  "insertPrefix = ''INSERT INTO logs(timestamp,ingested_at,level,service,host,message,parsed,raw) VALUES ''"

definition flushBatch :: "StandardLog list \<Rightarrow> string \<times> sql_arg list" where
  "flushBatch buf =
     (insertPrefix @ TrimSuffix (concat (replicate (length buf) ''(?,?,?,?,?,?,?,?),'')) '','',
      concat (map (\<lambda>l. [AInt (sl_Timestamp l), AInt (sl_IngestedAt l),
         (case sl_Level l of None \<Rightarrow> ANull | Some n \<Rightarrow> AInt n), AText (sl_Service l), AText (sl_Host l),
         (case sl_Message l of None \<Rightarrow> ANull | Some m \<Rightarrow> AText m),
         (case sl_Parsed l of None \<Rightarrow> ANull | Some m \<Rightarrow> AText m), AText (sl_Raw l)]) buf))"

text \<open>
  The statement of a flush has exactly one placeholder for each argument, eight per row, and
  a full buffer stays far below SQLite's limit of 32766 variables.
\<close>

theorem flush_placeholders:
  "placeholders (fst (flushBatch buf)) = length (snd (flushBatch buf))
   \<and> length (snd (flushBatch buf)) = 8 * length buf
   \<and> (length buf > batchSize \<or> length (snd (flushBatch buf)) \<le> 32766)"
proof -
  have "length (snd (flushBatch buf)) = 8 * length buf"
    unfolding flushBatch_def snd_conv by (rule length_concat_const) simp
  moreover have "placeholders (fst (flushBatch buf)) = 8 * length buf"
    by (simp add: flushBatch_def placeholders_TrimSuffix placeholders_repeat)
      (simp add: placeholders_def insertPrefix_def)
  ultimately show ?thesis by (auto simp: batchSize_def)
qed

end
