(* ===== verification/Api_Server.thy ===== *)
theory Api_Server
  imports Query_Api Otlp Log_Pipeline
begin

text \<open>
  The HTTP API as a whole: the route table and the handlers of \<open>api/router.go\<close>, the OTLP handler of
  \<open>api/otlp.go\<close> and the health check of \<open>services/monitoring.go\<close>, over the state they share: the
  throttling table, the API keys and the two ingestion pipelines. The matching of a request against
  the table is chi's, hence the parameter \<open>se_match\<close>; \<open>match_ok\<close> is what its documentation
  promises. A call into a pipeline is atomic here; what happens when calls and the pipelines'
  goroutines interleave is the subject of the pipelines' own theories.
\<close>

datatype route = RHealthcheck | RMetrics | RQueryLogs | RQueryMetrics | RQueryCatalog | RIngest | ROtlp

datatype matched = Matched route "string \<Rightarrow> string" | NotFound | MethodNotAllowed

type_synonym route_table = "(string \<times> string \<times> route) list"

record server_env =
  se_config :: api_config
  se_query :: query_env
  se_otlp :: otlp_env
  se_metricsSecret :: string
  se_querySecret :: string
  se_match :: "route_table \<Rightarrow> string \<Rightarrow> string \<Rightarrow> matched"
  se_protojson :: "bytes \<Rightarrow> ResourceMetrics list option"
  se_proto :: "bytes \<Rightarrow> ResourceMetrics list option"
  se_logsRead :: "string \<Rightarrow> row_source"
  se_metricsRead :: "string \<Rightarrow> row_source"
  se_catalogRows :: catalog_source
  se_promPage :: bytes
  se_ping :: "string \<Rightarrow> bool"

record server = auth_state +
  sv_logs :: Pipeline
  sv_metrics :: MPipeline

definition maxIngestPayloadBytes :: nat where "maxIngestPayloadBytes = 2 * 2 ^ 20"

section \<open>Handlers\<close>

definition IsHealthy :: "server_env \<Rightarrow> bool" where
  "IsHealthy E = list_all (se_ping E) [''logs-read'', ''logs-write'', ''metrics'', ''meta'']"

definition healthcheck :: "server_env \<Rightarrow> api_response" where
  "healthcheck E = (if IsHealthy E then sendNoContentEmptyResponse else sendErrorResponse (se_query E) 503 ''service_unhealthy'')"

definition readErrorResponse :: "server_env \<Rightarrow> read_error \<Rightarrow> api_response" where
  "readErrorResponse E e =
     (case e of TooLarge \<Rightarrow> sendErrorResponse (se_query E) 413 ''payload_too_large''
      | Unreadable \<Rightarrow> sendErrorResponse (se_query E) 400 ''bad_request'')"

definition ingestLogs :: "server_env \<Rightarrow> (string \<Rightarrow> string) \<Rightarrow> api_request \<Rightarrow> server \<Rightarrow> api_response \<times> server" where
  "ingestLogs E param req s =
     (let service = param ''service''; host = param ''host''
      in if length service > 200 \<or> length host > 200 then (sendErrorResponse (se_query E) 400 ''bad_request'', s)
         else case readAll maxIngestPayloadBytes (rq_body req) of
           Inl e \<Rightarrow> (readErrorResponse E e, s)
         | Inr payload \<Rightarrow>
             if length (TrimSpace payload) = 0 then (sendErrorResponse (se_query E) 400 ''empty_payload'', s)
             else (case TryIngest service host payload (rq_handledAt req) (sv_logs s) of (ok, p) \<Rightarrow>
                     if \<not> ok then (sendErrorResponse (se_query E) 429 ''too_many_requests'', s\<lparr>sv_logs := p\<rparr>)
                     else (sendNoContentEmptyResponse, s\<lparr>sv_logs := p\<rparr>)))"

definition otlpMetrics :: "server_env \<Rightarrow> api_request \<Rightarrow> server \<Rightarrow> api_response \<times> server" where
  "otlpMetrics E req s =
     (let ct = HeaderGet ''Content-Type'' req; isProto = HasPrefix ct ''application/x-protobuf''; isJSON = HasPrefix ct ''application/json''
      in if \<not> isProto \<and> \<not> isJSON then (sendErrorResponse (se_query E) 415 ''bad_request'', s)
         else case readAll maxIngestPayloadBytes (rq_body req) of
           Inl e \<Rightarrow> (readErrorResponse E e, s)
         | Inr payload \<Rightarrow>
             (case (if isProto then se_proto E payload else se_protojson E payload) of
                None \<Rightarrow> (sendErrorResponse (se_query E) 400 ''bad_request'', s)
              | Some exportReq \<Rightarrow>
                  let rows = otlpToRows (se_otlp E) exportReq (rq_handledAt req)
                  in if length rows > maxOTLPRowsPerRequest then (sendErrorResponse (se_query E) 413 ''payload_too_large'', s)
                     else (case TryPush rows (sv_metrics s) of (ok, p) \<Rightarrow>
                             if \<not> ok then (sendErrorResponse (se_query E) 429 ''too_many_requests'', s\<lparr>sv_metrics := p\<rparr>)
                             else if isProto then (\<lparr>rp_code = 200, rp_headers = [(''Content-Type'', ''application/x-protobuf'')], rp_body = []\<rparr>, s\<lparr>sv_metrics := p\<rparr>)
                             else (\<lparr>rp_code = 200, rp_headers = [(''Content-Type'', ''application/json'')], rp_body = ''{}''\<rparr>, s\<lparr>sv_metrics := p\<rparr>))))"

section \<open>Routes\<close>

definition routes :: "server_env \<Rightarrow> route_table" where
  "routes E =
     [(''GET'', ''/healthcheck'', RHealthcheck)]
     @ (if se_metricsSecret E \<noteq> [] then [(''GET'', ''/metrics'', RMetrics)] else [])
     @ (if se_querySecret E \<noteq> []
        then [(''POST'', ''/api/v1/query/logs'', RQueryLogs), (''POST'', ''/api/v1/query/metrics'', RQueryMetrics), (''GET'', ''/api/v1/query/catalog'', RQueryCatalog)]
        else [])
     @ [(''POST'', ''/api/v1/ingest/{service}/{host}'', RIngest), (''POST'', ''/api/v1/otlp/v1/metrics'', ROtlp)]"

fun endpoint :: "server_env \<Rightarrow> route \<Rightarrow> (string \<Rightarrow> string) \<Rightarrow> api_request \<Rightarrow> server \<Rightarrow> api_response \<times> server" where
  "endpoint E RHealthcheck param req s = (healthcheck E, s)"
| "endpoint E RMetrics param req s = (\<lparr>rp_code = 200, rp_headers = [], rp_body = se_promPage E\<rparr>, s)"
| "endpoint E RQueryLogs param req s = (queryLogs (se_query E) (se_logsRead E) req, s)"
| "endpoint E RQueryMetrics param req s = (queryMetrics (se_query E) (se_metricsRead E) req, s)"
| "endpoint E RQueryCatalog param req s = (queryCatalog (se_query E) (se_catalogRows E), s)"
| "endpoint E RIngest param req s = ingestLogs E param req s"
| "endpoint E ROtlp param req s = otlpMetrics E req s"

fun guarded :: "server_env \<Rightarrow> route \<Rightarrow> (string \<Rightarrow> string) \<Rightarrow> api_request \<Rightarrow> server \<Rightarrow> api_response \<times> server" where
  "guarded E RHealthcheck param req s = endpoint E RHealthcheck param req s"
| "guarded E RMetrics param req s = secretAuth (se_config E) (se_metricsSecret E) (endpoint E RMetrics param req) req s"
| "guarded E RQueryLogs param req s = secretAuth (se_config E) (se_querySecret E) (endpoint E RQueryLogs param req) req s"
| "guarded E RQueryMetrics param req s = secretAuth (se_config E) (se_querySecret E) (endpoint E RQueryMetrics param req) req s"
| "guarded E RQueryCatalog param req s = secretAuth (se_config E) (se_querySecret E) (endpoint E RQueryCatalog param req) req s"
| "guarded E RIngest param req s = apiKeyTokenAuth (se_config E) (endpoint E RIngest param req) req s"
| "guarded E ROtlp param req s = apiKeyTokenAuth (se_config E) (endpoint E ROtlp param req) req s"

definition matchOf :: "server_env \<Rightarrow> api_request \<Rightarrow> matched" where
  "matchOf E req = se_match E (routes E) (rq_method req) (rq_path req)"

definition serve :: "server_env \<Rightarrow> api_request \<Rightarrow> server \<Rightarrow> api_response \<times> server" where
  "serve E req s = securityHeaders (se_config E)
     (\<lambda>s. case matchOf E req of
        NotFound \<Rightarrow> (sendErrorResponse (se_query E) 404 ''not_found'', s)
      | MethodNotAllowed \<Rightarrow> (sendErrorResponse (se_query E) 405 ''not_found'', s)
      | Matched r param \<Rightarrow> guarded E r param req s) s"

text \<open>chi only answers with a route of the table, registered for the request's method.\<close>

definition match_ok :: "server_env \<Rightarrow> bool" where
  "match_ok E \<longleftrightarrow> (\<forall>table method path r param. se_match E table method path = Matched r param \<longrightarrow> (\<exists>pat. (method, pat, r) \<in> set table))"

section \<open>The credentials of a request\<close>

definition clientOf :: "server_env \<Rightarrow> api_request \<Rightarrow> string" where
  "clientOf E req = ClientIP (ca_parseIP (se_config E)) req (ca_trustProxy (se_config E))"

fun credentials :: "server_env \<Rightarrow> route \<Rightarrow> api_request \<Rightarrow> server \<Rightarrow> bool \<times> server" where
  "credentials E RHealthcheck req s = (True, s)"
| "credentials E RMetrics req s = secretCheck (se_config E) (se_metricsSecret E) req s"
| "credentials E RIngest req s = keyCheck (se_config E) req s"
| "credentials E ROtlp req s = keyCheck (se_config E) req s"
| "credentials E _ req s = secretCheck (se_config E) (se_querySecret E) req s"

lemma guarded_throttled:
  "r \<noteq> RHealthcheck \<Longrightarrow> guarded E r param req s = throttled (se_config E) (credentials E r req) (endpoint E r param req) req s"
  by (cases r) (simp_all add: apiKeyTokenAuth_def secretAuth_def throttled_def Let_def)

lemma credentials_state: "credentials E r req s = (ok, s1) \<Longrightarrow> \<exists>ks. s1 = s\<lparr>au_keys := ks\<rparr>"
proof -
  have "\<exists>ks. s = s\<lparr>au_keys := ks\<rparr>" by (metis auth_state.surjective auth_state.update_convs(2))
  then show "credentials E r req s = (ok, s1) \<Longrightarrow> \<exists>ks. s1 = s\<lparr>au_keys := ks\<rparr>"
    by (cases r) (auto simp: secretCheck_def dest: keyCheck_state)
qed

lemma serve_guarded:
  assumes "matchOf E req = Matched r param" and "serve E req s = (p, s')"
  shows "\<exists>q. guarded E r param req s = (q, s') \<and> rp_code p = rp_code q \<and> rp_body p = rp_body q"
  using assms by (auto simp: serve_def securityHeaders_def split: prod.splits)

section \<open>Nothing happens without credentials\<close>

text \<open>
  C25: no request gets past the gate without credentials. Whatever its method, path, headers and
  body, a request that matches no route is answered 404 or 405 and changes nothing; one that
  matches a route other than the health check, from a locked address or without that route's
  own secret or a verified API key, is answered 429 or 401 with a fixed body, and neither pipeline
  changes. The surfaces with a secret do not exist while the secret is empty.
\<close>

theorem api_guarded:
  assumes "match_ok E" and "serve E req s = (p, s')"
  shows "case matchOf E req of
      NotFound \<Rightarrow> rp_code p \<in> {404, 500} \<and> s' = s
    | MethodNotAllowed \<Rightarrow> rp_code p \<in> {405, 500} \<and> s' = s
    | Matched r param \<Rightarrow>
        (r = RMetrics \<longrightarrow> se_metricsSecret E \<noteq> []) \<and> (r \<in> {RQueryLogs, RQueryMetrics, RQueryCatalog} \<longrightarrow> se_querySecret E \<noteq> [])
        \<and> (r \<noteq> RHealthcheck \<and> (IsLocked (clientOf E req) (rq_now req) (au_throttle s) \<or> \<not> fst (credentials E r req s))
           \<longrightarrow> (rp_code p, rp_body p) \<in> {(429, ca_marshalError (se_config E) ''too_many_requests'' []), (401, ca_marshalError (se_config E) ''unauthorized'' [])}
             \<and> sv_logs s' = sv_logs s \<and> sv_metrics s' = sv_metrics s)"
proof (cases "matchOf E req")
  case (Matched r param)
  from assms(1) Matched obtain pat where "(rq_method req, pat, r) \<in> set (routes E)" unfolding match_ok_def matchOf_def by blast
  then have on: "(r = RMetrics \<longrightarrow> se_metricsSecret E \<noteq> []) \<and> (r \<in> {RQueryLogs, RQueryMetrics, RQueryCatalog} \<longrightarrow> se_querySecret E \<noteq> [])"
    by (auto simp: routes_def split: if_splits)
  from serve_guarded [OF Matched assms(2)] obtain q where q: "guarded E r param req s = (q, s')" "rp_code p = rp_code q" "rp_body p = rp_body q" by blast
  obtain ok s1 where c: "credentials E r req s = (ok, s1)" by fastforce
  from credentials_state [OF c] obtain ks where s1: "s1 = s\<lparr>au_keys := ks\<rparr>" by blast
  have "(rp_code p, rp_body p) \<in> {(429, ca_marshalError (se_config E) ''too_many_requests'' []), (401, ca_marshalError (se_config E) ''unauthorized'' [])}
      \<and> sv_logs s' = sv_logs s \<and> sv_metrics s' = sv_metrics s"
    if r: "r \<noteq> RHealthcheck" and no: "IsLocked (clientOf E req) (rq_now req) (au_throttle s) \<or> \<not> fst (credentials E r req s)"
  proof (cases "IsLocked (clientOf E req) (rq_now req) (au_throttle s)")
    case True
    then show ?thesis using q r by (auto simp: guarded_throttled throttled_locked clientOf_def sendTooManyRequestsResponse_def)
  next
    case False
    with no c have "credentials E r req s = (False, s1)" by simp
    then show ?thesis
      using False q r s1 by (auto simp: guarded_throttled throttled_refused clientOf_def sendUnauthorizedErrorResponse_def)
  qed
  with on Matched show ?thesis by simp
qed (use assms(2) in \<open>auto simp: serve_def securityHeaders_def sendErrorResponse_def sendJsonResponse_def split: option.splits\<close>)

section \<open>Guessing keys\<close>

definition gatedRequest :: "server_env \<Rightarrow> api_request \<Rightarrow> bool" where
  "gatedRequest E req = (case matchOf E req of Matched r param \<Rightarrow> r \<noteq> RHealthcheck | _ \<Rightarrow> False)"

definition wrongCredentials :: "server_env \<Rightarrow> api_request \<Rightarrow> server \<Rightarrow> bool" where
  "wrongCredentials E req s = (case matchOf E req of Matched r param \<Rightarrow> \<not> fst (credentials E r req s) | _ \<Rightarrow> False)"

interpretation api_gate: gate "clientOf E" "gatedRequest E" "wrongCredentials E" "serve E" for E
proof
  fix req and s s' :: server and p
  assume g: "gatedRequest E req" and p: "serve E req s = (p, s')"
  then obtain r param where m: "matchOf E req = Matched r param" "r \<noteq> RHealthcheck" by (auto simp: gatedRequest_def split: matched.splits)
  from serve_guarded [OF m(1) p] obtain q where q: "guarded E r param req s = (q, s')" "rp_code p = rp_code q" by blast
  show "rp_code p = 429 \<and> s' = s" if "IsLocked (clientOf E req) (rq_now req) (au_throttle s)"
    using that q m(2) by (auto simp: guarded_throttled throttled_locked clientOf_def sendTooManyRequestsResponse_def)
  assume l: "\<not> IsLocked (clientOf E req) (rq_now req) (au_throttle s)" and "wrongCredentials E req s"
  with m(1) obtain s1 where c: "credentials E r req s = (False, s1)" by (cases "credentials E r req s") (auto simp: wrongCredentials_def)
  from credentials_state [OF c] obtain ks where "s1 = s\<lparr>au_keys := ks\<rparr>" by blast
  with c l q m(2) show "rp_code p = 401 \<and> (\<exists>ks. s' = s\<lparr>au_keys := ks, au_throttle := RecordFailure (clientOf E req) (rq_failAt req) (au_throttle s)\<rparr>)"
    by (auto simp: guarded_throttled throttled_refused clientOf_def sendUnauthorizedErrorResponse_def)
qed

text \<open>
  Credentials cannot be guessed by trying. After five refusals of an address within a minute,
  counted over all guarded endpoints together, the next guarded request of that address gets 429
  and changes nothing, even with the right credentials.
\<close>

theorem api_bruteforce_locked:
  assumes "serveAll (serve E) rs s = (codes, s')"
    and "\<forall>r \<in> set rs. gatedRequest E r \<and> clientOf E r = ip \<and> (\<forall>s. wrongCredentials E r s)"
    and "\<forall>r \<in> set rs. T - throttlingWindowMs < rq_failAt r \<and> rq_failAt r \<le> T"
    and "throttlingMaxFails \<le> length (filter (\<lambda>c. c = 401) codes)"
    and "gatedRequest E req" and "clientOf E req = ip" and "rq_now req = T"
  shows "rp_code (fst (serve E req s')) = 429 \<and> snd (serve E req s') = s'"
proof -
  obtain p s2 where "serve E req s' = (p, s2)" by fastforce
  with api_gate.bruteforce [OF assms this] show ?thesis by simp
qed

section \<open>What an accepted request did\<close>

lemma sendErrorResponse_code: "rp_code (sendErrorResponse Q c m) \<in> {c, 500}"
  by (simp add: sendErrorResponse_def sendJsonResponse_def split: option.splits)

lemma error_code_ne: "k \<noteq> c \<Longrightarrow> k \<noteq> 500 \<Longrightarrow> rp_code (sendErrorResponse Q c m) \<noteq> k"
  using sendErrorResponse_code [of Q c m] by auto

lemma readErrorResponse_code: "k \<notin> {400, 413, 500} \<Longrightarrow> rp_code (readErrorResponse E e) \<noteq> k"
  by (cases e) (auto simp: readErrorResponse_def error_code_ne)

lemma TryIngest_cases:
  obtains "TryIngest sv h pl t p = (False, p)" and "lp_closed p \<or> lp_bufferedBytes p + int (length pl) > maxBufferedBytes \<or> length (lp_ingestChan p) \<ge> ingestChanSize"
  | "TryIngest sv h pl t p = (True, p\<lparr>lp_bufferedBytes := lp_bufferedBytes p + int (length pl),
        lp_ingestChan := lp_ingestChan p @ [\<lparr>ie_service = sv, ie_host = h, ie_payload = pl, ie_receivedAt = t\<rparr>]\<rparr>)"
    and "\<not> lp_closed p" and "lp_bufferedBytes p + int (length pl) \<le> maxBufferedBytes" and "length (lp_ingestChan p) < ingestChanSize"
  by (cases "fst (TryIngest sv h pl t p)") (auto simp: TryIngest_def Let_def split: if_splits)

text \<open>The event a request stands for, when its body is one that the handler takes.\<close>

definition ingestEventOf :: "(string \<Rightarrow> string) \<Rightarrow> api_request \<Rightarrow> ingestEvent option" where
  "ingestEventOf param req =
     (case rq_body req of
        BodyError \<Rightarrow> None
      | Body payload \<Rightarrow>
          if length (param ''service'') \<le> 200 \<and> length (param ''host'') \<le> 200 \<and> length payload \<le> maxIngestPayloadBytes \<and> TrimSpace payload \<noteq> []
          then Some \<lparr>ie_service = param ''service'', ie_host = param ''host'', ie_payload = payload, ie_receivedAt = rq_handledAt req\<rparr>
          else None)"

definition admits :: "Pipeline \<Rightarrow> ingestEvent \<Rightarrow> bool" where
  "admits p ev \<longleftrightarrow> \<not> lp_closed p \<and> lp_bufferedBytes p + int (ev_weight ev) \<le> maxBufferedBytes \<and> length (lp_ingestChan p) < ingestChanSize"

text \<open>The actions of an admitted call, in a run of the pipeline in which nobody else moves.\<close>

lemma admitted_run:
  assumes "admits p ev" and "lp_ingestClosed p \<longrightarrow> lp_closed p"
  shows "run (lexec E) [TiEnter ev, TiAdd (length (lp_callers p)), TiSend (length (lp_callers p))] p =
    Some ((p\<lparr>lp_bufferedBytes := lp_bufferedBytes p + int (ev_weight ev), lp_ingestChan := lp_ingestChan p @ [ev]\<rparr>)
      \<lparr>lp_callers := lp_callers (p\<lparr>lp_bufferedBytes := lp_bufferedBytes p + int (ev_weight ev), lp_ingestChan := lp_ingestChan p @ [ev]\<rparr>) @ [Returned True],
       lp_accepted := lp_accepted (p\<lparr>lp_bufferedBytes := lp_bufferedBytes p + int (ev_weight ev), lp_ingestChan := lp_ingestChan p @ [ev]\<rparr>) @ [ev]\<rparr>)"
  using assms by (auto simp: admits_def ti_enter_def ti_add_def ti_send_def nth_opt_def Let_def)

lemma ingestLogs_exact:
  assumes "ingestLogs E param req s = (q, s')"
  shows "case ingestEventOf param req of
      None \<Rightarrow> rp_code q \<in> {400, 413, 500} \<and> s' = s
    | Some ev \<Rightarrow> if admits (sv_logs s) ev
        then rp_code q = 204 \<and> s' = s\<lparr>sv_logs := (sv_logs s)\<lparr>lp_bufferedBytes := lp_bufferedBytes (sv_logs s) + int (ev_weight ev),
               lp_ingestChan := lp_ingestChan (sv_logs s) @ [ev]\<rparr>\<rparr>
        else rp_code q \<in> {429, 500} \<and> s' = s"
proof (cases "ingestEventOf param req")
  case None
  then show ?thesis using assms
    by (auto simp: ingestLogs_def ingestEventOf_def Let_def readAll_def readErrorResponse_def sendErrorResponse_def sendJsonResponse_def
        split: if_splits body_read.splits option.splits read_error.splits)
next
  case (Some ev)
  then obtain payload where b: "rq_body req = Body payload" "length payload \<le> maxIngestPayloadBytes" "TrimSpace payload \<noteq> []"
    "length (param ''service'') \<le> 200" "length (param ''host'') \<le> 200"
    and ev: "ev = \<lparr>ie_service = param ''service'', ie_host = param ''host'', ie_payload = payload, ie_receivedAt = rq_handledAt req\<rparr>"
    by (auto simp: ingestEventOf_def split: body_read.splits if_splits)
  have w: "ev_weight ev = length payload" by (simp add: ev ev_weight_def)
  from assms b have i: "(case TryIngest (param ''service'') (param ''host'') payload (rq_handledAt req) (sv_logs s) of (ok, p) \<Rightarrow>
       if \<not> ok then (sendErrorResponse (se_query E) 429 ''too_many_requests'', s\<lparr>sv_logs := p\<rparr>) else (sendNoContentEmptyResponse, s\<lparr>sv_logs := p\<rparr>)) = (q, s')"
    by (simp add: ingestLogs_def Let_def readAll_def)
  show ?thesis
  proof (cases rule: TryIngest_cases [of "param ''service''" "param ''host''" payload "rq_handledAt req" "sv_logs s"])
    case 1
    then show ?thesis using i Some w sendErrorResponse_code [of "se_query E" 429 "''too_many_requests''"] by (auto simp: admits_def)
  next
    case 2
    then show ?thesis using i Some w ev by (auto simp: admits_def sendNoContentEmptyResponse_def)
  qed
qed

lemma endpoint_reached:
  assumes "matchOf E req = Matched r param" and "r \<noteq> RHealthcheck" and "\<not> IsLocked (clientOf E req) (rq_now req) (au_throttle s)"
    and "credentials E r req s = (True, s1)" and "serve E req s = (p, s')"
  shows "\<exists>q. endpoint E r param req s1 = (q, s') \<and> rp_code p = rp_code q"
  using serve_guarded [OF assms(1,5)] assms(2-4) throttled_passed [of "se_config E" req s "credentials E r req" s1]
  by (auto simp: guarded_throttled clientOf_def)

text \<open>An answer 204 of the ingest route came from its handler.\<close>

lemma ingest_reached:
  assumes "matchOf E req = Matched RIngest param" and "serve E req s = (p, s')" and "rp_code p = 204"
  shows "\<exists>s1 q. ingestLogs E param req s1 = (q, s') \<and> rp_code q = 204 \<and> sv_logs s1 = sv_logs s"
proof -
  obtain ok s1 where c: "credentials E RIngest req s = (ok, s1)" by fastforce
  from credentials_state [OF c] have s1: "sv_logs s1 = sv_logs s" by auto
  from serve_guarded [OF assms(1,2)] assms(3) obtain q
    where q: "throttled (se_config E) (credentials E RIngest req) (endpoint E RIngest param req) req s = (q, s')" "rp_code q = 204"
    by (auto simp only: guarded_throttled route.distinct not_False_eq_True)
  have nl: "\<not> IsLocked (clientOf E req) (rq_now req) (au_throttle s)"
    using q by (auto simp: throttled_locked clientOf_def sendTooManyRequestsResponse_def)
  have ok using q nl c by (cases ok) (auto simp: throttled_refused clientOf_def sendUnauthorizedErrorResponse_def)
  with c have "credentials E RIngest req s = (True, s1)" by simp
  from endpoint_reached [OF assms(1) _ nl this assms(2)] assms(3) s1 show ?thesis by auto
qed

text \<open>
  The answer to an ingest request with valid credentials tells exactly what happened. It is 204
  if and only if the body is readable, within 2 MiB and not blank, the names are within 200 bytes
  and the pipeline is open with room in its byte budget and its queue; then exactly this event was
  queued. Any other answer is an error and the pipelines are as before.
\<close>

theorem ingest_answer_exact:
  assumes "matchOf E req = Matched RIngest param" and "\<not> IsLocked (clientOf E req) (rq_now req) (au_throttle s)"
    and "fst (credentials E RIngest req s)" and "serve E req s = (p, s')"
  shows "sv_metrics s' = sv_metrics s \<and>
    (case ingestEventOf param req of
       None \<Rightarrow> rp_code p \<in> {400, 413, 500} \<and> sv_logs s' = sv_logs s
     | Some ev \<Rightarrow> if admits (sv_logs s) ev
         then rp_code p = 204 \<and> sv_logs s' = (sv_logs s)\<lparr>lp_bufferedBytes := lp_bufferedBytes (sv_logs s) + int (ev_weight ev),
               lp_ingestChan := lp_ingestChan (sv_logs s) @ [ev]\<rparr>
         else rp_code p \<in> {429, 500} \<and> sv_logs s' = sv_logs s)"
proof -
  obtain s1 where c: "credentials E RIngest req s = (True, s1)" using assms(3) by (cases "credentials E RIngest req s") auto
  from credentials_state [OF c] obtain ks where s1: "s1 = s\<lparr>au_keys := ks\<rparr>" by blast
  from endpoint_reached [OF assms(1) _ assms(2) c assms(4)] obtain q where "ingestLogs E param req s1 = (q, s')" "rp_code p = rp_code q" by auto
  from ingestLogs_exact [OF this(1)] this(2) s1 show ?thesis by (auto split: option.splits if_splits)
qed

section \<open>The OTLP endpoint\<close>

definition exportOf :: "server_env \<Rightarrow> api_request \<Rightarrow> ResourceMetrics list option" where
  "exportOf E req =
     (case readAll maxIngestPayloadBytes (rq_body req) of
        Inl _ \<Rightarrow> None
      | Inr payload \<Rightarrow>
          if HasPrefix (HeaderGet ''Content-Type'' req) ''application/x-protobuf'' then se_proto E payload
          else if HasPrefix (HeaderGet ''Content-Type'' req) ''application/json'' then se_protojson E payload
          else None)"

lemma TryPush_cases:
  obtains "TryPush rows p = (False, p)" and "rows \<noteq> []"
  | "TryPush rows p = (True, p)" and "rows = []"
  | "TryPush rows p = (True, p\<lparr>mp_bufferedRows := mp_bufferedRows p + int (length rows), mp_batchCh := mp_batchCh p @ [rows]\<rparr>)" and "rows \<noteq> []"
  by (cases "fst (TryPush rows p)") (auto simp: TryPush_def Let_def split: if_splits)

lemma otlpToRows_over: "length (otlpToRows E ms t) > maxOTLPRowsPerRequest \<longleftrightarrow> length (all_rows E ms t) > maxOTLPRowsPerRequest"
  by (cases rule: otlpToRows_cases [of E ms t]) auto

lemma otlpToRows_within: "length (all_rows E ms t) \<le> maxOTLPRowsPerRequest \<Longrightarrow> otlpToRows E ms t = all_rows E ms t"
  by (cases rule: otlpToRows_cases [of E ms t]) auto

lemma otlpMetrics_refused:
  assumes "otlpMetrics E req s = (q, s')" and "exportOf E req = None"
  shows "rp_code q \<in> {400, 413, 415, 500} \<and> s' = s"
  using assms unfolding otlpMetrics_def exportOf_def Let_def readErrorResponse_def sendErrorResponse_def sendJsonResponse_def
  by (auto split: if_splits sum.splits option.splits read_error.splits)

lemma otlpMetrics_decoded:
  assumes "otlpMetrics E req s = (q, s')" and "exportOf E req = Some ms"
  shows "let rows = all_rows (se_otlp E) ms (rq_handledAt req)
    in if length rows > maxOTLPRowsPerRequest then rp_code q \<in> {413, 500} \<and> s' = s
       else (case TryPush rows (sv_metrics s) of (ok, m) \<Rightarrow>
               s' = s\<lparr>sv_metrics := m\<rparr> \<and> (if ok then rp_code q = 200 else rp_code q \<in> {429, 500}))"
proof -
  let ?rows = "otlpToRows (se_otlp E) ms (rq_handledAt req)"
  have o: "otlpMetrics E req s =
     (if length ?rows > maxOTLPRowsPerRequest then (sendErrorResponse (se_query E) 413 ''payload_too_large'', s)
      else (case TryPush ?rows (sv_metrics s) of (ok, p) \<Rightarrow>
              if \<not> ok then (sendErrorResponse (se_query E) 429 ''too_many_requests'', s\<lparr>sv_metrics := p\<rparr>)
              else if HasPrefix (HeaderGet ''Content-Type'' req) ''application/x-protobuf''
                   then (\<lparr>rp_code = 200, rp_headers = [(''Content-Type'', ''application/x-protobuf'')], rp_body = []\<rparr>, s\<lparr>sv_metrics := p\<rparr>)
                   else (\<lparr>rp_code = 200, rp_headers = [(''Content-Type'', ''application/json'')], rp_body = ''{}''\<rparr>, s\<lparr>sv_metrics := p\<rparr>)))"
    using assms(2) unfolding exportOf_def otlpMetrics_def Let_def by (auto split: if_splits sum.splits)
  show ?thesis
  proof (cases "length ?rows > maxOTLPRowsPerRequest")
    case True
    with o assms(1) have "q = sendErrorResponse (se_query E) 413 ''payload_too_large''" "s' = s" by simp_all
    then show ?thesis using True sendErrorResponse_code by (simp add: otlpToRows_over)
  next
    case False
    then have w: "?rows = all_rows (se_otlp E) ms (rq_handledAt req)" "\<not> length (all_rows (se_otlp E) ms (rq_handledAt req)) > maxOTLPRowsPerRequest"
      by (simp_all add: otlpToRows_over otlpToRows_within)
    obtain ok m where t: "TryPush (all_rows (se_otlp E) ms (rq_handledAt req)) (sv_metrics s) = (ok, m)" by fastforce
    have c: "rp_code (sendErrorResponse (se_query E) 429 x) \<in> {429, 500}" for x by (rule sendErrorResponse_code)
    show ?thesis using o assms(1) w t c [of "''too_many_requests''"] unfolding Let_def by (cases ok) (auto split: if_splits)
  qed
qed

text \<open>
  The answer to an OTLP export with valid credentials tells exactly what happened. When the body
  decodes, it is 200 if and only if its data points give at most the capped number of rows and the
  metrics pipeline takes them; then the pipeline was given the rows of all data points, none left
  out, each with a name, a service, a host and a time in the accepted window. Otherwise the answer
  is an error and the pipelines are as before.
\<close>

theorem otlp_answer_exact:
  assumes "matchOf E req = Matched ROtlp param" and "\<not> IsLocked (clientOf E req) (rq_now req) (au_throttle s)"
    and "fst (credentials E ROtlp req s)" and "serve E req s = (p, s')" and "0 \<le> rq_handledAt req" and "rq_handledAt req < 2 ^ 62"
  shows "sv_logs s' = sv_logs s \<and>
    (case exportOf E req of
       None \<Rightarrow> rp_code p \<in> {400, 413, 415, 500} \<and> sv_metrics s' = sv_metrics s
     | Some ms \<Rightarrow>
         let rows = all_rows (se_otlp E) ms (rq_handledAt req)
         in if length rows > maxOTLPRowsPerRequest then rp_code p \<in> {413, 500} \<and> sv_metrics s' = sv_metrics s
            else if fst (TryPush rows (sv_metrics s))
            then rp_code p = 200 \<and> list_all (row_fine (rq_handledAt req)) rows \<and> mp_batchCh (sv_metrics s') = mp_batchCh (sv_metrics s) @ (if rows = [] then [] else [rows])
            else rp_code p \<in> {429, 500} \<and> sv_metrics s' = sv_metrics s)"
proof -
  obtain s1 where c: "credentials E ROtlp req s = (True, s1)" using assms(3) by (cases "credentials E ROtlp req s") auto
  from credentials_state [OF c] obtain ks where s1: "s1 = s\<lparr>au_keys := ks\<rparr>" by blast
  from endpoint_reached [OF assms(1) _ assms(2) c assms(4)] obtain q where q: "otlpMetrics E req s1 = (q, s')" "rp_code p = rp_code q" by auto
  show ?thesis
  proof (cases "exportOf E req")
    case None
    with otlpMetrics_refused [OF q(1)] q(2) s1 show ?thesis by simp
  next
    case (Some ms)
    let ?rows = "all_rows (se_otlp E) ms (rq_handledAt req)"
    have fine: "list_all (row_fine (rq_handledAt req)) ?rows" if "\<not> length ?rows > maxOTLPRowsPerRequest"
      using that otlp_rows_fine [OF assms(5,6), of "se_otlp E" ms] by (simp add: otlpToRows_within)
    show ?thesis
    proof (cases "length ?rows > maxOTLPRowsPerRequest")
      case True
      then show ?thesis using otlpMetrics_decoded [OF q(1) Some] q(2) s1 Some by (simp add: Let_def)
    next
      case False
      then show ?thesis using otlpMetrics_decoded [OF q(1) Some] q(2) s1 Some fine
        by (cases rule: TryPush_cases [of ?rows "sv_metrics s"]) (auto simp: Let_def)
    qed
  qed
qed

section \<open>A concrete server\<close>

definition match_sample :: "route_table \<Rightarrow> string \<Rightarrow> string \<Rightarrow> matched" where
  "match_sample table method path =
     (case find (\<lambda>(m, pat, r). m = method \<and> pat = path) table of None \<Rightarrow> NotFound | Some (m, pat, r) \<Rightarrow> Matched r (\<lambda>_. ''web''))"

definition server_env_sample :: server_env where
  "server_env_sample =
     \<lparr>se_config = \<lparr>ca_crypto = crypto_sample, ca_parseIP = (\<lambda>_. None), ca_trustProxy = False, ca_env = ''local'', ca_marshalError = (\<lambda>c m. c)\<rparr>,
      se_query = query_env_sample, se_otlp = \<lparr>oe_json = (\<lambda>_. Some []), oe_float = (\<lambda>_. [])\<rparr>, se_metricsSecret = ''m'', se_querySecret = [],
      se_match = match_sample, se_protojson = (\<lambda>_. Some []),
      se_proto = (\<lambda>_. Some [\<lparr>rm_Attributes = [], rm_Scopes = [[\<lparr>me_Name = ''up'', me_Data = MGauge
         [\<lparr>np_Attributes = [], np_TimeUnixNano = 0, np_Flags = 0, np_Value = AsDouble (Finite 1)\<rparr>]\<rparr>]]\<rparr>]),
      se_logsRead = (\<lambda>_. two_rows), se_metricsRead = (\<lambda>_. two_rows), se_catalogRows = Inr [], se_promPage = ''page'', se_ping = (\<lambda>_. True)\<rparr>"

definition server_sample :: server where
  "server_sample = \<lparr>au_throttle = [], au_keys = NewApiKeysService\<lparr>ks_verified := [''k'' \<mapsto> 1]\<rparr>, sv_logs = NewPipeline 1, sv_metrics = NewMPipeline\<rparr>"

definition request_sample :: "string \<Rightarrow> string \<Rightarrow> string \<Rightarrow> ms \<Rightarrow> api_request" where
  "request_sample method path key t = \<lparr>rq_method = method, rq_path = path, rq_remoteAddr = ''h'',
     rq_headers = [(''X-Api-Key'', key), (''Content-Type'', ''application/x-protobuf'')], rq_body = Body ''x'', rq_now = t, rq_failAt = t, rq_handledAt = t\<rparr>"

lemma match_sample_ok: "match_ok server_env_sample"
  by (auto simp: match_ok_def server_env_sample_def match_sample_def split: option.splits dest!: find_SomeD)

lemma sample_client: "clientOf server_env_sample (request_sample method path key t) = ''h''"
  by (simp add: clientOf_def server_env_sample_def ClientIP_def Let_def request_sample_def remoteHost_def SplitHostPort_def cut_last_def)

lemma sample_match:
  "matchOf server_env_sample (request_sample ''GET'' ''/metrics'' key t) = Matched RMetrics (\<lambda>_. ''web'')"
  "matchOf server_env_sample (request_sample ''POST'' ''/api/v1/ingest/{service}/{host}'' key t) = Matched RIngest (\<lambda>_. ''web'')"
  "matchOf server_env_sample (request_sample ''POST'' ''/api/v1/otlp/v1/metrics'' key t) = Matched ROtlp (\<lambda>_. ''web'')"
  by (simp_all add: matchOf_def server_env_sample_def request_sample_def routes_def match_sample_def)

lemma sample_credentials:
  "fst (credentials server_env_sample RMetrics (request_sample method path key t) s) \<longleftrightarrow> key = ''m''"
  "fst (credentials server_env_sample RIngest (request_sample method path ''k'' t) server_sample)"
  "fst (credentials server_env_sample ROtlp (request_sample method path ''k'' t) server_sample)"
  by (simp_all add: server_env_sample_def server_sample_def request_sample_def secretCheck_def SecureCompare_def sample_sha HeaderGet_def HeaderValues_def
      keyCheck_def Verify_def v_begin_def NewApiKeysService_def)

lemmas sample_secret = sample_credentials(1) [simplified]

lemma sample_open: "\<not> IsLocked ip t (au_throttle server_sample)"
  by (simp add: server_sample_def IsLocked_def)

theorem api_guarded_witness:
  "rp_body (fst (serve server_env_sample (request_sample ''GET'' ''/metrics'' ''guess'' 1000) server_sample)) = ''unauthorized''
   \<or> rp_body (fst (serve server_env_sample (request_sample ''GET'' ''/metrics'' ''guess'' 1000) server_sample)) = ''too_many_requests''"
proof -
  let ?req = "request_sample ''GET'' ''/metrics'' ''guess'' 1000"
  have "ca_marshalError (se_config server_env_sample) c m = c" for c m by (simp add: server_env_sample_def)
  moreover obtain p s' where p: "serve server_env_sample ?req server_sample = (p, s')" by fastforce
  ultimately show ?thesis
    using api_guarded [OF match_sample_ok p] by (auto simp: sample_match sample_secret)
qed

theorem api_bruteforce_locked_witness:
  "\<exists>codes s'. serveAll (serve server_env_sample) (map (request_sample ''GET'' ''/metrics'' ''guess'') [1, 2, 3, 4, 5]) server_sample = (codes, s')
     \<and> codes = [401, 401, 401, 401, 401]
     \<and> rp_code (fst (serve server_env_sample (request_sample ''GET'' ''/metrics'' ''m'' 6) s')) = 429"
proof -
  let ?req = "request_sample ''GET'' ''/metrics''" and ?srv = "serve server_env_sample"
  let ?rs = "map (?req ''guess'') [1, 2, 3, 4, 5]"
  obtain codes s' where r: "serveAll ?srv ?rs server_sample = (codes, s')" by fastforce
  have g: "gatedRequest server_env_sample (?req key t)" for key t by (simp add: gatedRequest_def sample_match)
  have w: "wrongCredentials server_env_sample (?req ''guess'' t) = (\<lambda>_. True)" for t
    by (rule ext) (simp add: wrongCredentials_def sample_match sample_secret)
  have t: "rq_now (?req key t) = t" "rq_failAt (?req key t) = t" for key t by (simp_all add: request_sample_def)
  have st: "rp_code (fst (?srv (?req ''guess'' t) s)) = 401 \<and> au_throttle (snd (?srv (?req ''guess'' t) s)) = RecordFailure ''h'' t (au_throttle s)"
    if "\<not> IsLocked ''h'' t (au_throttle s)" for t s
    using api_gate.refused [of server_env_sample "?req ''guess'' t" s "fst (?srv (?req ''guess'' t) s)" "snd (?srv (?req ''guess'' t) s)"] that
    by (auto simp: g w t sample_client)
  have "codes = [401, 401, 401, 401, 401]"
    using r by (simp add: case_prod_beta st server_sample_def)
      (auto simp: st RecordFailure_def failEntry_def IsLocked_def newEntry_def Let_def throttlingMaxEntries_def throttlingMaxFails_def throttlingWindowMs_def)
  moreover have "rp_code (fst (?srv (?req ''m'' 6) s')) = 429"
    using api_bruteforce_locked [OF r, of "''h''" 6 "?req ''m'' 6"] calculation
    by (simp add: g w t sample_client throttlingMaxFails_def throttlingWindowMs_def)
  ultimately show ?thesis using r by blast
qed

definition event_sample :: ingestEvent where
  "event_sample = \<lparr>ie_service = ''web'', ie_host = ''web'', ie_payload = ''x'', ie_receivedAt = 1000\<rparr>"

abbreviation ingest_request_sample :: api_request where
  "ingest_request_sample \<equiv> request_sample ''POST'' ''/api/v1/ingest/{service}/{host}'' ''k'' 1000"

lemma sample_event: "ingestEventOf (\<lambda>_. ''web'') ingest_request_sample = Some event_sample"
proof -
  have "TrimSpace ''x'' = ''x''" by code_simp
  then show ?thesis by (simp add: ingestEventOf_def request_sample_def maxIngestPayloadBytes_def event_sample_def)
qed

lemma sample_admits: "admits (sv_logs server_sample) event_sample"
  by (simp add: admits_def server_sample_def NewPipeline_def ev_weight_def event_sample_def maxBufferedBytes_def ingestChanSize_def)

theorem ingest_answer_exact_witness:
  "rp_code (fst (serve server_env_sample ingest_request_sample server_sample)) = 204"
proof -
  obtain p s' where p: "serve server_env_sample ingest_request_sample server_sample = (p, s')" by fastforce
  from ingest_answer_exact [OF sample_match(2) sample_open sample_credentials(2) p] p show ?thesis by (simp add: sample_event sample_admits)
qed

lemma sample_ingested: "\<exists>p s'. serve server_env_sample ingest_request_sample server_sample = (p, s') \<and> rp_code p = 204"
proof -
  obtain p s' where p: "serve server_env_sample ingest_request_sample server_sample = (p, s')" by fastforce
  have "fst (credentials server_env_sample RIngest ingest_request_sample server_sample)" by (rule sample_credentials(2))
  then obtain s1 where c: "credentials server_env_sample RIngest ingest_request_sample server_sample = (True, s1)"
    by (cases "credentials server_env_sample RIngest ingest_request_sample server_sample") (simp only: fst_conv)
  from credentials_state [OF c] have "sv_logs s1 = sv_logs server_sample" by (elim exE) simp
  moreover from endpoint_reached [OF sample_match(2) _ sample_open c p] obtain q
    where q: "ingestLogs server_env_sample (\<lambda>_. ''web'') ingest_request_sample s1 = (q, s')" "rp_code p = rp_code q"
    by (auto simp only: endpoint.simps route.distinct not_False_eq_True)
  ultimately have "rp_code p = 204" using ingestLogs_exact [OF q(1)] by (simp add: sample_event sample_admits)
  with p show ?thesis by blast
qed

theorem otlp_answer_exact_witness:
  "rp_code (fst (serve server_env_sample (request_sample ''POST'' ''/api/v1/otlp/v1/metrics'' ''k'' 1000) server_sample)) = 200"
proof -
  let ?req = "request_sample ''POST'' ''/api/v1/otlp/v1/metrics'' ''k'' 1000"
  obtain p s' where p: "serve server_env_sample ?req server_sample = (p, s')" by fastforce
  define exprt where "exprt = [\<lparr>rm_Attributes = [], rm_Scopes = [[\<lparr>me_Name = ''up'', me_Data = MGauge
         [\<lparr>np_Attributes = [], np_TimeUnixNano = 0, np_Flags = 0, np_Value = AsDouble (Finite 1)\<rparr>]\<rparr>]]\<rparr>]"
  have e: "exportOf server_env_sample ?req = Some exprt"
    by (simp add: exportOf_def readAll_def request_sample_def server_env_sample_def maxIngestPayloadBytes_def HeaderGet_def HeaderValues_def exprt_def)
  have l: "length (all_rows (se_otlp server_env_sample) exprt 1000) = 1"
    by (simp add: exprt_def all_rows_def resourceIdentity_def metric_rows_def number_rows_def appendNumberPoint_def Let_def)
  have t: "fst (TryPush rows (sv_metrics server_sample))" if "length rows = 1" for rows :: "Row list"
    using that by (auto simp: TryPush_def server_sample_def NewMPipeline_def maxBufferedRows_def batchChanSize_def)
  have h: "rq_handledAt ?req = 1000" by (simp add: request_sample_def)
  from otlp_answer_exact [OF sample_match(3) sample_open sample_credentials(3) p] p show ?thesis
    by (simp add: e h l t Let_def maxOTLPRowsPerRequest_def)
qed

end
