(* ===== verification/Settings_Store.thy ===== *)
theory Settings_Store
  imports Api_Keys
begin

text \<open>
  Secrets at rest and the settings table: \<open>services/encryption.go\<close> and
  \<open>services/settings.go\<close>. AES-GCM and the standard base64 alphabet are library code, the
  fields of \<open>cipher\<close>, which extends the parameters of the API keys (argon2 derives the
  key). Random bytes are arguments. The table maps a key to its row; database errors are not
  modelled.
\<close>

record cipher = crypto +
  gcm_nonce_size :: nat
  gcm_seal :: "bytes \<Rightarrow> bytes \<Rightarrow> string \<Rightarrow> bytes"
  gcm_open :: "bytes \<Rightarrow> bytes \<Rightarrow> bytes \<Rightarrow> string option"
  std64 :: "bytes \<Rightarrow> string"
  std64d :: "string \<Rightarrow> bytes option"

definition cipher_ok :: "cipher \<Rightarrow> bool" where
  "cipher_ok C \<longleftrightarrow>
     (\<forall>key nonce plain. length nonce = gcm_nonce_size C
        \<longrightarrow> gcm_open C key nonce (gcm_seal C key nonce plain) = Some plain)
   \<and> (\<forall>x. std64d C (std64 C x) = Some x)"

section \<open>Encryption\<close>

datatype sec_error = EDecode | ETooShort | EOpen | ESetting string sec_error

definition Encrypt :: "cipher \<Rightarrow> bytes \<Rightarrow> bytes \<Rightarrow> string \<Rightarrow> string" where
  "Encrypt C key nonce plain = std64 C (nonce @ gcm_seal C key nonce plain)"

definition Decrypt :: "cipher \<Rightarrow> bytes \<Rightarrow> string \<Rightarrow> (sec_error, string) result" where
  "Decrypt C key stored =
     (case std64d C stored of
        None \<Rightarrow> Err EDecode
      | Some raw \<Rightarrow>
          if length raw < gcm_nonce_size C then Err ETooShort
          else case gcm_open C key (take (gcm_nonce_size C) raw) (drop (gcm_nonce_size C) raw) of
            None \<Rightarrow> Err EOpen
          | Some plain \<Rightarrow> Ok plain)"

lemma Decrypt_Encrypt:
  assumes "cipher_ok C" and "length nonce = gcm_nonce_size C"
  shows "Decrypt C key (Encrypt C key nonce plain) = Ok plain"
  using assms by (simp add: Decrypt_def Encrypt_def cipher_ok_def)

section \<open>The settings table\<close>

record setting =
  st_value :: string
  st_encrypted :: bool
  st_updated :: int

type_synonym settings = "string \<rightharpoonup> setting"

definition saltKey :: string where "saltKey = ''encryption.salt''"

definition ensureEncryptionSalt :: "cipher \<Rightarrow> bytes \<Rightarrow> int \<Rightarrow> settings \<Rightarrow> bytes option \<times> settings" where
  "ensureEncryptionSalt C fresh now s =
     (let s' = (case s saltKey of
             None \<Rightarrow> s(saltKey \<mapsto> \<lparr>st_value = std64 C fresh, st_encrypted = False, st_updated = now\<rparr>)
           | Some _ \<Rightarrow> s)
      in (case s' saltKey of None \<Rightarrow> None | Some r \<Rightarrow> std64d C (st_value r), s'))"

text \<open>The service is its key; the key length is that of AES-256, so \<open>aes.NewCipher\<close> accepts it.\<close>

definition NewEncryptionService :: "cipher \<Rightarrow> string \<Rightarrow> bytes \<Rightarrow> int \<Rightarrow> settings \<Rightarrow> bytes option \<times> settings" where
  "NewEncryptionService C secret fresh now s =
     (case ensureEncryptionSalt C fresh now s of (salt, s') \<Rightarrow>
        (map_option (\<lambda>x. argon C secret x argonTime argonMemoryKiB argonThreads 32) salt, s'))"

definition Get :: "cipher \<Rightarrow> bytes \<Rightarrow> string \<Rightarrow> settings \<Rightarrow> (sec_error, string) result" where
  "Get C key k s =
     (case s k of
        None \<Rightarrow> Ok []
      | Some r \<Rightarrow>
          if st_encrypted r
          then (case Decrypt C key (st_value r) of Inl e \<Rightarrow> Err (ESetting k e) | Inr plain \<Rightarrow> Ok plain)
          else Ok (st_value r))"

definition SetSetting :: "cipher \<Rightarrow> bytes \<Rightarrow> bytes \<Rightarrow> int \<Rightarrow> string \<Rightarrow> string \<Rightarrow> bool \<Rightarrow> settings \<Rightarrow> settings" where
  "SetSetting C key nonce now k value encrypted s =
     s(k \<mapsto> \<lparr>st_value = (if encrypted then Encrypt C key nonce value else value), st_encrypted = encrypted, st_updated = now\<rparr>)"

definition IsSet :: "string \<Rightarrow> settings \<Rightarrow> bool" where
  "IsSet k s = (case s k of None \<Rightarrow> False | Some r \<Rightarrow> st_value r \<noteq> [])"

section \<open>Operations\<close>

lemma Get_Set:
  assumes "cipher_ok C" and "length nonce = gcm_nonce_size C"
  shows "Get C key k (SetSetting C key nonce now k' v enc s) = (if k = k' then Ok v else Get C key k s)"
  using Decrypt_Encrypt [OF assms] by (simp add: Get_def SetSetting_def)

section \<open>Restarts\<close>

datatype set_op = SetOp bytes int string string bool

fun set_exec :: "cipher \<Rightarrow> bytes \<Rightarrow> set_op \<Rightarrow> settings \<Rightarrow> settings" where
  "set_exec C key (SetOp nonce now k v enc) s = SetSetting C key nonce now k v enc s"

fun set_key :: "set_op \<Rightarrow> string" where "set_key (SetOp nonce now k v enc) = k"
fun set_value :: "set_op \<Rightarrow> string" where "set_value (SetOp nonce now k v enc) = v"
fun set_nonce :: "set_op \<Rightarrow> bytes" where "set_nonce (SetOp nonce now k v enc) = nonce"

section \<open>A key-value contract\<close>

text \<open>Operations that each set one key, and what any sequence of them leaves.\<close>

locale kv_store =
  fixes get :: "'k \<Rightarrow> 's \<Rightarrow> 'v"
    and exec :: "'op \<Rightarrow> 's \<Rightarrow> 's"
    and key_of :: "'op \<Rightarrow> 'k"
    and value_of :: "'op \<Rightarrow> 'v"
    and ok :: "'op \<Rightarrow> bool"
  assumes get_exec: "ok x \<Longrightarrow> get k (exec x s) = (if k = key_of x then value_of x else get k s)"
begin

lemma get_execs:
  "\<forall>x \<in> set xs. ok x \<Longrightarrow> get k (fold exec xs s) =
     (case map_of (rev (map (\<lambda>x. (key_of x, value_of x)) xs)) k of Some v \<Rightarrow> v | None \<Rightarrow> get k s)"
  by (induction xs arbitrary: s) (auto simp: get_exec map_add_def split: option.splits)

lemma abs_exec: "ok x \<Longrightarrow> (\<lambda>k. get k (exec x s)) = (\<lambda>k. get k s)(key_of x := value_of x)"
  by (rule ext) (simp add: get_exec)

end

interpretation settings: kv_store "Get C key" "set_exec C key" set_key "\<lambda>x. Ok (set_value x)"
  "\<lambda>x. cipher_ok C \<and> length (set_nonce x) = gcm_nonce_size C" for C key
proof
  fix x k s
  assume "cipher_ok C \<and> length (set_nonce x) = gcm_nonce_size C"
  then show "Get C key k (set_exec C key x s) = (if k = set_key x then Ok (set_value x) else Get C key k s)"
    by (cases x) (simp add: Get_Set)
qed

lemma salt_kept: "saltKey \<notin> set_key ` set ops \<Longrightarrow> fold (set_exec C key) ops s saltKey = s saltKey"
proof (induction ops arbitrary: s)
  case (Cons x ops)
  then show ?case by (cases x) (auto simp: SetSetting_def)
qed simp

lemma salt_stored:
  assumes "cipher_ok C" and "ensureEncryptionSalt C fresh now s = (Some salt, s')"
  shows "\<exists>r. s' saltKey = Some r \<and> std64d C (st_value r) = Some salt"
  using assms by (auto simp: ensureEncryptionSalt_def Let_def split: option.splits)

lemma salt_again:
  assumes "s saltKey = Some r" and "std64d C (st_value r) = Some salt"
  shows "ensureEncryptionSalt C fresh now s = (Some salt, s)"
  using assms by (simp add: ensureEncryptionSalt_def)

text \<open>
  C27: the settings refine a map from keys to texts: after any sequence of \<open>Set\<close>, encrypted or
  not, every key has the text last set for it, and a key that was not set has what it had
  before; and this is still so for the service of a later process that has the same secret and
  the same database, whatever salt that process drew.
\<close>

theorem settings_refine_map:
  assumes "cipher_ok C" and "NewEncryptionService C secret fresh now s = (Some key, s0)"
    and "\<forall>x \<in> set ops. length (set_nonce x) = gcm_nonce_size C \<and> set_key x \<noteq> saltKey"
    and "NewEncryptionService C secret fresh' now' (fold (set_exec C key) ops s0) = (key', s1)"
  shows "key' = Some key
    \<and> Get C key k s1 = (case map_of (rev (map (\<lambda>x. (set_key x, Ok (set_value x))) ops)) k of Some v \<Rightarrow> v | None \<Rightarrow> Get C key k s0)"
proof -
  from assms(2) obtain salt where salt: "ensureEncryptionSalt C fresh now s = (Some salt, s0)"
    and key: "key = argon C secret salt argonTime argonMemoryKiB argonThreads 32"
    by (auto simp: NewEncryptionService_def split: prod.splits)
  from salt_stored [OF assms(1) salt] obtain r where "s0 saltKey = Some r" and r: "std64d C (st_value r) = Some salt" by blast
  moreover have "saltKey \<notin> set_key ` set ops" using assms(3) by auto
  ultimately have "fold (set_exec C key) ops s0 saltKey = Some r" by (simp add: salt_kept)
  from salt_again [where s = "fold (set_exec C key) ops s0", OF this r] assms(4) key have "key' = Some key" and "s1 = fold (set_exec C key) ops s0"
    by (auto simp: NewEncryptionService_def)
  with assms(1,3) show ?thesis by (simp add: settings.get_execs)
qed

section \<open>Samples\<close>

text \<open>A cipher that only frames its input, and an encoding that is the identity.\<close>

definition cipher_sample :: cipher where
  "cipher_sample =
     \<lparr>argon = argon crypto_sample, argon_version = 19, b64 = esc_enc, b64d = esc_dec,
      scan_version = scan_version crypto_sample, scan_params = sample_scan_params, sha256 = id,
      gcm_nonce_size = 2, gcm_seal = (\<lambda>key nonce p. ''#'' @ p), gcm_open = (\<lambda>key nonce c. if HasPrefix c ''#'' then Some (drop 1 c) else None),
      std64 = id, std64d = Some\<rparr>"

lemma cipher_sample_ok: "cipher_ok cipher_sample"
  by (simp add: cipher_ok_def cipher_sample_def)

definition set_ops_sample :: "set_op list" where
  "set_ops_sample = [SetOp ''n1'' 1 ''pushover.user_key'' ''u'' True, SetOp ''n2'' 2 ''campfire.base_url'' ''http://c'' False,
     SetOp ''n3'' 3 ''pushover.user_key'' ''v'' True]"

definition key_sample :: bytes where
  "key_sample = argon cipher_sample ''pw'' ''salt'' argonTime argonMemoryKiB argonThreads 32"

theorem settings_refine_map_witness:
  "Get cipher_sample key_sample ''pushover.user_key''
     (snd (NewEncryptionService cipher_sample ''pw'' ''other'' 9
        (fold (set_exec cipher_sample key_sample) set_ops_sample
           (snd (NewEncryptionService cipher_sample ''pw'' ''salt'' 0 Map.empty))))) = Ok ''v''"
proof -
  let ?s0 = "snd (NewEncryptionService cipher_sample ''pw'' ''salt'' 0 Map.empty)"
  have 1: "NewEncryptionService cipher_sample ''pw'' ''salt'' 0 Map.empty = (Some key_sample, ?s0)"
    by (simp add: NewEncryptionService_def ensureEncryptionSalt_def key_sample_def cipher_sample_def)
  have 2: "\<forall>x \<in> set set_ops_sample. length (set_nonce x) = gcm_nonce_size cipher_sample \<and> set_key x \<noteq> saltKey"
    by (simp add: set_ops_sample_def cipher_sample_def saltKey_def)
  obtain key' s1 where 3: "NewEncryptionService cipher_sample ''pw'' ''other'' 9
      (fold (set_exec cipher_sample key_sample) set_ops_sample ?s0) = (key', s1)" by fastforce
  show ?thesis
    using settings_refine_map [OF cipher_sample_ok 1 2 3, of "''pushover.user_key''"] 3 by (simp add: set_ops_sample_def)
qed

end
