(* ===== verification/Notify.thy ===== *)
theory Notify
  imports Settings_Store Query_Exec Utf8
begin

text \<open>
  Notifications, \<open>services/notify.go\<close>. JSON decoding, form encoding, \<open>%v\<close> of a
  value that is neither text nor an integer, and the HTTP client are the fields of
  \<open>notify_env\<close>; an HTTP client answers a request with a response or an error, a
  \<open>url.Error\<close> naming the URL. The clients follow no redirects, so a 3xx is a response.
\<close>

record Target =
  tg_Type :: string
  tg_Device :: string
  tg_Priority :: int
  tg_Sound :: string
  tg_RoomID :: int
  tg_WarRoom :: bool

record Alert =
  al_Name :: string
  al_Query :: string
  al_CheckIntervalMs :: int
  al_CooldownMs :: int
  al_Target :: string
  al_Enabled :: bool
  al_LastCheckedAt :: "int option"
  al_LastFiredAt :: "int option"
  al_CurrentlyFiring :: bool
  al_LastError :: "string option"
  al_LastErrorAt :: "int option"
  al_CreatedAt :: int

record http_request =
  rq_verb :: string
  rq_url :: string
  rq_type :: string
  rq_body :: string

datatype http_outcome = HttpResp int bytes | UrlError string string string | OtherError string

record notify_env =
  json_target :: "string \<Rightarrow> Target option"
  json_partial :: "string \<Rightarrow> Target"
  fmt_other :: "cell \<Rightarrow> string"
  form_encode :: "(string \<times> string) list \<Rightarrow> string"
  request_ok :: "string \<Rightarrow> bool"
  http_do :: "http_request \<Rightarrow> http_outcome"
  pushover_reply :: "bytes \<Rightarrow> int \<times> string list"
  PushoverBaseURL :: string
  PublicURL :: string

datatype notify_error =
    NTargetConfig | NPriority | NRoomID | NUnknownType string
  | NSettings sec_error | NNotConfigured string | NBuild string
  | NPushover http_outcome | NPushoverRejected "string list" | NPushoverStatus int
  | NCampfireOp string string | NCampfireFailed | NCampfireStatus int

definition ParseTarget :: "notify_env \<Rightarrow> string \<Rightarrow> (notify_error, Target) result" where
  "ParseTarget E raw =
     (case json_target E raw of
        None \<Rightarrow> Err NTargetConfig
      | Some t \<Rightarrow>
          if tg_Type t = ''pushover'' then (if tg_Priority t < -2 \<or> tg_Priority t > 2 then Err NPriority else Ok t)
          else if tg_Type t = ''campfire'' then (if tg_RoomID t \<le> 0 then Err NRoomID else Ok t)
          else Err (NUnknownType (tg_Type t)))"

section \<open>Message texts\<close>

fun fmtV :: "notify_env \<Rightarrow> cell \<Rightarrow> string" where
  "fmtV E (CText s) = s"
| "fmtV E (CInt n) = itoa n"
| "fmtV E c = fmt_other E c"

definition compactRow :: "notify_env \<Rightarrow> string list \<Rightarrow> cell list \<Rightarrow> nat \<Rightarrow> string" where
  "compactRow E cols row maxLen =
     (let s = Join (map (\<lambda>(c, v). c @ ''='' @ fmtV E v) (filter (\<lambda>(c, v). v \<noteq> CNull) (zip cols row))) '' ''
      in if length s > maxLen then truncateAtRune s maxLen @ ellipsis else s)"

definition notifyMaxRows :: nat where "notifyMaxRows = 5"

definition plainRows :: "notify_env \<Rightarrow> Result \<Rightarrow> string" where
  "plainRows E res =
     (let rows = res_Rows res
      in TrimSpace (itoa (int (length rows)) @ '' matching row(s)'' @ nl
           @ concat (map (\<lambda>row. compactRow E (res_Columns res) row 200 @ nl) (take notifyMaxRows rows))
           @ (if length rows > notifyMaxRows
              then ellipsis @ '' and '' @ itoa (int (length rows - notifyMaxRows)) @ '' more'' else [])))"

text \<open>\<open>html.EscapeString\<close>.\<close>

definition esc_char :: "char \<Rightarrow> string" where
  "esc_char c =
     (if c = CHR ''&'' then ''&amp;'' else if c = squote then ''&#39;'' else if c = CHR ''<'' then ''&lt;''
      else if c = CHR ''>'' then ''&gt;'' else if c = dquote then ''&#34;'' else [c])"

definition EscapeString :: "string \<Rightarrow> string" where
  "EscapeString s = concat (map esc_char s)"

definition campfireHTML :: "notify_env \<Rightarrow> string \<Rightarrow> Result \<Rightarrow> string" where
  "campfireHTML E name res =
     (let rows = res_Rows res
      in ''<b>'' @ flame @ '' '' @ EscapeString name @ ''</b><br>'' @ itoa (int (length rows)) @ '' matching row(s)''
         @ concat (map (\<lambda>row. ''<br><code>'' @ EscapeString (compactRow E (res_Columns res) row 200) @ ''</code>'')
             (take notifyMaxRows rows))
         @ (if length rows > notifyMaxRows
            then ''<br>'' @ ellipsis @ '' and '' @ itoa (int (length rows - notifyMaxRows)) @ '' more'' else []))"

definition warRoomLink :: "notify_env \<Rightarrow> string \<Rightarrow> int \<Rightarrow> string" where
  "warRoomLink E alertQuery firedAtMs =
     (let halfWindowMs = 15 * 60 * 1000
      in TrimSuffix (PublicURL E) ''/'' @ ''/war-room?'' @
         form_encode E [(''from'', itoa (i64 (firedAtMs - halfWindowMs))), (''to'', itoa (i64 (firedAtMs + halfWindowMs))),
           (''q'', alertQuery)])"

section \<open>Delivery\<close>

definition pushoverForm :: "Target \<Rightarrow> string \<Rightarrow> string \<Rightarrow> string \<Rightarrow> string \<Rightarrow> string \<Rightarrow> (string \<times> string) list" where
  "pushoverForm t token user title message link =
     [(''token'', token), (''user'', user), (''title'', title), (''message'', message)]
     @ (if tg_Device t \<noteq> [] then [(''device'', tg_Device t)] else [])
     @ (if tg_Priority t \<noteq> 0 then [(''priority'', itoa (tg_Priority t))] else [])
     @ (if tg_Sound t \<noteq> [] then [(''sound'', tg_Sound t)] else [])
     @ (if link \<noteq> [] then [(''url'', link), (''url_title'', ''Open the War Room'')] else [])"

definition pushoverRequest :: "notify_env \<Rightarrow> (string \<times> string) list \<Rightarrow> http_request" where
  "pushoverRequest E form =
     \<lparr>rq_verb = ''POST'', rq_url = PushoverBaseURL E @ ''/1/messages.json'', rq_type = ''application/x-www-form-urlencoded'',
      rq_body = form_encode E form\<rparr>"

definition pushoverOutcome :: "notify_env \<Rightarrow> http_outcome \<Rightarrow> (notify_error, unit) result" where
  "pushoverOutcome E out =
     (case out of
        HttpResp code body \<Rightarrow>
          (case pushover_reply E (take 4096 body) of (status, errors) \<Rightarrow>
             if code \<noteq> 200 \<or> status \<noteq> 1
             then (if errors \<noteq> [] then Err (NPushoverRejected errors) else Err (NPushoverStatus code))
             else Ok ())
      | _ \<Rightarrow> Err (NPushover out))"

definition sendPushover ::
  "notify_env \<Rightarrow> cipher \<Rightarrow> bytes \<Rightarrow> settings \<Rightarrow> Target \<Rightarrow> string \<Rightarrow> string \<Rightarrow> string \<Rightarrow> (notify_error, unit) result" where
  "sendPushover E C key s t title message link =
     (case (Get C key ''pushover.app_token'' s, Get C key ''pushover.user_key'' s) of
        (Inl e, _) \<Rightarrow> Err (NSettings e)
      | (_, Inl e) \<Rightarrow> Err (NSettings e)
      | (Inr token, Inr user) \<Rightarrow>
          if token = [] \<or> user = [] then Err (NNotConfigured ''pushover'')
          else let req = pushoverRequest E (pushoverForm t token user title message link)
               in if \<not> request_ok E (rq_url req) then Err (NBuild (rq_url req))
                  else pushoverOutcome E (http_do E req))"

definition campfireRequest :: "string \<Rightarrow> int \<Rightarrow> string \<Rightarrow> string \<Rightarrow> http_request" where
  "campfireRequest base roomID botKey messageHTML =
     \<lparr>rq_verb = ''POST'', rq_url = TrimSuffix base ''/'' @ ''/rooms/'' @ itoa roomID @ ''/'' @ botKey @ ''/messages'',
      rq_type = ''text/html; charset=utf-8'', rq_body = messageHTML\<rparr>"

definition campfireOutcome :: "http_outcome \<Rightarrow> (notify_error, unit) result" where
  "campfireOutcome out =
     (case out of
        UrlError op url cause \<Rightarrow> Err (NCampfireOp op cause)
      | OtherError msg \<Rightarrow> Err NCampfireFailed
      | HttpResp code body \<Rightarrow> if code < 200 \<or> code > 299 then Err (NCampfireStatus code) else Ok ())"

definition sendCampfire ::
  "notify_env \<Rightarrow> cipher \<Rightarrow> bytes \<Rightarrow> settings \<Rightarrow> int \<Rightarrow> string \<Rightarrow> (notify_error, unit) result" where
  "sendCampfire E C key s roomID messageHTML =
     (case (Get C key ''campfire.base_url'' s, Get C key ''campfire.bot_key'' s) of
        (Inl e, _) \<Rightarrow> Err (NSettings e)
      | (_, Inl e) \<Rightarrow> Err (NSettings e)
      | (Inr base, Inr botKey) \<Rightarrow>
          if base = [] \<or> botKey = [] then Err (NNotConfigured ''campfire'')
          else let req = campfireRequest base roomID botKey messageHTML
               in if \<not> request_ok E (rq_url req) then Err (NBuild ''campfire'')
                  else campfireOutcome (http_do E req))"

definition alertLink :: "notify_env \<Rightarrow> Target \<Rightarrow> string \<Rightarrow> int \<Rightarrow> string" where
  "alertLink E t q now = (if tg_WarRoom t \<and> PublicURL E \<noteq> [] then warRoomLink E q now else [])"

definition alertHTML :: "notify_env \<Rightarrow> string \<Rightarrow> string \<Rightarrow> Result \<Rightarrow> string" where
  "alertHTML E name link res =
     campfireHTML E name res
     @ (if link \<noteq> [] then ''<br><a href='' @ [dquote] @ EscapeString link @ [dquote] @ ''>Open the War Room</a>'' else [])"

definition SendAlert ::
  "notify_env \<Rightarrow> cipher \<Rightarrow> bytes \<Rightarrow> settings \<Rightarrow> int \<Rightarrow> Alert \<Rightarrow> Result \<Rightarrow> (notify_error, unit) result" where
  "SendAlert E C key s now a res =
     (case ParseTarget E (al_Target a) of
        Inl e \<Rightarrow> Err e
      | Inr t \<Rightarrow>
          let link = alertLink E t (al_Query a) now
          in if tg_Type t = ''pushover'' then sendPushover E C key s t (flame @ '' '' @ al_Name a) (plainRows E res) link
             else if tg_Type t = ''campfire'' then sendCampfire E C key s (tg_RoomID t) (alertHTML E (al_Name a) link res)
             else Err (NUnknownType (tg_Type t)))"

definition TestPushover :: "notify_env \<Rightarrow> cipher \<Rightarrow> bytes \<Rightarrow> settings \<Rightarrow> (notify_error, unit) result" where
  "TestPushover E C key s =
     sendPushover E C key s \<lparr>tg_Type = [], tg_Device = [], tg_Priority = 0, tg_Sound = [], tg_RoomID = 0, tg_WarRoom = False\<rparr>
       ''pooml test'' (''Don'' @ [squote] @ ''t panic - this is only a test.'') []"

definition TestCampfire :: "notify_env \<Rightarrow> cipher \<Rightarrow> bytes \<Rightarrow> settings \<Rightarrow> int \<Rightarrow> (notify_error, unit) result" where
  "TestCampfire E C key s roomID =
     sendCampfire E C key s roomID (''<b>pooml test</b> - don'' @ [squote] @ ''t panic, this is only a test.'')"

section \<open>Untrusted text adds no markup\<close>

text \<open>The tags of an HTML text, in order; the accumulator is the tag being read.\<close>

fun tags_from :: "string option \<Rightarrow> string \<Rightarrow> string list" where
  "tags_from None [] = []"
| "tags_from (Some acc) [] = [rev acc]"
| "tags_from None (c # s) = (if c = CHR ''<'' then tags_from (Some []) s else tags_from None s)"
| "tags_from (Some acc) (c # s) = (if c = CHR ''>'' then rev acc # tags_from None s else tags_from (Some (c # acc)) s)"

abbreviation tags :: "string \<Rightarrow> string list" where "tags \<equiv> tags_from None"

lemma tags_text: "CHR ''<'' \<notin> set t \<Longrightarrow> tags (t @ s) = tags s"
  by (induction t) auto

lemma tags_tag: "CHR ''>'' \<notin> set t \<Longrightarrow> tags_from (Some acc) (t @ CHR ''>'' # s) = (rev acc @ t) # tags s"
  by (induction t arbitrary: acc) auto

lemma escape_safe: "CHR ''<'' \<notin> set (EscapeString s)" "CHR ''>'' \<notin> set (EscapeString s)" "dquote \<notin> set (EscapeString s)"
  by (auto simp: EscapeString_def esc_char_def split: if_splits)

lemma itoa_no_angle: "CHR ''<'' \<notin> set (itoa n)"
proof -
  have "c \<noteq> CHR ''<''" if "is_digit c" for c using that by (auto simp: is_digit_def byte_def)
  moreover have "\<forall>c \<in> set (nat_str k). is_digit c" for k using nat_str_digits [of k] by (simp add: list_all_iff)
  ultimately show ?thesis by (auto simp: itoa_def)
qed

lemma tags_escape [simp]: "tags (EscapeString t @ s) = tags s"
  by (rule tags_text) (rule escape_safe)

lemma tags_itoa [simp]: "tags (itoa n @ s) = tags s"
  by (rule tags_text) (rule itoa_no_angle)

lemma tags_marks [simp]: "tags (flame @ s) = tags s" "tags (ellipsis @ s) = tags s"
  by (simp_all add: flame_def ellipsis_def)

lemma tags_rows:
  "tags (concat (map (\<lambda>row. ''<br><code>'' @ EscapeString (f row) @ ''</code>'') rows) @ s) =
   concat (replicate (length rows) [''br'', ''code'', ''/code'']) @ tags s"
  by (induction rows) simp_all

text \<open>
  The markup of a Campfire message does not depend on what the alert, the columns and the log
  rows say: its tags are the fixed ones, repeated for the rows shown, and the link is one
  attribute value.
\<close>

theorem campfire_markup_fixed:
  "tags (alertHTML E name link res) =
     [''b'', ''/b'', ''br''] @ concat (replicate (min 5 (length (res_Rows res))) [''br'', ''code'', ''/code''])
     @ (if length (res_Rows res) > 5 then [''br''] else [])
     @ (if link \<noteq> [] then [''br'', ''a href='' @ [dquote] @ EscapeString link @ [dquote], ''/a''] else [])"
proof -
  have a: "tags_from (Some (rev ''a href='')) ((dquote # EscapeString link @ [dquote]) @ CHR ''>'' # s) =
      (''a href='' @ [dquote] @ EscapeString link @ [dquote]) # tags s" for s
    by (subst tags_tag) (auto simp: escape_safe)
  have l: "tags (if link \<noteq> [] then ''<br><a href='' @ [dquote] @ EscapeString link @ [dquote] @ ''>Open the War Room</a>'' else []) =
      (if link \<noteq> [] then [''br'', ''a href='' @ [dquote] @ EscapeString link @ [dquote], ''/a''] else [])"
    using a by simp
  have m: "tags ((if length (res_Rows res) > notifyMaxRows
      then ''<br>'' @ ellipsis @ '' and '' @ itoa (int (length (res_Rows res) - notifyMaxRows)) @ '' more'' else []) @ s) =
      (if length (res_Rows res) > 5 then [''br''] else []) @ tags s" for s
    by (simp add: notifyMaxRows_def)
  show ?thesis
    unfolding alertHTML_def campfireHTML_def Let_def append_assoc
    using tags_rows [of "\<lambda>row. compactRow E (res_Columns res) row 200"] l m
    by (simp add: notifyMaxRows_def min.commute)
qed

section \<open>Delivery is acknowledged\<close>

definition acked :: "notify_env \<Rightarrow> Target \<Rightarrow> http_outcome \<Rightarrow> bool" where
  "acked E t out = (case out of
      HttpResp code body \<Rightarrow>
        (if tg_Type t = ''pushover'' then code = 200 \<and> fst (pushover_reply E (take 4096 body)) = 1
         else 200 \<le> code \<and> code \<le> 299)
    | _ \<Rightarrow> False)"

lemma pushoverOutcome_ok:
  "pushoverOutcome E out = Ok () \<longleftrightarrow> (\<exists>body. out = HttpResp 200 body \<and> fst (pushover_reply E (take 4096 body)) = 1)"
  by (auto simp: pushoverOutcome_def split: http_outcome.splits prod.splits if_splits)

lemma campfireOutcome_ok: "campfireOutcome out = Ok () \<longleftrightarrow> (\<exists>code body. out = HttpResp code body \<and> 200 \<le> code \<and> code \<le> 299)"
  by (auto simp: campfireOutcome_def split: http_outcome.splits if_splits)

lemma sendPushover_ok:
  "sendPushover E C key s t title message link = Ok () \<longleftrightarrow>
     (\<exists>token user. Get C key ''pushover.app_token'' s = Ok token \<and> Get C key ''pushover.user_key'' s = Ok user
        \<and> token \<noteq> [] \<and> user \<noteq> [] \<and> request_ok E (PushoverBaseURL E @ ''/1/messages.json'')
        \<and> pushoverOutcome E (http_do E (pushoverRequest E (pushoverForm t token user title message link))) = Ok ())"
  by (auto simp: sendPushover_def pushoverRequest_def Let_def split: sum.splits)

lemma sendCampfire_ok:
  "sendCampfire E C key s roomID msg = Ok () \<longleftrightarrow>
     (\<exists>base botKey. Get C key ''campfire.base_url'' s = Ok base \<and> Get C key ''campfire.bot_key'' s = Ok botKey
        \<and> base \<noteq> [] \<and> botKey \<noteq> [] \<and> request_ok E (rq_url (campfireRequest base roomID botKey msg))
        \<and> campfireOutcome (http_do E (campfireRequest base roomID botKey msg)) = Ok ())"
  by (auto simp: sendCampfire_def Let_def split: sum.splits)

text \<open>
  Sending asks the HTTP client only for the one request: any client that answers that request in the same way gives the same result.
\<close>

lemma sendPushover_only:
  assumes "sendPushover E C key s t title message link = Ok ()"
  obtains token user where "Get C key ''pushover.app_token'' s = Ok token" "Get C key ''pushover.user_key'' s = Ok user" "token \<noteq> []" "user \<noteq> []"
    "pushoverOutcome E (http_do E (pushoverRequest E (pushoverForm t token user title message link))) = Ok ()"
    "\<And>h. h (pushoverRequest E (pushoverForm t token user title message link)) = http_do E (pushoverRequest E (pushoverForm t token user title message link))
       \<Longrightarrow> sendPushover (E\<lparr>http_do := h\<rparr>) C key s t title message link = Ok ()"
proof -
  have o: "pushoverOutcome (E\<lparr>http_do := h\<rparr>) = pushoverOutcome E" "pushoverRequest (E\<lparr>http_do := h\<rparr>) = pushoverRequest E" for h
    by (auto simp: fun_eq_iff pushoverOutcome_def pushoverRequest_def split: http_outcome.split)
  show thesis using assms unfolding sendPushover_ok by (elim exE conjE) (rule that, auto simp: sendPushover_ok o)
qed

lemma sendCampfire_only:
  assumes "sendCampfire E C key s roomID msg = Ok ()"
  obtains base botKey where "Get C key ''campfire.base_url'' s = Ok base" "Get C key ''campfire.bot_key'' s = Ok botKey" "base \<noteq> []" "botKey \<noteq> []"
    "campfireOutcome (http_do E (campfireRequest base roomID botKey msg)) = Ok ()"
    "\<And>h. h (campfireRequest base roomID botKey msg) = http_do E (campfireRequest base roomID botKey msg)
       \<Longrightarrow> sendCampfire (E\<lparr>http_do := h\<rparr>) C key s roomID msg = Ok ()"
  using assms unfolding sendCampfire_ok by (elim exE conjE) (rule that, auto simp: sendCampfire_ok)

lemma message_parts_env:
  "ParseTarget (E\<lparr>http_do := h\<rparr>) = ParseTarget E" "plainRows (E\<lparr>http_do := h\<rparr>) = plainRows E"
  "alertHTML (E\<lparr>http_do := h\<rparr>) = alertHTML E" "alertLink (E\<lparr>http_do := h\<rparr>) = alertLink E"
proof -
  have "fmtV (E\<lparr>http_do := h\<rparr>) c = fmtV E c" for c by (cases c) simp_all
  then have c: "compactRow (E\<lparr>http_do := h\<rparr>) = compactRow E" by (simp add: fun_eq_iff compactRow_def)
  show "ParseTarget (E\<lparr>http_do := h\<rparr>) = ParseTarget E" by (simp add: fun_eq_iff ParseTarget_def)
  show "plainRows (E\<lparr>http_do := h\<rparr>) = plainRows E" by (simp add: fun_eq_iff plainRows_def c)
  show "alertHTML (E\<lparr>http_do := h\<rparr>) = alertHTML E" by (simp add: fun_eq_iff alertHTML_def campfireHTML_def c)
  show "alertLink (E\<lparr>http_do := h\<rparr>) = alertLink E" by (simp add: fun_eq_iff alertLink_def warRoomLink_def)
qed

text \<open>
  C30: an alert counts as delivered only if exactly the request that its valid target and the stored
  settings name was answered with an explicit success. For Pushover this is the POST to the messages endpoint with the
  stored application token and user key, the alert's name and rows, and the target's device, priority and sound and
  the War Room link where they are set. For Campfire it is the POST of the alert's text to the target's room at the stored base
  URL under the stored bot key. No other answer of the network matters for the result, so a redirect, a refusal, a
  transport error, a missing or undecryptable setting or a bad target is an error.
\<close>

theorem delivered_only_acked:
  assumes "SendAlert E C key s now a res = Ok ()"
  shows "\<exists>t req link. ParseTarget E (al_Target a) = Ok t \<and> link = (if tg_WarRoom t \<and> PublicURL E \<noteq> [] then warRoomLink E (al_Query a) now else [])
    \<and> acked E t (http_do E req)
    \<and> (if tg_Type t = ''pushover''
       then \<exists>token user. Get C key ''pushover.app_token'' s = Ok token \<and> Get C key ''pushover.user_key'' s = Ok user \<and> token \<noteq> [] \<and> user \<noteq> []
         \<and> req = \<lparr>rq_verb = ''POST'', rq_url = PushoverBaseURL E @ ''/1/messages.json'', rq_type = ''application/x-www-form-urlencoded'',
             rq_body = form_encode E
               ([(''token'', token), (''user'', user), (''title'', flame @ '' '' @ al_Name a), (''message'', plainRows E res)]
                @ (if tg_Device t \<noteq> [] then [(''device'', tg_Device t)] else [])
                @ (if tg_Priority t \<noteq> 0 then [(''priority'', itoa (tg_Priority t))] else [])
                @ (if tg_Sound t \<noteq> [] then [(''sound'', tg_Sound t)] else [])
                @ (if link \<noteq> [] then [(''url'', link), (''url_title'', ''Open the War Room'')] else []))\<rparr>
       else tg_Type t = ''campfire''
         \<and> (\<exists>base botKey. Get C key ''campfire.base_url'' s = Ok base \<and> Get C key ''campfire.bot_key'' s = Ok botKey \<and> base \<noteq> [] \<and> botKey \<noteq> []
             \<and> req = \<lparr>rq_verb = ''POST'', rq_url = TrimSuffix base ''/'' @ ''/rooms/'' @ itoa (tg_RoomID t) @ ''/'' @ botKey @ ''/messages'',
                 rq_type = ''text/html; charset=utf-8'', rq_body = alertHTML E (al_Name a) link res\<rparr>))
    \<and> (\<forall>h. h req = http_do E req \<longrightarrow> SendAlert (E\<lparr>http_do := h\<rparr>) C key s now a res = Ok ())"
proof -
  from assms obtain t where t: "ParseTarget E (al_Target a) = Ok t" by (auto simp: SendAlert_def split: sum.splits)
  define link where "link = alertLink E t (al_Query a) now"
  from assms t consider
      (push) "tg_Type t = ''pushover''" "sendPushover E C key s t (flame @ '' '' @ al_Name a) (plainRows E res) link = Ok ()"
    | (camp) "tg_Type t = ''campfire''" "sendCampfire E C key s (tg_RoomID t) (alertHTML E (al_Name a) link res) = Ok ()"
    by (auto simp: SendAlert_def Let_def link_def split: if_splits)
  then show ?thesis
  proof cases
    case push
    from sendPushover_only [OF push(2)] obtain token user where
      g: "Get C key ''pushover.app_token'' s = Ok token" "Get C key ''pushover.user_key'' s = Ok user" "token \<noteq> []" "user \<noteq> []"
      and o: "pushoverOutcome E (http_do E (pushoverRequest E (pushoverForm t token user (flame @ '' '' @ al_Name a) (plainRows E res) link))) = Ok ()"
      and h: "\<And>h. h (pushoverRequest E (pushoverForm t token user (flame @ '' '' @ al_Name a) (plainRows E res) link))
           = http_do E (pushoverRequest E (pushoverForm t token user (flame @ '' '' @ al_Name a) (plainRows E res) link))
         \<Longrightarrow> sendPushover (E\<lparr>http_do := h\<rparr>) C key s t (flame @ '' '' @ al_Name a) (plainRows E res) link = Ok ()" by blast
    let ?req = "pushoverRequest E (pushoverForm t token user (flame @ '' '' @ al_Name a) (plainRows E res) link)"
    have "SendAlert (E\<lparr>http_do := f\<rparr>) C key s now a res = Ok ()" if "f ?req = http_do E ?req" for f
      using h [of f, OF that] push(1) t by (simp add: SendAlert_def message_parts_env link_def)
    moreover have "acked E t (http_do E ?req)" using o push(1) by (auto simp: acked_def pushoverOutcome_ok)
    ultimately show ?thesis using t g push(1)
      by (intro exI [of _ t] exI [of _ ?req] exI [of _ link]) (simp add: link_def alertLink_def pushoverRequest_def pushoverForm_def)
  next
    case camp
    from sendCampfire_only [OF camp(2)] obtain base botKey where
      g: "Get C key ''campfire.base_url'' s = Ok base" "Get C key ''campfire.bot_key'' s = Ok botKey" "base \<noteq> []" "botKey \<noteq> []"
      and o: "campfireOutcome (http_do E (campfireRequest base (tg_RoomID t) botKey (alertHTML E (al_Name a) link res))) = Ok ()"
      and h: "\<And>h. h (campfireRequest base (tg_RoomID t) botKey (alertHTML E (al_Name a) link res))
           = http_do E (campfireRequest base (tg_RoomID t) botKey (alertHTML E (al_Name a) link res))
         \<Longrightarrow> sendCampfire (E\<lparr>http_do := h\<rparr>) C key s (tg_RoomID t) (alertHTML E (al_Name a) link res) = Ok ()" by blast
    let ?req = "campfireRequest base (tg_RoomID t) botKey (alertHTML E (al_Name a) link res)"
    have "SendAlert (E\<lparr>http_do := f\<rparr>) C key s now a res = Ok ()" if "f ?req = http_do E ?req" for f
      using h [of f, OF that] camp(1) t by (simp add: SendAlert_def message_parts_env link_def)
    moreover have "acked E t (http_do E ?req)" using o camp(1) by (auto simp: acked_def campfireOutcome_ok)
    ultimately show ?thesis using t g camp(1)
      by (intro exI [of _ t] exI [of _ ?req] exI [of _ link]) (simp add: link_def alertLink_def campfireRequest_def)
  qed
qed

text \<open>
  What an error of a Campfire delivery tells does not depend on the bot key: it is a segment of
  the URL, and the URL of the transport error is dropped.
\<close>

lemma campfire_error_redacted:
  "campfireOutcome (UrlError op url cause) = campfireOutcome (UrlError op url' cause)"
  by (simp add: campfireOutcome_def)

definition notify_sample :: notify_env where
  "notify_sample =
     \<lparr>json_target = (\<lambda>raw. Some \<lparr>tg_Type = ''campfire'', tg_Device = [], tg_Priority = 0, tg_Sound = [], tg_RoomID = 7, tg_WarRoom = False\<rparr>),
      json_partial = (\<lambda>raw. \<lparr>tg_Type = [], tg_Device = [], tg_Priority = 0, tg_Sound = [], tg_RoomID = 0, tg_WarRoom = False\<rparr>),
      fmt_other = (\<lambda>c. ''?''), form_encode = (\<lambda>kv. concat (map snd kv)), request_ok = (\<lambda>u. True),
      http_do = (\<lambda>r. HttpResp 201 []), pushover_reply = (\<lambda>b. (0, [])), PushoverBaseURL = ''https://p'', PublicURL = []\<rparr>"

definition alert_sample :: Alert where
  "alert_sample = \<lparr>al_Name = ''errors'', al_Query = ''q'', al_CheckIntervalMs = 30000, al_CooldownMs = 60000, al_Target = ''{}'', al_Enabled = True,
     al_LastCheckedAt = None, al_LastFiredAt = None, al_CurrentlyFiring = False, al_LastError = None, al_LastErrorAt = None, al_CreatedAt = 0\<rparr>"

definition notify_settings :: settings where
  "notify_settings =
     [''campfire.base_url'' \<mapsto> \<lparr>st_value = ''http://c/'', st_encrypted = False, st_updated = 0\<rparr>,
      ''campfire.bot_key'' \<mapsto> \<lparr>st_value = ''k'', st_encrypted = False, st_updated = 0\<rparr>]"

definition hits_sample :: Result where
  "hits_sample = \<lparr>res_Columns = [''raw''], res_Rows = [[CText ''<boom>'']], res_Truncated = False\<rparr>"

theorem delivered_only_acked_witness:
  "SendAlert notify_sample cipher_sample [] notify_settings 0 alert_sample hits_sample = Ok ()
   \<and> SendAlert (notify_sample\<lparr>http_do := \<lambda>r. if rq_url r = ''http://c/rooms/7/k/messages'' then HttpResp 201 [] else OtherError ''down''\<rparr>)
       cipher_sample [] notify_settings 0 alert_sample hits_sample = Ok ()"
proof -
  have s: "SendAlert notify_sample cipher_sample [] notify_settings 0 alert_sample hits_sample = Ok ()"
    by (simp add: SendAlert_def ParseTarget_def notify_sample_def sendCampfire_def Get_def notify_settings_def campfireOutcome_def)
  have t: "ParseTarget notify_sample raw = Ok t \<Longrightarrow> tg_Type t = ''campfire'' \<and> tg_RoomID t = 7" for raw t
    by (auto simp: ParseTarget_def notify_sample_def)
  have g: "Get cipher_sample [] ''campfire.base_url'' notify_settings = Ok ''http://c/''" "Get cipher_sample [] ''campfire.bot_key'' notify_settings = Ok ''k''"
    by (simp_all add: Get_def notify_settings_def)
  have u: "TrimSuffix ''http://c/'' ''/'' @ ''/rooms/'' @ itoa 7 @ ''/'' @ ''k'' @ ''/messages'' = ''http://c/rooms/7/k/messages''" by code_simp
  have h: "http_do notify_sample r = HttpResp 201 []" for r by (simp add: notify_sample_def)
  from delivered_only_acked [OF s] s g u h show ?thesis by (auto dest!: t)
qed

end
