(* ===== verification/Due_Loop.thy ===== *)
theory Due_Loop
  imports Meta_Table
begin

text \<open>
  The master loop that \<open>services/alerts_evaluator.go\<close> and \<open>services/scraper.go\<close> share:
  one goroutine ticks, lists the enabled items, and for each one that is due and not in flight
  starts a goroutine, which works on the item as it was listed and then leaves the in-flight set.
  The atomic actions are the listing, one iteration of the tick's loop, the work of one goroutine
  and its exit; edits of the stored items interleave with all of them. \<open>'r\<close> is the item,
  \<open>'s\<close> the store and \<open>'o\<close> what the outside world answers during the work.
\<close>

record ('r, 's, 'o) duty =
  d_list :: "'s \<Rightarrow> (int \<times> 'r) list"
  d_last :: "'r \<Rightarrow> int option"
  d_interval :: "'r \<Rightarrow> int"
  d_work :: "'o \<Rightarrow> int \<Rightarrow> int \<Rightarrow> 'r \<Rightarrow> 's \<Rightarrow> 's"

datatype 'r goroutine = Working int 'r | Leaving int

fun g_id :: "'r goroutine \<Rightarrow> int" where
  "g_id (Working i r) = i"
| "g_id (Leaving i) = i"

record ('r, 's) loop_state =
  ls_store :: 's
  ls_pending :: "(int \<times> 'r) list"
  ls_now :: int
  ls_inflight :: "int list"
  ls_running :: "'r goroutine list"
  ls_stopped :: bool

definition new_loop :: "'s \<Rightarrow> ('r, 's) loop_state" where
  "new_loop st = \<lparr>ls_store = st, ls_pending = [], ls_now = 0, ls_inflight = [], ls_running = [], ls_stopped = False\<rparr>"

definition due :: "('r, 's, 'o) duty \<Rightarrow> int \<Rightarrow> 'r \<Rightarrow> bool" where
  "due D now r = (case d_last D r of None \<Rightarrow> True | Some t \<Rightarrow> \<not> i64 (now - t) < d_interval D r)"

definition t_list :: "('r, 's, 'o) duty \<Rightarrow> int \<Rightarrow> ('r, 's) loop_state \<Rightarrow> ('r, 's) loop_state option" where
  "t_list D now s =
     (if ls_stopped s \<or> ls_pending s \<noteq> [] then None
      else Some (s\<lparr>ls_pending := d_list D (ls_store s), ls_now := now\<rparr>))"

definition t_next :: "('r, 's, 'o) duty \<Rightarrow> ('r, 's) loop_state \<Rightarrow> ('r, 's) loop_state option" where
  "t_next D s =
     (case ls_pending s of
        [] \<Rightarrow> None
      | (i, r) # rest \<Rightarrow>
          if \<not> due D (ls_now s) r \<or> i \<in> set (ls_inflight s) then Some (s\<lparr>ls_pending := rest\<rparr>)
          else Some (s\<lparr>ls_pending := rest, ls_inflight := i # ls_inflight s, ls_running := ls_running s @ [Working i r]\<rparr>))"

definition g_work :: "('r, 's, 'o) duty \<Rightarrow> nat \<Rightarrow> 'o \<Rightarrow> int \<Rightarrow> ('r, 's) loop_state \<Rightarrow> ('r, 's) loop_state option" where
  "g_work D n out now s =
     (if n < length (ls_running s)
      then (case ls_running s ! n of
              Working i r \<Rightarrow> Some (s\<lparr>ls_store := d_work D out now i r (ls_store s), ls_running := (ls_running s)[n := Leaving i]\<rparr>)
            | Leaving i \<Rightarrow> None)
      else None)"

text \<open>The deferred calls: a panic of the work is recovered and ends here too.\<close>

definition g_exit :: "nat \<Rightarrow> ('r, 's) loop_state \<Rightarrow> ('r, 's) loop_state option" where
  "g_exit n s =
     (if n < length (ls_running s)
      then Some (s\<lparr>ls_inflight := removeAll (g_id (ls_running s ! n)) (ls_inflight s),
             ls_running := take n (ls_running s) @ drop (Suc n) (ls_running s)\<rparr>)
      else None)"

definition t_stop :: "('r, 's) loop_state \<Rightarrow> ('r, 's) loop_state option" where
  "t_stop s = (if ls_pending s = [] then Some (s\<lparr>ls_stopped := True\<rparr>) else None)"

datatype ('s, 'o) laction = LList int | LNext | LWork nat 'o int | LExit nat | LStop | LEdit "'s \<Rightarrow> 's"

fun dexec :: "('r, 's, 'o) duty \<Rightarrow> ('s, 'o) laction \<Rightarrow> ('r, 's) loop_state \<Rightarrow> ('r, 's) loop_state option" where
  "dexec D (LList now) s = t_list D now s"
| "dexec D LNext s = t_next D s"
| "dexec D (LWork n out now) s = g_work D n out now s"
| "dexec D (LExit n) s = g_exit n s"
| "dexec D LStop s = t_stop s"
| "dexec D (LEdit f) s = Some (s\<lparr>ls_store := f (ls_store s)\<rparr>)"

section \<open>One goroutine for each item\<close>

definition inflight_ok :: "('r, 's) loop_state \<Rightarrow> bool" where
  "inflight_ok s \<longleftrightarrow> distinct (map g_id (ls_running s)) \<and> set (ls_inflight s) = set (map g_id (ls_running s))"

lemma distinct_drop_nth:
  assumes "distinct xs" and "n < length xs"
  shows "distinct (take n xs @ drop (Suc n) xs) \<and> set (take n xs @ drop (Suc n) xs) = set xs - {xs ! n}"
proof -
  have "distinct (take n xs @ xs ! n # drop (Suc n) xs)" using assms by (simp add: id_take_nth_drop [symmetric])
  moreover have "set xs = set (take n xs @ xs ! n # drop (Suc n) xs)" using assms by (simp add: id_take_nth_drop [symmetric])
  ultimately show ?thesis by auto
qed

lemma map_update_same: "n < length xs \<Longrightarrow> f y = f (xs ! n) \<Longrightarrow> map f (xs[n := y]) = map f xs"
  by (metis list_update_id map_update nth_map length_map)

lemma g_work_ids:
  assumes "g_work D n out now s = Some s'"
  shows "map g_id (ls_running s') = map g_id (ls_running s) \<and> ls_inflight s' = ls_inflight s"
proof -
  from assms obtain i r where "n < length (ls_running s)" and "ls_running s ! n = Working i r"
    and "s' = s\<lparr>ls_store := d_work D out now i r (ls_store s), ls_running := (ls_running s)[n := Leaving i]\<rparr>"
    by (auto simp: g_work_def split: if_splits goroutine.splits)
  then show ?thesis by (simp add: map_update_same)
qed

lemma g_exit_inflight:
  assumes "g_exit n s = Some s'" and "inflight_ok s"
  shows "inflight_ok s'"
proof -
  let ?ids = "map g_id (ls_running s)"
  from assms(1) have n: "n < length ?ids" and i: "set (ls_inflight s') = set (ls_inflight s) - {?ids ! n}"
    and r: "map g_id (ls_running s') = take n ?ids @ drop (Suc n) ?ids"
    by (auto simp: g_exit_def take_map drop_map split: if_splits)
  from assms(2) have "distinct ?ids" and "set (ls_inflight s) = set ?ids" by (simp_all add: inflight_ok_def)
  with distinct_drop_nth [of ?ids n] n i show ?thesis unfolding inflight_ok_def r by simp
qed

lemma inflight_step:
  assumes "dexec D a s = Some s'" and "inflight_ok s"
  shows "inflight_ok s'"
proof (cases a)
  case LNext
  with assms show ?thesis by (auto simp: t_next_def inflight_ok_def split: list.splits if_splits)
next
  case (LWork n out now)
  with assms have "map g_id (ls_running s') = map g_id (ls_running s)" "ls_inflight s' = ls_inflight s"
    by (auto dest: g_work_ids)
  with assms(2) show ?thesis by (simp only: inflight_ok_def)
next
  case (LExit n)
  with assms show ?thesis by (auto intro: g_exit_inflight)
qed (use assms in \<open>auto simp: t_list_def t_stop_def inflight_ok_def split: if_splits\<close>)

lemma inflight_reachable: "reachable (dexec D) (new_loop st) s \<Longrightarrow> inflight_ok s"
proof (erule reachable_invariant)
  show "inflight_ok (new_loop st)" by (simp add: inflight_ok_def new_loop_def)
qed (rule inflight_step)

section \<open>A tick\<close>

text \<open>The whole handler \<open>tick\<close>, with nothing interleaved.\<close>

fun next_all :: "('r, 's, 'o) duty \<Rightarrow> nat \<Rightarrow> ('r, 's) loop_state \<Rightarrow> ('r, 's) loop_state" where
  "next_all D 0 s = s"
| "next_all D (Suc n) s = (case t_next D s of None \<Rightarrow> s | Some s' \<Rightarrow> next_all D n s')"

definition tick :: "('r, 's, 'o) duty \<Rightarrow> int \<Rightarrow> ('r, 's) loop_state \<Rightarrow> ('r, 's) loop_state" where
  "tick D now s = (case t_list D now s of None \<Rightarrow> s | Some s' \<Rightarrow> next_all D (length (ls_pending s')) s')"

text \<open>Specification: the items a tick starts.\<close>

definition startable :: "('r, 's, 'o) duty \<Rightarrow> int \<Rightarrow> int list \<Rightarrow> (int \<times> 'r) list \<Rightarrow> (int \<times> 'r) list" where
  "startable D now busy items = filter (\<lambda>(i, r). due D now r \<and> i \<notin> set busy) items"

lemma next_all_starts:
  assumes "distinct (map fst (ls_pending s))"
  shows "ls_running (next_all D (length (ls_pending s)) s) =
      ls_running s @ map (\<lambda>(i, r). Working i r) (startable D (ls_now s) (ls_inflight s) (ls_pending s))
    \<and> ls_pending (next_all D (length (ls_pending s)) s) = []"
  using assms
proof (induction "ls_pending s" arbitrary: s)
  case Nil
  then show ?case by (simp add: startable_def)
next
  case (Cons x rest)
  obtain i r where x: "x = (i, r)" by (cases x)
  have p: "ls_pending s = (i, r) # rest" using Cons.hyps(2) x by simp
  show ?case
  proof (cases "\<not> due D (ls_now s) r \<or> i \<in> set (ls_inflight s)")
    case True
    with p have t: "t_next D s = Some (s\<lparr>ls_pending := rest\<rparr>)" by (simp add: t_next_def)
    from True p Cons.hyps(1) [of "s\<lparr>ls_pending := rest\<rparr>"] Cons.prems show ?thesis
      by (auto simp: t startable_def)
  next
    case False
    let ?s = "s\<lparr>ls_pending := rest, ls_inflight := i # ls_inflight s, ls_running := ls_running s @ [Working i r]\<rparr>"
    from False p have t: "t_next D s = Some ?s" by (simp add: t_next_def)
    have "filter (\<lambda>(j, r). due D (ls_now s) r \<and> j \<notin> set (i # ls_inflight s)) rest =
        filter (\<lambda>(j, r). due D (ls_now s) r \<and> j \<notin> set (ls_inflight s)) rest"
      using Cons.prems p by (intro filter_cong) force+
    with False p Cons.hyps(1) [of ?s] Cons.prems show ?thesis
      by (auto simp: t startable_def)
  qed
qed

section \<open>The contract of the items\<close>

text \<open>
  What the loop relies on: the list gives the stored items, each once, and the work on an item
  records its time in that item, whatever its outcome, and leaves the others alone.
\<close>

locale due_items =
  fixes D :: "('r, 's, 'o) duty"
    and item :: "int \<Rightarrow> 's \<Rightarrow> 'r option"
    and enabled :: "'r \<Rightarrow> bool"
    and wf :: "'s \<Rightarrow> bool"
  assumes listed: "wf s \<Longrightarrow> (i, r) \<in> set (d_list D s) \<longleftrightarrow> item i s = Some r \<and> enabled r"
    and listed_once: "wf s \<Longrightarrow> distinct (map fst (d_list D s))"
    and work_marks: "item i s = Some r0 \<Longrightarrow>
      \<exists>r1. item i (d_work D out now i r s) = Some r1 \<and> d_last D r1 = Some now \<and> d_interval D r1 = d_interval D r0"
    and work_others: "j \<noteq> i \<Longrightarrow> item j (d_work D out now i r s) = item j s"
begin

lemma tick_exact:
  assumes "wf (ls_store s)" and "ls_pending s = []" and "\<not> ls_stopped s"
  shows "Working i r \<in> set (ls_running (tick D now s)) \<longleftrightarrow>
    Working i r \<in> set (ls_running s)
    \<or> item i (ls_store s) = Some r \<and> enabled r \<and> due D now r \<and> i \<notin> set (ls_inflight s)"
proof -
  let ?s = "s\<lparr>ls_pending := d_list D (ls_store s), ls_now := now\<rparr>"
  have "tick D now s = next_all D (length (ls_pending ?s)) ?s" using assms by (simp add: tick_def t_list_def)
  moreover have "distinct (map fst (ls_pending ?s))" using listed_once assms(1) by simp
  ultimately have "ls_running (tick D now s) = ls_running s @ map (\<lambda>(i, r). Working i r) (startable D now (ls_inflight s) (d_list D (ls_store s)))"
    using next_all_starts [of ?s D] by simp
  then show ?thesis using listed [OF assms(1), of i r] by (auto simp: startable_def)
qed

text \<open>An item worked on at \<open>t\<close> is not due for a listing read afterwards, before its interval has passed.\<close>

lemma work_not_due:
  assumes "wf (d_work D out t i r s)" and "item i s = Some r0"
    and "(i, r1) \<in> set (d_list D (d_work D out t i r s))" and "due D now r1"
  shows "i64 (now - t) \<ge> d_interval D r0"
  using work_marks [OF assms(2), of out t r] listed [OF assms(1), of i r1] assms(3,4) by (auto simp: due_def)

end

end
