(* ===== verification/Alerts.thy ===== *)
theory Alerts
  imports Notify Rewrite Due_Loop
begin

text \<open>
  Alerts: the stored definitions (\<open>services/alerts.go\<close>) and their evaluation
  (\<open>services/alerts_evaluator.go\<close>), on the shared loop of \<open>Due_Loop\<close>. An alert's id is
  its key in the table. The notifier is the interface \<open>AlertNotifier\<close>: a function of the
  alert and the rows; \<open>as_sent\<close> is a ghost field, the log of the calls of \<open>SendAlert\<close> that came back without an error,
  with the alert's id and the time of the evaluation. Clocks are arguments. Database errors, which are only logged, are not
  modelled.
\<close>

record alert_env =
  ae_sql :: sqlp
  ae_notify :: notify_env
  ae_verr :: "verror \<Rightarrow> string"
  ae_nerr :: "notify_error \<Rightarrow> string"
  ae_json :: "(string \<rightharpoonup> cell) list \<Rightarrow> string"

record Firing =
  fi_alert :: int
  fi_firedAt :: int
  fi_matched :: string
  fi_sent :: bool

record alert_store =
  as_alerts :: "Alert table"
  as_firings :: "Firing table"
  as_sent :: "(int \<times> int) list"

datatype alert_error = AName | AQuery verror | AInterval | ACooldown | ATarget notify_error | ANotFound

definition MinCheckIntervalMs :: int where "MinCheckIntervalMs = 30000"

section \<open>Stored alerts\<close>

definition validateAlert :: "alert_env \<Rightarrow> Alert \<Rightarrow> (alert_error, Alert) result" where
  "validateAlert A a0 =
     (let a = a0\<lparr>al_Name := TrimSpace (al_Name a0)\<rparr>
      in if al_Name a = [] \<or> length (al_Name a) > 100 then Err AName
         else case ValidateAll (ae_sql A) (al_Query a) of
           Inl e \<Rightarrow> Err (AQuery e)
         | Inr v \<Rightarrow>
             if al_CheckIntervalMs a < MinCheckIntervalMs then Err AInterval
             else if al_CooldownMs a < 0 then Err ACooldown
             else (case ParseTarget (ae_notify A) (al_Target a) of Inl e \<Rightarrow> Err (ATarget e) | Inr t \<Rightarrow> Ok a))"

definition CreateAlert :: "alert_env \<Rightarrow> int \<Rightarrow> Alert \<Rightarrow> alert_store \<Rightarrow> (alert_error, alert_store) result" where
  "CreateAlert A now a0 st =
     (case validateAlert A a0 of
        Inl e \<Rightarrow> Err e
      | Inr a \<Rightarrow> Ok (st\<lparr>as_alerts := snd (row_insert
          (a\<lparr>al_LastCheckedAt := None, al_LastFiredAt := None, al_CurrentlyFiring := False, al_LastError := None,
             al_LastErrorAt := None, al_CreatedAt := now\<rparr>) (as_alerts st))\<rparr>))"

definition UpdateAlert :: "alert_env \<Rightarrow> int \<Rightarrow> Alert \<Rightarrow> alert_store \<Rightarrow> (alert_error, alert_store) result" where
  "UpdateAlert A i a0 st =
     (case validateAlert A a0 of
        Inl e \<Rightarrow> Err e
      | Inr a \<Rightarrow>
          if row_get i (as_alerts st) = None then Err ANotFound
          else Ok (st\<lparr>as_alerts := row_update i (\<lambda>r. r\<lparr>al_Name := al_Name a, al_Query := al_Query a,
             al_CheckIntervalMs := al_CheckIntervalMs a, al_CooldownMs := al_CooldownMs a, al_Target := al_Target a,
             al_Enabled := al_Enabled a\<rparr>) (as_alerts st)\<rparr>))"

text \<open>The firings of a deleted alert go with it: \<open>ON DELETE CASCADE\<close>.\<close>

definition DeleteAlert :: "int \<Rightarrow> alert_store \<Rightarrow> alert_store" where
  "DeleteAlert i st = st\<lparr>as_alerts := row_delete i (as_alerts st), as_firings := filter (\<lambda>(k, f). fi_alert f \<noteq> i) (as_firings st)\<rparr>"

definition GetAlert :: "int \<Rightarrow> alert_store \<Rightarrow> Alert option" where
  "GetAlert i st = row_get i (as_alerts st)"

definition ListAlerts :: "alert_store \<Rightarrow> (int \<times> Alert) list" where
  "ListAlerts st = newest_first al_CreatedAt (as_alerts st)"

definition ListEnabledAlerts :: "alert_store \<Rightarrow> (int \<times> Alert) list" where
  "ListEnabledAlerts st = newest_first al_CreatedAt (filter (\<lambda>(i, a). al_Enabled a) (as_alerts st))"

definition evalRow :: "bool \<Rightarrow> int option \<Rightarrow> string option \<Rightarrow> int \<Rightarrow> int \<Rightarrow> Alert \<Rightarrow> Alert" where
  "evalRow firing firedAt evalErr checkedAt errNow r =
     r\<lparr>al_CurrentlyFiring := firing, al_LastCheckedAt := Some checkedAt,
       al_LastFiredAt := (case firedAt of Some t \<Rightarrow> Some t | None \<Rightarrow> al_LastFiredAt r),
       al_LastError := evalErr, al_LastErrorAt := map_option (\<lambda>_. errNow) evalErr\<rparr>"

definition UpdateEval :: "int \<Rightarrow> bool \<Rightarrow> int option \<Rightarrow> string option \<Rightarrow> int \<Rightarrow> int \<Rightarrow> alert_store \<Rightarrow> alert_store" where
  "UpdateEval i firing firedAt evalErr checkedAt errNow st =
     st\<lparr>as_alerts := row_update i (evalRow firing firedAt evalErr checkedAt errNow) (as_alerts st)\<rparr>"

text \<open>The foreign key refuses a firing of an alert that is gone; the error is logged.\<close>

definition RecordFiring :: "int \<Rightarrow> int \<Rightarrow> string \<Rightarrow> bool \<Rightarrow> alert_store \<Rightarrow> alert_store" where
  "RecordFiring i firedAt matched sent st =
     (if row_get i (as_alerts st) = None then st
      else st\<lparr>as_firings := snd (row_insert \<lparr>fi_alert = i, fi_firedAt = firedAt, fi_matched = matched, fi_sent = sent\<rparr> (as_firings st))\<rparr>)"

section \<open>Evaluation\<close>

definition auditMaxRows :: nat where "auditMaxRows = 20"
definition auditMaxValueLen :: nat where "auditMaxValueLen = 200"

fun auditValue :: "cell \<Rightarrow> cell" where
  "auditValue (CText s) = CText (if length s > auditMaxValueLen then truncateAtRune s auditMaxValueLen @ ellipsis else s)"
| "auditValue c = c"

text \<open>A column that occurs twice keeps its last value.\<close>

definition matchedRowsPayload :: "Result \<Rightarrow> (string \<rightharpoonup> cell) list" where
  "matchedRowsPayload res =
     map (\<lambda>row. map_of (rev (zip (res_Columns res) (map auditValue row)))) (take (min (length (res_Rows res)) auditMaxRows) (res_Rows res))"

definition cooldownPassed :: "int \<Rightarrow> Alert \<Rightarrow> bool" where
  "cooldownPassed now a = (case al_LastFiredAt a of None \<Rightarrow> True | Some t \<Rightarrow> i64 (now - t) \<ge> al_CooldownMs a)"

text \<open>What the world answers during one evaluation.\<close>

record eval_world =
  ew_rows :: row_source
  ew_send :: "Alert \<Rightarrow> Result \<Rightarrow> (notify_error, unit) result"
  ew_errNow :: int

definition recordError :: "eval_world \<Rightarrow> int \<Rightarrow> Alert \<Rightarrow> string \<Rightarrow> int \<Rightarrow> alert_store \<Rightarrow> alert_store" where
  "recordError W i a msg now = UpdateEval i (al_CurrentlyFiring a) None (Some msg) now (ew_errNow W)"

text \<open>The call of the notifier, with its entry in the log.\<close>

definition sendVia :: "eval_world \<Rightarrow> int \<Rightarrow> int \<Rightarrow> Alert \<Rightarrow> Result \<Rightarrow> alert_store \<Rightarrow> (notify_error, unit) result \<times> alert_store" where
  "sendVia W now i a res st =
     (case ew_send W a res of Inl e \<Rightarrow> (Err e, st) | Inr _ \<Rightarrow> (Ok (), st\<lparr>as_sent := as_sent st @ [(i, now)]\<rparr>))"

definition notifyAlert :: "alert_env \<Rightarrow> eval_world \<Rightarrow> int \<Rightarrow> int \<Rightarrow> Alert \<Rightarrow> Result \<Rightarrow> alert_store \<Rightarrow> alert_store" where
  "notifyAlert A W now i a res st =
     (case sendVia W now i a res st of (sent, st0) \<Rightarrow>
        let st1 = RecordFiring i now (ae_json A (matchedRowsPayload res)) (sent = Ok ()) st0
        in case sent of
           Inl e \<Rightarrow> UpdateEval i True None (Some (''notification failed: '' @ ae_nerr A e)) now (ew_errNow W) st1
         | Inr _ \<Rightarrow> UpdateEval i True (Some now) None now (ew_errNow W) st1)"

definition evaluate :: "alert_env \<Rightarrow> eval_world \<Rightarrow> int \<Rightarrow> int \<Rightarrow> Alert \<Rightarrow> alert_store \<Rightarrow> alert_store" where
  "evaluate A W now i a st =
     (case ValidateAll (ae_sql A) (al_Query a) of
        Inl e \<Rightarrow> recordError W i a (ae_verr A e) now st
      | Inr v \<Rightarrow>
         (case Execute (ew_rows W) of
            (_, Some e) \<Rightarrow> recordError W i a (''query failed: '' @ e) now st
          | (None, None) \<Rightarrow> st
          | (Some res, None) \<Rightarrow>
              if res_Rows res = [] then UpdateEval i False None None now (ew_errNow W) st
              else if \<not> cooldownPassed now a then UpdateEval i True None None now (ew_errNow W) st
              else notifyAlert A W now i a res st))"

definition alertDuty :: "alert_env \<Rightarrow> (Alert, alert_store, eval_world) duty" where
  "alertDuty A = \<lparr>d_list = ListEnabledAlerts, d_last = al_LastCheckedAt, d_interval = al_CheckIntervalMs, d_work = evaluate A\<rparr>"

lemma Execute_some: "Execute src \<noteq> (None, None)"
  by (auto simp: Execute_def split: option.splits sum.splits)

lemma alert_at_UpdateEval:
  "row_get j (as_alerts (UpdateEval i f ft e c en st)) =
     (if j = i then map_option (evalRow f ft e c en) (row_get j (as_alerts st)) else row_get j (as_alerts st))"
  by (simp add: UpdateEval_def meta.get_update)

lemma alerts_RecordFiring [simp]: "as_alerts (RecordFiring i t m b st) = as_alerts st"
  by (simp add: RecordFiring_def)

text \<open>Every evaluation is one update of the alert's row.\<close>

lemma evaluate_row:
  "\<exists>f ft e. \<forall>j. row_get j (as_alerts (evaluate A W now i a st)) =
     (if j = i then map_option (evalRow f ft e now (ew_errNow W)) (row_get j (as_alerts st)) else row_get j (as_alerts st))"
proof -
  consider (inv) e where "evaluate A W now i a st = recordError W i a e now st"
    | (quiet) f where "evaluate A W now i a st = UpdateEval i f None None now (ew_errNow W) st"
    | (notify) res where "evaluate A W now i a st = notifyAlert A W now i a res st"
    using Execute_some [of "ew_rows W"] unfolding evaluate_def
    by (fastforce split: sum.splits prod.splits option.splits)
  then show ?thesis
  proof cases
    case inv
    then show ?thesis by (auto simp: recordError_def alert_at_UpdateEval)
  next
    case quiet
    then show ?thesis by (auto simp: alert_at_UpdateEval)
  next
    case notify
    then show ?thesis by (cases "ew_send W a res") (auto simp: notifyAlert_def sendVia_def Let_def alert_at_UpdateEval)
  qed
qed

lemma evalRow_simps [simp]:
  "al_LastCheckedAt (evalRow f ft e c en r) = Some c" "al_CheckIntervalMs (evalRow f ft e c en r) = al_CheckIntervalMs r"
  "al_CooldownMs (evalRow f ft e c en r) = al_CooldownMs r" "al_Query (evalRow f ft e c en r) = al_Query r"
  "al_Name (evalRow f ft e c en r) = al_Name r" "al_Target (evalRow f ft e c en r) = al_Target r"
  "al_LastFiredAt (evalRow f ft e c en r) = (case ft of Some t \<Rightarrow> Some t | None \<Rightarrow> al_LastFiredAt r)"
  "al_CurrentlyFiring (evalRow f ft e c en r) = f" "al_Enabled (evalRow f ft e c en r) = al_Enabled r"
  by (simp_all add: evalRow_def)

interpretation alert_items: due_items "alertDuty A" "\<lambda>i st. row_get i (as_alerts st)" al_Enabled "\<lambda>st. keyed (as_alerts st)" for A
proof
  show "(i, r) \<in> set (d_list (alertDuty A) s) \<longleftrightarrow> row_get i (as_alerts s) = Some r \<and> al_Enabled r"
    if "keyed (as_alerts s)" for s i r
    using that by (auto simp: alertDuty_def ListEnabledAlerts_def row_get_mem)
  show "distinct (map fst (d_list (alertDuty A) s))" if "keyed (as_alerts s)" for s
    using that keyed_filter keyed_newest_first unfolding keyed_def [symmetric] by (simp add: alertDuty_def ListEnabledAlerts_def)
  show "\<exists>r1. row_get i (as_alerts (d_work (alertDuty A) out now i r s)) = Some r1 \<and> d_last (alertDuty A) r1 = Some now
      \<and> d_interval (alertDuty A) r1 = d_interval (alertDuty A) r0"
    if "row_get i (as_alerts s) = Some r0" for i s r0 out now r
    using evaluate_row [of A out now i r s] that by (auto simp: alertDuty_def)
  show "row_get j (as_alerts (d_work (alertDuty A) out now i r s)) = row_get j (as_alerts s)" if "j \<noteq> i" for j i out now r s
    using evaluate_row [of A out now i r s] that by (auto simp: alertDuty_def)
qed

section \<open>The cooldown\<close>

text \<open>The times at which notifications of alert \<open>i\<close> were sent and acknowledged, in the order of the calls.\<close>

definition sentTimes :: "int \<Rightarrow> alert_store \<Rightarrow> int list" where
  "sentTimes i st = map snd (filter (\<lambda>(j, t). j = i) (as_sent st))"


lemma sent_frame [simp]:
  "as_sent (UpdateEval i f ft e c en st) = as_sent st" "as_sent (RecordFiring i t m b st) = as_sent st"
  by (simp_all add: UpdateEval_def RecordFiring_def)








section \<open>The stored alerts stay valid\<close>

definition alert_ok :: "alert_env \<Rightarrow> Alert \<Rightarrow> bool" where
  "alert_ok A a \<longleftrightarrow> al_Name a \<noteq> [] \<and> length (al_Name a) \<le> 100 \<and> \<not> isl (ValidateAll (ae_sql A) (al_Query a))
     \<and> MinCheckIntervalMs \<le> al_CheckIntervalMs a \<and> 0 \<le> al_CooldownMs a \<and> \<not> isl (ParseTarget (ae_notify A) (al_Target a))"

definition alerts_inv :: "alert_env \<Rightarrow> alert_store \<Rightarrow> bool" where
  "alerts_inv A st \<longleftrightarrow> keyed (as_alerts st) \<and> keyed (as_firings st)
     \<and> (\<forall>i a. row_get i (as_alerts st) = Some a \<longrightarrow> alert_ok A a)
     \<and> (\<forall>(k, f) \<in> set (as_firings st). row_get (fi_alert f) (as_alerts st) \<noteq> None)"

datatype alert_op = ACreate int Alert | AUpdate int Alert | ADelete int | AEval eval_world int int Alert

text \<open>A refused operation leaves the store as it is. An evaluation may work on any earlier copy of the alert.\<close>

fun alert_exec :: "alert_env \<Rightarrow> alert_op \<Rightarrow> alert_store \<Rightarrow> alert_store option" where
  "alert_exec A (ACreate now a) st = (case CreateAlert A now a st of Inl e \<Rightarrow> None | Inr st' \<Rightarrow> Some st')"
| "alert_exec A (AUpdate i a) st = (case UpdateAlert A i a st of Inl e \<Rightarrow> None | Inr st' \<Rightarrow> Some st')"
| "alert_exec A (ADelete i) st = Some (DeleteAlert i st)"
| "alert_exec A (AEval W now i a) st = Some (evaluate A W now i a st)"

lemma validateAlert_ok: "validateAlert A a0 = Ok a \<Longrightarrow> alert_ok A a \<and> a = a0\<lparr>al_Name := TrimSpace (al_Name a0)\<rparr>"
  by (auto simp: validateAlert_def alert_ok_def Let_def split: if_splits sum.splits)

lemma alert_ok_update:
  "alert_ok A a \<Longrightarrow> alert_ok A (r\<lparr>al_Name := al_Name a, al_Query := al_Query a, al_CheckIntervalMs := al_CheckIntervalMs a,
     al_CooldownMs := al_CooldownMs a, al_Target := al_Target a, al_Enabled := e\<rparr>)"
  by (simp add: alert_ok_def)

lemma alert_ok_evalRow [simp]: "alert_ok A (evalRow f ft e c en r) = alert_ok A r"
  by (simp add: alert_ok_def)

lemma alerts_inv_create:
  assumes "CreateAlert A now a0 st = Ok st'" and "alerts_inv A st"
  shows "alerts_inv A st'"
proof -
  from assms(1) obtain a where a: "validateAlert A a0 = Ok a" and st': "st' = st\<lparr>as_alerts := snd (row_insert
          (a\<lparr>al_LastCheckedAt := None, al_LastFiredAt := None, al_CurrentlyFiring := False, al_LastError := None,
             al_LastErrorAt := None, al_CreatedAt := now\<rparr>) (as_alerts st))\<rparr>"
    by (auto simp: CreateAlert_def split: sum.splits)
  have "row_get j (as_alerts st') \<noteq> None" if "row_get j (as_alerts st) \<noteq> None" for j
    using that by (auto simp: st' meta.get_insert)
  with validateAlert_ok [OF a] assms(2) show ?thesis
    unfolding alerts_inv_def by (auto simp: st' meta.get_insert alert_ok_def split: if_splits)
qed

lemma alerts_inv_update:
  assumes "UpdateAlert A i a0 st = Ok st'" and "alerts_inv A st"
  shows "alerts_inv A st'"
proof -
  from assms(1) obtain a where a: "validateAlert A a0 = Ok a" and st': "st' = st\<lparr>as_alerts := row_update i (\<lambda>r. r\<lparr>al_Name := al_Name a, al_Query := al_Query a,
             al_CheckIntervalMs := al_CheckIntervalMs a, al_CooldownMs := al_CooldownMs a, al_Target := al_Target a,
             al_Enabled := al_Enabled a\<rparr>) (as_alerts st)\<rparr>"
    by (auto simp: UpdateAlert_def split: sum.splits if_splits)
  have "row_get j (as_alerts st') \<noteq> None" if "row_get j (as_alerts st) \<noteq> None" for j
    using that by (auto simp: st' meta.get_update)
  with validateAlert_ok [OF a, THEN conjunct1] assms(2) show ?thesis
    unfolding alerts_inv_def by (auto simp: st' meta.get_update alert_ok_update split: if_splits)
qed

lemma alerts_inv_delete: "alerts_inv A st \<Longrightarrow> alerts_inv A (DeleteAlert i st)"
  by (auto simp: alerts_inv_def DeleteAlert_def meta.get_delete keyed_delete keyed_filter split: if_splits)

lemma alerts_inv_UpdateEval: "alerts_inv A st \<Longrightarrow> alerts_inv A (UpdateEval i f ft e c en st)"
  by (auto simp: alerts_inv_def UpdateEval_def meta.get_update split: if_splits)

lemma alerts_inv_RecordFiring: "alerts_inv A st \<Longrightarrow> alerts_inv A (RecordFiring i t m b st)"
  by (auto simp: alerts_inv_def RecordFiring_def row_insert_def split: if_splits)
    (metis keyed_insert row_insert_def snd_conv)

lemma alerts_inv_sent [simp]: "alerts_inv A (st\<lparr>as_sent := l\<rparr>) = alerts_inv A st"
  by (simp add: alerts_inv_def)

lemma alerts_inv_evaluate: "alerts_inv A st \<Longrightarrow> alerts_inv A (evaluate A W now i a st)"
  by (auto simp: evaluate_def recordError_def notifyAlert_def sendVia_def Let_def alerts_inv_UpdateEval alerts_inv_RecordFiring
      split: sum.splits prod.splits option.splits)

text \<open>
  In every store reached by creations, edits and deletions of alerts and by evaluations, stale
  or not, ids are distinct, every stored alert has passed validation (so its evaluation never
  fails on its query text or target) and every audited firing belongs to a stored alert.
\<close>

theorem alerts_stay_valid:
  assumes "reachable (alert_exec A) \<lparr>as_alerts = [], as_firings = [], as_sent = []\<rparr> st"
  shows "alerts_inv A st"
  using assms
proof (rule reachable_invariant)
  show "alerts_inv A \<lparr>as_alerts = [], as_firings = [], as_sent = []\<rparr>" by (simp add: alerts_inv_def row_get_def)
  show "alerts_inv A s'" if "alerts_inv A s" "alert_exec A a s = Some s'" for a s s'
    using that by (cases a)
      (auto intro: alerts_inv_create alerts_inv_update alerts_inv_delete alerts_inv_evaluate split: sum.splits)
qed

section \<open>The evaluator\<close>

text \<open>
  C29: whatever ticks, evaluations, exits and edits interleave, no alert is evaluated by two
  goroutines at a time, and the in-flight set holds exactly the alerts under evaluation.
\<close>

theorem evaluator_exclusive:
  assumes "reachable (dexec (alertDuty A)) (new_loop st) s"
  shows "distinct (map g_id (ls_running s)) \<and> set (ls_inflight s) = set (map g_id (ls_running s))"
  using inflight_reachable [OF assms] by (simp add: inflight_ok_def)

text \<open>
  A tick with nothing interleaved starts exactly the stored alerts that are enabled, due and
  not in flight, each on its stored row.
\<close>

theorem evaluator_tick_exact:
  assumes "keyed (as_alerts (ls_store s))" and "ls_pending s = []" and "\<not> ls_stopped s"
  shows "Working i a \<in> set (ls_running (tick (alertDuty A) now s)) \<longleftrightarrow>
    Working i a \<in> set (ls_running s)
    \<or> row_get i (as_alerts (ls_store s)) = Some a \<and> al_Enabled a
      \<and> (\<forall>t. al_LastCheckedAt a = Some t \<longrightarrow> al_CheckIntervalMs a \<le> i64 (now - t)) \<and> i \<notin> set (ls_inflight s)"
  using alert_items.tick_exact [OF assms] by (auto simp: due_def alertDuty_def split: option.splits)

section \<open>Samples\<close>

definition alert_env_sample :: alert_env where
  "alert_env_sample = \<lparr>ae_sql = sqlp_sample, ae_notify = notify_sample, ae_verr = (\<lambda>_. ''invalid''), ae_nerr = (\<lambda>_. ''failed''),
     ae_json = (\<lambda>_. ''[]'')\<rparr>"

definition world_sample :: eval_world where
  "world_sample = \<lparr>ew_rows = \<lparr>rs_start = None, rs_columns = Inr [''raw''], rs_rows = [Inr [CText ''boom'']], rs_err = None\<rparr>,
     ew_send = (\<lambda>a res. Ok ()), ew_errNow = 0\<rparr>"

definition alert_store_sample :: alert_store where
  "alert_store_sample = \<lparr>as_alerts = [(1, alert_sample)], as_firings = [], as_sent = []\<rparr>"

lemma sample_query_ok:
  "ValidateAll (ae_sql alert_env_sample) q = Ok (validated_sample\<lparr>v_stmt := clampLimit stmt_sample\<rparr>)"
  by (simp add: ValidateAll_def alert_env_sample_def sample_validates_in)

lemma sample_hits: "Execute (ew_rows world_sample) = (Some \<lparr>res_Columns = [''raw''], res_Rows = [[CText ''boom'']], res_Truncated = False\<rparr>, None)"
  by (simp add: Execute_def world_sample_def MaxRows_def MaxResultBytes_def row_bytes_def)


lemmas alert_eval = sample_query_ok sample_hits evaluate_def notifyAlert_def sendVia_def sentTimes_def UpdateEval_def RecordFiring_def
  cooldownPassed_def row_get_def row_update_def evalRow_def i64_def


lemma sample_validates: "validateAlert alert_env_sample alert_sample = Ok alert_sample"
proof -
  have "TrimSpace ''errors'' = ''errors''" by code_simp
  moreover have "ParseTarget (ae_notify alert_env_sample) raw \<noteq> Err e" for raw e
    by (simp add: ParseTarget_def alert_env_sample_def notify_sample_def)
  ultimately show ?thesis
    by (auto simp: validateAlert_def sample_query_ok alert_sample_def MinCheckIntervalMs_def split: sum.splits)
qed

theorem alerts_stay_valid_witness:
  "\<exists>st. run (alert_exec alert_env_sample) [ACreate 5 alert_sample, AEval world_sample 100000 1 alert_sample, ADelete 2]
      \<lparr>as_alerts = [], as_firings = [], as_sent = []\<rparr> = Some st \<and> alerts_inv alert_env_sample st"
proof -
  obtain st where st: "run (alert_exec alert_env_sample) [ACreate 5 alert_sample, AEval world_sample 100000 1 alert_sample, ADelete 2]
      \<lparr>as_alerts = [], as_firings = [], as_sent = []\<rparr> = Some st"
    by (simp add: CreateAlert_def sample_validates)
  then have "reachable (alert_exec alert_env_sample) \<lparr>as_alerts = [], as_firings = [], as_sent = []\<rparr> st"
    unfolding reachable_run by blast
  from alerts_stay_valid [OF this] st show ?thesis by blast
qed

text \<open>
  The cooldown does need the stored row: an alert listed by a tick while its evaluation is still
  running, and reached by the loop after that evaluation has left, is evaluated again on the row
  of before, and notifies again at once.
\<close>

definition stale_trace :: "(alert_store, eval_world) laction list" where
  "stale_trace = [LList 100000, LNext, LList 101000, LWork 0 world_sample 101001, LExit 0, LNext, LWork 0 world_sample 101002]"

theorem stale_snapshot_notifies_again:
  "\<exists>s. run (dexec (alertDuty alert_env_sample)) stale_trace (new_loop alert_store_sample) = Some s
    \<and> map (\<lambda>(k, f). (fi_firedAt f, fi_sent f)) (as_firings (ls_store s)) = [(101001, True), (101002, True)]
    \<and> al_CooldownMs alert_sample = 60000"
proof -
  have send: "ew_send world_sample = (\<lambda>a res. Ok ())" by (simp add: world_sample_def)
  show ?thesis
    by (simp add: alert_eval send stale_trace_def new_loop_def alert_store_sample_def alert_sample_def alertDuty_def t_list_def t_next_def
        g_work_def g_exit_def due_def ListEnabledAlerts_def newest_first_def row_insert_def next_rowid_def)
qed

definition tick_sample :: "(Alert, alert_store) loop_state" where
  "tick_sample = new_loop alert_store_sample"

theorem evaluator_exclusive_witness:
  "\<exists>s. run (dexec (alertDuty alert_env_sample)) stale_trace (new_loop alert_store_sample) = Some s
    \<and> distinct (map g_id (ls_running s))"
proof -
  obtain s where s: "run (dexec (alertDuty alert_env_sample)) stale_trace (new_loop alert_store_sample) = Some s"
    using stale_snapshot_notifies_again by blast
  then have "reachable (dexec (alertDuty alert_env_sample)) (new_loop alert_store_sample) s" by (auto simp: reachable_run)
  from evaluator_exclusive [OF this] s show ?thesis by blast
qed

theorem evaluator_tick_exact_witness:
  "Working 1 alert_sample \<in> set (ls_running (tick (alertDuty alert_env_sample) 100000 tick_sample))"
proof -
  have "keyed (as_alerts (ls_store tick_sample))" "ls_pending tick_sample = []" "\<not> ls_stopped tick_sample"
    by (simp_all add: tick_sample_def new_loop_def alert_store_sample_def keyed_def)
  from evaluator_tick_exact [OF this, of 1 alert_sample alert_env_sample 100000] show ?thesis
    by (simp add: tick_sample_def new_loop_def alert_store_sample_def row_get_def alert_sample_def)
qed

end
