(* ===== verification/Scrape.thy ===== *)
theory Scrape
  imports Notify Metrics_Pipeline Due_Loop
begin

text \<open>
  Prometheus scraping: the stored targets (\<open>services/scrapetargets.go\<close>) and the pull loop
  (\<open>services/scraper.go\<close>), on the shared loop of \<open>Due_Loop\<close>. \<open>url.Parse\<close>, the HTTP
  client, the exposition-format parser and JSON encoding are parameters; the metric families come
  in the order in which Go ranges over them.
\<close>

section \<open>Targets\<close>

record ScrapeTarget =
  sc_Service :: string
  sc_Host :: string
  sc_URL :: string
  sc_AuthHeader :: string
  sc_IntervalMs :: int
  sc_Enabled :: bool
  sc_LastScrapedAt :: "int option"
  sc_LastError :: "string option"
  sc_LastErrorAt :: "int option"
  sc_CreatedAt :: int

text \<open>A row of the table: the header is stored apart, as a nullable column with a flag.\<close>

record target_row =
  tr_target :: ScrapeTarget
  tr_auth :: "string option"
  tr_encrypted :: bool

record url_parts =
  u_scheme :: string
  u_host :: string
  u_path :: string

datatype target_error =
  TService | THost | TURL | TAuthHeader | TIntervalLow | TIntervalHigh | TNotFound | TDecrypt int sec_error

definition MinScrapeIntervalMs :: int where "MinScrapeIntervalMs = 30000"
definition MaxScrapeIntervalMs :: int where "MaxScrapeIntervalMs = 3600000"

definition validateScrapeTarget :: "(string \<Rightarrow> url_parts option) \<Rightarrow> ScrapeTarget \<Rightarrow> (target_error, ScrapeTarget) result" where
  "validateScrapeTarget parse t0 =
     (let t = t0\<lparr>sc_Service := TrimSpace (sc_Service t0), sc_Host := TrimSpace (sc_Host t0), sc_URL := TrimSpace (sc_URL t0),
            sc_AuthHeader := TrimSpace (sc_AuthHeader t0)\<rparr>
      in if sc_Service t = [] \<or> length (sc_Service t) > 200 then Err TService
         else if sc_Host t = [] \<or> length (sc_Host t) > 200 then Err THost
         else if (case parse (sc_URL t) of None \<Rightarrow> True
                  | Some u \<Rightarrow> u_scheme u \<noteq> ''http'' \<and> u_scheme u \<noteq> ''https'' \<or> u_host u = []) then Err TURL
         else if sc_AuthHeader t \<noteq> [] \<and> \<not> Contains (sc_AuthHeader t) '':'' then Err TAuthHeader
         else if sc_IntervalMs t < MinScrapeIntervalMs then Err TIntervalLow
         else if sc_IntervalMs t > MaxScrapeIntervalMs then Err TIntervalHigh
         else Ok t)"

definition CreateTarget ::
  "(string \<Rightarrow> url_parts option) \<Rightarrow> cipher \<Rightarrow> bytes \<Rightarrow> bytes \<Rightarrow> int \<Rightarrow> ScrapeTarget \<Rightarrow> target_row table \<Rightarrow> (target_error, target_row table) result" where
  "CreateTarget parse C key nonce now t0 tbl =
     (case validateScrapeTarget parse t0 of
        Inl e \<Rightarrow> Err e
      | Inr t \<Rightarrow>
          let stored = (if sc_AuthHeader t \<noteq> [] then Encrypt C key nonce (sc_AuthHeader t) else [])
          in Ok (snd (row_insert
               \<lparr>tr_target = t\<lparr>sc_AuthHeader := [], sc_LastScrapedAt := None, sc_LastError := None, sc_LastErrorAt := None, sc_CreatedAt := now\<rparr>,
                tr_auth = (if stored \<noteq> [] then Some stored else None), tr_encrypted = (sc_AuthHeader t \<noteq> [])\<rparr> tbl)))"

definition SetEnabled :: "int \<Rightarrow> bool \<Rightarrow> target_row table \<Rightarrow> (target_error, target_row table) result" where
  "SetEnabled i enabled tbl =
     (if row_get i tbl = None then Err TNotFound
      else Ok (row_update i (\<lambda>r. r\<lparr>tr_target := (tr_target r)\<lparr>sc_Enabled := enabled\<rparr>\<rparr>) tbl))"

definition DeleteTarget :: "int \<Rightarrow> target_row table \<Rightarrow> target_row table" where
  "DeleteTarget i tbl = row_delete i tbl"

definition scanTarget :: "cipher \<Rightarrow> bytes \<Rightarrow> int \<times> target_row \<Rightarrow> (target_error, int \<times> ScrapeTarget) result" where
  "scanTarget C key ir =
     (case ir of (i, r) \<Rightarrow>
        (case tr_auth r of
           None \<Rightarrow> Ok (i, tr_target r)
         | Some a \<Rightarrow>
             if a = [] then Ok (i, tr_target r)
             else if tr_encrypted r
             then (case Decrypt C key a of Inl e \<Rightarrow> Err (TDecrypt i e) | Inr h \<Rightarrow> Ok (i, (tr_target r)\<lparr>sc_AuthHeader := h\<rparr>))
             else Ok (i, (tr_target r)\<lparr>sc_AuthHeader := a\<rparr>)))"

fun scanAll :: "cipher \<Rightarrow> bytes \<Rightarrow> (int \<times> target_row) list \<Rightarrow> (target_error, (int \<times> ScrapeTarget) list) result" where
  "scanAll C key [] = Ok []"
| "scanAll C key (r # rs) =
     (case scanTarget C key r of
        Inl e \<Rightarrow> Err e
      | Inr t \<Rightarrow> (case scanAll C key rs of Inl e \<Rightarrow> Err e | Inr ts \<Rightarrow> Ok (t # ts)))"

definition ListTargets :: "cipher \<Rightarrow> bytes \<Rightarrow> target_row table \<Rightarrow> (target_error, (int \<times> ScrapeTarget) list) result" where
  "ListTargets C key tbl = scanAll C key (newest_first (\<lambda>r. sc_CreatedAt (tr_target r)) tbl)"

definition ListEnabledTargets :: "cipher \<Rightarrow> bytes \<Rightarrow> target_row table \<Rightarrow> (target_error, (int \<times> ScrapeTarget) list) result" where
  "ListEnabledTargets C key tbl =
     scanAll C key (newest_first (\<lambda>r. sc_CreatedAt (tr_target r)) (filter (\<lambda>(i, r). sc_Enabled (tr_target r)) tbl))"

definition RecordScrape :: "int \<Rightarrow> int \<Rightarrow> string option \<Rightarrow> target_row table \<Rightarrow> target_row table" where
  "RecordScrape i scrapedAt errMsg tbl =
     row_update i (\<lambda>r. r\<lparr>tr_target := (tr_target r)\<lparr>sc_LastScrapedAt := Some scrapedAt, sc_LastError := errMsg,
        sc_LastErrorAt := map_option (\<lambda>_. scrapedAt) errMsg\<rparr>\<rparr>) tbl"

definition selfURL :: "string \<Rightarrow> string" where "selfURL apiAddr = ''http://'' @ apiAddr @ ''/metrics''"

definition EnsureSelfScrape ::
  "(string \<Rightarrow> url_parts option) \<Rightarrow> cipher \<Rightarrow> bytes \<Rightarrow> bytes \<Rightarrow> int \<Rightarrow> string \<Rightarrow> string \<Rightarrow> target_row table \<Rightarrow> (target_error, target_row table) result" where
  "EnsureSelfScrape parse C key nonce now apiAddr authHeader tbl =
     (if list_ex (\<lambda>(i, r). sc_URL (tr_target r) = selfURL apiAddr) tbl
      then Ok (map (\<lambda>(i, r). (i, if sc_URL (tr_target r) = selfURL apiAddr
                 then r\<lparr>tr_auth := Some (Encrypt C key nonce authHeader), tr_encrypted := True\<rparr> else r)) tbl)
      else CreateTarget parse C key nonce now
        \<lparr>sc_Service = ''pooml'', sc_Host = ''self'', sc_URL = selfURL apiAddr, sc_AuthHeader = authHeader,
         sc_IntervalMs = MinScrapeIntervalMs, sc_Enabled = True, sc_LastScrapedAt = None, sc_LastError = None,
         sc_LastErrorAt = None, sc_CreatedAt = 0\<rparr> tbl)"

section \<open>A scrape\<close>

datatype MetricType = COUNTER | GAUGE | UNTYPED | HISTOGRAM | SUMMARY | OtherType

record prom_metric =
  pm_labels :: "(string \<times> string) list"
  pm_timestampMs :: int
  pm_value :: double
  pm_sum :: double
  pm_count :: nat

record MetricFamily =
  mf_type :: MetricType
  mf_metrics :: "prom_metric list"

record scrape_world =
  sw_request_ok :: "string \<Rightarrow> bool"
  sw_do :: "string \<Rightarrow> (string \<times> string) option \<Rightarrow> http_outcome"
  sw_read_error :: "string option"
  sw_families :: "bytes \<Rightarrow> string + (string \<times> MetricFamily) list"
  sw_json :: "(string \<rightharpoonup> string) \<Rightarrow> string option"
  sw_push :: "Row list \<Rightarrow> bool"

datatype scrape_error =
  SBadRequest | SRequest string string | SOther string | SStatus int | SRead string | STooLarge | SParse string | SSaturated

definition maxScrapeBodyBytes :: nat where "maxScrapeBodyBytes = 10 * 2 ^ 20"
definition maxScrapeRows :: nat where "maxScrapeRows = 500000"

definition promLabelsJSON :: "scrape_world \<Rightarrow> (string \<times> string) list \<Rightarrow> string" where
  "promLabelsJSON W pairs =
     (if pairs = [] then []
      else case sw_json W (map_of (rev (filter (\<lambda>(n, v). n \<noteq> []) pairs))) of None \<Rightarrow> [] | Some b \<Rightarrow> b)"

definition promRow :: "scrape_world \<Rightarrow> ScrapeTarget \<Rightarrow> int \<Rightarrow> prom_metric \<Rightarrow> string \<Rightarrow> int \<Rightarrow> double \<Rightarrow> Row" where
  "promRow W t now m name ty value =
     \<lparr>r_Timestamp = (if pm_timestampMs m \<noteq> 0 then ClampTimestamp (pm_timestampMs m) now else now), r_Name = name, r_Type = ty,
      r_Value = value, r_Service = sc_Service t, r_Host = sc_Host t, r_Labels = promLabelsJSON W (pm_labels m)\<rparr>"

definition appendRow :: "scrape_world \<Rightarrow> ScrapeTarget \<Rightarrow> int \<Rightarrow> prom_metric \<Rightarrow> string \<Rightarrow> int \<Rightarrow> double \<Rightarrow> Row list \<Rightarrow> Row list" where
  "appendRow W t now m name ty value rows =
     (if length rows \<ge> maxScrapeRows then rows else rows @ [promRow W t now m name ty value])"

text \<open>\<open>float64\<close> of an unsigned 64-bit count.\<close>

definition f64_count :: "nat \<Rightarrow> double" where
  "f64_count n = Finite (f64 (rat_of_nat n))"

definition familyRow :: "scrape_world \<Rightarrow> ScrapeTarget \<Rightarrow> int \<Rightarrow> string \<Rightarrow> MetricType \<Rightarrow> prom_metric \<Rightarrow> Row list \<Rightarrow> Row list" where
  "familyRow W t now name ty m rows =
     (case ty of
        COUNTER \<Rightarrow> appendRow W t now m name TypeCounter (pm_value m) rows
      | GAUGE \<Rightarrow> appendRow W t now m name TypeGauge (pm_value m) rows
      | UNTYPED \<Rightarrow> appendRow W t now m name TypeGauge (pm_value m) rows
      | HISTOGRAM \<Rightarrow> appendRow W t now m (name @ ''_count'') TypeCounter (f64_count (pm_count m))
          (appendRow W t now m (name @ ''_sum'') TypeCounter (pm_sum m) rows)
      | SUMMARY \<Rightarrow> appendRow W t now m (name @ ''_count'') TypeCounter (f64_count (pm_count m))
          (appendRow W t now m (name @ ''_sum'') TypeCounter (pm_sum m) rows)
      | OtherType \<Rightarrow> rows)"

definition familiesToRows :: "scrape_world \<Rightarrow> (string \<times> MetricFamily) list \<Rightarrow> ScrapeTarget \<Rightarrow> int \<Rightarrow> Row list" where
  "familiesToRows W families t now =
     fold (\<lambda>(name, fam) rows. fold (familyRow W t now name (mf_type fam)) (mf_metrics fam) rows) families []"

definition redactURL :: "(string \<Rightarrow> url_parts option) \<Rightarrow> string \<Rightarrow> string" where
  "redactURL parse raw =
     (case parse raw of None \<Rightarrow> ''[unparseable url]'' | Some u \<Rightarrow> u_scheme u @ ''://'' @ u_host u @ u_path u)"

definition authField :: "string \<Rightarrow> (string \<times> string) option" where
  "authField h = (if h = [] then None else case Cut1 h (CHR '':'') of (name, value, _) \<Rightarrow> Some (TrimSpace name, TrimSpace value))"

text \<open>\<open>redactURLError\<close> is the treatment of the first two cases: the URL of a \<open>url.Error\<close> is dropped.\<close>

definition fetch :: "scrape_world \<Rightarrow> ScrapeTarget \<Rightarrow> int \<Rightarrow> (scrape_error, Row list) result" where
  "fetch W t now =
     (if \<not> sw_request_ok W (sc_URL t) then Err SBadRequest
      else case sw_do W (sc_URL t) (authField (sc_AuthHeader t)) of
        UrlError op url cause \<Rightarrow> Err (SRequest op cause)
      | OtherError e \<Rightarrow> Err (SOther e)
      | HttpResp code body0 \<Rightarrow>
          if code < 200 \<or> code > 299 then Err (SStatus code)
          else (case sw_read_error W of
             Some e \<Rightarrow> Err (SRead e)
           | None \<Rightarrow>
               let body = take (maxScrapeBodyBytes + 1) body0
               in if length body > maxScrapeBodyBytes then Err STooLarge
                  else (case sw_families W body of Inl e \<Rightarrow> Err (SParse e) | Inr fams \<Rightarrow> Ok (familiesToRows W fams t now))))"

definition scrapeOutcome :: "scrape_world \<Rightarrow> ScrapeTarget \<Rightarrow> int \<Rightarrow> scrape_error option" where
  "scrapeOutcome W t now =
     (case fetch W t now of
        Inl e \<Rightarrow> Some e
      | Inr rows \<Rightarrow> if sw_push W rows then None else Some SSaturated)"

definition scrape :: "(scrape_error \<Rightarrow> string) \<Rightarrow> scrape_world \<Rightarrow> int \<Rightarrow> int \<Rightarrow> ScrapeTarget \<Rightarrow> target_row table \<Rightarrow> target_row table" where
  "scrape errtext W now i t tbl = RecordScrape i now (map_option errtext (scrapeOutcome W t now)) tbl"

text \<open>A listing that fails is logged and the tick ends.\<close>

definition scrapeDuty :: "cipher \<Rightarrow> bytes \<Rightarrow> (scrape_error \<Rightarrow> string) \<Rightarrow> (ScrapeTarget, target_row table, scrape_world) duty" where
  "scrapeDuty C key errtext =
     \<lparr>d_list = (\<lambda>tbl. case ListEnabledTargets C key tbl of Inl e \<Rightarrow> [] | Inr ts \<Rightarrow> ts), d_last = sc_LastScrapedAt,
      d_interval = sc_IntervalMs, d_work = scrape errtext\<rparr>"

section \<open>The rows of a scrape\<close>

text \<open>Specification: the samples of one metric, with no cap.\<close>

definition samples :: "scrape_world \<Rightarrow> ScrapeTarget \<Rightarrow> int \<Rightarrow> string \<Rightarrow> MetricType \<Rightarrow> prom_metric \<Rightarrow> Row list" where
  "samples W t now name ty m =
     (case ty of
        COUNTER \<Rightarrow> [promRow W t now m name TypeCounter (pm_value m)]
      | GAUGE \<Rightarrow> [promRow W t now m name TypeGauge (pm_value m)]
      | UNTYPED \<Rightarrow> [promRow W t now m name TypeGauge (pm_value m)]
      | OtherType \<Rightarrow> []
      | _ \<Rightarrow> [promRow W t now m (name @ ''_sum'') TypeCounter (pm_sum m),
              promRow W t now m (name @ ''_count'') TypeCounter (f64_count (pm_count m))])"

definition allSamples :: "scrape_world \<Rightarrow> (string \<times> MetricFamily) list \<Rightarrow> ScrapeTarget \<Rightarrow> int \<Rightarrow> Row list" where
  "allSamples W families t now =
     concat (map (\<lambda>(name, fam). concat (map (samples W t now name (mf_type fam)) (mf_metrics fam))) families)"

lemma appendRow_take:
  "appendRow W t now m name ty v (take maxScrapeRows rows) = take maxScrapeRows (rows @ [promRow W t now m name ty v])"
  by (auto simp: appendRow_def min_def)

lemma familyRow_take:
  "familyRow W t now name ty m (take maxScrapeRows rows) = take maxScrapeRows (rows @ samples W t now name ty m)"
  by (cases ty) (simp_all add: familyRow_def samples_def appendRow_take del: take_append)

lemma fold_familyRow_take:
  "fold (familyRow W t now name ty) ms (take maxScrapeRows rows) =
   take maxScrapeRows (rows @ concat (map (samples W t now name ty) ms))"
  by (induction ms arbitrary: rows) (simp_all add: familyRow_take del: take_append)

lemma fold_families_take:
  "fold (\<lambda>(name, fam) rows. fold (familyRow W t now name (mf_type fam)) (mf_metrics fam) rows) fams (take maxScrapeRows rows) =
   take maxScrapeRows (rows @ allSamples W fams t now)"
proof (induction fams arbitrary: rows)
  case (Cons x fams)
  obtain name fam where x: "x = (name, fam)" by (cases x)
  from Cons [of "rows @ concat (map (samples W t now name (mf_type fam)) (mf_metrics fam))"] show ?case
    by (simp add: x allSamples_def fold_familyRow_take del: take_append)
qed (simp add: allSamples_def)

lemma familiesToRows_eq: "familiesToRows W fams t now = take maxScrapeRows (allSamples W fams t now)"
  using fold_families_take [of W t now fams "[]"] by (simp add: familiesToRows_def)

lemma samples_row:
  "r \<in> set (samples W t now name ty m) \<Longrightarrow> \<exists>n y v. r = promRow W t now m n y v"
  by (cases ty) (auto simp: samples_def)

lemma promRow_time:
  assumes "0 \<le> now" and "now < 2 ^ 62"
  shows "now - maxPastMs \<le> r_Timestamp (promRow W t now m n ty v) \<and> r_Timestamp (promRow W t now m n ty v) \<le> now + maxFutureMs"
  using ClampTimestamp_window [OF assms, of "pm_timestampMs m"] by (simp add: promRow_def maxPastMs_def maxFutureMs_def)

text \<open>
  A successful fetch gives the samples of the page in order, cut at the row cap; each is
  stamped with the target's service and host and with a time in the accepted window. A body over
  the size limit is an error and gives no rows, never a silent prefix.
\<close>

theorem fetch_rows_exact:
  assumes "fetch W t now = Ok rows" and "0 \<le> now" and "now < 2 ^ 62"
  shows "\<exists>code body fams. sw_do W (sc_URL t) (authField (sc_AuthHeader t)) = HttpResp code body \<and> 200 \<le> code \<and> code \<le> 299
    \<and> length body \<le> maxScrapeBodyBytes \<and> sw_families W body = Inr fams
    \<and> rows = take maxScrapeRows (allSamples W fams t now)
    \<and> (\<forall>r \<in> set rows. r_Service r = sc_Service t \<and> r_Host r = sc_Host t
         \<and> now - maxPastMs \<le> r_Timestamp r \<and> r_Timestamp r \<le> now + maxFutureMs)"
proof -
  from assms(1) obtain code body fams where d: "sw_do W (sc_URL t) (authField (sc_AuthHeader t)) = HttpResp code body"
    and c: "200 \<le> code" "code \<le> 299" and len: "\<not> maxScrapeBodyBytes < length (take (maxScrapeBodyBytes + 1) body)"
    and f: "sw_families W (take (maxScrapeBodyBytes + 1) body) = Inr fams" and rows: "rows = familiesToRows W fams t now"
    by (auto simp: fetch_def Let_def split: if_splits http_outcome.splits option.splits sum.splits)
  from len have "length body \<le> maxScrapeBodyBytes" by (simp add: min_def split: if_splits)
  then have b: "take (maxScrapeBodyBytes + 1) body = body" by simp
  have "\<exists>m n y v. r = promRow W t now m n y v" if "r \<in> set rows" for r
    using that by (auto simp: rows familiesToRows_eq allSamples_def dest!: in_set_takeD samples_row) blast
  then have "r_Service r = sc_Service t \<and> r_Host r = sc_Host t \<and> now - maxPastMs \<le> r_Timestamp r \<and> r_Timestamp r \<le> now + maxFutureMs"
    if "r \<in> set rows" for r
    using that promRow_time [OF assms(2,3)] by (fastforce simp: promRow_def)
  with d c f b \<open>length body \<le> maxScrapeBodyBytes\<close> rows show ?thesis by (auto simp: familiesToRows_eq)
qed

section \<open>Stored headers\<close>

definition row_ok :: "cipher \<Rightarrow> bytes \<Rightarrow> target_row \<Rightarrow> bool" where
  "row_ok C key r \<longleftrightarrow> (\<forall>i. \<not> isl (scanTarget C key (i, r)))"

lemma scanAll_ok:
  "\<forall>(i, r) \<in> set rs. scanTarget C key (i, r) = Ok (i, f r) \<Longrightarrow> scanAll C key rs = Ok (map (\<lambda>(i, r). (i, f r)) rs)"
  by (induction rs) auto

text \<open>One target whose header does not decrypt makes the listing of all of them fail.\<close>

lemma scanAll_err: "(i, r) \<in> set rs \<Longrightarrow> isl (scanTarget C key (i, r)) \<Longrightarrow> isl (scanAll C key rs)"
  by (induction rs) (auto split: sum.splits)

definition decoded :: "cipher \<Rightarrow> bytes \<Rightarrow> target_row \<Rightarrow> ScrapeTarget" where
  "decoded C key r = (case scanTarget C key (0, r) of Inl e \<Rightarrow> tr_target r | Inr (i, t) \<Rightarrow> t)"

lemma scanTarget_decoded: "row_ok C key r \<Longrightarrow> scanTarget C key (i, r) = Ok (i, decoded C key r)"
  unfolding row_ok_def decoded_def scanTarget_def
  by (auto split: option.splits sum.splits if_splits dest: spec [of _ 0])

definition targets_ok :: "cipher \<Rightarrow> bytes \<Rightarrow> target_row table \<Rightarrow> bool" where
  "targets_ok C key tbl \<longleftrightarrow> keyed tbl \<and> (\<forall>(i, r) \<in> set tbl. row_ok C key r)"

lemma ListEnabled_ok:
  assumes "targets_ok C key tbl"
  shows "ListEnabledTargets C key tbl = Ok (map (\<lambda>(i, r). (i, decoded C key r))
    (newest_first (\<lambda>r. sc_CreatedAt (tr_target r)) (filter (\<lambda>(i, r). sc_Enabled (tr_target r)) tbl)))"
  unfolding ListEnabledTargets_def
  by (rule scanAll_ok) (use assms scanTarget_decoded in \<open>auto simp: targets_ok_def\<close>)

text \<open>
  A created target is listed back as entered, up to white space, with its secret header, which
  is stored only encrypted; the other targets are listed unchanged.
\<close>

theorem created_target_listed:
  assumes "cipher_ok C" and "length nonce = gcm_nonce_size C" and "std64 C (nonce @ gcm_seal C key nonce (sc_AuthHeader t)) \<noteq> []"
    and "validateScrapeTarget parse t0 = Ok t" and "CreateTarget parse C key nonce now t0 tbl = Ok tbl'" and "targets_ok C key tbl"
  shows "\<exists>ts r. ListTargets C key tbl' = Ok ts
    \<and> (next_rowid tbl, t\<lparr>sc_LastScrapedAt := None, sc_LastError := None, sc_LastErrorAt := None, sc_CreatedAt := now\<rparr>) \<in> set ts
    \<and> (\<forall>i r. row_get i tbl = Some r \<longrightarrow> (i, decoded C key r) \<in> set ts)
    \<and> row_get (next_rowid tbl) tbl' = Some r \<and> sc_AuthHeader (tr_target r) = []
    \<and> tr_auth r = (if sc_AuthHeader t = [] then None else Some (Encrypt C key nonce (sc_AuthHeader t)))
    \<and> targets_ok C key tbl'"
proof -
  let ?r = "\<lparr>tr_target = t\<lparr>sc_AuthHeader := [], sc_LastScrapedAt := None, sc_LastError := None, sc_LastErrorAt := None, sc_CreatedAt := now\<rparr>,
     tr_auth = (if sc_AuthHeader t = [] then None else Some (Encrypt C key nonce (sc_AuthHeader t))), tr_encrypted = (sc_AuthHeader t \<noteq> [])\<rparr>"
  let ?t = "t\<lparr>sc_LastScrapedAt := None, sc_LastError := None, sc_LastErrorAt := None, sc_CreatedAt := now\<rparr>"
  have ne: "Encrypt C key nonce (sc_AuthHeader t) \<noteq> []" using assms(3) by (simp add: Encrypt_def)
  then have tbl': "tbl' = snd (row_insert ?r tbl)" using assms(4,5) by (auto simp: CreateTarget_def)
  have scan: "scanTarget C key (i, ?r) = Ok (i, ?t)" for i
    using ne Decrypt_Encrypt [OF assms(1,2)] by (auto simp: scanTarget_def)
  then have ok: "row_ok C key ?r" and sc: "decoded C key ?r = ?t" by (auto simp: row_ok_def decoded_def)
  have set': "set tbl' = insert (next_rowid tbl, ?r) (set tbl)" by (auto simp: tbl' row_insert_def)
  with ok assms(6) have inv: "targets_ok C key tbl'" by (auto simp: targets_ok_def tbl')
  have "ListTargets C key tbl' = Ok (map (\<lambda>(i, r). (i, decoded C key r)) (newest_first (\<lambda>r. sc_CreatedAt (tr_target r)) tbl'))"
    unfolding ListTargets_def by (rule scanAll_ok) (use inv scanTarget_decoded in \<open>auto simp: targets_ok_def\<close>)
  moreover have "row_get (next_rowid tbl) tbl' = Some ?r" by (simp add: tbl' meta.get_insert row_insert_def row_get_insert [unfolded row_insert_def, simplified])
  moreover have "(i, decoded C key r) \<in> (\<lambda>(i, r). (i, decoded C key r)) ` set tbl'" if "row_get i tbl = Some r" for i r
    using that assms(6) by (force simp: row_get_mem targets_ok_def set')
  moreover have "(next_rowid tbl, ?t) \<in> (\<lambda>(i, r). (i, decoded C key r)) ` set tbl'"
    unfolding set' by (force simp: sc)
  ultimately show ?thesis using inv by (intro exI [of _ "map (\<lambda>(i, r). (i, decoded C key r)) (newest_first (\<lambda>r. sc_CreatedAt (tr_target r)) tbl')"] exI [of _ ?r]) simp
qed

section \<open>The scrape loop\<close>

lemma decoded_fields [simp]:
  "sc_Enabled (decoded C key r) = sc_Enabled (tr_target r)" "sc_IntervalMs (decoded C key r) = sc_IntervalMs (tr_target r)"
  "sc_LastScrapedAt (decoded C key r) = sc_LastScrapedAt (tr_target r)" "sc_URL (decoded C key r) = sc_URL (tr_target r)"
  by (auto simp: decoded_def scanTarget_def split: option.splits sum.splits)

interpretation scrape_items: due_items "scrapeDuty C key errtext" "\<lambda>i tbl. map_option (decoded C key) (row_get i tbl)" sc_Enabled
  "targets_ok C key" for C key errtext
proof
  fix tbl i t
  assume ok: "targets_ok C key tbl"
  then have "keyed tbl" by (simp add: targets_ok_def)
  then show "(i, t) \<in> set (d_list (scrapeDuty C key errtext) tbl) \<longleftrightarrow> map_option (decoded C key) (row_get i tbl) = Some t \<and> sc_Enabled t"
    by (auto simp: scrapeDuty_def ListEnabled_ok [OF ok] row_get_mem image_iff)
  have "keyed (newest_first (\<lambda>r. sc_CreatedAt (tr_target r)) (filter (\<lambda>(i, r). sc_Enabled (tr_target r)) tbl))"
    using \<open>keyed tbl\<close> by (simp add: keyed_filter)
  then show "distinct (map fst (d_list (scrapeDuty C key errtext) tbl))"
    by (simp add: scrapeDuty_def ListEnabled_ok [OF ok] keyed_def comp_def case_prod_beta)
qed (auto simp: scrapeDuty_def scrape_def RecordScrape_def meta.get_update)

text \<open>
  No target is scraped by two goroutines at a time, and a tick that nothing interleaves with
  starts exactly the targets that are enabled, due and not in flight, with their headers decrypted.
\<close>

theorem scraper_tick_exact:
  assumes "reachable (dexec (scrapeDuty C key errtext)) (new_loop tbl) s"
    and "targets_ok C key (ls_store s)" and "ls_pending s = []" and "\<not> ls_stopped s"
  shows "distinct (map g_id (ls_running s))
    \<and> (Working i t \<in> set (ls_running (tick (scrapeDuty C key errtext) now s)) \<longleftrightarrow>
        Working i t \<in> set (ls_running s)
        \<or> (\<exists>r. row_get i (ls_store s) = Some r \<and> t = decoded C key r) \<and> sc_Enabled t
          \<and> (\<forall>u. sc_LastScrapedAt t = Some u \<longrightarrow> sc_IntervalMs t \<le> i64 (now - u)) \<and> i \<notin> set (ls_inflight s))"
  using inflight_reachable [OF assms(1)] scrape_items.tick_exact [OF assms(2-4), of i t errtext now]
  by (auto simp: inflight_ok_def due_def scrapeDuty_def split: option.splits)

text \<open>A rotated metrics secret replaces the stored one, and no second target appears.\<close>

lemma self_scrape_rotates:
  assumes "cipher_ok C" and "length nonce = gcm_nonce_size C" and "Encrypt C key nonce h \<noteq> []"
    and "EnsureSelfScrape parse C key nonce now addr h tbl = Ok tbl'" and "(i0, r0) \<in> set tbl" and "sc_URL (tr_target r0) = selfURL addr"
  shows "map fst tbl' = map fst tbl
    \<and> (\<forall>(i, r) \<in> set tbl'. sc_URL (tr_target r) = selfURL addr \<longrightarrow> sc_AuthHeader (decoded C key r) = h)"
proof -
  have "list_ex (\<lambda>(i, r). sc_URL (tr_target r) = selfURL addr) tbl" using assms(5,6) by (auto simp: list_ex_iff)
  with assms(4) have tbl': "tbl' = map (\<lambda>(i, r). (i, if sc_URL (tr_target r) = selfURL addr
                 then r\<lparr>tr_auth := Some (Encrypt C key nonce h), tr_encrypted := True\<rparr> else r)) tbl"
    by (simp add: EnsureSelfScrape_def)
  show ?thesis
    using assms(3) Decrypt_Encrypt [OF assms(1,2), of key h]
    by (auto simp: tbl' comp_def case_prod_beta decoded_def scanTarget_def)
qed

section \<open>Samples\<close>

definition target_sample :: ScrapeTarget where
  "target_sample = \<lparr>sc_Service = ''api'', sc_Host = ''h1'', sc_URL = ''http://h1/metrics'', sc_AuthHeader = ''X-Key: s'', sc_IntervalMs = 30000,
     sc_Enabled = True, sc_LastScrapedAt = None, sc_LastError = None, sc_LastErrorAt = None, sc_CreatedAt = 0\<rparr>"

definition parse_sample :: "string \<Rightarrow> url_parts option" where
  "parse_sample s = Some \<lparr>u_scheme = ''http'', u_host = ''h1'', u_path = ''/metrics''\<rparr>"

definition metric_sample :: prom_metric where
  "metric_sample = \<lparr>pm_labels = [], pm_timestampMs = 0, pm_value = Finite 3, pm_sum = Finite 0, pm_count = 0\<rparr>"

definition scrape_world_sample :: scrape_world where
  "scrape_world_sample = \<lparr>sw_request_ok = (\<lambda>u. True), sw_do = (\<lambda>u h. HttpResp 200 ''up 3''), sw_read_error = None,
     sw_families = (\<lambda>b. Inr [(''up'', \<lparr>mf_type = GAUGE, mf_metrics = [metric_sample]\<rparr>)]), sw_json = (\<lambda>m. None), sw_push = (\<lambda>rows. True)\<rparr>"

theorem fetch_rows_exact_witness:
  "\<exists>rows. fetch scrape_world_sample target_sample 1000 = Ok rows \<and> (\<forall>r \<in> set rows. r_Service r = ''api'')"
proof -
  obtain rows where rows: "fetch scrape_world_sample target_sample 1000 = Ok rows"
    by (simp add: fetch_def scrape_world_sample_def maxScrapeBodyBytes_def)
  from fetch_rows_exact [OF this] have "\<forall>r \<in> set rows. r_Service r = ''api''" by (auto simp: target_sample_def)
  with rows show ?thesis by blast
qed

lemma target_sample_valid: "validateScrapeTarget parse_sample target_sample = Ok target_sample"
proof -
  have "TrimSpace ''api'' = ''api''" "TrimSpace ''h1'' = ''h1''" "TrimSpace ''http://h1/metrics'' = ''http://h1/metrics''"
    "TrimSpace ''X-Key: s'' = ''X-Key: s''" "Contains ''X-Key: s'' '':''" by code_simp+
  then show ?thesis
    by (simp del: Contains.simps add: validateScrapeTarget_def Let_def target_sample_def parse_sample_def MinScrapeIntervalMs_def MaxScrapeIntervalMs_def)
qed

theorem created_target_listed_witness:
  "\<exists>tbl' ts. CreateTarget parse_sample cipher_sample [] ''n1'' 7 target_sample [] = Ok tbl' \<and> ListTargets cipher_sample [] tbl' = Ok ts
    \<and> (1, target_sample\<lparr>sc_CreatedAt := 7\<rparr>) \<in> set ts"
proof -
  obtain tbl' where c: "CreateTarget parse_sample cipher_sample [] ''n1'' 7 target_sample [] = Ok tbl'"
    by (simp add: CreateTarget_def target_sample_valid Let_def)
  have n: "length ''n1'' = gcm_nonce_size cipher_sample" "std64 cipher_sample (''n1'' @ x) \<noteq> []" for x
    by (simp_all add: cipher_sample_def)
  have "targets_ok cipher_sample [] []" by (simp add: targets_ok_def)
  from created_target_listed [OF cipher_sample_ok n target_sample_valid c this]
  have "\<exists>ts. ListTargets cipher_sample [] tbl' = Ok ts \<and> (1, target_sample\<lparr>sc_CreatedAt := 7\<rparr>) \<in> set ts"
    by (auto simp: next_rowid_def target_sample_def)
  with c show ?thesis by blast
qed

definition target_row_sample :: target_row where
  "target_row_sample = \<lparr>tr_target = target_sample\<lparr>sc_AuthHeader := []\<rparr>, tr_auth = None, tr_encrypted = False\<rparr>"

theorem scraper_tick_exact_witness:
  "Working 1 (target_sample\<lparr>sc_AuthHeader := []\<rparr>) \<in> set (ls_running (tick (scrapeDuty cipher_sample [] (\<lambda>e. [])) 5
     (new_loop [(1, target_row_sample)])))"
proof -
  let ?s = "new_loop [(1, target_row_sample)] :: (ScrapeTarget, target_row table) loop_state"
  have d: "scanTarget cipher_sample [] (i, target_row_sample) = Ok (i, target_sample\<lparr>sc_AuthHeader := []\<rparr>)" for i
    by (simp add: scanTarget_def target_row_sample_def)
  have "targets_ok cipher_sample [] (ls_store ?s)" by (simp add: targets_ok_def new_loop_def keyed_def row_ok_def d)
  from scraper_tick_exact [OF reach_init this, of 1 "target_sample\<lparr>sc_AuthHeader := []\<rparr>" "\<lambda>e. []" 5] d show ?thesis
    by (simp add: new_loop_def row_get_def decoded_def target_sample_def)
qed

end
