(* ===== verification/Retention.thy ===== *)
theory Retention
  imports Settings_Store
begin

text \<open>
  Retention, \<open>services/retention.go\<close>: the expired rows of the three retained tables are deleted
  in chunks, then freed pages are given back. Between two chunks other connections may write, the
  statement may fail and the context may be cancelled: a list of \<open>between\<close> says what happens
  before each chunk; when it is used up nothing more happens.
\<close>

definition RetentionMinDays :: int where "RetentionMinDays = 1"
definition RetentionMaxDays :: int where "RetentionMaxDays = 3650"
definition RetentionDefaultLogsDays :: int where "RetentionDefaultLogsDays = 30"
definition RetentionDefaultMetricsDays :: int where "RetentionDefaultMetricsDays = 90"
definition RetentionDefaultFiringsDays :: int where "RetentionDefaultFiringsDays = 90"
definition retentionChunk :: nat where "retentionChunk = 10000"

definition RetentionDays :: "cipher \<Rightarrow> bytes \<Rightarrow> settings \<Rightarrow> string \<Rightarrow> int \<Rightarrow> int" where
  "RetentionDays C key s k dflt =
     (case Get C key k s of
        Inl e \<Rightarrow> dflt
      | Inr v \<Rightarrow>
          if v = [] then dflt
          else case ParseInt v of
            None \<Rightarrow> dflt
          | Some n \<Rightarrow> if n < RetentionMinDays \<or> n > RetentionMaxDays then dflt else n)"

text \<open>A row is its id and its time stamp.\<close>

type_synonym stamped = "(int \<times> int) list"

definition expired :: "int \<Rightarrow> int \<times> int \<Rightarrow> bool" where
  "expired threshold r \<longleftrightarrow> snd r < threshold"

definition chunkIds :: "int \<Rightarrow> stamped \<Rightarrow> int list" where
  "chunkIds threshold t = take retentionChunk (sort (map fst (filter (expired threshold) t)))"

definition deleteChunk :: "int \<Rightarrow> stamped \<Rightarrow> stamped" where
  "deleteChunk threshold t = filter (\<lambda>r. fst r \<notin> set (chunkIds threshold t)) t"

datatype between = Cancelled | Fails stamped | Writes stamped

text \<open>A full chunk leaves fewer expired rows, so the loop ends.\<close>

lemma chunk_smaller:
  assumes "retentionChunk \<le> length t - length (deleteChunk threshold t)"
  shows "length (filter (expired threshold) (deleteChunk threshold t)) < length (filter (expired threshold) t)"
proof -
  have "t \<noteq> deleteChunk threshold t" using assms by (auto simp: retentionChunk_def)
  then obtain r where r: "r \<in> set t" "fst r \<in> set (chunkIds threshold t)"
    unfolding deleteChunk_def by (metis (mono_tags, lifting) filter_True)
  then have "fst r \<in> fst ` set (filter (expired threshold) t)"
    by (auto simp: chunkIds_def dest!: in_set_takeD)
  then obtain r' where r': "r' \<in> set t" "expired threshold r'" "fst r' \<in> set (chunkIds threshold t)" using r by auto
  have "filter (expired threshold) (deleteChunk threshold t) = filter (\<lambda>r. fst r \<notin> set (chunkIds threshold t)) (filter (expired threshold) t)"
    by (simp add: deleteChunk_def conj_commute)
  moreover have "length (filter (\<lambda>r. fst r \<notin> set (chunkIds threshold t)) (filter (expired threshold) t)) < length (filter (expired threshold) t)"
    using r' by (intro length_filter_less [of r']) auto
  ultimately show ?thesis by simp
qed

text \<open>The number of rows deleted, whether an error ended it, and the table left.\<close>

function deleteExpired :: "int \<Rightarrow> between list \<Rightarrow> nat \<Rightarrow> stamped \<Rightarrow> nat \<times> bool \<times> stamped" where
  "deleteExpired threshold evs tot t =
     (case evs of
        Cancelled # _ \<Rightarrow> (tot, False, t)
      | Fails w # _ \<Rightarrow> (tot, True, t @ w)
      | Writes w # rest \<Rightarrow>
          (let t1 = t @ w; t2 = deleteChunk threshold t1; n = length t1 - length t2
           in if n < retentionChunk then (tot + n, False, t2) else deleteExpired threshold rest (tot + n) t2)
      | [] \<Rightarrow>
          (let t2 = deleteChunk threshold t; n = length t - length t2
           in if n < retentionChunk then (tot + n, False, t2) else deleteExpired threshold [] (tot + n) t2))"
  by pat_completeness auto
termination
  by (relation "measures [\<lambda>(th, evs, n, t). length evs, \<lambda>(th, evs, n, t). length (filter (expired th) t)]")
    (auto simp: chunk_smaller)

declare deleteExpired.simps [simp del]

section \<open>Exactly the expired rows go\<close>

abbreviation kept :: "int \<Rightarrow> stamped \<Rightarrow> stamped" where
  "kept threshold t \<equiv> filter (\<lambda>r. \<not> expired threshold r) t"

definition n_expired :: "int \<Rightarrow> stamped \<Rightarrow> nat" where
  "n_expired threshold t = length (filter (expired threshold) t)"

lemma chunk_id_expired:
  assumes "distinct (map fst t)" and "r \<in> set t" and "fst r \<in> set (chunkIds threshold t)"
  shows "expired threshold r"
proof -
  from assms(3) obtain r' where "r' \<in> set t" "expired threshold r'" "fst r' = fst r"
    by (auto simp: chunkIds_def dest!: in_set_takeD)
  with assms(1,2) show ?thesis by (metis eq_key_imp_eq_value prod.collapse)
qed

lemma kept_deleteChunk: "distinct (map fst t) \<Longrightarrow> kept threshold (deleteChunk threshold t) = kept threshold t"
  unfolding deleteChunk_def filter_filter by (rule filter_cong) (auto dest: chunk_id_expired)

lemma length_chunkIds: "length (chunkIds threshold t) = min retentionChunk (n_expired threshold t)"
  by (simp add: chunkIds_def n_expired_def min.commute)

lemma deleted_count:
  assumes "distinct (map fst t)"
  shows "length t - length (deleteChunk threshold t) = min retentionChunk (n_expired threshold t)"
proof -
  let ?ids = "chunkIds threshold t"
  have sub: "set ?ids \<subseteq> set (map fst t)" by (auto simp: chunkIds_def dest!: in_set_takeD)
  have "distinct (map fst (filter (expired threshold) t))" using assms by (simp add: distinct_map inj_on_def)
  then have d: "distinct ?ids" by (simp add: chunkIds_def distinct_take)
  have "map fst (filter (\<lambda>r. fst r \<in> set ?ids) t) = filter (\<lambda>i. i \<in> set ?ids) (map fst t)" by (simp add: filter_map comp_def)
  then have "length (filter (\<lambda>r. fst r \<in> set ?ids) t) = length (filter (\<lambda>i. i \<in> set ?ids) (map fst t))" by (metis length_map)
  also have "\<dots> = card (set (filter (\<lambda>i. i \<in> set ?ids) (map fst t)))"
    by (rule distinct_card [symmetric]) (rule distinct_filter [OF assms])
  also have "set (filter (\<lambda>i. i \<in> set ?ids) (map fst t)) = set ?ids \<inter> set (map fst t)" by auto
  also have "card (set ?ids \<inter> set (map fst t)) = length ?ids" using sub d by (metis distinct_card inf.absorb1)
  finally have "length (filter (\<lambda>r. fst r \<in> set ?ids) t) = length ?ids" .
  then show ?thesis
    using sum_length_filter_compl [of "\<lambda>r. fst r \<in> set ?ids" t] by (simp add: deleteChunk_def length_chunkIds)
qed

lemma last_chunk:
  assumes "distinct (map fst t)" and "n_expired threshold t < retentionChunk"
  shows "deleteChunk threshold t = kept threshold t"
proof -
  have "set (chunkIds threshold t) = fst ` set (filter (expired threshold) t)"
    using assms(2) by (simp add: chunkIds_def n_expired_def)
  moreover from this have "expired threshold r \<longleftrightarrow> fst r \<in> set (chunkIds threshold t)" if "r \<in> set t" for r
    using that chunk_id_expired [OF assms(1) that] by auto
  ultimately show ?thesis unfolding deleteChunk_def by (intro filter_cong) auto
qed

lemma distinct_deleteChunk: "distinct (map fst t) \<Longrightarrow> distinct (map fst (deleteChunk threshold t))"
  by (simp add: deleteChunk_def distinct_map inj_on_def)

lemma n_expired_deleteChunk:
  assumes "distinct (map fst t)"
  shows "n_expired threshold t = (length t - length (deleteChunk threshold t)) + n_expired threshold (deleteChunk threshold t)"
proof -
  have "length (kept threshold t) + n_expired threshold t = length t" for t :: stamped
    using sum_length_filter_compl [of "expired threshold" t] by (simp add: n_expired_def)
  from this [of t] this [of "deleteChunk threshold t"] arg_cong [OF kept_deleteChunk [OF assms, of threshold], of length]
  have "n_expired threshold t + length (deleteChunk threshold t) = n_expired threshold (deleteChunk threshold t) + length t"
    by linarith
  moreover have "length (deleteChunk threshold t) \<le> length t" by (simp add: deleteChunk_def)
  ultimately show ?thesis by linarith
qed

fun writes :: "between \<Rightarrow> stamped" where
  "writes Cancelled = []" | "writes (Fails w) = w" | "writes (Writes w) = w"

fun writing :: "between \<Rightarrow> bool" where
  "writing (Writes w) = True" | "writing _ = False"

definition written :: "nat \<Rightarrow> between list \<Rightarrow> stamped" where
  "written k evs = concat (map writes (take k evs))"

lemma written_simps [simp]: "written k [] = []" "written 0 evs = []" "written (Suc k) (e # evs) = writes e @ written k evs"
  by (simp_all add: written_def)

definition sweep_spec :: "int \<Rightarrow> between list \<Rightarrow> nat \<Rightarrow> stamped \<Rightarrow> nat \<times> bool \<times> stamped \<Rightarrow> bool" where
  "sweep_spec threshold evs tot t res = (case res of (n, err, t') \<Rightarrow>
     \<exists>k. kept threshold t' = kept threshold (t @ written k evs)
       \<and> n + n_expired threshold t' = tot + n_expired threshold (t @ written k evs)
       \<and> (list_all writing evs \<longrightarrow> \<not> err \<and> t' = kept threshold t'))"

lemma sweep_last:
  assumes "distinct (map fst t)" and "length t - length (deleteChunk threshold t) < retentionChunk"
  shows "deleteChunk threshold t = kept threshold t"
  using assms deleted_count [OF assms(1), of threshold] by (intro last_chunk) auto

text \<open>One round: the chunk taken off a table with the writes in it.\<close>

lemma sweep_round:
  assumes "distinct (map fst t)" and "sweep_spec threshold evs (tot + (length t - length (deleteChunk threshold t))) (deleteChunk threshold t) res"
  shows "sweep_spec threshold evs tot t res"
proof -
  obtain n err t' where res: "res = (n, err, t')" by (cases res)
  let ?d = "deleteChunk threshold t"
  from assms(2) obtain k where k: "kept threshold t' = kept threshold (?d @ written k evs)"
    "n + n_expired threshold t' = tot + (length t - length ?d) + n_expired threshold (?d @ written k evs)"
    "list_all writing evs \<longrightarrow> \<not> err \<and> t' = kept threshold t'"
    unfolding sweep_spec_def res by blast
  from k(1) have "kept threshold t' = kept threshold (t @ written k evs)" using kept_deleteChunk [OF assms(1)] by simp
  moreover from k(2) have "n + n_expired threshold t' = tot + n_expired threshold (t @ written k evs)"
    using n_expired_deleteChunk [OF assms(1), of threshold] by (simp add: n_expired_def)
  ultimately show ?thesis unfolding sweep_spec_def res using k(3) by blast
qed

lemma sweep_end:
  assumes "distinct (map fst t)" and "length t - length (deleteChunk threshold t) < retentionChunk"
  shows "sweep_spec threshold evs tot t (tot + (length t - length (deleteChunk threshold t)), False, deleteChunk threshold t)"
proof -
  have "sweep_spec threshold evs (tot + (length t - length (deleteChunk threshold t))) (deleteChunk threshold t)
      (tot + (length t - length (deleteChunk threshold t)), False, deleteChunk threshold t)"
    unfolding sweep_spec_def using sweep_last [OF assms] by (auto intro!: exI [of _ 0])
  with assms(1) show ?thesis by (rule sweep_round)
qed

lemma sweep_shift: "sweep_spec threshold evs tot (t @ w) res \<Longrightarrow> sweep_spec threshold (Writes w # evs) tot t res"
  unfolding sweep_spec_def by (auto intro: exI [of _ "Suc k" for k])

lemma deleteExpired_spec:
  assumes "distinct (map fst (t @ concat (map writes evs)))"
  shows "sweep_spec threshold evs tot t (deleteExpired threshold evs tot t)"
  using assms
proof (induction threshold evs tot t rule: deleteExpired.induct)
  case (1 threshold evs tot t)
  show ?case
  proof (cases evs)
    case Nil
    from 1(1) [OF Nil refl refl] 1(3) Nil show ?thesis
      using sweep_end [of t threshold evs tot] sweep_round [of t threshold "[]" tot "deleteExpired threshold [] (tot + (length t - length (deleteChunk threshold t))) (deleteChunk threshold t)"]
        distinct_deleteChunk [of t threshold]
      by (subst deleteExpired.simps) (auto simp: Let_def)
  next
    case (Cons e rest)
    show ?thesis
    proof (cases e)
      case Cancelled
      with Cons show ?thesis by (subst deleteExpired.simps) (auto simp: sweep_spec_def intro!: exI [of _ 0])
    next
      case (Fails w)
      with Cons show ?thesis by (subst deleteExpired.simps) (auto simp: sweep_spec_def intro!: exI [of _ 1])
    next
      case (Writes w)
      have all: "distinct (map fst (t @ w) @ map fst (concat (map writes rest)))" using 1(3) Cons Writes by simp
      then have d: "distinct (map fst (t @ w))" unfolding distinct_append by blast
      have "set (map fst (deleteChunk threshold (t @ w))) \<subseteq> set (map fst (t @ w))" by (auto simp: deleteChunk_def)
      with all distinct_deleteChunk [OF d, of threshold]
      have d2: "distinct (map fst (deleteChunk threshold (t @ w) @ concat (map writes rest)))"
        unfolding map_append distinct_append by blast
      show ?thesis
      proof (cases "length (t @ w) - length (deleteChunk threshold (t @ w)) < retentionChunk")
        case True
        with sweep_end [OF d True, of rest tot] Cons Writes show ?thesis
          by (subst deleteExpired.simps) (auto simp: Let_def intro: sweep_shift)
      next
        case False
        have "sweep_spec threshold evs tot t (deleteExpired threshold rest (tot + (length (t @ w) - length (deleteChunk threshold (t @ w))))
            (deleteChunk threshold (t @ w)))"
          unfolding Cons Writes by (rule sweep_shift, rule sweep_round [OF d], rule 1(2) [OF Cons Writes refl refl refl False d2])
        with False Cons Writes show ?thesis by (subst deleteExpired.simps) (simp add: Let_def)
      qed
    qed
  qed
qed

text \<open>
  C31: a sweep deletes exactly the rows older than the threshold. Whatever is written between the
  chunks, and also when it is cancelled or an error ends it, every row that is not expired is
  kept and every deleted row is counted; if neither happens no expired row present at the last
  chunk is left. The loop ends (it is a total function).
\<close>

theorem retention_exact:
  assumes "distinct (map fst (t @ concat (map writes evs)))" and "deleteExpired threshold evs 0 t = (n, err, t')"
  shows "\<exists>k. kept threshold t' = kept threshold (t @ written k evs)
    \<and> n + n_expired threshold t' = n_expired threshold (t @ written k evs)
    \<and> (list_all writing evs \<longrightarrow> \<not> err \<and> n_expired threshold t' = 0)"
proof -
  from deleteExpired_spec [OF assms(1), of threshold 0] assms(2) obtain k
    where "kept threshold t' = kept threshold (t @ written k evs)"
      "n + n_expired threshold t' = n_expired threshold (t @ written k evs)"
      "list_all writing evs \<longrightarrow> \<not> err \<and> t' = kept threshold t'"
    by (auto simp: sweep_spec_def)
  moreover have "n_expired threshold t' = 0" if "t' = kept threshold t'"
    using that unfolding n_expired_def by (metis (no_types, lifting) filter_filter filter_False list.size(3))
  ultimately show ?thesis by blast
qed

section \<open>Sweeps\<close>

definition threshold_of :: "int \<Rightarrow> int \<Rightarrow> int" where
  "threshold_of nowMs days = nowMs - days * 24 * 60 * 60 * 1000"

record retained =
  rt_logs :: stamped
  rt_metrics :: stamped
  rt_firings :: stamped

text \<open>What happens while each table is swept; an error of one does not stop the others.\<close>

definition Sweep :: "cipher \<Rightarrow> bytes \<Rightarrow> settings \<Rightarrow> int \<Rightarrow> between list \<Rightarrow> between list \<Rightarrow> between list \<Rightarrow> retained \<Rightarrow> retained" where
  "Sweep C key s now e1 e2 e3 d =
     d\<lparr>rt_logs := snd (snd (deleteExpired (threshold_of now (RetentionDays C key s ''retention.logs_days'' RetentionDefaultLogsDays)) e1 0 (rt_logs d))),
       rt_metrics := snd (snd (deleteExpired (threshold_of now (RetentionDays C key s ''retention.metrics_days'' RetentionDefaultMetricsDays)) e2 0 (rt_metrics d))),
       rt_firings := snd (snd (deleteExpired (threshold_of now (RetentionDays C key s ''retention.alert_firings_days'' RetentionDefaultFiringsDays)) e3 0 (rt_firings d)))\<rparr>"

text \<open>
  The vacuum loop on the length of the freelist, with \<open>vacuum\<close> what one
  \<open>incremental_vacuum(1000)\<close> leaves of it (\<open>None\<close> if it fails): it stops when the list is
  empty or no shorter than before.
\<close>

function vacuumLoop :: "(nat \<Rightarrow> nat option) \<Rightarrow> nat \<Rightarrow> nat" where
  "vacuumLoop vacuum before =
     (if before = 0 then before
      else case vacuum before of
        None \<Rightarrow> before
      | Some after \<Rightarrow> if after \<ge> before then after else vacuumLoop vacuum after)"
  by pat_completeness auto
termination
  by (relation "measure snd") auto

declare vacuumLoop.simps [simp del]

text \<open>When each vacuum frees up to 1000 pages and none fails, the loop empties the list.\<close>

lemma vacuum_empties: "vacuumLoop (\<lambda>n. Some (n - 1000)) n = 0"
proof (induction n rule: less_induct)
  case (less n)
  then show ?case by (subst vacuumLoop.simps) auto
qed

lemma retention_days_bounded:
  assumes "RetentionMinDays \<le> dflt" and "dflt \<le> RetentionMaxDays"
  shows "RetentionMinDays \<le> RetentionDays C key s k dflt \<and> RetentionDays C key s k dflt \<le> RetentionMaxDays"
  using assms by (auto simp: RetentionDays_def split: sum.splits option.splits)

text \<open>
  A sweep at \<open>now\<close> deletes no row younger than one day, whatever the settings table holds:
  unset, garbled, undecryptable, negative or huge settings fall back to the defaults.
\<close>

theorem sweep_spares_young:
  assumes "distinct (map fst (rt_logs d @ concat (map writes e1)))" and "r \<in> set (rt_logs d)"
    and "now - 24 * 60 * 60 * 1000 \<le> snd r"
  shows "r \<in> set (rt_logs (Sweep C key s now e1 e2 e3 d))"
proof -
  let ?days = "RetentionDays C key s ''retention.logs_days'' RetentionDefaultLogsDays"
  let ?th = "threshold_of now ?days"
  have "1 \<le> ?days" using retention_days_bounded [of RetentionDefaultLogsDays C key s "''retention.logs_days''"]
    by (simp add: RetentionMinDays_def RetentionMaxDays_def RetentionDefaultLogsDays_def)
  then have "\<not> expired ?th r" using assms(3) by (simp add: expired_def threshold_of_def)
  moreover obtain n err t' where t': "deleteExpired ?th e1 0 (rt_logs d) = (n, err, t')" by (cases "deleteExpired ?th e1 0 (rt_logs d)")
  moreover from deleteExpired_spec [OF assms(1), of ?th 0] t' obtain k where "kept ?th t' = kept ?th (rt_logs d @ written k e1)"
    by (auto simp: sweep_spec_def)
  then have "set (kept ?th t') = set (kept ?th (rt_logs d @ written k e1))" by simp
  then have "set (kept ?th (rt_logs d)) \<subseteq> set t'" by auto
  ultimately show ?thesis using assms(2) by (auto simp: Sweep_def)
qed

theorem retention_exact_witness:
  "\<exists>n err t'. deleteExpired 100 [Writes [(3, 50), (4, 150)]] 0 [(1, 10), (2, 200)] = (n, err, t') \<and> n_expired 100 t' = 0"
proof -
  obtain n err t' where r: "deleteExpired 100 [Writes [(3, 50), (4, 150)]] 0 [(1, 10), (2, 200)] = (n, err, t')"
    by (cases "deleteExpired 100 [Writes [(3, 50), (4, 150)]] 0 [(1, 10), (2, 200)]")
  from retention_exact [OF _ r] have "n_expired 100 t' = 0" by auto
  with r show ?thesis by blast
qed

theorem sweep_spares_young_witness:
  "(1, 10 ^ 10) \<in> set (rt_logs (Sweep cipher_sample [] [''retention.logs_days'' \<mapsto> \<lparr>st_value = ''-5'', st_encrypted = False, st_updated = 0\<rparr>]
     (10 ^ 10) [Cancelled] [] [] \<lparr>rt_logs = [(1, 10 ^ 10)], rt_metrics = [], rt_firings = []\<rparr>))"
  by (rule sweep_spares_young) simp_all

end
