(* ===== verification/Dashboards.thy ===== *)
theory Dashboards
  imports Rewrite Meta_Table "HOL-Library.List_Lexorder"
begin

text \<open>
  Saved dashboards and their panels, \<open>services/dashboards.go\<close>. A dashboard shows one signal, and
  every panel is validated against that signal's scope. The tables are those of
  \<open>db/migrations/meta\<close>: the panels of a deleted dashboard go with it, and a panel needs an
  existing dashboard. \<open>NULL\<close> and the empty text are the same to the code, which writes
  \<open>nullIfEmpty\<close> and reads \<open>COALESCE\<close>.
\<close>

record Dashboard =
  da_Name :: string
  da_Type :: string
  da_Description :: string
  da_CreatedAt :: int

record Panel =
  pa_DashboardID :: int
  pa_Title :: string
  pa_Query :: string
  pa_ChartType :: string
  pa_Position :: int
  pa_Width :: int
  pa_DSL :: string
  pa_FTS :: string
  pa_Op :: string

record dash_store =
  ds_dashboards :: "Dashboard table"
  ds_panels :: "Panel table"

datatype dash_error =
  DName | DType | DTitle | DNoDashboard | DQuery verror | DLogsKind | DStreamShape | DChart | DWidth | DPanelNotFound

definition metricsPanelKinds :: "string list" where "metricsPanelKinds = [[], ''line'', ''bar'', ''stat'']"
definition logsPanelKinds :: "string list" where "logsPanelKinds = [''stream'', ''chart'', ''number'']"
definition dashboardTypes :: "string list" where "dashboardTypes = [''logs'', ''metrics'']"

section \<open>Dashboards\<close>

definition CreateDashboard :: "int \<Rightarrow> string \<Rightarrow> string \<Rightarrow> string \<Rightarrow> dash_store \<Rightarrow> (dash_error, int \<times> dash_store) result" where
  "CreateDashboard now name0 dtype description st =
     (let name = TrimSpace name0
      in if name = [] \<or> length name > 100 then Err DName
         else if dtype \<notin> set dashboardTypes then Err DType
         else case row_insert \<lparr>da_Name = name, da_Type = dtype, da_Description = TrimSpace description, da_CreatedAt = now\<rparr> (ds_dashboards st)
              of (i, t) \<Rightarrow> Ok (i, st\<lparr>ds_dashboards := t\<rparr>))"

definition GetDashboard :: "int \<Rightarrow> dash_store \<Rightarrow> Dashboard option" where
  "GetDashboard i st = row_get i (ds_dashboards st)"

text \<open>\<open>ORDER BY name, id\<close>, in SQLite's binary collation\<close>

definition ListDashboards :: "dash_store \<Rightarrow> (int \<times> Dashboard) list" where
  "ListDashboards st = sort_key (\<lambda>(k, d). map (of_char :: char \<Rightarrow> nat) (da_Name d)) (sort_key fst (ds_dashboards st))"

definition DeleteDashboard :: "int \<Rightarrow> dash_store \<Rightarrow> dash_store" where
  "DeleteDashboard i st = st\<lparr>ds_dashboards := row_delete i (ds_dashboards st),
     ds_panels := filter (\<lambda>(k, p). pa_DashboardID p \<noteq> i) (ds_panels st)\<rparr>"

definition PanelScope :: "string \<Rightarrow> Scope" where
  "PanelScope dashboardType = (if dashboardType = ''logs'' then ScopeLogs else ScopeMetrics)"

section \<open>Panels\<close>

text \<open>The defaults that \<open>validatePanel\<close> fills in for a logs panel.\<close>

definition logsDefaults :: "Panel \<Rightarrow> Panel" where
  "logsDefaults p =
     p\<lparr>pa_ChartType := (if pa_ChartType p = [] then ''stream'' else pa_ChartType p), pa_Op := (if pa_Op p \<noteq> ''or'' then ''and'' else pa_Op p)\<rparr>"

definition checkWidth :: "Panel \<Rightarrow> (dash_error, Panel) result" where
  "checkWidth p = (if pa_Width p < 1 \<or> pa_Width p > 3 then Err DWidth else Ok p)"

definition validatePanel :: "sqlp \<Rightarrow> dash_store \<Rightarrow> Panel \<Rightarrow> (dash_error, Panel) result" where
  "validatePanel P st p0 =
     (let p = p0\<lparr>pa_Title := TrimSpace (pa_Title p0), pa_Query := TrimSpace (pa_Query p0)\<rparr>
      in if pa_Title p = [] \<or> length (pa_Title p) > 100 then Err DTitle
         else case GetDashboard (pa_DashboardID p) st of
           None \<Rightarrow> Err DNoDashboard
         | Some d \<Rightarrow>
            (case ValidateIn P (pa_Query p) (PanelScope (da_Type d)) of
               Inl e \<Rightarrow> Err (DQuery e)
             | Inr v \<Rightarrow>
                 if da_Type d = ''logs''
                 then (let q = logsDefaults p
                       in if pa_ChartType q \<notin> set logsPanelKinds then Err DLogsKind
                          else if pa_ChartType q = ''stream'' \<and> v_Shape v \<noteq> ShapeLogViewer then Err DStreamShape
                          else checkWidth q)
                 else if pa_ChartType p \<notin> set metricsPanelKinds then Err DChart
                 else checkWidth p))"

text \<open>\<open>COALESCE((SELECT MAX(position) + 1 ...), 0)\<close>\<close>

definition nextPosition :: "int \<Rightarrow> Panel table \<Rightarrow> int" where
  "nextPosition i t =
     (let ps = map (\<lambda>(k, p). pa_Position p) (filter (\<lambda>(k, p). pa_DashboardID p = i) t)
      in if ps = [] then 0 else Max (set ps) + 1)"

definition CreatePanel :: "sqlp \<Rightarrow> Panel \<Rightarrow> dash_store \<Rightarrow> (dash_error, dash_store) result" where
  "CreatePanel P p0 st =
     (case validatePanel P st p0 of
        Inl e \<Rightarrow> Err e
      | Inr p \<Rightarrow> Ok (st\<lparr>ds_panels := snd (row_insert (p\<lparr>pa_Position := nextPosition (pa_DashboardID p) (ds_panels st)\<rparr>) (ds_panels st))\<rparr>))"

definition GetPanel :: "int \<Rightarrow> int \<Rightarrow> dash_store \<Rightarrow> Panel option" where
  "GetPanel dashboardID panelID st =
     (case row_get panelID (ds_panels st) of None \<Rightarrow> None | Some p \<Rightarrow> if pa_DashboardID p = dashboardID then Some p else None)"

definition UpdatePanel :: "sqlp \<Rightarrow> int \<Rightarrow> Panel \<Rightarrow> dash_store \<Rightarrow> (dash_error, dash_store) result" where
  "UpdatePanel P panelID p0 st =
     (case validatePanel P st p0 of
        Inl e \<Rightarrow> Err e
      | Inr p \<Rightarrow>
          if GetPanel (pa_DashboardID p) panelID st = None then Err DPanelNotFound
          else Ok (st\<lparr>ds_panels := row_update panelID (\<lambda>r. r\<lparr>pa_Title := pa_Title p, pa_Query := pa_Query p, pa_ChartType := pa_ChartType p,
             pa_Width := pa_Width p, pa_DSL := pa_DSL p, pa_FTS := pa_FTS p, pa_Op := pa_Op p\<rparr>) (ds_panels st)\<rparr>))"

definition DeletePanel :: "int \<Rightarrow> int \<Rightarrow> dash_store \<Rightarrow> dash_store" where
  "DeletePanel dashboardID panelID st =
     st\<lparr>ds_panels := filter (\<lambda>(k, p). \<not> (k = panelID \<and> pa_DashboardID p = dashboardID)) (ds_panels st)\<rparr>"

text \<open>\<open>ORDER BY position, id\<close>\<close>

definition ListPanels :: "int \<Rightarrow> dash_store \<Rightarrow> (int \<times> Panel) list" where
  "ListPanels dashboardID st =
     sort_key (\<lambda>(k, p). pa_Position p) (sort_key fst (filter (\<lambda>(k, p). pa_DashboardID p = dashboardID) (ds_panels st)))"

section \<open>Every panel stays valid for its dashboard\<close>

definition panel_ok :: "sqlp \<Rightarrow> Dashboard \<Rightarrow> Panel \<Rightarrow> bool" where
  "panel_ok P d p \<longleftrightarrow>
     pa_Title p \<noteq> [] \<and> length (pa_Title p) \<le> 100 \<and> 1 \<le> pa_Width p \<and> pa_Width p \<le> 3
     \<and> (case ValidateIn P (pa_Query p) (PanelScope (da_Type d)) of
          Inl e \<Rightarrow> False
        | Inr v \<Rightarrow>
            if da_Type d = ''logs''
            then pa_ChartType p \<in> set logsPanelKinds \<and> (pa_ChartType p = ''stream'' \<longrightarrow> v_Shape v = ShapeLogViewer) \<and> pa_Op p \<in> {''and'', ''or''}
            else pa_ChartType p \<in> set metricsPanelKinds)"

definition dash_inv :: "sqlp \<Rightarrow> dash_store \<Rightarrow> bool" where
  "dash_inv P st \<longleftrightarrow> keyed (ds_dashboards st) \<and> keyed (ds_panels st)
     \<and> (\<forall>(i, d) \<in> set (ds_dashboards st). da_Type d \<in> set dashboardTypes)
     \<and> (\<forall>(k, p) \<in> set (ds_panels st). \<exists>d. GetDashboard (pa_DashboardID p) st = Some d \<and> panel_ok P d p)"

datatype dash_op =
    DashCreate int string string string | DashDelete int | PanelCreate Panel | PanelUpdate int Panel | PanelDelete int int

fun dash_exec :: "sqlp \<Rightarrow> dash_op \<Rightarrow> dash_store \<Rightarrow> dash_store option" where
  "dash_exec P (DashCreate now name dtype descr) st = (case CreateDashboard now name dtype descr st of Inl e \<Rightarrow> None | Inr (i, st') \<Rightarrow> Some st')"
| "dash_exec P (DashDelete i) st = Some (DeleteDashboard i st)"
| "dash_exec P (PanelCreate p) st = (case CreatePanel P p st of Inl e \<Rightarrow> None | Inr st' \<Rightarrow> Some st')"
| "dash_exec P (PanelUpdate i p) st = (case UpdatePanel P i p st of Inl e \<Rightarrow> None | Inr st' \<Rightarrow> Some st')"
| "dash_exec P (PanelDelete i k) st = Some (DeletePanel i k st)"

lemma validatePanel_ok:
  assumes "validatePanel P st p0 = Ok p"
  shows "pa_DashboardID p = pa_DashboardID p0 \<and> (\<exists>d. GetDashboard (pa_DashboardID p) st = Some d \<and> panel_ok P d p)"
proof -
  let ?p = "p0\<lparr>pa_Title := TrimSpace (pa_Title p0), pa_Query := TrimSpace (pa_Query p0)\<rparr>"
  from assms obtain d v where t: "pa_Title ?p \<noteq> []" "length (pa_Title ?p) \<le> 100" and d: "GetDashboard (pa_DashboardID p0) st = Some d"
    and v: "ValidateIn P (pa_Query ?p) (PanelScope (da_Type d)) = Ok v"
    and r: "(if da_Type d = ''logs'' then let q = logsDefaults ?p in if pa_ChartType q \<notin> set logsPanelKinds then Err DLogsKind
        else if pa_ChartType q = ''stream'' \<and> v_Shape v \<noteq> ShapeLogViewer then Err DStreamShape else checkWidth q
      else if pa_ChartType ?p \<notin> set metricsPanelKinds then Err DChart else checkWidth ?p) = Ok p"
    by (auto simp: validatePanel_def Let_def split: if_splits option.splits sum.splits)
  have "pa_DashboardID p = pa_DashboardID p0 \<and> panel_ok P d p"
  proof (cases "da_Type d = ''logs''")
    case True
    with r have p: "p = logsDefaults ?p" and c: "pa_ChartType p \<in> set logsPanelKinds" "pa_ChartType p = ''stream'' \<longrightarrow> v_Shape v = ShapeLogViewer"
      and w: "1 \<le> pa_Width p" "pa_Width p \<le> 3"
      by (auto simp: Let_def checkWidth_def split: if_splits)
    have f: "pa_DashboardID p = pa_DashboardID p0" "pa_Title p = pa_Title ?p" "pa_Query p = pa_Query ?p" "pa_Op p \<in> {''and'', ''or''}"
      by (auto simp: p logsDefaults_def)
    show ?thesis using True t v c w f by (simp add: panel_ok_def)
  next
    case False
    with r have "p = ?p" "pa_ChartType p \<in> set metricsPanelKinds" "1 \<le> pa_Width p" "pa_Width p \<le> 3"
      by (auto simp: checkWidth_def split: if_splits)
    with False t v show ?thesis by (simp add: panel_ok_def)
  qed
  with d show ?thesis by auto
qed

lemma panel_ok_fields:
  "pa_Title q = pa_Title p \<Longrightarrow> pa_Query q = pa_Query p \<Longrightarrow> pa_ChartType q = pa_ChartType p \<Longrightarrow> pa_Width q = pa_Width p
   \<Longrightarrow> pa_Op q = pa_Op p \<Longrightarrow> panel_ok P d q = panel_ok P d p"
  by (simp only: panel_ok_def)

lemma panel_ok_position [simp]: "panel_ok P d (p\<lparr>pa_Position := n\<rparr>) = panel_ok P d p"
  by (rule panel_ok_fields) simp_all

lemma GetDashboard_create:
  assumes "CreateDashboard now name dtype descr st = Ok (i, st')" and "GetDashboard j st = Some d"
  shows "GetDashboard j st' = Some d"
  using assms meta.insert_keeps [of j "ds_dashboards st" d]
  by (auto simp: CreateDashboard_def GetDashboard_def Let_def split: if_splits prod.splits) (metis snd_conv)

lemma dash_inv_create_dashboard:
  assumes c: "CreateDashboard now name dtype descr st = Ok (i, st')" and "dash_inv P st"
  shows "dash_inv P st'"
proof -
  from c obtain r where st': "st' = st\<lparr>ds_dashboards := snd (row_insert r (ds_dashboards st))\<rparr>" and r: "da_Type r \<in> set dashboardTypes"
    by (auto simp: CreateDashboard_def row_insert_def Let_def split: if_splits)
  have "\<forall>(i, d) \<in> set (ds_dashboards st'). da_Type d \<in> set dashboardTypes"
    using assms(2) r by (auto simp: st' dash_inv_def row_insert_def)
  moreover have "\<exists>d. GetDashboard (pa_DashboardID p) st' = Some d \<and> panel_ok P d p" if "(k, p) \<in> set (ds_panels st')" for k p
    using that assms(2) GetDashboard_create [OF c] by (fastforce simp: st' dash_inv_def)
  ultimately show ?thesis using assms(2) by (auto simp: dash_inv_def st')
qed

lemma dash_inv_panels:
  assumes "dash_inv P st" and "keyed ps"
    and "\<And>k p. (k, p) \<in> set ps \<Longrightarrow> \<exists>d. GetDashboard (pa_DashboardID p) st = Some d \<and> panel_ok P d p"
  shows "dash_inv P (st\<lparr>ds_panels := ps\<rparr>)"
  using assms by (auto simp: dash_inv_def GetDashboard_def)

lemma dash_inv_create_panel:
  assumes "CreatePanel P p0 st = Ok st'" and "dash_inv P st"
  shows "dash_inv P st'"
proof -
  from assms(1) obtain p where p: "validatePanel P st p0 = Ok p"
    and st': "st' = st\<lparr>ds_panels := snd (row_insert (p\<lparr>pa_Position := nextPosition (pa_DashboardID p) (ds_panels st)\<rparr>) (ds_panels st))\<rparr>"
    by (auto simp: CreatePanel_def split: sum.splits)
  show ?thesis unfolding st'
  proof (rule dash_inv_panels [OF assms(2)])
    show "keyed (snd (row_insert (p\<lparr>pa_Position := nextPosition (pa_DashboardID p) (ds_panels st)\<rparr>) (ds_panels st)))"
      using assms(2) by (simp add: dash_inv_def)
    show "\<exists>d. GetDashboard (pa_DashboardID q) st = Some d \<and> panel_ok P d q"
      if "(k, q) \<in> set (snd (row_insert (p\<lparr>pa_Position := nextPosition (pa_DashboardID p) (ds_panels st)\<rparr>) (ds_panels st)))" for k q
      using that validatePanel_ok [OF p] assms(2) by (auto simp: row_insert_def dash_inv_def)
  qed
qed

lemma row_update_mem: "(k, r) \<in> set (row_update i f t) \<Longrightarrow> (\<exists>r0. (k, r0) \<in> set t \<and> r = (if k = i then f r0 else r0))"
  by (auto simp: row_update_def)

lemma dash_inv_update_panel:
  assumes "UpdatePanel P i p0 st = Ok st'" and "dash_inv P st"
  shows "dash_inv P st'"
proof -
  from assms(1) obtain p where p: "validatePanel P st p0 = Ok p" and g: "GetPanel (pa_DashboardID p) i st \<noteq> None"
    and st': "st' = st\<lparr>ds_panels := row_update i (\<lambda>r. r\<lparr>pa_Title := pa_Title p, pa_Query := pa_Query p, pa_ChartType := pa_ChartType p,
             pa_Width := pa_Width p, pa_DSL := pa_DSL p, pa_FTS := pa_FTS p, pa_Op := pa_Op p\<rparr>) (ds_panels st)\<rparr>"
    by (auto simp: UpdatePanel_def split: sum.splits if_splits)
  have k: "keyed (ds_panels st)" using assms(2) by (simp add: dash_inv_def)
  have own: "pa_DashboardID r = pa_DashboardID p" if "(i, r) \<in> set (ds_panels st)" for r
    using that g k by (auto simp: GetPanel_def row_get_mem [symmetric] split: option.splits if_splits)
  obtain d where d: "GetDashboard (pa_DashboardID p) st = Some d" "panel_ok P d p" using validatePanel_ok [OF p] by blast
  show ?thesis unfolding st'
  proof (rule dash_inv_panels [OF assms(2)])
    fix k q
    assume "(k, q) \<in> set (row_update i (\<lambda>r. r\<lparr>pa_Title := pa_Title p, pa_Query := pa_Query p, pa_ChartType := pa_ChartType p,
             pa_Width := pa_Width p, pa_DSL := pa_DSL p, pa_FTS := pa_FTS p, pa_Op := pa_Op p\<rparr>) (ds_panels st))"
    then obtain q0 where q0: "(k, q0) \<in> set (ds_panels st)" and q: "q = (if k = i then q0\<lparr>pa_Title := pa_Title p, pa_Query := pa_Query p, pa_ChartType := pa_ChartType p,
             pa_Width := pa_Width p, pa_DSL := pa_DSL p, pa_FTS := pa_FTS p, pa_Op := pa_Op p\<rparr> else q0)"
      using row_update_mem by fastforce
    show "\<exists>d. GetDashboard (pa_DashboardID q) st = Some d \<and> panel_ok P d q"
    proof (cases "k = i")
      case True
      with own q0 q d panel_ok_fields [of q p P d] show ?thesis by auto
    next
      case False
      with q0 q assms(2) show ?thesis by (auto simp: dash_inv_def)
    qed
  qed (use k in simp)
qed

lemma dash_inv_delete_panel: "dash_inv P st \<Longrightarrow> dash_inv P (DeletePanel i k st)"
  unfolding DeletePanel_def by (rule dash_inv_panels) (auto simp: dash_inv_def keyed_filter)

lemma dash_inv_delete_dashboard:
  assumes "dash_inv P st"
  shows "dash_inv P (DeleteDashboard i st)"
proof -
  have "GetDashboard j (DeleteDashboard i st) = GetDashboard j st" if "j \<noteq> i" for j
    using that by (simp add: GetDashboard_def DeleteDashboard_def meta.get_delete)
  moreover have "set (row_delete i (ds_dashboards st)) \<subseteq> set (ds_dashboards st)" by (auto simp: row_delete_def)
  ultimately show ?thesis
    using assms by (fastforce simp: dash_inv_def DeleteDashboard_def keyed_delete keyed_filter)
qed

text \<open>
  In every store reached by creating, editing and deleting dashboards and panels, each panel
  belongs to a stored dashboard and is valid for that dashboard's signal: its query passes the
  validator in the signal's scope, its kind and width are allowed, and a stream panel's query
  lists raw log lines.
\<close>

theorem panels_stay_valid:
  assumes "reachable (dash_exec P) \<lparr>ds_dashboards = [], ds_panels = []\<rparr> st"
  shows "dash_inv P st"
  using assms
proof (rule reachable_invariant)
  show "dash_inv P \<lparr>ds_dashboards = [], ds_panels = []\<rparr>" by (simp add: dash_inv_def)
  show "dash_inv P s'" if "dash_inv P s" "dash_exec P a s = Some s'" for a s s'
    using that by (cases a)
      (auto intro: dash_inv_create_dashboard dash_inv_create_panel dash_inv_update_panel dash_inv_delete_panel dash_inv_delete_dashboard
        split: sum.splits)
qed

text \<open>A new panel is shown last on its dashboard.\<close>

lemma new_panel_last:
  assumes "(k, p) \<in> set t" and "pa_DashboardID p = i"
  shows "pa_Position p < nextPosition i t"
proof -
  let ?ps = "map (\<lambda>(k, p). pa_Position p) (filter (\<lambda>(k, p). pa_DashboardID p = i) t)"
  have "pa_Position p \<in> set ?ps" using assms by force
  then have "pa_Position p \<le> Max (set ?ps)" "?ps \<noteq> []" by (auto simp del: set_map set_filter)
  then show ?thesis by (simp add: nextPosition_def Let_def del: set_map set_filter)
qed

definition panel_sample :: Panel where
  "panel_sample = \<lparr>pa_DashboardID = 1, pa_Title = ''errors'', pa_Query = ''q'', pa_ChartType = [], pa_Position = 0, pa_Width = 2, pa_DSL = [],
     pa_FTS = [], pa_Op = []\<rparr>"

theorem panels_stay_valid_witness:
  "\<exists>st. run (dash_exec sqlp_sample) [DashCreate 5 ''ops'' ''logs'' [], PanelCreate panel_sample] \<lparr>ds_dashboards = [], ds_panels = []\<rparr> = Some st
    \<and> dash_inv sqlp_sample st"
proof -
  have "TrimSpace ''ops'' = ''ops''" "TrimSpace ''errors'' = ''errors''" by code_simp+
  then obtain st where st: "run (dash_exec sqlp_sample) [DashCreate 5 ''ops'' ''logs'' [], PanelCreate panel_sample] \<lparr>ds_dashboards = [], ds_panels = []\<rparr> = Some st"
    by (simp add: CreateDashboard_def dashboardTypes_def row_insert_def next_rowid_def CreatePanel_def validatePanel_def panel_sample_def
        GetDashboard_def row_get_def PanelScope_def sample_validates_in logsDefaults_def logsPanelKinds_def checkWidth_def validated_sample_def Let_def)
  then have "reachable (dash_exec sqlp_sample) \<lparr>ds_dashboards = [], ds_panels = []\<rparr> st" unfolding reachable_run by blast
  from panels_stay_valid [OF this] st show ?thesis by blast
qed

end
