(* ===== verification/Backup.thy ===== *)
theory Backup
  imports Settings_Store Machine "HOL-Library.Multiset"
begin

text \<open>
  Backups, \<open>services/backup.go\<close>: the schedule check, the S3 configuration, one backup run (copy
  every database, then upload every copy under one prefix) and the lock that keeps runs apart. The
  cron parser, the page copy of SQLite's Backup API, the file system and S3 are the fields of
  \<open>backup_world\<close>; an upload is given the whole configuration (endpoint, region, bucket and credentials) and the object's key.
  Go ranges over the map of databases in an order that changes from one loop to
  the next: a run has one order for the copies and one for the uploads.
\<close>

text \<open>\<open>os.PathError\<close>, what \<open>os.MkdirTemp\<close> and \<open>os.Open\<close> fail with.\<close>

record PathError =
  pe_Op :: string
  pe_Path :: string
  pe_Err :: string

definition pathErrorText :: "PathError \<Rightarrow> string" where
  "pathErrorText e = pe_Op e @ '' '' @ pe_Path e @ '': '' @ pe_Err e"

record s3Settings =
  s3_endpoint :: string
  s3_region :: string
  s3_bucket :: string
  s3_prefix :: string
  s3_accessKey :: string
  s3_secretKey :: string

record backup_world =
  bw_cron :: "string \<Rightarrow> (int \<Rightarrow> bool) option"
  bw_mkdir :: "PathError option"
  bw_copy :: "string \<Rightarrow> string option"
  bw_open :: "string \<Rightarrow> PathError option"
  bw_put :: "s3Settings \<Rightarrow> string \<Rightarrow> string option"

datatype backup_error =
  BBusy | BConfig | BMkdir PathError | BCopy string string | BOpen PathError | BUpload string string

fun backupErrText :: "backup_error \<Rightarrow> string" where
  "backupErrText BBusy = ''a backup is already running''"
| "backupErrText BConfig = ''backup is not fully configured: bucket and credentials are required''"
| "backupErrText (BMkdir e) = pathErrorText e"
| "backupErrText (BCopy name e) = ''backup '' @ name @ '': '' @ e"
| "backupErrText (BOpen e) = pathErrorText e"
| "backupErrText (BUpload key e) = ''upload '' @ key @ '': '' @ e"

definition BackupDefaultSchedule :: string where "BackupDefaultSchedule = ''0 3 * * *''"

definition ParseBool :: "string \<Rightarrow> bool option" where
  "ParseBool s =
     (if s \<in> set [''1'', ''t'', ''T'', ''TRUE'', ''true'', ''True''] then Some True
      else if s \<in> set [''0'', ''f'', ''F'', ''FALSE'', ''false'', ''False''] then Some False else None)"

definition ValidateCron :: "backup_world \<Rightarrow> string \<Rightarrow> bool" where
  "ValidateCron W expr \<longleftrightarrow> bw_cron W expr \<noteq> None"

definition backupEnabled :: "cipher \<Rightarrow> bytes \<Rightarrow> settings \<Rightarrow> bool" where
  "backupEnabled C key s = (case Get C key ''backup.enabled'' s of Inl e \<Rightarrow> False | Inr v \<Rightarrow> ParseBool v = Some True)"

text \<open>Whether the tick at a minute starts a run.\<close>

definition runDue :: "backup_world \<Rightarrow> cipher \<Rightarrow> bytes \<Rightarrow> settings \<Rightarrow> int \<Rightarrow> bool" where
  "runDue W C key s minute =
     (if \<not> backupEnabled C key s then False
      else let expr = (case Get C key ''backup.schedule'' s of Inl e \<Rightarrow> BackupDefaultSchedule
                  | Inr v \<Rightarrow> if v = [] then BackupDefaultSchedule else v)
           in case bw_cron W expr of None \<Rightarrow> False | Some fires \<Rightarrow> fires minute)"

definition getOrEmpty :: "cipher \<Rightarrow> bytes \<Rightarrow> settings \<Rightarrow> string \<Rightarrow> string" where
  "getOrEmpty C key s k = (case Get C key k s of Inl e \<Rightarrow> [] | Inr v \<Rightarrow> v)"

text \<open>
  \<open>s3Config\<close> reads six settings one after another, each by a query of its own, and then decides on the values read.
\<close>

definition configKeys :: "string list" where
  "configKeys = [''backup.s3_endpoint'', ''backup.s3_region'', ''backup.s3_bucket'', ''backup.s3_prefix'', ''backup.s3_access_key'', ''backup.s3_secret_key'']"

definition configOf :: "string list \<Rightarrow> (backup_error, s3Settings) result" where
  "configOf vs =
     (let cfg = \<lparr>s3_endpoint = vs ! 0, s3_region = vs ! 1, s3_bucket = vs ! 2, s3_prefix = vs ! 3, s3_accessKey = vs ! 4, s3_secretKey = vs ! 5\<rparr>
      in if s3_bucket cfg = [] \<or> s3_accessKey cfg = [] \<or> s3_secretKey cfg = [] then Err BConfig
         else Ok (if s3_region cfg = [] then cfg\<lparr>s3_region := ''auto''\<rparr> else cfg))"

text \<open>With no edit of the settings in between.\<close>

definition s3Config :: "cipher \<Rightarrow> bytes \<Rightarrow> settings \<Rightarrow> (backup_error, s3Settings) result" where
  "s3Config C key s = configOf (map (getOrEmpty C key s) configKeys)"

section \<open>One run\<close>

fun copyAll :: "backup_world \<Rightarrow> string list \<Rightarrow> backup_error option" where
  "copyAll W [] = None"
| "copyAll W (name # names) = (case bw_copy W name of Some e \<Rightarrow> Some (BCopy name e) | None \<Rightarrow> copyAll W names)"

definition objectKey :: "s3Settings \<Rightarrow> string \<Rightarrow> string \<Rightarrow> string" where
  "objectKey cfg stamp name =
     (if s3_prefix cfg \<noteq> [] then s3_prefix cfg @ ''/'' @ stamp @ ''/'' @ name else stamp @ ''/'' @ name)"

text \<open>The uploads: what was stored, and the error that ended them.\<close>

fun uploadAll :: "backup_world \<Rightarrow> s3Settings \<Rightarrow> string \<Rightarrow> string list \<Rightarrow> string list \<times> backup_error option" where
  "uploadAll W cfg stamp [] = ([], None)"
| "uploadAll W cfg stamp (name # names) =
     (case bw_open W name of
        Some e \<Rightarrow> ([], Some (BOpen e))
      | None \<Rightarrow>
          (case bw_put W cfg (objectKey cfg stamp name) of
             Some e \<Rightarrow> ([], Some (BUpload (objectKey cfg stamp name) e))
           | None \<Rightarrow> (case uploadAll W cfg stamp names of (up, e) \<Rightarrow> (objectKey cfg stamp name # up, e))))"

definition dbNames :: "string list" where "dbNames = [''logs.db'', ''metrics.db'', ''meta.db'']"

text \<open>The run after the configuration is read.\<close>

definition runBackup :: "backup_world \<Rightarrow> (backup_error, s3Settings) result \<Rightarrow> string \<Rightarrow> string list \<times> string list \<Rightarrow> string list \<times> backup_error option" where
  "runBackup W config stamp names =
     (case config of
        Inl e \<Rightarrow> ([], Some e)
      | Inr cfg \<Rightarrow>
          (case bw_mkdir W of
             Some e \<Rightarrow> ([], Some (BMkdir e))
           | None \<Rightarrow> (case copyAll W (fst names) of Some e \<Rightarrow> ([], Some e) | None \<Rightarrow> uploadAll W cfg stamp (snd names))))"

definition recordResult :: "cipher \<Rightarrow> bytes \<Rightarrow> int \<Rightarrow> backup_error option \<Rightarrow> settings \<Rightarrow> settings" where
  "recordResult C key now err s =
     (let result = (case err of None \<Rightarrow> ''ok'' | Some e \<Rightarrow> backupErrText e);
          s1 = SetSetting C key [] now ''backup.last_run_at'' (itoa now) False s
      in SetSetting C key [] now ''backup.last_result'' result False s1)"

section \<open>The service\<close>

text \<open>
  A run under way: the order of the databases, the world it meets, and the settings it has read so far. The ghost field \<open>br_past\<close>
  lists the settings from the start of the run to now.
\<close>

record backup_run =
  br_stamp :: string
  br_names :: "string list \<times> string list"
  br_world :: backup_world
  br_read :: "string list"
  br_past :: "settings list"

record BackupService =
  bk_settings :: settings
  bk_running :: "backup_run list"
  bk_locked :: bool
  bk_refused :: nat
  bk_uploaded :: "string list"

text \<open>
  \<open>RunNow\<close> in steps, as runs and edits of the settings overlap: the attempt to take the lock, each read of a setting, and the
  rest of the run, which depends on the settings no more, with the
  recording of its outcome, which is done even when the context is cancelled.
\<close>

definition b_start :: "string \<Rightarrow> string list \<times> string list \<Rightarrow> backup_world \<Rightarrow> BackupService \<Rightarrow> BackupService" where
  "b_start stamp names W s =
     (if bk_locked s then s\<lparr>bk_refused := Suc (bk_refused s)\<rparr>
      else s\<lparr>bk_locked := True,
             bk_running := \<lparr>br_stamp = stamp, br_names = names, br_world = W, br_read = [], br_past = [bk_settings s]\<rparr> # bk_running s\<rparr>)"

definition b_read :: "cipher \<Rightarrow> bytes \<Rightarrow> BackupService \<Rightarrow> BackupService option" where
  "b_read C key s =
     (case bk_running s of
        [] \<Rightarrow> None
      | r # rest \<Rightarrow>
          if length (br_read r) < length configKeys
          then Some (s\<lparr>bk_running := r\<lparr>br_read := br_read r @ [getOrEmpty C key (bk_settings s) (configKeys ! length (br_read r))]\<rparr> # rest\<rparr>)
          else None)"

definition b_finish :: "cipher \<Rightarrow> bytes \<Rightarrow> int \<Rightarrow> BackupService \<Rightarrow> BackupService option" where
  "b_finish C key now s =
     (case bk_running s of
        [] \<Rightarrow> None
      | r # rest \<Rightarrow>
          if length (br_read r) < length configKeys then None
          else (case runBackup (br_world r) (configOf (br_read r)) (br_stamp r) (br_names r) of (up, err) \<Rightarrow>
             Some (s\<lparr>bk_settings := recordResult C key now err (bk_settings s), bk_running := rest, bk_locked := False,
                     bk_uploaded := bk_uploaded s @ up\<rparr>)))"

text \<open>Somebody saves a setting.\<close>

definition b_edit :: "cipher \<Rightarrow> bytes \<Rightarrow> set_op \<Rightarrow> BackupService \<Rightarrow> BackupService" where
  "b_edit C key x s =
     (let st = set_exec C key x (bk_settings s)
      in s\<lparr>bk_settings := st, bk_running := map (\<lambda>r. r\<lparr>br_past := br_past r @ [st]\<rparr>) (bk_running s)\<rparr>)"

text \<open>The whole call, when nothing else happens in between.\<close>

definition RunNow :: "cipher \<Rightarrow> bytes \<Rightarrow> string \<Rightarrow> string list \<times> string list \<Rightarrow> backup_world \<Rightarrow> int \<Rightarrow> BackupService \<Rightarrow> backup_error option \<times> BackupService" where
  "RunNow C key stamp names W now s =
     (if bk_locked s then (Some BBusy, s\<lparr>bk_refused := Suc (bk_refused s)\<rparr>)
      else (case runBackup W (s3Config C key (bk_settings s)) stamp names of (up, err) \<Rightarrow>
        (err, s\<lparr>bk_settings := recordResult C key now err (bk_settings s), bk_uploaded := bk_uploaded s @ up\<rparr>)))"

definition db_orders :: "string list \<times> string list \<Rightarrow> bool" where
  "db_orders names \<longleftrightarrow> mset (fst names) = mset dbNames \<and> mset (snd names) = mset dbNames"

datatype backup_op = BStart string "string list \<times> string list" backup_world | BRead | BFinish int | BEdit set_op

fun backup_exec :: "cipher \<Rightarrow> bytes \<Rightarrow> backup_op \<Rightarrow> BackupService \<Rightarrow> BackupService option" where
  "backup_exec C key (BStart stamp names W) s = (if db_orders names then Some (b_start stamp names W s) else None)"
| "backup_exec C key BRead s = b_read C key s"
| "backup_exec C key (BFinish now) s = b_finish C key now s"
| "backup_exec C key (BEdit x) s = Some (b_edit C key x s)"

definition new_backup :: "settings \<Rightarrow> BackupService" where
  "new_backup s = \<lparr>bk_settings = s, bk_running = [], bk_locked = False, bk_refused = 0, bk_uploaded = []\<rparr>"

text \<open>The uninterrupted call is the sequence of its steps.\<close>

lemma RunNow_steps:
  assumes "\<not> bk_locked s" and "bk_running s = []" and "db_orders names"
  shows "run (backup_exec C key) ([BStart stamp names W] @ replicate 6 BRead @ [BFinish now]) s = Some (snd (RunNow C key stamp names W now s))"
proof -
  have k: "configKeys ! 0 = ''backup.s3_endpoint''" "configKeys ! Suc 0 = ''backup.s3_region''" "configKeys ! Suc (Suc 0) = ''backup.s3_bucket''"
    "configKeys ! Suc (Suc (Suc 0)) = ''backup.s3_prefix''" "configKeys ! Suc (Suc (Suc (Suc 0))) = ''backup.s3_access_key''"
    "configKeys ! Suc (Suc (Suc (Suc (Suc 0)))) = ''backup.s3_secret_key''" "length configKeys = 6"
    by (simp_all add: configKeys_def)
  have "replicate 6 BRead = [BRead, BRead, BRead, BRead, BRead, BRead]" by (simp add: numeral_eq_Suc)
  moreover have "map f configKeys = [f ''backup.s3_endpoint'', f ''backup.s3_region'', f ''backup.s3_bucket'', f ''backup.s3_prefix'',
      f ''backup.s3_access_key'', f ''backup.s3_secret_key'']" for f :: "string \<Rightarrow> string" by (simp add: configKeys_def)
  ultimately show ?thesis using assms k
    by (cases s) (simp add: b_start_def b_read_def b_finish_def RunNow_def s3Config_def split: prod.split)
qed

section \<open>The invariant of a run\<close>

definition run_ok :: "cipher \<Rightarrow> bytes \<Rightarrow> settings \<Rightarrow> backup_run \<Rightarrow> bool" where
  "run_ok C key st r \<longleftrightarrow> db_orders (br_names r) \<and> st \<in> set (br_past r) \<and> length (br_read r) \<le> length configKeys
     \<and> (\<forall>i < length (br_read r). \<exists>old \<in> set (br_past r). br_read r ! i = getOrEmpty C key old (configKeys ! i))"

definition one_run :: "cipher \<Rightarrow> bytes \<Rightarrow> BackupService \<Rightarrow> bool" where
  "one_run C key s \<longleftrightarrow> length (bk_running s) = (if bk_locked s then 1 else 0) \<and> list_all (run_ok C key (bk_settings s)) (bk_running s)"

lemma run_ok_read:
  assumes "run_ok C key st r" and "length (br_read r) < length configKeys"
  shows "run_ok C key st (r\<lparr>br_read := br_read r @ [getOrEmpty C key st (configKeys ! length (br_read r))]\<rparr>)"
  using assms by (auto simp: run_ok_def nth_append less_Suc_eq)

lemma run_ok_edit: "run_ok C key st r \<Longrightarrow> run_ok C key st' (r\<lparr>br_past := br_past r @ [st']\<rparr>)"
  by (auto simp: run_ok_def)

lemma one_run_step:
  assumes "backup_exec C key a s = Some s'" and "one_run C key s"
  shows "one_run C key s'"
proof (cases a)
  case (BStart stamp names W)
  with assms show ?thesis by (auto simp: one_run_def b_start_def run_ok_def split: if_splits)
next
  case BRead
  with assms show ?thesis by (auto simp: one_run_def b_read_def run_ok_read split: list.splits if_splits)
next
  case (BFinish now)
  with assms show ?thesis by (auto simp: one_run_def b_finish_def split: list.splits prod.splits if_splits)
next
  case (BEdit x)
  let ?st = "set_exec C key x (bk_settings s)"
  have "run_ok C key ?st (r\<lparr>br_past := br_past r @ [?st]\<rparr>)" if "r \<in> set (bk_running s)" for r
    using that assms(2) by (intro run_ok_edit [of C key "bk_settings s"]) (auto simp: one_run_def list_all_iff)
  with BEdit assms show ?thesis by (auto simp: one_run_def b_edit_def Let_def list_all_iff)
qed

lemma one_run_reachable: "reachable (backup_exec C key) (new_backup s0) s \<Longrightarrow> one_run C key s"
  by (erule reachable_invariant) (auto simp: new_backup_def one_run_def dest: one_run_step [unfolded one_run_def])

section \<open>A recorded success is a complete backup\<close>

lemma uploadAll_ok:
  "uploadAll W cfg stamp names = (up, None) \<Longrightarrow>
   up = map (objectKey cfg stamp) names \<and> (\<forall>name \<in> set names. bw_put W cfg (objectKey cfg stamp name) = None)"
  by (induction names arbitrary: up) (auto split: option.splits prod.splits)

lemma copyAll_ok: "copyAll W names = None \<longleftrightarrow> (\<forall>name \<in> set names. bw_copy W name = None)"
  by (induction names) (auto split: option.splits)

lemma runBackup_ok:
  assumes "runBackup W config stamp names = (up, None)"
  shows "\<exists>cfg. config = Ok cfg \<and> up = map (objectKey cfg stamp) (snd names)
    \<and> (\<forall>name \<in> set (fst names). bw_copy W name = None) \<and> (\<forall>name \<in> set (snd names). bw_put W cfg (objectKey cfg stamp name) = None)"
  using assms by (auto simp: runBackup_def copyAll_ok split: sum.splits option.splits dest: uploadAll_ok)

lemma db_orders_set: "db_orders names \<Longrightarrow> set (fst names) = set dbNames \<and> set (snd names) = set dbNames"
  by (auto simp: db_orders_def dest: mset_eq_setD)

text \<open>No error of a run reads like the mark of success.\<close>

lemma error_text_not_ok: "backupErrText e \<noteq> ''ok''"
proof -
  have "CHR '':'' \<notin> set ''ok''" and "CHR '':'' \<in> set (pathErrorText pe)" for pe by (simp_all add: pathErrorText_def)
  then have "pathErrorText pe \<noteq> ''ok''" for pe by metis
  then show ?thesis by (cases e) simp_all
qed

lemma recorded_result:
  "Get C key ''backup.last_result'' (recordResult C key now err s) = Ok (case err of None \<Rightarrow> ''ok'' | Some e \<Rightarrow> backupErrText e)"
  by (simp add: recordResult_def Let_def Get_def SetSetting_def)

lemma config_unedited:
  assumes "run_ok C key st r" and "length (br_read r) = length configKeys" and "br_past r = [x]"
  shows "configOf (br_read r) = s3Config C key x"
proof -
  have "br_read r = map (getOrEmpty C key x) configKeys"
    using assms by (intro nth_equalityI) (auto simp: run_ok_def)
  then show ?thesis by (simp add: s3Config_def)
qed

text \<open>
  C37: the recorded result of a backup is true, in every interleaving of scheduled and manual runs and of edits of the settings, also
  of edits during a run. When a run ends, it was the only one. Each part of its configuration is what the setting read at
  some moment of the run, and if the settings were not edited during the run it is the configuration of its start. The result that is recorded
  is the text of its error, and it is \<open>ok\<close> exactly when there was none; then
  each of the three databases was copied and uploaded with that configuration, all under one prefix. A
  failed copy leaves nothing uploaded.
\<close>

theorem backup_result_truthful:
  assumes "reachable (backup_exec C key) (new_backup s0) s" and "b_finish C key now s = Some s'"
  shows "\<exists>r up err. bk_running s = [r] \<and> length (br_read r) = 6
        \<and> (\<forall>i < 6. \<exists>old \<in> set (br_past r). br_read r ! i = getOrEmpty C key old (configKeys ! i))
        \<and> (\<forall>x. br_past r = [x] \<longrightarrow> configOf (br_read r) = s3Config C key x)
        \<and> runBackup (br_world r) (configOf (br_read r)) (br_stamp r) (br_names r) = (up, err)
        \<and> bk_uploaded s' = bk_uploaded s @ up
        \<and> Get C key ''backup.last_result'' (bk_settings s') = Ok (case err of None \<Rightarrow> ''ok'' | Some e \<Rightarrow> backupErrText e)
        \<and> (Get C key ''backup.last_result'' (bk_settings s') = Ok ''ok'' \<longleftrightarrow> err = None)
        \<and> (err = None \<longrightarrow> (\<exists>cfg. configOf (br_read r) = Ok cfg \<and> mset up = image_mset (objectKey cfg (br_stamp r)) (mset dbNames)
              \<and> (\<forall>name \<in> set dbNames. bw_copy (br_world r) name = None \<and> bw_put (br_world r) cfg (objectKey cfg (br_stamp r) name) = None)))
        \<and> ((\<exists>name \<in> set dbNames. bw_copy (br_world r) name \<noteq> None) \<longrightarrow> up = [])"
proof -
  from one_run_reachable [OF assms(1)] assms(2) obtain r where r: "bk_running s = [r]" and ok: "run_ok C key (bk_settings s) r"
    by (auto simp: one_run_def b_finish_def split: list.splits if_splits)
  let ?W = "br_world r" and ?config = "configOf (br_read r)"
  obtain up err where b: "runBackup ?W ?config (br_stamp r) (br_names r) = (up, err)" by fastforce
  from assms(2) r ok b have n: "length (br_read r) = length configKeys"
    and s': "bk_settings s' = recordResult C key now err (bk_settings s)" "bk_uploaded s' = bk_uploaded s @ up"
    by (auto simp: b_finish_def run_ok_def split: if_splits)
  from ok have o: "db_orders (br_names r)" by (simp add: run_ok_def)
  note sets = db_orders_set [OF o]
  have "up = []" if "\<exists>name \<in> set dbNames. bw_copy ?W name \<noteq> None"
    using that b sets copyAll_ok [of ?W "fst (br_names r)"] by (auto simp: runBackup_def split: sum.splits option.splits)
  moreover have "\<exists>cfg. ?config = Ok cfg \<and> mset up = image_mset (objectKey cfg (br_stamp r)) (mset dbNames)
      \<and> (\<forall>name \<in> set dbNames. bw_copy ?W name = None \<and> bw_put ?W cfg (objectKey cfg (br_stamp r) name) = None)" if "err = None"
    using runBackup_ok [OF b [unfolded that]] sets o by (auto simp: db_orders_def)
  moreover have "Get C key ''backup.last_result'' (bk_settings s') = Ok ''ok'' \<longleftrightarrow> err = None"
    unfolding s'(1) recorded_result using error_text_not_ok by (cases err) auto
  moreover have "length configKeys = 6" by (simp add: configKeys_def)
  ultimately show ?thesis
    using r b s'(2) n ok config_unedited [OF ok n] recorded_result [of C key now err "bk_settings s"] unfolding s'(1) run_ok_def
    by (intro exI [of _ r] exI [of _ up] exI [of _ err]) auto
qed

definition backup_settings :: settings where
  "backup_settings =
     [''backup.s3_bucket'' \<mapsto> \<lparr>st_value = ''b'', st_encrypted = False, st_updated = 0\<rparr>,
      ''backup.s3_access_key'' \<mapsto> \<lparr>st_value = ''a'', st_encrypted = False, st_updated = 0\<rparr>,
      ''backup.s3_secret_key'' \<mapsto> \<lparr>st_value = ''s'', st_encrypted = False, st_updated = 0\<rparr>]"

definition backup_world_sample :: backup_world where
  "backup_world_sample = \<lparr>bw_cron = (\<lambda>e. Some (\<lambda>m. True)), bw_mkdir = None, bw_copy = (\<lambda>n. None), bw_open = (\<lambda>n. None), bw_put = (\<lambda>b k. None)\<rparr>"

text \<open>The bucket is edited after it was read: the run goes on with the one it read.\<close>

definition edited_run :: "backup_op list" where
  "edited_run = [BStart ''t'' (dbNames, rev dbNames) backup_world_sample, BRead, BRead, BRead,
     BEdit (SetOp [] 1 ''backup.s3_bucket'' ''c'' False), BRead, BRead, BRead]"

theorem backup_result_truthful_witness:
  "\<exists>s s' r. run (backup_exec cipher_sample []) edited_run (new_backup backup_settings) = Some s
    \<and> b_finish cipher_sample [] 9 s = Some s' \<and> bk_running s = [r] \<and> br_read r ! 2 = ''b''
    \<and> getOrEmpty cipher_sample [] (bk_settings s') ''backup.s3_bucket'' = ''c''
    \<and> Get cipher_sample [] ''backup.last_result'' (bk_settings s') = Ok ''ok''
    \<and> mset (bk_uploaded s') = mset [''t/logs.db'', ''t/metrics.db'', ''t/meta.db'']"
proof -
  let ?st = "SetSetting cipher_sample [] [] 1 ''backup.s3_bucket'' ''c'' False backup_settings" and ?get = "getOrEmpty cipher_sample []"
  have g: "?get backup_settings ''backup.s3_endpoint'' = []" "?get backup_settings ''backup.s3_region'' = []" "?get backup_settings ''backup.s3_bucket'' = ''b''"
    "?get ?st ''backup.s3_prefix'' = []" "?get ?st ''backup.s3_access_key'' = ''a''" "?get ?st ''backup.s3_secret_key'' = ''s''"
    by (simp_all add: getOrEmpty_def Get_def SetSetting_def backup_settings_def)
  define s where "s = (new_backup backup_settings)\<lparr>bk_settings := ?st, bk_locked := True,
    bk_running := [\<lparr>br_stamp = ''t'', br_names = (dbNames, rev dbNames), br_world = backup_world_sample,
      br_read = [[], [], ''b'', [], ''a'', ''s''], br_past = [backup_settings, ?st]\<rparr>]\<rparr>"
  have run: "run (backup_exec cipher_sample []) edited_run (new_backup backup_settings) = Some s"
    by (simp add: edited_run_def s_def db_orders_def b_start_def b_read_def b_edit_def new_backup_def configKeys_def g Let_def)
  then have reach: "reachable (backup_exec cipher_sample []) (new_backup backup_settings) s" unfolding reachable_run by blast
  obtain s' where s': "b_finish cipher_sample [] 9 s = Some s'"
    by (cases "runBackup backup_world_sample (configOf [[], [], ''b'', [], ''a'', ''s'']) ''t'' (dbNames, rev dbNames)")
      (simp add: b_finish_def s_def configKeys_def)
  let ?cfg = "\<lparr>s3_endpoint = [], s3_region = ''auto'', s3_bucket = ''b'', s3_prefix = [], s3_accessKey = ''a'', s3_secretKey = ''s''\<rparr>"
  have cfg: "configOf [[], [], ''b'', [], ''a'', ''s''] = Ok ?cfg" by (simp add: configOf_def Let_def numeral_eq_Suc)
  have e: "snd (runBackup backup_world_sample (Ok ?cfg) ''t'' (dbNames, rev dbNames)) = None"
    by (simp add: runBackup_def backup_world_sample_def dbNames_def)
  from backup_result_truthful [OF reach s'] obtain up err where
    "runBackup backup_world_sample (Ok ?cfg) ''t'' (dbNames, rev dbNames) = (up, err)" and "bk_uploaded s' = up"
    and g: "Get cipher_sample [] ''backup.last_result'' (bk_settings s') = Ok ''ok'' \<longleftrightarrow> err = None"
    and u: "err = None \<longrightarrow> mset up = image_mset (objectKey ?cfg ''t'') (mset dbNames)"
    by (auto simp: s_def cfg new_backup_def)
  then have "Get cipher_sample [] ''backup.last_result'' (bk_settings s') = Ok ''ok''" and "mset (bk_uploaded s') = image_mset (objectKey ?cfg ''t'') (mset dbNames)"
    using e by simp_all
  moreover have "image_mset (objectKey ?cfg ''t'') (mset dbNames) = mset [''t/logs.db'', ''t/metrics.db'', ''t/meta.db'']"
    by (simp add: objectKey_def dbNames_def)
  moreover have "getOrEmpty cipher_sample [] (bk_settings s') ''backup.s3_bucket'' = ''c''"
    using s' by (auto simp: b_finish_def s_def configKeys_def recordResult_def Let_def getOrEmpty_def Get_def SetSetting_def split: prod.splits)
  ultimately show ?thesis using run s' by (auto simp: s_def)
qed

end
