(* ===== verification/Bucket_Grid.thy ===== *)
theory Bucket_Grid
  imports Go_Strconv
begin

text \<open>
  The loop that lays out the bars of a chart, \<open>for t := start; t <= stop; t += b\<close>, as
  \<open>ui/dashboards.go\<close>, \<open>ui/warroom.go\<close> and \<open>ui/home.go\<close> write it, with
  the increment at 64 bits. The loop is a partial function: \<open>None\<close> means that it does not end.
  With it come the rows of a \<open>GROUP BY\<close> over such buckets, and what \<open>strconv.ParseInt\<close>
  returns to a caller that ignores its error.
\<close>

section \<open>The loop\<close>

partial_function (option) gridLoop :: "int \<Rightarrow> int \<Rightarrow> int \<Rightarrow> int list option" where
  "gridLoop b stop t =
     (if t \<le> stop then Option.bind (gridLoop b stop (i64 (t + b))) (\<lambda>ts. Some (t # ts)) else Some [])"

declare gridLoop.simps [code]

text \<open>What the loop is meant to yield: the points of the grid up to \<open>stop\<close>.\<close>

definition gridOf :: "int \<Rightarrow> int \<Rightarrow> int \<Rightarrow> int list" where
  "gridOf b stop t = map (\<lambda>i. t + int i * b) [0..<nat ((stop - t) div b + 1)]"

lemma gridOf_stop: "0 < b \<Longrightarrow> stop < t \<Longrightarrow> gridOf b stop t = []"
proof -
  assume "0 < b" "stop < t"
  then have "(stop - t) div b \<le> - 1" using div_neg_pos_less0 [of "stop - t" b] by linarith
  then show ?thesis by (simp add: gridOf_def)
qed

lemma gridOf_step:
  assumes "0 < b" and "t \<le> stop"
  shows "gridOf b stop t = t # gridOf b stop (t + b)"
proof -
  let ?k = "(stop - t) div b"
  have "0 \<le> ?k" using assms by (simp add: pos_imp_zdiv_nonneg_iff)
  moreover have "(stop - (t + b)) div b = ?k - 1"
    using assms div_add_self2 [of b "stop - t - b"] by (simp add: algebra_simps)
  ultimately have n: "nat (?k + 1) = Suc (nat ((stop - (t + b)) div b + 1))" by simp
  have *: "[0..<Suc m] = 0 # map Suc [0..<m]" for m
    by (simp add: upt_conv_Cons map_Suc_upt del: upt_Suc)
  show ?thesis unfolding gridOf_def n * by (simp add: algebra_simps)
qed

theorem gridLoop_exact:
  assumes "0 < b" and "stop + b < 2 ^ 63" and "- (2 ^ 63) \<le> t"
  shows "gridLoop b stop t = Some (gridOf b stop t)"
  using assms(3)
proof (induction "nat (stop - t + 1)" arbitrary: t rule: less_induct)
  case less
  show ?case
  proof (cases "t \<le> stop")
    case True
    have "i64 (t + b) = t + b" using True assms less.prems by (intro i64_id) auto
    moreover have "gridLoop b stop (t + b) = Some (gridOf b stop (t + b))"
      using True assms less.prems by (intro less.hyps) auto
    ultimately show ?thesis
      using True gridLoop.simps [of b stop t] gridOf_step [OF assms(1) True] by simp
  next
    case False
    then show ?thesis using gridLoop.simps [of b stop t] gridOf_stop [OF assms(1)] by simp
  qed
qed

text \<open>When the end is the largest \<open>int64\<close>, every value is below it and the loop never ends.\<close>

lemma gridLoop_below_max:
  assumes "gridLoop b stop t = Some ts"
  shows "stop = 2 ^ 63 - 1 \<longrightarrow> 2 ^ 63 \<le> t"
proof (rule gridLoop.raw_induct [OF _ assms])
  fix f :: "int \<Rightarrow> int \<Rightarrow> int \<Rightarrow> int list option" and b stop t ts
  assume IH: "\<And>b stop t ts. f b stop t = Some ts \<Longrightarrow> stop = 2 ^ 63 - 1 \<longrightarrow> 2 ^ 63 \<le> t"
    and e: "(if t \<le> stop then Option.bind (f b stop (i64 (t + b))) (\<lambda>ts. Some (t # ts)) else Some []) = Some ts"
  show "stop = 2 ^ 63 - 1 \<longrightarrow> 2 ^ 63 \<le> t"
  proof (cases "t \<le> stop")
    case True
    with e obtain y where "f b stop (i64 (t + b)) = Some y" by (auto simp: bind_eq_Some_conv)
    then show ?thesis using IH i64_range [of "t + b"] by fastforce
  qed auto
qed

lemma gridLoop_diverges: "t < 2 ^ 63 \<Longrightarrow> gridLoop b (2 ^ 63 - 1) t = None"
  using gridLoop_below_max [of b "2 ^ 63 - 1" t] by (cases "gridLoop b (2 ^ 63 - 1) t") auto

lemma gridOf_set:
  assumes "0 < b"
  shows "set (gridOf b stop t) = {u. t \<le> u \<and> u \<le> stop \<and> b dvd u - t}" (is "?l = ?r")
proof (intro set_eqI iffI)
  fix u assume "u \<in> ?l"
  then obtain i where i: "i < nat ((stop - t) div b + 1)" "u = t + int i * b" by (auto simp: gridOf_def)
  then have "int i \<le> (stop - t) div b" by linarith
  then have "int i * b \<le> (stop - t) div b * b" using assms by (simp add: mult_right_mono)
  also have "\<dots> \<le> stop - t" using assms pos_mod_sign [of b "stop - t"] by (simp add: minus_mod_eq_div_mult [symmetric])
  finally show "u \<in> ?r" using i assms by auto
next
  fix u assume u: "u \<in> ?r"
  then obtain k where k: "u - t = b * k" by (auto elim: dvdE)
  then have "k * b \<le> stop - t" using u by (simp add: mult.commute)
  then have "k * b div b \<le> (stop - t) div b" using assms by (intro zdiv_mono1)
  then have "k \<le> (stop - t) div b" using assms by simp
  moreover have "0 \<le> b * k" using u k by simp
  then have "0 \<le> k" using assms by (simp add: zero_le_mult_iff)
  ultimately show "u \<in> ?l" using k unfolding gridOf_def
    by (auto intro!: image_eqI [of _ _ "nat k"] simp: mult.commute)
qed

lemma gridOf_distinct: "0 < b \<Longrightarrow> distinct (gridOf b stop t)"
  by (auto simp: gridOf_def distinct_map inj_on_def)

lemma gridOf_length: "length (gridOf b stop t) = nat ((stop - t) div b + 1)"
  by (simp add: gridOf_def)

section \<open>Buckets\<close>

text \<open>\<open>(v / b) * b\<close>, in Go and in SQLite: both truncate towards zero.\<close>

definition bucketOf :: "int \<Rightarrow> int \<Rightarrow> int" where
  "bucketOf b v = go_div v b * b"

lemma bucketOf_nonneg: "0 < b \<Longrightarrow> 0 \<le> v \<Longrightarrow> bucketOf b v = v - v mod b"
  by (simp add: bucketOf_def go_div_nonneg minus_mod_eq_div_mult)

lemma bucketOf_neg: "0 < b \<Longrightarrow> v < 0 \<Longrightarrow> bucketOf b v = v + (- v) mod b"
  by (simp add: bucketOf_def go_div_def minus_mod_eq_div_mult [symmetric])

lemma bucketOf_dvd [simp]: "b dvd bucketOf b v"
  by (simp add: bucketOf_def)

lemma bucketOf_bounds:
  assumes "0 < b"
  shows "v - b < bucketOf b v" "bucketOf b v < v + b" "0 \<le> v \<Longrightarrow> 0 \<le> bucketOf b v" "0 \<le> v \<Longrightarrow> bucketOf b v \<le> v"
proof -
  have m: "0 \<le> v mod b" "v mod b < b" "0 \<le> (- v) mod b" "(- v) mod b < b" using assms by simp_all
  have e: "bucketOf b v = v - v mod b \<and> 0 \<le> v \<or> bucketOf b v = v + (- v) mod b \<and> v < 0"
    using bucketOf_nonneg [OF assms, of v] bucketOf_neg [OF assms, of v] by linarith
  show "v - b < bucketOf b v" "bucketOf b v < v + b" using m e by linarith+
  show "0 \<le> v \<Longrightarrow> 0 \<le> bucketOf b v" "0 \<le> v \<Longrightarrow> bucketOf b v \<le> v"
    using m e zmod_le_nonneg_dividend [of v b] by linarith+
qed

lemma bucketOf_mono:
  assumes "0 < b" and "u \<le> v"
  shows "bucketOf b u \<le> bucketOf b v"
proof (cases "0 \<le> u")
  case True
  with assms show ?thesis by (simp add: bucketOf_def go_div_nonneg zdiv_mono1 mult_right_mono)
next
  case u: False
  show ?thesis
  proof (cases "0 \<le> v")
    case True
    have "bucketOf b u \<le> 0" using u assms by (simp add: bucketOf_def go_div_def pos_imp_zdiv_nonneg_iff)
    also have "0 \<le> bucketOf b v" using bucketOf_bounds [OF assms(1)] True by blast
    finally show ?thesis .
  next
    case False
    have "(- v) div b \<le> (- u) div b" using assms by (intro zdiv_mono1) auto
    with u False assms show ?thesis by (simp add: bucketOf_def go_div_def mult_right_mono)
  qed
qed

text \<open>Every value of a window has its bucket on the grid that starts at the window's first bucket.\<close>

lemma bucket_on_grid:
  assumes "0 < b" and "from \<le> v" and "v \<le> stop" and "0 \<le> stop"
  shows "bucketOf b v \<in> set (gridOf b stop (bucketOf b from))"
proof -
  have "b dvd bucketOf b v - bucketOf b from" by (rule dvd_diff) simp_all
  moreover have "bucketOf b v \<le> stop"
    using bucketOf_mono [OF assms(1,3)] bucketOf_bounds(4) [OF assms(1,4)] by linarith
  ultimately show ?thesis using assms bucketOf_mono [of b "from" v] by (auto simp: gridOf_set)
qed

section \<open>Grouped counts\<close>

text \<open>
  The rows of \<open>SELECT (timestamp / b) * b AS bucket, f ... GROUP BY bucket\<close>: one row per bucket
  that occurs among the selected rows, in any order.
\<close>

definition grouped :: "('r \<Rightarrow> int) \<Rightarrow> ('r list \<Rightarrow> 'v) \<Rightarrow> 'r list \<Rightarrow> (int \<times> 'v) list \<Rightarrow> bool" where
  "grouped key agg rs rows \<longleftrightarrow> distinct (map fst rows) \<and> fst ` set rows = key ` set rs
     \<and> (\<forall>(k, v) \<in> set rows. v = agg (filter (\<lambda>r. key r = k) rs))"

text \<open>One way to compute them.\<close>

definition groupRows :: "('r \<Rightarrow> int) \<Rightarrow> ('r list \<Rightarrow> 'v) \<Rightarrow> 'r list \<Rightarrow> (int \<times> 'v) list" where
  "groupRows key agg rs = map (\<lambda>k. (k, agg (filter (\<lambda>r. key r = k) rs))) (remdups (map key rs))"

lemma grouped_groupRows: "grouped key agg rs (groupRows key agg rs)"
  by (auto simp: grouped_def groupRows_def comp_def image_image)

text \<open>A Go map filled row by row, a later row over an earlier one; a missing key reads as the zero value.\<close>

definition countsAt :: "'v \<Rightarrow> (int \<times> 'v) list \<Rightarrow> int \<Rightarrow> 'v" where
  "countsAt zero rows k = (case map_of (rev rows) k of Some v \<Rightarrow> v | None \<Rightarrow> zero)"

lemma countsAt_grouped:
  assumes "grouped key agg rs rows" and "agg [] = zero"
  shows "countsAt zero rows k = agg (filter (\<lambda>r. key r = k) rs)"
proof (cases "map_of (rev rows) k")
  case None
  then have "k \<notin> key ` set rs" using assms(1) by (simp add: grouped_def map_of_eq_None_iff)
  then have "filter (\<lambda>r. key r = k) rs = []" by (auto simp: filter_empty_conv)
  then show ?thesis using None assms(2) by (simp add: countsAt_def)
next
  case (Some v)
  then have "(k, v) \<in> set rows" using map_of_SomeD [of "rev rows"] by simp
  then show ?thesis using Some assms(1) by (auto simp: grouped_def countsAt_def)
qed

text \<open>Summing the groups over a grid that covers every key counts every row once.\<close>

lemma sum_groups:
  assumes "distinct ks" and "\<forall>r \<in> set rs. key r \<in> set ks"
  shows "(\<Sum>k\<leftarrow>ks. int (length (filter (\<lambda>r. key r = k) rs))) = int (length rs)"
  using assms(2)
proof (induction rs)
  case (Cons r rs)
  have "(\<Sum>k\<leftarrow>ks. int (length (filter (\<lambda>r. key r = k) (r # rs)))) =
      (\<Sum>k\<leftarrow>ks. if k = key r then 1 else 0) + (\<Sum>k\<leftarrow>ks. int (length (filter (\<lambda>r. key r = k) rs)))"
    by (simp flip: sum_list_addf) (auto intro!: arg_cong [where f = sum_list])
  moreover have "(\<Sum>k\<leftarrow>ks. if k = key r then 1 else 0 :: int) = 1"
    using assms(1) Cons.prems by (simp add: sum_list_distinct_conv_sum_set)
  ultimately show ?case using Cons by simp
qed simp

section \<open>Ignored parse errors\<close>

text \<open>
  The value of \<open>n, _ := strconv.ParseInt(s, 10, 64)\<close>: 0 for text that is no number, the nearest
  \<open>int64\<close> for one out of range.
\<close>

definition ParseIntVal :: "string \<Rightarrow> int" where
  "ParseIntVal s =
     (case s of [] \<Rightarrow> 0
      | c # t \<Rightarrow>
         let neg = (c = CHR ''-''); ds = (if c = CHR ''-'' \<or> c = CHR ''+'' then t else s);
             n = int (digits_val ds)
         in if ds = [] \<or> \<not> list_all is_digit ds then 0
            else if neg then max (- n) (- (2 ^ 63))
            else min n (2 ^ 63 - 1))"

lemma ParseIntVal_Some: "ParseInt s = Some n \<Longrightarrow> ParseIntVal s = n"
  by (auto simp: ParseInt_def ParseIntVal_def Let_def split: list.splits if_splits)

lemma ParseIntVal_range: "- (2 ^ 63) \<le> ParseIntVal s \<and> ParseIntVal s < 2 ^ 63"
  by (auto simp: ParseIntVal_def Let_def split: list.split)


end
