(* ===== verification/Charts.thy ===== *)
theory Charts
  imports Logs_Page Bucket_Grid
begin

text \<open>
  How a query result becomes something to draw, the second half of \<open>ui/dashboards.go\<close>:
  \<open>shapeResult\<close> with its helpers and the bucket grid \<open>chartFill\<close>, shared by the
  dashboards, the explorer and the war room. A nullable point \<open>*float64\<close> is an option; a shape
  is \<open>None\<close> when the loop of \<open>buckets\<close> does not end.
\<close>

section \<open>Numbers\<close>

definition f64s :: "rat \<Rightarrow> rat" where
  "f64s x = (if x < 0 then - f64 (- x) else f64 x)"

fun asFloat :: "cell \<Rightarrow> rat option" where
  "asFloat (CInt n) = Some (f64s (of_int n))"
| "asFloat (CReal x) = Some x"
| "asFloat _ = None"

text \<open>\<open>strconv.FormatFloat(x, 'f', prec, 64)\<close>: the exact value rounded to \<open>prec\<close> decimals.\<close>

definition FormatF :: "rat \<Rightarrow> nat \<Rightarrow> string" where
  "FormatF x prec =
     (let n = nat (round_even (\<bar>x\<bar> * 10 ^ prec)); ip = n div 10 ^ prec; fp = nat_str (n mod 10 ^ prec)
      in (if x < 0 then ''-'' else []) @ nat_str ip
         @ (if prec = 0 then [] else ''.'' @ replicate (prec - length fp) (CHR ''0'') @ fp))"

definition formatStat :: "ui_env \<Rightarrow> cell \<Rightarrow> string" where
  "formatStat U v =
     (case asFloat v of
        None \<Rightarrow> cellString U v
      | Some f \<Rightarrow>
          let a = \<bar>f\<bar>
          in if a \<ge> 10 ^ 9 then FormatF (f64s (f / 10 ^ 9)) 2 @ ''B''
             else if a \<ge> 10 ^ 6 then FormatF (f64s (f / 10 ^ 6)) 2 @ ''M''
             else if a \<ge> 10 ^ 4 then FormatF (f64s (f / 10 ^ 3)) 1 @ ''K''
             else if a \<ge> 100 \<or> f = of_int \<lfloor>f\<rfloor> then FormatF f 0
             else FormatF f 2)"

section \<open>Columns\<close>

definition cellsOf :: "ui_env \<Rightarrow> Result \<Rightarrow> string list list" where
  "cellsOf U res = map (map (cellString U)) (res_Rows res)"

fun numericLoop :: "nat \<Rightarrow> cell list list \<Rightarrow> bool \<Rightarrow> bool" where
  "numericLoop j [] hasValue = hasValue"
| "numericLoop j (row # rows) hasValue =
     (if row ! j = CNull then numericLoop j rows hasValue
      else if asFloat (row ! j) = None then False
      else numericLoop j rows True)"

definition numericColumns :: "Result \<Rightarrow> bool list" where
  "numericColumns res = map (\<lambda>j. numericLoop j (res_Rows res) False) [0..<length (res_Columns res)]"

fun epochLoop :: "nat \<Rightarrow> cell list list \<Rightarrow> bool \<Rightarrow> bool" where
  "epochLoop j [] seen = seen"
| "epochLoop j (row # rows) seen =
     (if row ! j = CNull then epochLoop j rows seen
      else case asFloat (row ! j) of
             None \<Rightarrow> False
           | Some f \<Rightarrow> if f < 10 ^ 12 then False else epochLoop j rows True)"

definition colLooksLikeEpochMs :: "Result \<Rightarrow> nat \<Rightarrow> bool" where
  "colLooksLikeEpochMs res j = epochLoop j (res_Rows res) False"

section \<open>The grid of a chart\<close>

record chartFill =
  cf_BucketMs :: int
  cf_StartMs :: int
  cf_EndMs :: int
  cf_Zero :: bool

definition maxFillBuckets :: int where "maxFillBuckets = 5000"

text \<open>The nil slice is the empty list; a grid that is built has at least two points.\<close>

definition buckets :: "chartFill \<Rightarrow> int list option" where
  "buckets f =
     (let n = go_div (i64 (cf_EndMs f - cf_StartMs f)) (cf_BucketMs f)
      in if n \<le> 0 \<or> n > maxFillBuckets then Some []
         else gridLoop (cf_BucketMs f) (cf_EndMs f) (cf_StartMs f))"

section \<open>Shapes\<close>

record ChartDataset =
  cd_Label :: string
  cd_Data :: "rat option list"
  cd_Color :: string

record ChartPayload =
  cp_Type :: string
  cp_Labels :: "string list"
  cp_LabelsMs :: "int list"
  cp_Datasets :: "ChartDataset list"

datatype shape_error = SStat | SPlaceholder string | SInvalid verror | SExec string

record ShapedResult =
  sr_Kind :: string
  sr_Stat :: string
  sr_ErrMsg :: "shape_error option"
  sr_Columns :: "string list"
  sr_Rows :: "string list list"
  sr_Chart :: "ChartPayload option"
  sr_ChartID :: string

definition shapeInit :: "ui_env \<Rightarrow> Result \<Rightarrow> string \<Rightarrow> ShapedResult" where
  "shapeInit U res chartID = \<lparr>sr_Kind = [], sr_Stat = [], sr_ErrMsg = None, sr_Columns = res_Columns res, sr_Rows = cellsOf U res,
     sr_Chart = None, sr_ChartID = chartID\<rparr>"

definition errorShape :: "shape_error \<Rightarrow> ShapedResult" where
  "errorShape msg = \<lparr>sr_Kind = ''error'', sr_Stat = [], sr_ErrMsg = Some msg, sr_Columns = [], sr_Rows = [], sr_Chart = None, sr_ChartID = []\<rparr>"

text \<open>No rows: over a known counter grid that is a flat zero line.\<close>

definition emptyShape :: "Result \<Rightarrow> string \<Rightarrow> chartFill option \<Rightarrow> ShapedResult \<Rightarrow> ShapedResult option" where
  "emptyShape res chartType fill s =
     (case fill of
        Some f \<Rightarrow>
          if cf_Zero f \<and> chartType \<noteq> ''table'' \<and> chartType \<noteq> ''stat'' \<and> length (res_Columns res) \<ge> 2
          then Option.bind (buckets f) (\<lambda>bs.
                 if bs = [] then Some (s\<lparr>sr_Kind := ''empty''\<rparr>)
                 else Some (s\<lparr>sr_Kind := ''chart'',
                        sr_Chart := Some \<lparr>cp_Type = (if chartType = [] then ''line'' else chartType), cp_Labels = [], cp_LabelsMs = bs,
                          cp_Datasets = map (\<lambda>c. \<lparr>cd_Label = c, cd_Data = map (\<lambda>_. Some 0) bs, cd_Color = []\<rparr>) (tl (res_Columns res))\<rparr>\<rparr>))
          else Some (s\<lparr>sr_Kind := ''empty''\<rparr>)
      | None \<Rightarrow> Some (s\<lparr>sr_Kind := ''empty''\<rparr>))"

definition statShape :: "ui_env \<Rightarrow> Result \<Rightarrow> ShapedResult \<Rightarrow> ShapedResult" where
  "statShape U res s =
     (case find (\<lambda>j. numericColumns res ! j) [0..<length (res_Columns res)] of
        Some j \<Rightarrow> s\<lparr>sr_Kind := ''stat'', sr_Stat := formatStat U (hd (res_Rows res) ! j)\<rparr>
      | None \<Rightarrow> s\<lparr>sr_Kind := ''error'', sr_ErrMsg := Some SStat\<rparr>)"

definition chartColumns :: "Result \<Rightarrow> nat list" where
  "chartColumns res =
     filter (\<lambda>j. numericColumns res ! j \<and> \<not> colLooksLikeEpochMs res j) [1..<length (res_Columns res)]"

definition datasetsOf :: "Result \<Rightarrow> ChartDataset list" where
  "datasetsOf res =
     map (\<lambda>j. \<lparr>cd_Label = res_Columns res ! j, cd_Data = map (\<lambda>row. asFloat (row ! j)) (res_Rows res), cd_Color = []\<rparr>) (chartColumns res)"

text \<open>The index of a bucket among the rows; of equal ones the last assignment stays.\<close>

definition rowIndex :: "int list \<Rightarrow> int \<Rightarrow> nat option" where
  "rowIndex ts = map_of (rev (zip ts [0..<length ts]))"

definition fillData :: "int list \<Rightarrow> bool \<Rightarrow> int list \<Rightarrow> rat option list \<Rightarrow> rat option list" where
  "fillData ts zero bs data =
     map (\<lambda>b. case rowIndex ts b of Some i \<Rightarrow> data ! i | None \<Rightarrow> if zero then Some 0 else None) bs"

text \<open>A time axis, re-indexed onto the grid when one is known.\<close>

definition timeChart :: "ui_env \<Rightarrow> Result \<Rightarrow> chartFill option \<Rightarrow> ChartPayload \<Rightarrow> ChartPayload option" where
  "timeChart U res fill p0 =
     (let ts = map (\<lambda>row. asInt64 U (row ! 0)) (res_Rows res); p = p0\<lparr>cp_LabelsMs := ts\<rparr>
      in case fill of
           None \<Rightarrow> Some p
         | Some f \<Rightarrow>
             Option.bind (buckets f) (\<lambda>bs.
               if bs = [] then Some p
               else Some (p\<lparr>cp_LabelsMs := bs,
                      cp_Datasets := map (\<lambda>d. d\<lparr>cd_Data := fillData ts (cf_Zero f) bs (cd_Data d)\<rparr>) (cp_Datasets p)\<rparr>)))"

definition chartShape :: "ui_env \<Rightarrow> Result \<Rightarrow> string \<Rightarrow> chartFill option \<Rightarrow> ShapedResult \<Rightarrow> ShapedResult option" where
  "chartShape U res chartType fill s =
     (if datasetsOf res = [] then Some (s\<lparr>sr_Kind := ''table''\<rparr>)
      else let timeX = colLooksLikeEpochMs res 0;
               ct = (if chartType = [] then (if timeX then ''line'' else ''bar'') else chartType);
               p = \<lparr>cp_Type = ct, cp_Labels = [], cp_LabelsMs = [], cp_Datasets = datasetsOf res\<rparr>
           in map_option (\<lambda>q. s\<lparr>sr_Kind := ''chart'', sr_Chart := Some q\<rparr>)
                (if timeX then timeChart U res fill p
                 else Some (p\<lparr>cp_Labels := map (\<lambda>row. cellString U (row ! 0)) (res_Rows res)\<rparr>)))"

definition shapeResult :: "ui_env \<Rightarrow> Result \<Rightarrow> string \<Rightarrow> string \<Rightarrow> chartFill option \<Rightarrow> ShapedResult option" where
  "shapeResult U res chartType chartID fill =
     (let s = shapeInit U res chartID
      in if res_Rows res = [] then emptyShape res chartType fill s
         else if chartType = ''table'' then Some (s\<lparr>sr_Kind := ''table''\<rparr>)
         else if chartType = ''stat''
              \<or> chartType = [] \<and> length (res_Rows res) = 1 \<and> length (res_Columns res) = 1 \<and> numericColumns res ! 0
         then Some (statShape U res s)
         else chartShape U res chartType fill s)"

definition logsKindToChartType :: "string \<Rightarrow> string \<Rightarrow> string" where
  "logsKindToChartType dashboardType kind =
     (if dashboardType \<noteq> ''logs'' then kind else if kind = ''number'' then ''stat'' else [])"

section \<open>Column tests\<close>

lemma numericLoop_iff:
  "numericLoop j rows h \<longleftrightarrow> (\<forall>row \<in> set rows. row ! j \<noteq> CNull \<longrightarrow> asFloat (row ! j) \<noteq> None) \<and> (h \<or> (\<exists>row \<in> set rows. row ! j \<noteq> CNull))"
  by (induction j rows h rule: numericLoop.induct) auto

lemma epochLoop_iff:
  "epochLoop j rows h \<longleftrightarrow>
     (\<forall>row \<in> set rows. row ! j \<noteq> CNull \<longrightarrow> (\<exists>f. asFloat (row ! j) = Some f \<and> 10 ^ 12 \<le> f)) \<and> (h \<or> (\<exists>row \<in> set rows. row ! j \<noteq> CNull))"
  by (induction j rows h rule: epochLoop.induct) (auto split: option.splits)

section \<open>Filling the grid\<close>

definition fill_ok :: "chartFill \<Rightarrow> bool" where
  "fill_ok f \<longleftrightarrow> 0 < cf_BucketMs f \<and> - (2 ^ 63) \<le> cf_StartMs f \<and> cf_EndMs f + cf_BucketMs f < 2 ^ 63
     \<and> cf_StartMs f + cf_BucketMs f \<le> cf_EndMs f \<and> cf_EndMs f - cf_StartMs f < 2 ^ 63
     \<and> (cf_EndMs f - cf_StartMs f) div cf_BucketMs f \<le> maxFillBuckets"

definition fillGrid :: "chartFill \<Rightarrow> int list" where
  "fillGrid f = gridOf (cf_BucketMs f) (cf_EndMs f) (cf_StartMs f)"

lemma buckets_exact:
  assumes "fill_ok f"
  shows "buckets f = Some (fillGrid f)" "fillGrid f \<noteq> []" "int (length (fillGrid f)) \<le> maxFillBuckets + 1"
proof -
  let ?n = "(cf_EndMs f - cf_StartMs f) div cf_BucketMs f"
  have b: "0 < cf_BucketMs f" and se: "cf_StartMs f + cf_BucketMs f \<le> cf_EndMs f" using assms by (auto simp: fill_ok_def)
  have "cf_BucketMs f div cf_BucketMs f \<le> ?n" using b se by (intro zdiv_mono1) auto
  then have n: "1 \<le> ?n" using b by simp
  have "go_div (i64 (cf_EndMs f - cf_StartMs f)) (cf_BucketMs f) = ?n"
    using assms b se by (simp add: fill_ok_def go_int)
  with n assms show "buckets f = Some (fillGrid f)"
    by (simp add: buckets_def fill_ok_def fillGrid_def gridLoop_exact)
  show "fillGrid f \<noteq> []" "int (length (fillGrid f)) \<le> maxFillBuckets + 1"
    using n assms by (auto simp: fillGrid_def fill_ok_def gridOf_def)
qed

lemma rowIndex_None: "rowIndex ts b = None \<longleftrightarrow> b \<notin> set ts"
  by (simp add: rowIndex_def map_of_eq_None_iff flip: set_map)

lemma rowIndex_Some:
  assumes "rowIndex ts b = Some i"
  shows "i < length ts" "ts ! i = b"
proof -
  have "(b, i) \<in> set (zip ts [0..<length ts])" using map_of_SomeD [OF assms [unfolded rowIndex_def]] by simp
  then show "i < length ts" "ts ! i = b" by (auto simp: set_zip)
qed

lemma fillData_nth:
  assumes "distinct ts" and "length data = length ts" and "k < length bs"
  shows "i < length ts \<Longrightarrow> ts ! i = bs ! k \<Longrightarrow> fillData ts z bs data ! k = data ! i"
    and "bs ! k \<notin> set ts \<Longrightarrow> fillData ts z bs data ! k = (if z then Some 0 else None)"
proof -
  assume i: "i < length ts" "ts ! i = bs ! k"
  then obtain i' where i': "rowIndex ts (bs ! k) = Some i'" using rowIndex_None [of ts "bs ! k"] nth_mem [of i ts] by auto
  then have "i' = i" using rowIndex_Some [OF i'] i assms(1) nth_eq_iff_index_eq by metis
  then show "fillData ts z bs data ! k = data ! i" using i' assms(3) by (simp add: fillData_def)
next
  assume "bs ! k \<notin> set ts"
  then show "fillData ts z bs data ! k = (if z then Some 0 else None)"
    using assms(3) rowIndex_None [of ts "bs ! k"] by (simp add: fillData_def)
qed

text \<open>The time labels of the rows.\<close>

definition rowTimes :: "ui_env \<Rightarrow> Result \<Rightarrow> int list" where
  "rowTimes U res = map (\<lambda>row. asInt64 U (row ! 0)) (res_Rows res)"

text \<open>
  C32: a chart over a known grid shows the whole requested window and invents nothing. When the first
  column is a time axis and the query grouped by it, the labels are exactly the grid, one series per
  numeric column, and the point of a series at a bucket is the value of the row of that bucket; at a
  bucket without a row it is zero for the counting verbs and a gap for the others.
\<close>

theorem chart_fill_exact:
  assumes "fill_ok f" and "distinct (rowTimes U res)" and "res_Rows res \<noteq> []" and "chartColumns res \<noteq> []"
    and "colLooksLikeEpochMs res 0" and "chartType \<noteq> ''table''" and "chartType \<noteq> ''stat''"
  shows "\<exists>s p. shapeResult U res chartType chartID (Some f) = Some s \<and> sr_Kind s = ''chart'' \<and> sr_Chart s = Some p
    \<and> cp_LabelsMs p = fillGrid f \<and> map cd_Label (cp_Datasets p) = map ((!) (res_Columns res)) (chartColumns res)
    \<and> (\<forall>d < length (chartColumns res). \<forall>k < length (fillGrid f).
        (\<forall>i < length (res_Rows res). rowTimes U res ! i = fillGrid f ! k
            \<longrightarrow> cd_Data (cp_Datasets p ! d) ! k = asFloat (res_Rows res ! i ! (chartColumns res ! d)))
      \<and> (fillGrid f ! k \<notin> set (rowTimes U res)
            \<longrightarrow> cd_Data (cp_Datasets p ! d) ! k = (if cf_Zero f then Some 0 else None)))"
proof -
  let ?ts = "rowTimes U res"
  let ?fill = "\<lambda>d. d\<lparr>cd_Data := fillData ?ts (cf_Zero f) (fillGrid f) (cd_Data d)\<rparr>"
  define p where "p = \<lparr>cp_Type = (if chartType = [] then ''line'' else chartType), cp_Labels = [], cp_LabelsMs = fillGrid f,
    cp_Datasets = map ?fill (datasetsOf res)\<rparr>"
  have "length (res_Columns res) \<noteq> 1" using assms(4) by (auto simp: chartColumns_def)
  moreover have "datasetsOf res \<noteq> []" using assms(4) by (simp add: datasetsOf_def)
  ultimately have s: "shapeResult U res chartType chartID (Some f) =
      Some ((shapeInit U res chartID)\<lparr>sr_Kind := ''chart'', sr_Chart := Some p\<rparr>)"
    using assms buckets_exact [OF assms(1)]
    by (simp add: shapeResult_def chartShape_def timeChart_def Let_def p_def rowTimes_def)
  have "map cd_Label (cp_Datasets p) = map ((!) (res_Columns res)) (chartColumns res)"
    by (simp add: p_def datasetsOf_def)
  moreover have "cd_Data (cp_Datasets p ! d) = fillData ?ts (cf_Zero f) (fillGrid f) (map (\<lambda>row. asFloat (row ! (chartColumns res ! d))) (res_Rows res))"
    if "d < length (chartColumns res)" for d
    using that by (simp add: p_def datasetsOf_def)
  moreover have "length ?ts = length (res_Rows res)" by (simp add: rowTimes_def)
  ultimately show ?thesis
    using s fillData_nth [OF assms(2)] by (intro exI [of _ "(shapeInit U res chartID)\<lparr>sr_Kind := ''chart'', sr_Chart := Some p\<rparr>"] exI [of _ p])
      (simp add: p_def)
qed

definition chart_res_sample :: Result where
  "chart_res_sample = \<lparr>res_Columns = [''bucket'', ''v''],
     res_Rows = [[CInt 1700000040000, CInt 7], [CInt 1700000160000, CNull]], res_Truncated = False\<rparr>"

definition fill_sample :: chartFill where
  "fill_sample = \<lparr>cf_BucketMs = 60000, cf_StartMs = 1700000040000, cf_EndMs = 1700000160000, cf_Zero = True\<rparr>"

lemma f64s_int: "0 \<le> n \<Longrightarrow> n < 2 ^ 53 \<Longrightarrow> f64s (of_int n) = of_int n"
  using f64_int [of n] by (simp add: f64s_def)

lemma chart_sample_facts:
  "fill_ok fill_sample" "rowTimes ui_sample chart_res_sample = [1700000040000, 1700000160000]"
  "fillGrid fill_sample = [1700000040000, 1700000100000, 1700000160000]"
  "chartColumns chart_res_sample = [1]" "colLooksLikeEpochMs chart_res_sample 0" "cf_Zero fill_sample"
proof -
  show "cf_Zero fill_sample" by (simp add: fill_sample_def)
  show "fill_ok fill_sample" by (simp add: fill_ok_def fill_sample_def maxFillBuckets_def)
  show "rowTimes ui_sample chart_res_sample = [1700000040000, 1700000160000]" by (simp add: rowTimes_def chart_res_sample_def)
  show "fillGrid fill_sample = [1700000040000, 1700000100000, 1700000160000]"
    by (simp add: fillGrid_def fill_sample_def gridOf_step gridOf_stop)
  have f: "f64s 1700000040000 = 1700000040000" "f64s 1700000160000 = 1700000160000" "f64s 7 = 7"
    using f64s_int [of 1700000040000] f64s_int [of 1700000160000] f64s_int [of 7] by simp_all
  show "colLooksLikeEpochMs chart_res_sample 0" by (simp add: colLooksLikeEpochMs_def chart_res_sample_def f)
  show "chartColumns chart_res_sample = [1]"
    by (simp add: chartColumns_def numericColumns_def colLooksLikeEpochMs_def chart_res_sample_def f upt_conv_Cons)
qed

theorem chart_fill_exact_witness:
  "\<exists>s p. shapeResult ui_sample chart_res_sample ''line'' ''c'' (Some fill_sample) = Some s \<and> sr_Chart s = Some p
    \<and> cd_Data (cp_Datasets p ! 0) ! 1 = Some 0 \<and> cd_Data (cp_Datasets p ! 0) ! 2 = None"
proof -
  have h: "distinct (rowTimes ui_sample chart_res_sample)" "res_Rows chart_res_sample \<noteq> []" "chartColumns chart_res_sample \<noteq> []"
    by (simp_all add: chart_sample_facts) (simp add: chart_res_sample_def)
  obtain s p where "shapeResult ui_sample chart_res_sample ''line'' ''c'' (Some fill_sample) = Some s" "sr_Chart s = Some p"
    and e: "\<forall>d < length (chartColumns chart_res_sample). \<forall>k < length (fillGrid fill_sample).
        (\<forall>i < length (res_Rows chart_res_sample). rowTimes ui_sample chart_res_sample ! i = fillGrid fill_sample ! k
            \<longrightarrow> cd_Data (cp_Datasets p ! d) ! k = asFloat (res_Rows chart_res_sample ! i ! (chartColumns chart_res_sample ! d)))
      \<and> (fillGrid fill_sample ! k \<notin> set (rowTimes ui_sample chart_res_sample)
            \<longrightarrow> cd_Data (cp_Datasets p ! d) ! k = (if cf_Zero fill_sample then Some 0 else None))"
    using chart_fill_exact [OF chart_sample_facts(1) h chart_sample_facts(5), of "''line''" "''c''"] by auto
  moreover have "cd_Data (cp_Datasets p ! 0) ! 1 = Some 0"
    using e [rule_format, of 0 1] by (simp add: chart_sample_facts)
  moreover have "cd_Data (cp_Datasets p ! 0) ! 2 = None"
  proof -
    have "\<forall>i < length (res_Rows chart_res_sample). rowTimes ui_sample chart_res_sample ! i = fillGrid fill_sample ! 2
            \<longrightarrow> cd_Data (cp_Datasets p ! 0) ! 2 = asFloat (res_Rows chart_res_sample ! i ! (chartColumns chart_res_sample ! 0))"
      using e [rule_format, of 0 2] by (simp add: chart_sample_facts)
    from this [rule_format, of 1] show ?thesis by (simp add: chart_sample_facts) (simp add: chart_res_sample_def)
  qed
  ultimately show ?thesis by blast
qed

end
