(* ===== verification/Ui_Base.thy ===== *)
theory Ui_Base
  imports Charts Dashboards
begin

text \<open>
  What the handlers of \<open>ui\<close> share: the request as they read it, the reply they write, and the
  outside world as a record of functions. The typed queries of the handlers are fields that give a
  cursor; what such a query yields for a given table is stated where a property needs it. A
  reply carries the view that the template gets; the templates have theories of their own.
\<close>

section \<open>Requests and replies\<close>

text \<open>\<open>rq_form\<close> is \<open>None\<close> when \<open>ParseForm\<close> fails.\<close>

record ui_request =
  rq_query :: "string \<Rightarrow> string list"
  rq_form :: "(string \<Rightarrow> string) option"
  rq_param :: "string \<Rightarrow> string"
  rq_header :: "string \<Rightarrow> string"
  rq_cookie :: "string option"

text \<open>\<open>url.Values.Get\<close>: the first value, or the empty string.\<close>

definition qget :: "ui_request \<Rightarrow> string \<Rightarrow> string" where
  "qget req k = (case rq_query req k of [] \<Rightarrow> [] | v # _ \<Rightarrow> v)"

datatype 'v reply = Render nat 'v | Redirect nat string | Plain nat string | Bare nat | HxRedirect nat string

fun reply_code :: "'v reply \<Rightarrow> nat" where
  "reply_code (Render n v) = n"
| "reply_code (Redirect n u) = n"
| "reply_code (Plain n t) = n"
| "reply_code (Bare n) = n"
| "reply_code (HxRedirect n u) = n"

definition sideways :: string where "sideways = ''something went sideways; try again''"

section \<open>Cursors\<close>

text \<open>A row that \<open>Scan\<close> refuses is \<open>None\<close>.\<close>

record 'r cursor =
  cu_start :: "string option"
  cu_rows :: "'r option list"
  cu_err :: "string option"

text \<open>The loop that gives up at the first bad row and looks at \<open>rows.Err()\<close>, and the one that skips bad rows.\<close>

definition scanStrict :: "'r cursor \<Rightarrow> 'r list option" where
  "scanStrict c = (if cu_start c \<noteq> None then None else case those (cu_rows c) of None \<Rightarrow> None | Some rs \<Rightarrow> if cu_err c = None then Some rs else None)"

definition scanSkip :: "'r cursor \<Rightarrow> 'r list" where
  "scanSkip c = (if cu_start c \<noteq> None then [] else List.map_filter id (cu_rows c))"

definition answers :: "'r list \<Rightarrow> 'r cursor" where
  "answers rs = \<lparr>cu_start = None, cu_rows = map Some rs, cu_err = None\<rparr>"

lemma those_map_Some [simp]: "those (map Some xs) = Some xs"
  by (induction xs) auto

lemma scan_answers [simp]: "scanStrict (answers rs) = Some rs" "scanSkip (answers rs) = rs"
proof -
  show "scanStrict (answers rs) = Some rs" by (simp add: scanStrict_def answers_def)
  have "List.map_filter id (map Some rs) = rs" by (induction rs) (auto simp: List.map_filter_simps)
  then show "scanSkip (answers rs) = rs" by (simp add: scanSkip_def answers_def)
qed

section \<open>The world of the handlers\<close>

text \<open>
  \<open>we_volume b from to\<close> is the fixed volume query of the war room, \<open>we_home\<close> that of the
  home page; \<open>we_values key metric\<close> the values of a filter key; \<open>we_jsonKeys\<close> the keys of a
  JSON object in the order in which Go happens to iterate over the map.
\<close>

record web_env = ui_env +
  we_now :: int
  we_parseFloat :: "string \<Rightarrow> bool"
  we_names :: "string cursor"
  we_services :: "string \<Rightarrow> string cursor"
  we_metricType :: "string \<Rightarrow> int option"
  we_labels :: "string \<Rightarrow> string cursor"
  we_jsonKeys :: "string \<Rightarrow> string list option"
  we_values :: "string \<Rightarrow> string \<Rightarrow> string cursor"
  we_hasAny :: "int option"
  we_volume :: "int \<Rightarrow> int \<Rightarrow> int \<Rightarrow> (int \<times> int \<times> int) cursor"
  we_home :: "int \<Rightarrow> int \<Rightarrow> (int \<times> int) cursor"

definition ui_of :: "web_env \<Rightarrow> ui_env" where
  "ui_of E = \<lparr>ue_sqlp = ue_sqlp E, ue_string = ue_string E, ue_query = ue_query E, ue_fmt = ue_fmt E, ue_oor = ue_oor E\<rparr>"

section \<open>Placeholders of the example queries\<close>

text \<open>\<^verbatim>\<open>REPLACE_WITH_[A-Z_]+\<close>: the first place where the marker is followed by at least one such character.\<close>

definition phChar :: "char \<Rightarrow> bool" where
  "phChar c \<longleftrightarrow> is_upper c \<or> c = CHR ''_''"

definition phTail :: "string \<Rightarrow> string" where
  "phTail s = takeWhile phChar (drop (length snippetPlaceholderMarker) s)"

fun placeholderRe :: "string \<Rightarrow> string" where
  "placeholderRe [] = []"
| "placeholderRe (c # s) =
     (if HasPrefix (c # s) snippetPlaceholderMarker \<and> phTail (c # s) \<noteq> [] then snippetPlaceholderMarker @ phTail (c # s)
      else placeholderRe s)"

definition placeholderWhat :: "string \<Rightarrow> string" where
  "placeholderWhat ph =
     (if Contains ph ''SERVICE'' then ''service name''
      else if Contains ph ''HOST'' then ''host name''
      else if Contains ph ''FIELD'' then ''field name''
      else if Contains ph ''COUNTER'' \<or> Contains ph ''GAUGE'' \<or> Contains ph ''BASE'' \<or> Contains ph ''METRIC'' then ''metric name''
      else ''value'')"

definition placeholderErr :: "string \<Rightarrow> string" where
  "placeholderErr q = (let ph = placeholderRe q in ''Replace '' @ ph @ '' with a real '' @ placeholderWhat ph @ '', then run again.'')"

lemma placeholderRe_found: "placeholderRe s = [] \<or> Contains s (placeholderRe s)"
proof (induction s)
  case (Cons c s)
  show ?case
  proof (cases "HasPrefix (c # s) snippetPlaceholderMarker \<and> phTail (c # s) \<noteq> []")
    case True
    then obtain t where t: "c # s = snippetPlaceholderMarker @ t" by (auto simp: HasPrefix_iff)
    have "c # s = snippetPlaceholderMarker @ takeWhile phChar t @ dropWhile phChar t" by (simp add: t)
    then have "HasPrefix (c # s) (snippetPlaceholderMarker @ takeWhile phChar t)" by (metis HasPrefix_append append.assoc)
    moreover have "phTail (c # s) = takeWhile phChar t" by (simp add: phTail_def t)
    ultimately show ?thesis using True by simp
  next
    case False
    then show ?thesis using Cons by auto
  qed
qed simp

end
