(* ===== verification/Explorer.thy ===== *)
theory Explorer
  imports Ui_Base DSL_Print "HOL-Library.AList"
begin

text \<open>
  The metrics explorer, \<open>ui/metrics.go\<close>: the live compiler of the query language, the explorer
  page, the menus of the query builder, the catalog of the landing page, saving a query as a panel, and
  the export. \<open>applyPanelDSL\<close> of \<open>ui/dashboards.go\<close> is here because saving uses it.
\<close>

definition defaultMetricsQuery :: string where
  "defaultMetricsQuery = ''SELECT name, service, COUNT(*) AS points, MAX(timestamp) AS last_seen'' @ nl
     @ ''FROM metrics'' @ nl @ ''WHERE timestamp > (unixepoch() - 86400) * 1000'' @ nl @ ''GROUP BY name, service'' @ nl
     @ ''ORDER BY last_seen DESC'' @ nl @ ''LIMIT 100''"

definition explorerViews :: "string list" where
  "explorerViews = [''auto'', ''line'', ''bar'', ''stat'', ''table'']"

definition rawValueVerbs :: "string list" where
  "rawValueVerbs = [''avg'', ''min'', ''max'', ''sum'']"

section \<open>Lookups\<close>

definition servicesForMetric :: "web_env \<Rightarrow> string \<Rightarrow> string list" where
  "servicesForMetric E metric = scanSkip (we_services E metric)"

text \<open>The names and whether the iteration ended without an error.\<close>

definition metricNames :: "web_env \<Rightarrow> string list \<times> bool" where
  "metricNames E = (if cu_start (we_names E) \<noteq> None then ([], False) else (scanSkip (we_names E), cu_err (we_names E) = None))"

definition shownNames :: "web_env \<Rightarrow> string list" where
  "shownNames E = (case metricNames E of (ns, ok) \<Rightarrow> if ok then ns else [])"

text \<open>The services of a pivot are looked up only when the query needs them.\<close>

definition compileWith :: "web_env \<Rightarrow> DSLQuery \<Rightarrow> (dsl_error, string) result" where
  "compileWith E d = dslSQL d (if NeedsServices d then servicesForMetric E (d_Metric d) else [])"

section \<open>The live compiler\<close>

definition counterHint :: "web_env \<Rightarrow> DSLQuery \<Rightarrow> string" where
  "counterHint E d =
     (if d_Verb d \<notin> set rawValueVerbs then []
      else if we_metricType E (d_Metric d) \<noteq> Some 0 then []
      else d_Metric d @ '' is a counter - it only climbs, so '' @ d_Verb d
           @ ''() of its raw value draws a straight line up. increase() or rate() shows the change.'')"

record dslParsedJSON =
  dp_Verb :: string
  dp_Metric :: string
  dp_Filters :: "(string \<times> string) list"
  dp_PerMs :: int
  dp_LastMs :: int
  dp_ByService :: bool

datatype compile_error = CDsl dsl_error | CInternal

record dslCompileResponse =
  dc_SQL :: string
  dc_Error :: "compile_error option"
  dc_Hint :: string
  dc_Parsed :: "dslParsedJSON option"

definition compileFailed :: "compile_error \<Rightarrow> dslCompileResponse" where
  "compileFailed e = \<lparr>dc_SQL = [], dc_Error = Some e, dc_Hint = [], dc_Parsed = None\<rparr>"

definition parsedOf :: "DSLQuery \<Rightarrow> dslParsedJSON" where
  "parsedOf d = \<lparr>dp_Verb = d_Verb d, dp_Metric = d_Metric d, dp_Filters = map (\<lambda>f. (f_Key f, f_Value f)) (d_Filters d),
     dp_PerMs = d_BucketMs d, dp_LastMs = d_WindowMs d, dp_ByService = d_ByService d\<rparr>"

definition compileDSL :: "web_env \<Rightarrow> ui_request \<Rightarrow> dslCompileResponse" where
  "compileDSL E req =
     (case ParseDSL (qget req ''dsl'') of
        Inl e \<Rightarrow> compileFailed (CDsl e)
      | Inr d \<Rightarrow>
         (case compileWith E d of
            Inl e \<Rightarrow> compileFailed (CDsl e)
          | Inr sql \<Rightarrow>
             (case ValidateIn (ue_sqlp E) sql ScopeMetrics of
                Inl _ \<Rightarrow> compileFailed CInternal
              | Inr _ \<Rightarrow> \<lparr>dc_SQL = sql, dc_Error = None, dc_Hint = counterHint E d, dc_Parsed = Some (parsedOf d)\<rparr>)))"

section \<open>The catalog of the landing page\<close>

record CatalogRow =
  ct_Name :: string
  ct_Service :: string
  ct_LastSeenMs :: int
  ct_DSL :: string

definition catalogQuery :: string where
  "catalogQuery = ''SELECT d.name, d.service,'' @ nl
     @ ''       (SELECT type FROM metrics t WHERE t.name = d.name AND t.service = d.service ORDER BY timestamp DESC LIMIT 1) AS type,'' @ nl
     @ ''       (SELECT MAX(timestamp) FROM metrics mx WHERE mx.name = d.name AND mx.service = d.service) AS last_seen'' @ nl
     @ ''FROM (SELECT DISTINCT name, service FROM metrics) d'' @ nl @ ''ORDER BY last_seen DESC'' @ nl @ ''LIMIT 100''"

definition catalogDSL :: "string \<Rightarrow> int \<Rightarrow> string" where
  "catalogDSL name ty =
     (if Contains name '')'' then []
      else if ty = 0 then ''increase('' @ name @ '') per 1h last 24h''
      else ''avg('' @ name @ '') per 10m last 24h'')"

definition catalogRowOf :: "ui_env \<Rightarrow> cell list \<Rightarrow> CatalogRow" where
  "catalogRowOf U row =
     (let name = cellString U (row ! 0)
      in \<lparr>ct_Name = name, ct_Service = cellString U (row ! 1), ct_LastSeenMs = asInt64 U (row ! 3), ct_DSL = catalogDSL name (asInt64 U (row ! 2))\<rparr>)"

definition metricsCatalog :: "web_env \<Rightarrow> CatalogRow list" where
  "metricsCatalog E =
     (case Execute (ue_query E catalogQuery []) of
        (Some res, None) \<Rightarrow> map (catalogRowOf (ui_of E)) (res_Rows res)
      | _ \<Rightarrow> [])"

section \<open>The explorer page\<close>

datatype save_error = SaveDSL dsl_error | SavePlaceholder string | SaveDash dash_error

record MetricsExplorerView =
  me_Query :: string
  me_View :: string
  me_DSL :: string
  me_Shaped :: ShapedResult
  me_SaveErr :: "save_error option"
  me_FormView :: string
  me_MetricNames :: "string list"
  me_HasAnyMetrics :: bool
  me_Dashboards :: "(int \<times> Dashboard) list"
  me_Catalog :: "CatalogRow list"

definition noShape :: ShapedResult where
  "noShape = \<lparr>sr_Kind = [], sr_Stat = [], sr_ErrMsg = None, sr_Columns = [], sr_Rows = [], sr_Chart = None, sr_ChartID = []\<rparr>"

definition countVerb :: "string \<Rightarrow> bool" where
  "countVerb verb \<longleftrightarrow> verb = ''increase'' \<or> verb = ''rate'' \<or> verb = ''count''"

text \<open>The grid of a compiled query over a window.\<close>

definition dslFill :: "DSLQuery \<Rightarrow> int \<Rightarrow> int \<Rightarrow> chartFill option" where
  "dslFill d fromMs toMs =
     (if d_BucketMs d > 0 \<and> d_Verb d \<noteq> ''latest''
      then Some \<lparr>cf_BucketMs = d_BucketMs d, cf_StartMs = bucketOf (d_BucketMs d) fromMs, cf_EndMs = bucketOf (d_BucketMs d) toMs,
             cf_Zero = countVerb (d_Verb d)\<rparr>
      else None)"

text \<open>A query text in the language replaces the SQL, when it parses and compiles.\<close>

definition authoritative :: "web_env \<Rightarrow> string \<Rightarrow> string \<Rightarrow> string \<times> chartFill option" where
  "authoritative E dsl q =
     (if dsl = [] then (q, None)
      else case ParseDSL dsl of
             Inl _ \<Rightarrow> (q, None)
           | Inr d \<Rightarrow> (case compileWith E d of Inl _ \<Rightarrow> (q, None) | Inr sql \<Rightarrow> (sql, dslFill d (we_now E - d_WindowMs d) (we_now E))))"

text \<open>Validate, execute and shape.\<close>

definition shapeQuery :: "web_env \<Rightarrow> string \<Rightarrow> string \<Rightarrow> string \<Rightarrow> chartFill option \<Rightarrow> ShapedResult option" where
  "shapeQuery E q chartType chartID fill =
     (case ValidateIn (ue_sqlp E) q ScopeMetrics of
        Inl e \<Rightarrow> Some (errorShape (SInvalid e))
      | Inr v \<Rightarrow>
         (case Execute (ue_query E (ue_string E (v_stmt v)) []) of
            (Some res, None) \<Rightarrow> shapeResult (ui_of E) res chartType chartID fill
          | (_, err) \<Rightarrow> Some (errorShape (SExec (case err of Some e \<Rightarrow> e | None \<Rightarrow> [])))))"

definition explorerExtras :: "web_env \<Rightarrow> dash_store \<Rightarrow> MetricsExplorerView \<Rightarrow> MetricsExplorerView" where
  "explorerExtras E st view =
     (let k = sr_Kind (me_Shaped view)
      in if k = ''empty'' then view\<lparr>me_HasAnyMetrics := (we_hasAny E = Some 1)\<rparr>
         else if k \<in> {''chart'', ''stat'', ''table''}
         then view\<lparr>me_Dashboards := filter (\<lambda>(i, d). da_Type d = ''metrics'') (ListDashboards st)\<rparr>
         else view)"

definition renderExplorer ::
    "web_env \<Rightarrow> dash_store \<Rightarrow> ui_request \<Rightarrow> string \<Rightarrow> save_error option \<Rightarrow> MetricsExplorerView reply option" where
  "renderExplorer E st req q0 saveErr =
     (let dsl = TrimSpace (qget req ''dsl'');
          landing = (q0 = [] \<and> dsl = []);
          q1 = (if q0 = [] then defaultMetricsQuery else q0);
          sel = (if qget req ''view'' \<in> set explorerViews then qget req ''view'' else ''auto'');
          view = \<lparr>me_Query = q1, me_View = (if landing then ''table'' else sel), me_DSL = dsl, me_Shaped = noShape, me_SaveErr = saveErr,
             me_FormView = sel, me_MetricNames = shownNames E, me_HasAnyMetrics = False, me_Dashboards = [], me_Catalog = []\<rparr>
      in if landing \<and> metricsCatalog E \<noteq> [] then Some (Render 200 (view\<lparr>me_Catalog := metricsCatalog E\<rparr>))
         else case authoritative E dsl q1 of
           (q, fill) \<Rightarrow>
             let view1 = view\<lparr>me_Query := q\<rparr>
             in if Contains q snippetPlaceholderMarker
                then Some (Render 400 (view1\<lparr>me_Shaped := errorShape (SPlaceholder (placeholderErr q))\<rparr>))
                else Option.bind (shapeQuery E q (if me_View view1 = ''auto'' then [] else me_View view1) ''explorer'' fill) (\<lambda>s.
                       Some (Render (if sr_Kind s = ''error'' \<or> saveErr \<noteq> None then 400 else 200)
                         (explorerExtras E st (view1\<lparr>me_Shaped := s\<rparr>)))))"

definition metricsExplorerPage :: "web_env \<Rightarrow> dash_store \<Rightarrow> ui_request \<Rightarrow> MetricsExplorerView reply option" where
  "metricsExplorerPage E st req = renderExplorer E st req (TrimSpace (qget req ''q'')) None"

section \<open>Menus of the query builder\<close>

text \<open>\<^verbatim>\<open>^[A-Za-z_][A-Za-z0-9_.]*$\<close>\<close>

definition labelKeyRe :: "string \<Rightarrow> bool" where
  "labelKeyRe s = (case s of [] \<Rightarrow> False | c # t \<Rightarrow> (is_letter c \<or> c = CHR ''_'')
     \<and> list_all (\<lambda>c. is_letter c \<or> is_digit c \<or> c = CHR ''_'' \<or> c = CHR ''.'') t)"

definition byteOrder :: "string \<Rightarrow> nat list" where
  "byteOrder s = map of_char s"

fun addKeys :: "string list \<Rightarrow> string list \<Rightarrow> string list" where
  "addKeys seen [] = seen"
| "addKeys seen (k # ks) = addKeys (if k \<in> set seen then seen else seen @ [k]) ks"

definition labelKeys :: "web_env \<Rightarrow> string \<Rightarrow> string list" where
  "labelKeys E metric = foldl (\<lambda>seen raw. case we_jsonKeys E raw of None \<Rightarrow> seen | Some ks \<Rightarrow> addKeys seen ks) [] (scanSkip (we_labels E metric))"

text \<open>The result of the response's \<open>options\<close>; a nil slice is the empty list.\<close>

definition filterOptions :: "web_env \<Rightarrow> ui_request \<Rightarrow> string list" where
  "filterOptions E req =
     (let metric = qget req ''metric''; key = qget req ''key''
      in if key = [] then [''service'', ''host''] @ sort_key byteOrder (labelKeys E metric)
         else if key \<noteq> ''service'' \<and> key \<noteq> ''host'' \<and> \<not> labelKeyRe key then []
         else filter (\<lambda>v. v \<noteq> []) (scanSkip (we_values E key metric)))"

section \<open>Saving a panel\<close>

definition applyPanelDSL :: "web_env \<Rightarrow> Panel \<Rightarrow> (dsl_error, Panel) result" where
  "applyPanelDSL E p =
     (if pa_DSL p = [] then Ok p
      else case ParseDSL (pa_DSL p) of
             Inl e \<Rightarrow> Err e
           | Inr d \<Rightarrow> (case compileWith E d of Inl e \<Rightarrow> Err e | Inr sql \<Rightarrow> Ok (p\<lparr>pa_Query := sql\<rparr>)))"

definition explorerPanel :: "(string \<Rightarrow> string) \<Rightarrow> Panel" where
  "explorerPanel form =
     (let ct = form ''chart_type''
      in \<lparr>pa_DashboardID = ParseIntVal (form ''dashboard_id''), pa_Title = form ''title'', pa_Query = form ''query'',
          pa_ChartType = (if ct = ''auto'' \<or> ct = ''table'' then [] else ct), pa_Position = 0, pa_Width = 2, pa_DSL = TrimSpace (form ''dsl''),
          pa_FTS = [], pa_Op = []\<rparr>)"

definition saveExplorerPanel ::
    "web_env \<Rightarrow> ui_request \<Rightarrow> dash_store \<Rightarrow> (MetricsExplorerView reply \<times> dash_store) option" where
  "saveExplorerPanel E req st =
     (case rq_form req of
        None \<Rightarrow> Some (Redirect 303 ''/metrics-explorer'', st)
      | Some form \<Rightarrow>
         let p0 = explorerPanel form;
             back = (\<lambda>q e. map_option (\<lambda>r. (r, st)) (renderExplorer E st req q (Some e)))
         in case applyPanelDSL E p0 of
              Inl e \<Rightarrow> back (pa_Query p0) (SaveDSL e)
            | Inr p \<Rightarrow>
                if Contains (pa_Query p) snippetPlaceholderMarker then back (pa_Query p) (SavePlaceholder (placeholderErr (pa_Query p)))
                else case CreatePanel (ue_sqlp E) p st of
                       Inl e \<Rightarrow> back (pa_Query p) (SaveDash e)
                     | Inr st' \<Rightarrow> Some (Redirect 303 (''/dashboards/'' @ itoa (pa_DashboardID p)), st'))"

section \<open>Export\<close>

datatype export = ExportJSON "(string \<times> cell) list list" | ExportCSV "string list list"

text \<open>A row as a JSON object: of equal column names the last one counts.\<close>

definition jsonRow :: "string list \<Rightarrow> cell list \<Rightarrow> (string \<times> cell) list" where
  "jsonRow cols row = foldl (\<lambda>m (c, v). AList.update c v m) [] (zip cols row)"

definition exportBody :: "web_env \<Rightarrow> string \<Rightarrow> Result \<Rightarrow> export" where
  "exportBody E format res =
     (if format = ''json'' then ExportJSON (map (jsonRow (res_Columns res)) (res_Rows res))
      else ExportCSV (res_Columns res # map (map (\<lambda>c. csvSafe (we_parseFloat E) (cellString (ui_of E) c))) (res_Rows res)))"

datatype export_error = XPlaceholder string | XInvalid verror | XExec string

definition runExport :: "web_env \<Rightarrow> string \<Rightarrow> Validated \<Rightarrow> string list \<Rightarrow> (export_error, export) result" where
  "runExport E format v args =
     (case Execute (ue_query E (ue_string E (v_stmt v)) args) of
        (Some res, None) \<Rightarrow> Ok (exportBody E format res)
      | (_, err) \<Rightarrow> Err (XExec (case err of Some e \<Rightarrow> e | None \<Rightarrow> [])))"

text \<open>An error is sent as plain text with status 400.\<close>

definition exportMetrics :: "web_env \<Rightarrow> ui_request \<Rightarrow> (export_error, export) result" where
  "exportMetrics E req =
     (let q0 = TrimSpace (qget req ''q''); q = (if q0 = [] then defaultMetricsQuery else q0)
      in case ValidateIn (ue_sqlp E) q ScopeMetrics of
           Inl e \<Rightarrow> Err (XInvalid e)
         | Inr v \<Rightarrow> runExport E (qget req ''format'') v [])"

section \<open>What the pages guarantee\<close>

lemma catalog_tokens:
  "Fields (skip_space '' per 1h last 24h'') = [''per'', ''1h'', ''last'', ''24h'']"
  "Fields (skip_space '' per 10m last 24h'') = [''per'', ''10m'', ''last'', ''24h'']"
  "parseDSLDuration ''1h'' = Ok 3600000" "parseDSLDuration ''24h'' = Ok 86400000" "parseDSLDuration ''10m'' = Ok 600000"
  by code_simp+

lemma dslHeadRe_call:
  assumes "list_all is_letter verb" and "verb \<noteq> []" and "name \<noteq> []" and "CHR '')'' \<notin> set name"
    and "trim_re_space name = name" and "CHR 0x0A \<notin> set rest"
  shows "dslHeadRe (verb @ ''('' @ name @ '')'' @ rest) = Some (verb, name, skip_space rest)"
proof -
  have "\<not> list_all re_space name"
  proof
    assume "list_all re_space name"
    then have e: "dropWhile re_space name = []" by (simp add: list_all_iff)
    have "trim_re_space name = []" unfolding trim_re_space_def e by simp
    then show False using assms(3,5) by simp
  qed
  moreover have "skip_space (CHR ''('' # r) = CHR ''('' # r" for r by (simp add: skip_space_def re_space_def byte_def)
  moreover have "CHR 0x0A \<notin> set (skip_space rest)" using assms(6) by (auto simp: skip_space_def dest: set_dropWhileD)
  ultimately show ?thesis
    using assms Cut1_present [OF assms(4), of rest] by (simp add: dslHeadRe_def letters_head Let_def)
qed

text \<open>
  Every link of the metric catalog is a query on that metric. For a metric name without a closing
  parenthesis and without white space around it, the text that the catalog offers parses to a query of
  exactly this metric over the last day: the increase per hour of a counter, the average per ten minutes
  of anything else.
\<close>

theorem catalog_link_parses:
  assumes "name \<noteq> []" and "CHR '')'' \<notin> set name" and "trim_re_space name = name"
  shows "ParseDSL (catalogDSL name ty) = Ok \<lparr>d_Verb = (if ty = 0 then ''increase'' else ''avg''), d_Metric = name, d_Filters = [],
    d_BucketMs = (if ty = 0 then 3600000 else 600000), d_WindowMs = 86400000, d_ByService = False, d_fromMs = 0, d_toMs = 0\<rparr>"
proof -
  have nc: "\<not> Contains name '')''" using assms(2) by (auto simp: Contains_iff)
  have l: "ToLower ''increase'' = ''increase''" "ToLower ''avg'' = ''avg''" by code_simp+
  show ?thesis
  proof (cases "ty = 0")
    case True
    have "dslHeadRe (''increase'' @ ''('' @ name @ '')'' @ '' per 1h last 24h'') = Some (''increase'', name, skip_space '' per 1h last 24h'')"
      by (rule dslHeadRe_call) (use assms in \<open>simp_all add: is_letter_def is_upper_def byte_def\<close>)
    then show ?thesis using True nc l
      by (simp add: catalogDSL_def ParseDSL_def catalog_tokens parse_steps dslVerbs_def del: ToLower.simps)
  next
    case False
    have "dslHeadRe (''avg'' @ ''('' @ name @ '')'' @ '' per 10m last 24h'') = Some (''avg'', name, skip_space '' per 10m last 24h'')"
      by (rule dslHeadRe_call) (use assms in \<open>simp_all add: is_letter_def is_upper_def byte_def\<close>)
    then show ?thesis using False nc l
      by (simp add: catalogDSL_def ParseDSL_def catalog_tokens parse_steps dslVerbs_def del: ToLower.simps)
  qed
qed

theorem catalog_link_parses_witness:
  "\<exists>d. ParseDSL (catalogDSL ''http_requests_total'' 0) = Ok d \<and> d_Metric d = ''http_requests_total''"
proof -
  have "trim_re_space ''http_requests_total'' = ''http_requests_total''" by code_simp
  then show ?thesis using catalog_link_parses [of "''http_requests_total''" 0] by simp
qed

text \<open>The mirror shows the SQL that the page will run, and only SQL that the page accepts.\<close>

lemma compile_mirror_honest:
  assumes "compileDSL E req = r" and "dc_Error r = None"
  shows "\<exists>d v. ParseDSL (qget req ''dsl'') = Ok d \<and> dc_Parsed r = Some (parsedOf d) \<and> compileWith E d = Ok (dc_SQL r)
    \<and> ValidateIn (ue_sqlp E) (dc_SQL r) ScopeMetrics = Ok v \<and> fst (authoritative E (qget req ''dsl'') q) = (if qget req ''dsl'' = [] then q else dc_SQL r)"
  using assms by (auto simp: compileDSL_def compileFailed_def authoritative_def split: sum.splits)

text \<open>A query text in the language decides what runs, whatever SQL the request carries.\<close>

lemma explorer_dsl_authoritative:
  assumes "ParseDSL (TrimSpace (qget req ''dsl'')) = Ok d" and "compileWith E d = Ok sql" and "TrimSpace (qget req ''dsl'') \<noteq> []"
    and "renderExplorer E st req q saveErr = Some (Render n view)"
  shows "me_Query view = sql"
  using assms by (auto simp: renderExplorer_def authoritative_def explorerExtras_def Let_def bind_eq_Some_conv split: if_splits prod.splits)

text \<open>What a stored panel's query must be: the compiled text of its expression, when it has one.\<close>

definition dsl_current :: "web_env \<Rightarrow> Panel \<Rightarrow> bool" where
  "dsl_current E p \<longleftrightarrow> pa_DSL p = [] \<or> (\<exists>d sql. ParseDSL (pa_DSL p) = Ok d \<and> compileWith E d = Ok sql \<and> pa_Query p = TrimSpace sql)"

lemma applyPanelDSL_ok:
  assumes "applyPanelDSL E p0 = Ok p"
  shows "pa_DSL p = pa_DSL p0" "pa_DashboardID p = pa_DashboardID p0"
    "pa_DSL p \<noteq> [] \<Longrightarrow> \<exists>d sql. ParseDSL (pa_DSL p) = Ok d \<and> compileWith E d = Ok sql \<and> pa_Query p = sql"
  using assms by (auto simp: applyPanelDSL_def split: if_splits sum.splits)

lemma validatePanel_keeps:
  assumes "validatePanel P st p0 = Ok p"
  shows "pa_DSL p = pa_DSL p0 \<and> pa_Query p = TrimSpace (pa_Query p0) \<and> pa_FTS p = pa_FTS p0"
  using assms by (auto simp: validatePanel_def Let_def checkWidth_def logsDefaults_def split: if_splits option.splits sum.splits)

lemma applied_panel_current:
  assumes "applyPanelDSL E p0 = Ok p1" and "validatePanel P st p1 = Ok p"
  shows "dsl_current E p"
  using applyPanelDSL_ok [OF assms(1)] validatePanel_keeps [OF assms(2)] by (auto simp: dsl_current_def)

end
