(* ===== verification/Dashboard_Pages.thy ===== *)
theory Dashboard_Pages
  imports Explorer
begin

text \<open>
  The dashboard handlers of \<open>ui/dashboards.go\<close>. A handler takes the request and the store and gives
  the reply and the new store. The failures of the metadata database itself, which every handler answers
  with status 500, are outside the model of \<open>services/dashboards.go\<close>.
\<close>

datatype form_error = FForm | FDsl dsl_error | FDash dash_error

record PanelView =
  pv_ID :: int
  pv_Panel :: Panel
  pv_Shaped :: ShapedResult
  pv_StreamRows :: "LogRow list"

datatype dash_view =
    DList "(int \<times> Dashboard) list" "dash_error option"
  | DPage int Dashboard "(int \<times> Panel) list" "string list" "form_error option"
  | DEditCard int Panel string "form_error option"
  | DCard int Panel
  | DFragment PanelView

section \<open>Dashboards\<close>

definition renderDashboardsList :: "dash_store \<Rightarrow> dash_error option \<Rightarrow> nat \<Rightarrow> dash_view reply" where
  "renderDashboardsList st err status = Render status (DList (ListDashboards st) err)"

definition dashboardsPage :: "dash_store \<Rightarrow> dash_view reply" where
  "dashboardsPage st = renderDashboardsList st None 200"

definition createDashboard :: "web_env \<Rightarrow> ui_request \<Rightarrow> dash_store \<Rightarrow> dash_view reply \<times> dash_store" where
  "createDashboard E req st =
     (case rq_form req of
        None \<Rightarrow> (Redirect 303 ''/dashboards'', st)
      | Some form \<Rightarrow>
         (case CreateDashboard (we_now E) (form ''name'') (form ''type'') (form ''description'') st of
            Inl e \<Rightarrow> (renderDashboardsList st (Some e) 400, st)
          | Inr (i, st') \<Rightarrow> (Redirect 303 (''/dashboards/'' @ itoa i), st')))"

definition deleteDashboard :: "ui_request \<Rightarrow> dash_store \<Rightarrow> dash_view reply \<times> dash_store" where
  "deleteDashboard req st =
     (case ParseInt (rq_param req ''id'') of
        None \<Rightarrow> (Bare 400, st)
      | Some i \<Rightarrow>
         (if rq_header req ''HX-Request'' = ''true'' then HxRedirect 200 ''/dashboards'' else Redirect 303 ''/dashboards'', DeleteDashboard i st))"

definition renderDashboard :: "web_env \<Rightarrow> ui_request \<Rightarrow> dash_store \<Rightarrow> form_error option \<Rightarrow> nat \<Rightarrow> dash_view reply" where
  "renderDashboard E req st err status =
     (case ParseInt (rq_param req ''id'') of
        None \<Rightarrow> Bare 400
      | Some i \<Rightarrow>
         (case GetDashboard i st of
            None \<Rightarrow> Plain 404 ''404 page not found''
          | Some d \<Rightarrow> Render status (DPage i d (ListPanels i st) (if da_Type d = ''metrics'' then fst (metricNames E) else []) err)))"

definition dashboardPage :: "web_env \<Rightarrow> ui_request \<Rightarrow> dash_store \<Rightarrow> dash_view reply" where
  "dashboardPage E req st = renderDashboard E req st None 200"

section \<open>Panels\<close>

definition emptyPanel :: "int \<Rightarrow> Panel" where
  "emptyPanel i = \<lparr>pa_DashboardID = i, pa_Title = [], pa_Query = [], pa_ChartType = [], pa_Position = 0, pa_Width = 0, pa_DSL = [], pa_FTS = [], pa_Op = []\<rparr>"

definition panelFromForm :: "ui_request \<Rightarrow> int \<Rightarrow> (form_error, Panel) result" where
  "panelFromForm req dashboardID =
     (case rq_form req of
        None \<Rightarrow> Err FForm
      | Some form \<Rightarrow> Ok \<lparr>pa_DashboardID = dashboardID, pa_Title = form ''title'', pa_Query = form ''query'', pa_ChartType = form ''chart_type'',
          pa_Position = 0, pa_Width = ParseIntVal (form ''width''), pa_DSL = TrimSpace (form ''dsl''), pa_FTS = TrimSpace (form ''fts''), pa_Op = form ''op''\<rparr>)"

text \<open>The panel that is to be stored: the form with its expression compiled.\<close>

definition panelToStore :: "web_env \<Rightarrow> ui_request \<Rightarrow> int \<Rightarrow> (form_error, Panel) result" where
  "panelToStore E req dashboardID =
     (case panelFromForm req dashboardID of
        Inl e \<Rightarrow> Err e
      | Inr p \<Rightarrow> (case applyPanelDSL E p of Inl e \<Rightarrow> Err (FDsl e) | Inr p' \<Rightarrow> Ok p'))"

definition createPanel :: "web_env \<Rightarrow> ui_request \<Rightarrow> dash_store \<Rightarrow> dash_view reply \<times> dash_store" where
  "createPanel E req st =
     (case ParseInt (rq_param req ''id'') of
        None \<Rightarrow> (Bare 400, st)
      | Some i \<Rightarrow>
         (case panelToStore E req i of
            Inl e \<Rightarrow> (renderDashboard E req st (Some e) 400, st)
          | Inr p \<Rightarrow>
             (case CreatePanel (ue_sqlp E) p st of
                Inl e \<Rightarrow> (renderDashboard E req st (Some (FDash e)) 400, st)
              | Inr st' \<Rightarrow> (Redirect 303 (''/dashboards/'' @ itoa i), st'))))"

definition editCard :: "dash_store \<Rightarrow> int \<Rightarrow> int \<Rightarrow> Panel \<Rightarrow> form_error \<Rightarrow> dash_view reply" where
  "editCard st dashboardID panelID p e =
     Render 400 (DEditCard panelID p (case GetDashboard dashboardID st of Some d \<Rightarrow> da_Type d | None \<Rightarrow> ''metrics'') (Some e))"

definition updatePanel :: "web_env \<Rightarrow> ui_request \<Rightarrow> dash_store \<Rightarrow> dash_view reply \<times> dash_store" where
  "updatePanel E req st =
     (case (ParseInt (rq_param req ''id''), ParseInt (rq_param req ''pid'')) of
        (Some dashboardID, Some panelID) \<Rightarrow>
          (case panelFromForm req dashboardID of
             Inl e \<Rightarrow> (editCard st dashboardID panelID (emptyPanel 0) e, st)
           | Inr p0 \<Rightarrow>
             (case applyPanelDSL E p0 of
                Inl e \<Rightarrow> (editCard st dashboardID panelID p0 (FDsl e), st)
              | Inr p \<Rightarrow>
                (case UpdatePanel (ue_sqlp E) panelID p st of
                   Inl e \<Rightarrow> (editCard st dashboardID panelID p (FDash e), st)
                 | Inr st' \<Rightarrow> (Render 200 (DCard panelID p), st'))))
      | _ \<Rightarrow> (Bare 400, st))"

definition deletePanel :: "ui_request \<Rightarrow> dash_store \<Rightarrow> dash_view reply \<times> dash_store" where
  "deletePanel req st =
     (case (ParseInt (rq_param req ''id''), ParseInt (rq_param req ''pid'')) of
        (Some dashboardID, Some panelID) \<Rightarrow> (Bare 200, DeletePanel dashboardID panelID st)
      | _ \<Rightarrow> (Bare 400, st))"

section \<open>The body of a panel\<close>

text \<open>The stored search text of a logs panel; when it does not combine, the query runs without it.\<close>

definition panelSearch :: "web_env \<Rightarrow> Dashboard \<Rightarrow> Panel \<Rightarrow> Validated \<Rightarrow> Validated \<times> string list" where
  "panelSearch E d p v =
     (if da_Type d = ''logs'' \<and> pa_FTS p \<noteq> []
      then case CombineFTS (ue_sqlp E) (if pa_Op p \<noteq> ''or'' then ''and'' else pa_Op p) v of
             Inl _ \<Rightarrow> (v, [])
           | Inr v' \<Rightarrow> (v', [FTSMatch (pa_FTS p)])
      else (v, []))"

definition streamRowsOf :: "ui_env \<Rightarrow> Result \<Rightarrow> LogRow list" where
  "streamRowsOf U res = sort_key cursor_of (List.map_filter (rowFromResult U (res_Columns res)) (res_Rows res))"

text \<open>The shape and the stream rows of a panel.\<close>

definition panelBody :: "web_env \<Rightarrow> int \<Rightarrow> Dashboard \<Rightarrow> Panel \<Rightarrow> (ShapedResult \<times> LogRow list) option" where
  "panelBody E panelID d p =
     (case ValidateIn (ue_sqlp E) (pa_Query p) (PanelScope (da_Type d)) of
        Inl e \<Rightarrow> Some (errorShape (SInvalid e), [])
      | Inr v \<Rightarrow>
         (case panelSearch E d p v of
            (v', args) \<Rightarrow>
              (case Execute (ue_query E (ue_string E (v_stmt v')) args) of
                 (Some res, None) \<Rightarrow>
                   if da_Type d = ''logs'' \<and> (pa_ChartType p = ''stream'' \<or> pa_ChartType p = [])
                   then Some (noShape\<lparr>sr_Kind := ''stream''\<rparr>, streamRowsOf (ui_of E) res)
                   else map_option (\<lambda>s. (s, []))
                     (shapeResult (ui_of E) res (logsKindToChartType (da_Type d) (pa_ChartType p)) (''p'' @ itoa panelID) None)
               | (_, err) \<Rightarrow> Some (errorShape (SExec (case err of Some e \<Rightarrow> e | None \<Rightarrow> [])), []))))"

definition panelFragment :: "web_env \<Rightarrow> ui_request \<Rightarrow> dash_store \<Rightarrow> dash_view reply option" where
  "panelFragment E req st =
     (case (ParseInt (rq_param req ''id''), ParseInt (rq_param req ''pid'')) of
        (Some dashboardID, Some panelID) \<Rightarrow>
          (case (GetPanel dashboardID panelID st, GetDashboard dashboardID st) of
             (Some p, Some d) \<Rightarrow>
               if qget req ''edit'' = ''1'' then Some (Render 200 (DEditCard panelID p (da_Type d) None))
               else if qget req ''card'' = ''1'' then Some (Render 200 (DCard panelID p))
               else map_option (\<lambda>(s, rows). Render 200 (DFragment \<lparr>pv_ID = panelID, pv_Panel = p, pv_Shaped = s, pv_StreamRows = rows\<rparr>))
                      (panelBody E panelID d p)
           | _ \<Rightarrow> Some (Plain 404 ''404 page not found''))
      | _ \<Rightarrow> Some (Bare 400))"

section \<open>Properties\<close>

text \<open>Without a grid to fill, shaping always ends; so does every panel.\<close>

lemma shapeResult_total: "\<exists>s. shapeResult U res chartType chartID None = Some s"
  by (auto simp: shapeResult_def emptyShape_def chartShape_def timeChart_def Let_def)

lemma panelBody_total: "\<exists>r. panelBody E k d p = Some r"
  using shapeResult_total by (auto simp: panelBody_def split: sum.split prod.split option.split)

lemma panelFragment_total: "\<exists>r. panelFragment E req st = Some r"
  using panelBody_total [of E] by (auto simp: panelFragment_def split: option.split)

text \<open>The handlers that change the store, as one operation.\<close>

datatype dash_request = RCreateDashboard | RDeleteDashboard | RCreatePanel | RUpdatePanel | RDeletePanel | RSavePanel

definition dash_handle :: "web_env \<Rightarrow> dash_request \<Rightarrow> ui_request \<Rightarrow> dash_store \<Rightarrow> dash_store" where
  "dash_handle E h req st =
     (case h of
        RCreateDashboard \<Rightarrow> snd (createDashboard E req st)
      | RDeleteDashboard \<Rightarrow> snd (deleteDashboard req st)
      | RCreatePanel \<Rightarrow> snd (createPanel E req st)
      | RUpdatePanel \<Rightarrow> snd (updatePanel E req st)
      | RDeletePanel \<Rightarrow> snd (deletePanel req st)
      | RSavePanel \<Rightarrow> (case saveExplorerPanel E req st of Some (r, st') \<Rightarrow> st' | None \<Rightarrow> st))"

text \<open>Every panel of the new store is an old one or one whose query is compiled from its expression.\<close>

definition panels_current :: "web_env \<Rightarrow> dash_store \<Rightarrow> dash_store \<Rightarrow> bool" where
  "panels_current E st st' \<longleftrightarrow> (\<forall>(k, p) \<in> set (ds_panels st'). (k, p) \<in> set (ds_panels st) \<or> dsl_current E p)"

lemma panels_current_refl [simp]: "panels_current E st st"
  by (auto simp: panels_current_def)

lemma panels_current_create:
  assumes "applyPanelDSL E p0 = Ok p1" and "CreatePanel P p1 st = Ok st'"
  shows "panels_current E st st'"
proof -
  from assms(2) obtain p where p: "validatePanel P st p1 = Ok p"
    and st': "ds_panels st' = snd (row_insert (p\<lparr>pa_Position := nextPosition (pa_DashboardID p) (ds_panels st)\<rparr>) (ds_panels st))"
    by (auto simp: CreatePanel_def split: sum.splits)
  have "dsl_current E (p\<lparr>pa_Position := n\<rparr>)" for n
    using applied_panel_current [OF assms(1) p] by (simp add: dsl_current_def)
  then show ?thesis by (auto simp: panels_current_def st' row_insert_def)
qed

lemma panels_current_update:
  assumes "applyPanelDSL E p0 = Ok p1" and "UpdatePanel P i p1 st = Ok st'"
  shows "panels_current E st st'"
proof -
  from assms(2) obtain p where p: "validatePanel P st p1 = Ok p"
    and st': "ds_panels st' = row_update i (\<lambda>r. r\<lparr>pa_Title := pa_Title p, pa_Query := pa_Query p, pa_ChartType := pa_ChartType p,
             pa_Width := pa_Width p, pa_DSL := pa_DSL p, pa_FTS := pa_FTS p, pa_Op := pa_Op p\<rparr>) (ds_panels st)"
    by (auto simp: UpdatePanel_def split: sum.splits if_splits)
  have c: "dsl_current E p" by (rule applied_panel_current [OF assms(1) p])
  show ?thesis unfolding panels_current_def st'
  proof clarify
    fix k q
    assume "(k, q) \<in> set (row_update i (\<lambda>r. r\<lparr>pa_Title := pa_Title p, pa_Query := pa_Query p, pa_ChartType := pa_ChartType p,
             pa_Width := pa_Width p, pa_DSL := pa_DSL p, pa_FTS := pa_FTS p, pa_Op := pa_Op p\<rparr>) (ds_panels st))"
      and "\<not> dsl_current E q"
    moreover have "dsl_current E (r\<lparr>pa_Title := pa_Title p, pa_Query := pa_Query p, pa_ChartType := pa_ChartType p,
             pa_Width := pa_Width p, pa_DSL := pa_DSL p, pa_FTS := pa_FTS p, pa_Op := pa_Op p\<rparr>)" for r
      using c by (simp add: dsl_current_def)
    ultimately show "(k, q) \<in> set (ds_panels st)" by (auto dest!: row_update_mem split: if_splits)
  qed
qed

lemma panels_current_filter: "set (ds_panels st') \<subseteq> set (ds_panels st) \<Longrightarrow> panels_current E st st'"
  by (auto simp: panels_current_def)

lemma dash_handle_current: "panels_current E st (dash_handle E h req st)"
proof (cases h)
  case RCreateDashboard
  then show ?thesis
    by (auto simp: dash_handle_def createDashboard_def CreateDashboard_def Let_def intro!: panels_current_filter split: option.split sum.split prod.split)
next
  case RDeleteDashboard
  then show ?thesis
    by (auto simp: dash_handle_def deleteDashboard_def DeleteDashboard_def intro!: panels_current_filter split: option.split)
next
  case RCreatePanel
  then show ?thesis
    by (auto simp: dash_handle_def createPanel_def panelToStore_def intro: panels_current_create split: option.split sum.splits)
next
  case RUpdatePanel
  then show ?thesis
    by (auto simp: dash_handle_def updatePanel_def intro: panels_current_update split: option.split sum.split)
next
  case RDeletePanel
  then show ?thesis
    by (auto simp: dash_handle_def deletePanel_def DeletePanel_def intro!: panels_current_filter split: option.split)
next
  case RSavePanel
  then show ?thesis
    by (auto simp: dash_handle_def saveExplorerPanel_def Let_def intro: panels_current_create split: option.splits sum.splits if_splits)
qed

lemma dash_handle_inv: "dash_inv (ue_sqlp E) st \<Longrightarrow> dash_inv (ue_sqlp E) (dash_handle E h req st)"
  by (cases h)
    (auto simp: dash_handle_def createDashboard_def deleteDashboard_def createPanel_def updatePanel_def deletePanel_def saveExplorerPanel_def Let_def
      intro: dash_inv_create_dashboard dash_inv_create_panel dash_inv_update_panel dash_inv_delete_panel dash_inv_delete_dashboard
      split: option.splits sum.splits prod.splits if_splits)

text \<open>
  C34: no request can leave a broken or stale panel. Whatever a form contains, after any of the handlers
  that change dashboards every panel is valid for its dashboard, and each panel that the handler stored
  and that carries an expression of the query language has as its query exactly the SQL compiled from
  that expression, not the SQL that the form sent along.
\<close>

theorem dash_pages_safe:
  assumes "dash_inv (ue_sqlp E) st"
  shows "dash_inv (ue_sqlp E) (dash_handle E h req st) \<and> panels_current E st (dash_handle E h req st)"
  using dash_handle_inv [OF assms] dash_handle_current by blast

definition web_sample :: web_env where
  "web_sample = \<lparr>ue_sqlp = sqlp_sample, ue_string = (\<lambda>_. []),
     ue_query = (\<lambda>_ _. \<lparr>rs_start = None, rs_columns = Inr [''n''], rs_rows = [Inr [CInt 7]], rs_err = None\<rparr>),
     ue_fmt = (\<lambda>_. []), ue_oor = (\<lambda>_. 0), we_now = 1700000000000, we_parseFloat = (\<lambda>_. False), we_names = answers [], we_services = (\<lambda>_. answers []),
     we_metricType = (\<lambda>_. None), we_labels = (\<lambda>_. answers []), we_jsonKeys = (\<lambda>_. None), we_values = (\<lambda>_ _. answers []), we_hasAny = Some 0,
     we_volume = (\<lambda>_ _ _. answers []), we_home = (\<lambda>_ _. answers [])\<rparr>"

definition dash_store_sample :: dash_store where
  "dash_store_sample = \<lparr>ds_dashboards = [(1, \<lparr>da_Name = ''ops'', da_Type = ''logs'', da_Description = [], da_CreatedAt = 5\<rparr>)], ds_panels = []\<rparr>"

definition panel_request_sample :: ui_request where
  "panel_request_sample = \<lparr>rq_query = (\<lambda>_. []),
     rq_form = Some (\<lambda>k. if k = ''title'' then ''errors'' else if k = ''width'' then ''2'' else if k = ''dsl'' then ''AVG( q ) per 10m'' else []),
     rq_param = (\<lambda>_. ''1''), rq_header = (\<lambda>_. []), rq_cookie = None\<rparr>"

theorem dash_pages_safe_witness:
  "dash_inv (ue_sqlp web_sample) (dash_handle web_sample RCreatePanel panel_request_sample dash_store_sample)
   \<and> panels_current web_sample dash_store_sample (dash_handle web_sample RCreatePanel panel_request_sample dash_store_sample)"
proof -
  have "dash_inv (ue_sqlp web_sample) dash_store_sample"
    by (simp add: dash_inv_def dash_store_sample_def keyed_def dashboardTypes_def)
  then show ?thesis by (rule dash_pages_safe)
qed

text \<open>
  A panel whose query is an aggregation loses its stored search text: \<open>CombineFTS\<close> refuses the
  query, the refusal is ignored, and the panel shows the result over all logs.
\<close>

lemma panel_search_dropped: "v_Shape v = ShapeAggregation \<Longrightarrow> panelSearch E d p v = (v, [])"
  by (simp add: panelSearch_def CombineFTS_def)

end
