(* ===== verification/War_Room.thy ===== *)
theory War_Room
  imports Dashboard_Pages
begin

text \<open>
  The war room, \<open>ui/warroom.go\<close> with \<open>ui/templates/warroom_model.go\<close>: a page on one time
  window, with up to three metric rows, a chart of the log volume and a pane of log lines. All of its
  state is in the URL.
\<close>

section \<open>The request\<close>

definition warMetricRowCount :: nat where "warMetricRowCount = 3"
definition warDefaultSpanMs :: int where "warDefaultSpanMs = 60 * 60 * 1000"
definition warMinSpanMs :: int where "warMinSpanMs = 60 * 1000"

definition WarDefaultLogsQuery :: string where
  "WarDefaultLogsQuery = ''SELECT * FROM logs WHERE level >= 3 ORDER BY timestamp DESC LIMIT 500''"

record warRequest =
  wr_fromMs :: int
  wr_toMs :: int
  wr_follow :: bool
  wr_dsls :: "string list"
  wr_q :: string
  wr_fts :: string
  wr_op :: string

text \<open>The window: too short or not given means the last hour; following pins its end to now.\<close>

definition warWindow :: "int \<Rightarrow> bool \<Rightarrow> int \<Rightarrow> int \<Rightarrow> int \<times> int" where
  "warWindow now follow from0 to0 =
     (let span0 = i64 (to0 - from0);
          bad = (from0 \<le> 0 \<or> to0 \<le> 0 \<or> span0 < warMinSpanMs);
          span = (if bad then warDefaultSpanMs else span0)
      in if bad \<or> follow then (i64 (now - span), now) else (from0, to0))"

definition warRows :: "string list \<Rightarrow> string list" where
  "warRows vals =
     (let rows = take warMetricRowCount (filter (\<lambda>d. d \<noteq> []) (map TrimSpace vals))
      in rows @ replicate (warMetricRowCount - length rows) [])"

definition parseWarRequest :: "int \<Rightarrow> ui_request \<Rightarrow> warRequest" where
  "parseWarRequest now req =
     (let q = TrimSpace (qget req ''q''); follow = (qget req ''follow'' = ''1'');
          w = warWindow now follow (ParseIntVal (qget req ''from'')) (ParseIntVal (qget req ''to''))
      in \<lparr>wr_fromMs = fst w, wr_toMs = snd w, wr_follow = follow, wr_dsls = warRows (rq_query req ''dsl''),
          wr_q = (if q = [] then WarDefaultLogsQuery else q), wr_fts = TrimSpace (qget req ''fts''),
          wr_op = (if qget req ''op'' \<noteq> ''or'' then ''and'' else qget req ''op'')\<rparr>)"

section \<open>Metric rows\<close>

datatype war_error = WDsl dsl_error | WInvalid verror | WExec string

record WarMetricRow =
  wm_Index :: nat
  wm_DSL :: string
  wm_Err :: "war_error option"
  wm_Shaped :: ShapedResult

definition warMetricRow :: "web_env \<Rightarrow> nat \<Rightarrow> string \<Rightarrow> int \<Rightarrow> int \<Rightarrow> WarMetricRow option" where
  "warMetricRow E i dsl fromMs toMs =
     (let row = \<lparr>wm_Index = i, wm_DSL = dsl, wm_Err = None, wm_Shaped = noShape\<rparr>
      in if dsl = [] then Some row
         else case ParseDSL dsl of
           Inl e \<Rightarrow> Some (row\<lparr>wm_Err := Some (WDsl e)\<rparr>)
         | Inr d0 \<Rightarrow>
            let d = OverrideWindow fromMs toMs d0
            in case compileWith E d of
                 Inl e \<Rightarrow> Some (row\<lparr>wm_Err := Some (WDsl e)\<rparr>)
               | Inr sql \<Rightarrow>
                  (case ValidateIn (ue_sqlp E) sql ScopeMetrics of
                     Inl e \<Rightarrow> Some (row\<lparr>wm_Err := Some (WInvalid e)\<rparr>)
                   | Inr v \<Rightarrow>
                      (case Execute (ue_query E (ue_string E (v_stmt v)) []) of
                         (Some res, None) \<Rightarrow>
                           map_option (\<lambda>s. row\<lparr>wm_Shaped := s\<rparr>)
                             (shapeResult (ui_of E) res [] (''w'' @ itoa (int i)) (dslFill d fromMs toMs))
                       | (_, err) \<Rightarrow> Some (row\<lparr>wm_Err := Some (WExec (case err of Some e \<Rightarrow> e | None \<Rightarrow> []))\<rparr>))))"

section \<open>The volume chart\<close>

definition warBucketSteps :: "int list" where
  "warBucketSteps = [1000, 5000, 15000, 30000, 60000, 5 * 60000, 10 * 60000, 30 * 60000,
     3600000, 3 * 3600000, 6 * 3600000, 12 * 3600000, 86400000]"

definition warBucketMs :: "int \<Rightarrow> int" where
  "warBucketMs spanMs =
     (case find (\<lambda>s. go_div spanMs s \<le> 120) warBucketSteps of
        Some s \<Rightarrow> s
      | None \<Rightarrow> i64 ((go_div (go_div spanMs 120) 86400000 + 1) * 86400000))"

definition miniPayload :: "(int \<Rightarrow> int \<times> int) \<Rightarrow> int list \<Rightarrow> ChartPayload" where
  "miniPayload v ts = \<lparr>cp_Type = ''bar'', cp_Labels = [], cp_LabelsMs = ts,
     cp_Datasets = [\<lparr>cd_Label = ''logs'', cd_Data = map (\<lambda>t. Some (f64s (of_int (fst (v t))))) ts, cd_Color = []\<rparr>,
       \<lparr>cd_Label = ''errors'', cd_Data = map (\<lambda>t. Some (f64s (of_int (snd (v t))))) ts, cd_Color = ''#ef4444''\<rparr>]\<rparr>"

text \<open>The chart, or none when the query fails, and the two totals; \<open>None\<close> when the loop does not end.\<close>

definition warMiniChart :: "web_env \<Rightarrow> int \<Rightarrow> int \<Rightarrow> (ChartPayload option \<times> int \<times> int) option" where
  "warMiniChart E fromMs toMs =
     (let b = warBucketMs (i64 (toMs - fromMs))
      in case scanStrict (we_volume E b fromMs toMs) of
           None \<Rightarrow> Some (None, 0, 0)
         | Some rows \<Rightarrow>
             Option.bind (gridLoop b toMs (bucketOf b fromMs)) (\<lambda>ts.
               let v = countsAt (0, 0) rows
               in Some (Some (miniPayload v ts), \<Sum>t\<leftarrow>ts. fst (v t), \<Sum>t\<leftarrow>ts. snd (v t))))"

section \<open>The log pane\<close>

definition warLogsPane :: "web_env \<Rightarrow> warRequest \<Rightarrow> LogsView" where
  "warLogsPane E wr =
     (let view = emptyView (wr_q wr) (wr_fts wr) (wr_op wr); fail = (\<lambda>e. view\<lparr>lv_Error := Some e\<rparr>)
      in if Contains (wr_q wr) snippetPlaceholderMarker then fail VPlaceholder
         else case ValidateIn (ue_sqlp E) (wr_q wr) ScopeLogs of
           Inl e \<Rightarrow> fail (VInvalid e)
         | Inr v0 \<Rightarrow>
            (case (if wr_fts wr = [] then Inr (v0, [])
                   else case CombineFTS (ue_sqlp E) (wr_op wr) v0 of Inl e \<Rightarrow> Inl e | Inr v1 \<Rightarrow> Inr (v1, [FTSMatch (wr_fts wr)])) of
               Inl e \<Rightarrow> fail VFTS
             | Inr (v1, args) \<Rightarrow>
                (case ApplyWindow (ue_sqlp E) (wr_fromMs wr) (wr_toMs wr) v1 of
                   Inl e \<Rightarrow> fail (VFilter e)
                 | Inr v \<Rightarrow>
                    (case Execute (ue_query E (ue_string E (v_stmt v)) args) of
                       (Some res, None) \<Rightarrow> (fillResults (ui_of E) res view)\<lparr>lv_HasMore := False\<rparr>
                     | (_, err) \<Rightarrow> fail (VQuery (case err of Some e \<Rightarrow> e | None \<Rightarrow> []))))))"

section \<open>The page\<close>

record WarRoomView =
  wv_FromMs :: int
  wv_ToMs :: int
  wv_Follow :: bool
  wv_Metrics :: "WarMetricRow list"
  wv_MiniChart :: "ChartPayload option"
  wv_MiniTotal :: int
  wv_MiniErrors :: int
  wv_Logs :: LogsView
  wv_MetricNames :: "string list"

definition warMetricRows :: "web_env \<Rightarrow> warRequest \<Rightarrow> WarMetricRow list option" where
  "warMetricRows E wr = those (map (\<lambda>(i, dsl). warMetricRow E i dsl (wr_fromMs wr) (wr_toMs wr)) (zip [0..<length (wr_dsls wr)] (wr_dsls wr)))"

text \<open>The view and whether only the panes are rendered; \<open>None\<close> when a loop does not end.\<close>

definition warRoomPage :: "web_env \<Rightarrow> ui_request \<Rightarrow> (WarRoomView \<times> bool) option" where
  "warRoomPage E req =
     (let wr = parseWarRequest (we_now E) req
      in case (warMetricRows E wr, warMiniChart E (wr_fromMs wr) (wr_toMs wr)) of
           (Some ms, Some (chart, n, errs)) \<Rightarrow>
             Some (\<lparr>wv_FromMs = wr_fromMs wr, wv_ToMs = wr_toMs wr, wv_Follow = wr_follow wr, wv_Metrics = ms, wv_MiniChart = chart,
               wv_MiniTotal = n, wv_MiniErrors = errs, wv_Logs = warLogsPane E wr, wv_MetricNames = shownNames E\<rparr>,
               qget req ''frag'' = ''panes'')
         | _ \<Rightarrow> None)"

definition warMiniLabel :: "WarRoomView \<Rightarrow> string" where
  "warMiniLabel v = itoa (wv_MiniTotal v) @ '' logs '' @ [CHR 0xC2, CHR 0xB7] @ '' '' @ itoa (wv_MiniErrors v) @ '' errors in window''"

section \<open>The window of a request\<close>

definition wall_clock :: "int \<Rightarrow> bool" where
  "wall_clock now \<longleftrightarrow> 2 ^ 40 \<le> now \<and> now < 2 ^ 62"

lemma warWindow_ok:
  assumes "wall_clock now" and "- (2 ^ 63) \<le> from0" "from0 < 2 ^ 63" "- (2 ^ 63) \<le> to0" "to0 < 2 ^ 63"
    and "warWindow now follow from0 to0 = (f, t)"
  shows "- (2 ^ 63) \<le> f" "0 < t" "t < 2 ^ 63" "warMinSpanMs \<le> t - f" "t - f < 2 ^ 63" "follow \<Longrightarrow> t = now"
proof -
  let ?bad = "from0 \<le> 0 \<or> to0 \<le> 0 \<or> i64 (to0 - from0) < warMinSpanMs"
  let ?span = "if ?bad then warDefaultSpanMs else i64 (to0 - from0)"
  have e: "\<not> ?bad \<Longrightarrow> i64 (to0 - from0) = to0 - from0" using assms(2-5) by (intro i64_id) auto
  have s: "warMinSpanMs \<le> ?span" "?span < 2 ^ 63"
    using i64_range [of "to0 - from0"] by (auto simp: warMinSpanMs_def warDefaultSpanMs_def)
  have n: "i64 (now - ?span) = now - ?span"
    using s assms(1) by (intro i64_id) (auto simp: wall_clock_def warMinSpanMs_def)
  have w: "(f, t) = (if ?bad \<or> follow then (now - ?span, now) else (from0, to0))"
    using assms(6) n by (auto simp: warWindow_def Let_def)
  show "- (2 ^ 63) \<le> f" "0 < t" "t < 2 ^ 63" "warMinSpanMs \<le> t - f" "t - f < 2 ^ 63" "follow \<Longrightarrow> t = now"
    using w e s assms(1-5) by (auto simp: wall_clock_def warMinSpanMs_def split: if_splits)
qed

section \<open>The chart counts every log once\<close>

text \<open>A log as the volume query sees it: its timestamp and its level.\<close>

type_synonym volume_log = "int \<times> int option"

definition isError :: "volume_log \<Rightarrow> bool" where
  "isError l = (case snd l of Some n \<Rightarrow> 4 \<le> n | None \<Rightarrow> False)"

definition inWindow :: "int \<Rightarrow> int \<Rightarrow> volume_log list \<Rightarrow> volume_log list" where
  "inWindow fromMs toMs = filter (\<lambda>l. fromMs \<le> fst l \<and> fst l \<le> toMs)"

definition volumeAgg :: "volume_log list \<Rightarrow> int \<times> int" where
  "volumeAgg g = (int (length g), int (length (filter isError g)))"

text \<open>What the statement yields over a table of logs.\<close>

definition volume_answers :: "web_env \<Rightarrow> volume_log list \<Rightarrow> bool" where
  "volume_answers E logs \<longleftrightarrow> (\<forall>b fromMs toMs. \<exists>rows. we_volume E b fromMs toMs = answers rows
     \<and> grouped (\<lambda>l. bucketOf b (fst l)) volumeAgg (inWindow fromMs toMs logs) rows)"

lemma find_NoneD: "find P xs = None \<Longrightarrow> x \<in> set xs \<Longrightarrow> \<not> P x"
  by (auto simp: find_None_iff)

lemma warBucketMs_bounds:
  assumes "0 \<le> sp" and "sp < 2 ^ 63"
  shows "0 < warBucketMs sp" "sp div warBucketMs sp \<le> 120"
proof -
  have "0 < warBucketMs sp \<and> sp div warBucketMs sp \<le> 120"
  proof (cases "find (\<lambda>s. go_div sp s \<le> 120) warBucketSteps")
    case (Some s)
    then have s: "s \<in> set warBucketSteps" "go_div sp s \<le> 120" using find_SomeD [OF Some] by auto
    then have "0 < s" by (auto simp: warBucketSteps_def)
    with s Some assms(1) show ?thesis by (simp add: warBucketMs_def go_div_nonneg)
  next
    case None
    let ?d = "sp div 120 div 86400000"
    have q: "go_div (go_div sp 120) 86400000 = ?d" using assms(1) by (simp add: go_div_nonneg)
    have "?d \<le> (2 ^ 63) div 120 div 86400000" using assms by (intro zdiv_mono1) auto
    then have r: "(?d + 1) * 86400000 < 2 ^ 63" by simp
    have d: "0 \<le> ?d" using assms(1) by simp
    have b: "warBucketMs sp = (?d + 1) * 86400000"
      using None r d unfolding warBucketMs_def by (simp add: q i64_id)
    have "sp div 120 < (?d + 1) * 86400000" using pos_mod_bound [of 86400000 "sp div 120"]
      by (simp add: minus_mod_eq_div_mult [symmetric] algebra_simps)
    then have "sp < (?d + 1) * 86400000 * 120" using pos_mod_bound [of 120 sp] by linarith
    then have "sp div ((?d + 1) * 86400000) < 120" using d by (simp add: zdiv_less_iff mult.commute)
    with b d show ?thesis by simp
  qed
  then show "0 < warBucketMs sp" "sp div warBucketMs sp \<le> 120" by auto
qed

lemma grid_length_bound:
  assumes "0 < b" and "(to - from) div b \<le> n" and "from \<le> to" and "0 \<le> n"
  shows "int (length (gridOf b to (bucketOf b from))) \<le> n + 2"
proof -
  have "to - bucketOf b from \<le> (to - from) + b" using bucketOf_bounds(1) [OF assms(1), of "from"] by linarith
  then have "(to - bucketOf b from) div b \<le> (to - from + b) div b" using assms(1) by (intro zdiv_mono1)
  also have "\<dots> = (to - from) div b + 1" using assms(1) by simp
  finally show ?thesis using assms by (simp add: gridOf_length)
qed

lemma filter_swap: "filter P (filter Q xs) = filter Q (filter P xs)"
  by (simp add: conj_commute)

lemma volume_sums:
  assumes "distinct ts" and "\<forall>l \<in> set rs. key l \<in> set ts" and "\<And>t. v t = volumeAgg (filter (\<lambda>l. key l = t) rs)"
  shows "(\<Sum>t\<leftarrow>ts. fst (v t)) = int (length rs)" "(\<Sum>t\<leftarrow>ts. snd (v t)) = int (length (filter isError rs))"
proof -
  show "(\<Sum>t\<leftarrow>ts. fst (v t)) = int (length rs)" using sum_groups [OF assms(1,2)] by (simp add: assms(3) volumeAgg_def)
  have "\<forall>l \<in> set (filter isError rs). key l \<in> set ts" using assms(2) by simp
  from sum_groups [OF assms(1) this] show "(\<Sum>t\<leftarrow>ts. snd (v t)) = int (length (filter isError rs))"
    by (simp add: assms(3) volumeAgg_def conj_commute)
qed

definition bucketLogs :: "int \<Rightarrow> int \<Rightarrow> volume_log list \<Rightarrow> volume_log list" where
  "bucketLogs b t = filter (\<lambda>l. bucketOf b (fst l) = t)"

text \<open>
  C33: the war room's volume chart is exact and bounded. For every request whose window does not end
  within one bucket of the largest \<open>int64\<close>, the loop ends with at most 122 bars; the bars are
  the buckets of the window, each showing exactly the logs and the errors of the window in its bucket, and
  the two totals are the numbers of logs and of errors in the window, so that no log is lost or counted twice.
\<close>

theorem war_chart_exact:
  assumes "volume_answers E logs" and "wall_clock (we_now E)" and "wr = parseWarRequest (we_now E) req"
    and "b = warBucketMs (wr_toMs wr - wr_fromMs wr)" and "wr_toMs wr + b < 2 ^ 63"
    and "ls = inWindow (wr_fromMs wr) (wr_toMs wr) logs"
  shows "\<exists>ts. warMiniChart E (wr_fromMs wr) (wr_toMs wr) =
      Some (Some (miniPayload (\<lambda>t. volumeAgg (bucketLogs b t ls)) ts), int (length ls), int (length (filter isError ls)))
    \<and> length ts \<le> 122 \<and> distinct ts \<and> (\<forall>l \<in> set ls. bucketOf b (fst l) \<in> set ts)"
proof -
  let ?f = "wr_fromMs wr" and ?t = "wr_toMs wr"
  have w: "warWindow (we_now E) (wr_follow wr) (ParseIntVal (qget req ''from'')) (ParseIntVal (qget req ''to'')) = (?f, ?t)"
    by (simp add: assms(3) parseWarRequest_def Let_def)
  note win = warWindow_ok [OF assms(2) _ _ _ _ w, OF ParseIntVal_range [THEN conjunct1] ParseIntVal_range [THEN conjunct2]
      ParseIntVal_range [THEN conjunct1] ParseIntVal_range [THEN conjunct2]]
  have span: "0 \<le> ?t - ?f" "?t - ?f < 2 ^ 63" using win(4,5) by (auto simp: warMinSpanMs_def)
  then have i: "i64 (?t - ?f) = ?t - ?f" by (intro i64_id) auto
  have b: "0 < b" "(?t - ?f) div b \<le> 120" using warBucketMs_bounds [OF span] assms(4) by auto
  obtain rows where rows: "we_volume E b ?f ?t = answers rows" and g: "grouped (\<lambda>l. bucketOf b (fst l)) volumeAgg ls rows"
    using assms(1,6) unfolding volume_answers_def by blast
  define ts where "ts = gridOf b ?t (bucketOf b ?f)"
  have "- (2 ^ 63) \<le> bucketOf b ?f"
  proof (cases "0 \<le> ?f")
    case True
    then show ?thesis using bucketOf_bounds(3) [OF b(1) True] by simp
  next
    case False
    then show ?thesis using bucketOf_neg [OF b(1), of ?f] pos_mod_sign [OF b(1), of "- ?f"] win(1) by linarith
  qed
  then have loop: "gridLoop b ?t (bucketOf b ?f) = Some ts" unfolding ts_def using gridLoop_exact b(1) assms(5) by blast
  have v: "countsAt (0, 0) rows = (\<lambda>t. volumeAgg (bucketLogs b t ls))"
    using countsAt_grouped [OF g] by (auto simp: volumeAgg_def bucketLogs_def)
  have d: "distinct ts" unfolding ts_def by (rule gridOf_distinct [OF b(1)])
  have c: "\<forall>l \<in> set ls. bucketOf b (fst l) \<in> set ts"
    unfolding ts_def assms(6) inWindow_def using bucket_on_grid [OF b(1)] win(2) by auto
  have "length ts \<le> 122" using grid_length_bound [OF b] span by (simp add: ts_def)
  moreover have "warMiniChart E ?f ?t = Some (Some (miniPayload (\<lambda>t. volumeAgg (bucketLogs b t ls)) ts), int (length ls), int (length (filter isError ls)))"
    using volume_sums [OF d c, of "\<lambda>t. volumeAgg (bucketLogs b t ls)"]
    by (simp add: warMiniChart_def i assms(4) [symmetric] rows loop v bucketLogs_def Let_def)
  ultimately show ?thesis using d c by blast
qed

text \<open>
  A request whose end does not fit into an \<open>int64\<close> reads as the largest one, and the loop of the
  chart then never ends, whatever the query returned.
\<close>

lemma war_chart_hangs:
  assumes "scanStrict (we_volume E (warBucketMs (i64 (2 ^ 63 - 1 - from))) from (2 ^ 63 - 1)) = Some rows" and "0 \<le> from" and "from < 2 ^ 63"
  shows "warMiniChart E from (2 ^ 63 - 1) = None"
proof -
  let ?s = "2 ^ 63 - 1 - from"
  have i: "i64 ?s = ?s" using assms by (intro i64_id) auto
  have b: "0 < warBucketMs ?s" using warBucketMs_bounds [of ?s] assms by auto
  have "bucketOf (warBucketMs ?s) from < 2 ^ 63" using bucketOf_bounds(4) [OF b assms(2)] assms(3) by linarith
  then show ?thesis using assms(1) gridLoop_diverges i unfolding warMiniChart_def by (simp add: Let_def)
qed

definition hang_request :: ui_request where
  "hang_request = \<lparr>rq_query = (\<lambda>k. if k = ''from'' then [''1''] else if k = ''to'' then [''99999999999999999999''] else []),
     rq_form = None, rq_param = (\<lambda>_. []), rq_header = (\<lambda>_. []), rq_cookie = None\<rparr>"

lemma war_room_hangs: "warRoomPage web_sample hang_request = None"
proof -
  have f: "ParseIntVal ''1'' = 1" "ParseIntVal ''99999999999999999999'' = 2 ^ 63 - 1"
    by (simp_all add: ParseIntVal_def digits_val_def is_digit_def byte_def)
  have "i64 (2 ^ 63 - 2) = 2 ^ 63 - 2" by (rule i64_id) simp_all
  then have w: "wr_fromMs (parseWarRequest (we_now web_sample) hang_request) = 1" "wr_toMs (parseWarRequest (we_now web_sample) hang_request) = 2 ^ 63 - 1"
    using f by (simp_all add: parseWarRequest_def hang_request_def qget_def warWindow_def warMinSpanMs_def Let_def)
  have "scanStrict (we_volume web_sample b 1 (2 ^ 63 - 1)) = Some []" for b by (simp add: web_sample_def)
  then have "warMiniChart web_sample 1 (2 ^ 63 - 1) = None" by (rule war_chart_hangs) simp_all
  then show ?thesis by (simp add: warRoomPage_def w Let_def split: option.split del: One_nat_def)
qed

definition volume_sample :: "volume_log list" where
  "volume_sample = [(1699999990000, Some 4), (1699999991000, None)]"

definition war_sample :: web_env where
  "war_sample = web_sample\<lparr>we_volume := (\<lambda>b f t. answers (groupRows (\<lambda>l. bucketOf b (fst l)) volumeAgg (inWindow f t volume_sample)))\<rparr>"

definition war_request_sample :: ui_request where
  "war_request_sample = \<lparr>rq_query = (\<lambda>_. []), rq_form = None, rq_param = (\<lambda>_. []), rq_header = (\<lambda>_. []), rq_cookie = None\<rparr>"

theorem war_chart_exact_witness:
  "\<exists>p. warMiniChart war_sample 1699996400000 1700000000000 = Some (Some p, 2, 1)"
proof -
  have a: "volume_answers war_sample volume_sample"
    unfolding volume_answers_def war_sample_def using grouped_groupRows by auto
  have n: "we_now war_sample = 1700000000000" by (simp add: war_sample_def web_sample_def)
  have "i64 (1700000000000 - 3600000) = 1699996400000" by (subst i64_id) simp_all
  then have w: "wr_fromMs (parseWarRequest 1700000000000 war_request_sample) = 1699996400000"
      "wr_toMs (parseWarRequest 1700000000000 war_request_sample) = 1700000000000"
    by (simp_all add: parseWarRequest_def war_request_sample_def qget_def warWindow_def ParseIntVal_def warDefaultSpanMs_def Let_def)
  have b: "warBucketMs 3600000 = 30000" by (simp add: warBucketMs_def warBucketSteps_def go_div_nonneg)
  have l: "inWindow 1699996400000 1700000000000 volume_sample = volume_sample" by (simp add: inWindow_def volume_sample_def)
  have "length volume_sample = 2" "length (filter isError volume_sample) = 1" by (simp_all add: volume_sample_def isError_def)
  then show ?thesis
    using war_chart_exact [OF a _ refl refl _ refl, of war_request_sample] by (auto simp: n w b l wall_clock_def)
qed

end
