(* ===== verification/Home_Page.thy ===== *)
theory Home_Page
  imports War_Room
begin

text \<open>
  The cards of the start page, \<open>ui/home.go\<close> with \<open>ui/templates/home_model.go\<close>. Each card runs a
  fixed query; a failure of any kind gives the same fragment, which the page retries.
\<close>

definition volumeBucketMs :: int where "volumeBucketMs = 5 * 60 * 1000"

text \<open>A card, or the fragment of \<open>homeFragmentError\<close>.\<close>

datatype 'v card = Card 'v | HomeFragmentError

record VolumePoint =
  vp_BucketMs :: int
  vp_Count :: int

record HomeVolumeView =
  hv_Points :: "VolumePoint list"
  hv_Max :: int
  hv_Total :: int

definition homePageVolumeSegment :: "web_env \<Rightarrow> HomeVolumeView card option" where
  "homePageVolumeSegment E =
     (let nowMs = we_now E; fromMs = i64 (nowMs - 60 * 60 * 1000)
      in case scanStrict (we_home E volumeBucketMs fromMs) of
           None \<Rightarrow> Some HomeFragmentError
         | Some rows \<Rightarrow>
             Option.bind (gridLoop volumeBucketMs nowMs (bucketOf volumeBucketMs fromMs)) (\<lambda>ts.
               let c = countsAt 0 rows
               in Some (Card \<lparr>hv_Points = map (\<lambda>t. \<lparr>vp_BucketMs = t, vp_Count = c t\<rparr>) ts,
                    hv_Max = foldl (\<lambda>m t. if c t > m then c t else m) 0 ts, hv_Total = (\<Sum>t\<leftarrow>ts. c t)\<rparr>)))"

text \<open>The four cards that list rows; their queries start at a time before now.\<close>

definition dayMs :: int where "dayMs = 24 * 60 * 60 * 1000"

definition listCard :: "'r cursor \<Rightarrow> 'r list card" where
  "listCard c = (case scanStrict c of None \<Rightarrow> HomeFragmentError | Some rs \<Rightarrow> Card rs)"

record HomeErrorRow =
  he_Service :: string
  he_Count :: int

definition homePageErrorsSegment :: "(int \<Rightarrow> HomeErrorRow cursor) \<Rightarrow> int \<Rightarrow> HomeErrorRow list card" where
  "homePageErrorsSegment errorsSince now = listCard (errorsSince (i64 (now - dayMs)))"

record HomeServiceRow =
  hs_Service :: string
  hs_LastSeenMs :: int
  hs_Count :: int

definition homePageServicesSegment :: "(int \<Rightarrow> HomeServiceRow cursor) \<Rightarrow> int \<Rightarrow> HomeServiceRow list card" where
  "homePageServicesSegment logServicesSince now = listCard (logServicesSince (i64 (now - 7 * dayMs)))"

definition homePageMetricsServicesSegment :: "(int \<Rightarrow> HomeServiceRow cursor) \<Rightarrow> int \<Rightarrow> HomeServiceRow list card" where
  "homePageMetricsServicesSegment metricServicesSince now = listCard (metricServicesSince (i64 (now - 7 * dayMs)))"

record HomeMetricsView =
  hm_FailingTargets :: "(string \<times> string) list"
  hm_LastSeenMs :: int
  hm_Points24h :: int

text \<open>\<open>lastTs\<close> is the scan of a nullable maximum, \<open>pointsSince\<close> that of a count; \<open>None\<close> is a failure.\<close>

definition homePageMetricsSegment ::
    "(string \<times> string) cursor \<Rightarrow> int option option \<Rightarrow> (int \<Rightarrow> int option) \<Rightarrow> int \<Rightarrow> HomeMetricsView card" where
  "homePageMetricsSegment failing lastTs pointsSince now =
     (case scanStrict failing of
        None \<Rightarrow> HomeFragmentError
      | Some ts \<Rightarrow>
         (case lastTs of
            None \<Rightarrow> HomeFragmentError
          | Some l \<Rightarrow>
             (case pointsSince (i64 (now - dayMs)) of
                None \<Rightarrow> HomeFragmentError
              | Some n \<Rightarrow> Card \<lparr>hm_FailingTargets = ts, hm_LastSeenMs = (case l of None \<Rightarrow> 0 | Some x \<Rightarrow> x), hm_Points24h = n\<rparr>)))"

section \<open>Links and bars\<close>

definition sqlString :: "string \<Rightarrow> string" where
  "sqlString v = [squote] @ ReplaceAll1 v squote [squote, squote] @ [squote]"

text \<open>The queries behind the links of a service; \<open>url.Values.Encode\<close> only escapes them.\<close>

definition serviceLogsQuery :: "string \<Rightarrow> string" where
  "serviceLogsQuery service = ''SELECT * FROM logs WHERE service = '' @ sqlString service @ '' ORDER BY timestamp DESC LIMIT 100''"

definition serviceMetricsQuery :: "string \<Rightarrow> string" where
  "serviceMetricsQuery service =
     ''SELECT name, COUNT(*) AS points, MAX(timestamp) AS last_seen FROM metrics WHERE service = '' @ sqlString service
     @ '' AND timestamp > (unixepoch() - 86400) * 1000 GROUP BY name ORDER BY last_seen DESC LIMIT 100''"

definition serviceErrorsQuery :: "string \<Rightarrow> string" where
  "serviceErrorsQuery service =
     ''SELECT * FROM logs WHERE service = '' @ sqlString service
     @ '' AND level >= 4 AND timestamp > unixepoch() * 1000 - 86400000 ORDER BY timestamp DESC LIMIT 100''"

text \<open>The height in per cent, in binary64 arithmetic.\<close>

definition barHeight :: "int \<Rightarrow> int \<Rightarrow> string" where
  "barHeight n mx =
     (if n = 0 \<or> mx = 0 then ''height: 2px''
      else let p = f64s (f64s (f64s (of_int n) / f64s (of_int mx)) * 100); pct = (if p < 4 then 4 else p)
           in ''height: '' @ FormatF pct 0 @ ''%'')"

section \<open>The volume card\<close>

text \<open>The statement counts the logs after the start of the last hour, by bucket.\<close>

definition home_answers :: "web_env \<Rightarrow> int list \<Rightarrow> bool" where
  "home_answers E logs \<longleftrightarrow> (\<forall>b fromMs. \<exists>rows. we_home E b fromMs = answers rows
     \<and> grouped (bucketOf b) (\<lambda>g. int (length g)) (filter (\<lambda>t. fromMs < t) logs) rows)"

lemma foldl_max: "foldl (\<lambda>m t. if c t > m then c t else m) m0 ts = Max (insert m0 (c ` set ts))" for c :: "'a \<Rightarrow> int"
proof (induction ts arbitrary: m0)
  case (Cons t ts)
  have "foldl (\<lambda>m t. if c t > m then c t else m) m0 (t # ts) = Max (insert (max m0 (c t)) (c ` set ts))"
    using Cons.IH [of "max m0 (c t)"] by (auto simp: max_def)
  also have "\<dots> = Max (insert m0 (c ` set (t # ts)))"
    by (cases "ts = []") (simp_all add: insert_commute max.assoc)
  finally show ?case .
qed simp

text \<open>
  The volume card of the start page is exact. It has at most 14 bars that cover the last hour; each
  bar counts the logs of its five minutes, the total is the sum of the bars, and no bar exceeds the maximum that
  scales them.
\<close>


theorem home_volume_exact:
  assumes "home_answers E logs" and "wall_clock (we_now E)"
  shows "\<exists>view. homePageVolumeSegment E = Some (Card view) \<and> length (hv_Points view) \<le> 14
    \<and> (\<forall>p \<in> set (hv_Points view). vp_Count p \<le> hv_Max view
        \<and> vp_Count p = int (length (filter (\<lambda>t. bucketOf volumeBucketMs t = vp_BucketMs p) (filter (\<lambda>t. we_now E - 3600000 < t) logs))))
    \<and> hv_Total view = int (length (filter (\<lambda>t. we_now E - 3600000 < t \<and> bucketOf volumeBucketMs t \<le> we_now E) logs))"
proof -
  let ?n = "we_now E" and ?b = volumeBucketMs
  let ?f = "?n - 3600000"
  define rs where "rs = filter (\<lambda>t. ?f < t) logs"
  define ts where "ts = gridOf ?b ?n (bucketOf ?b ?f)"
  have b: "0 < ?b" "3600000 div ?b = 12" by (simp_all add: volumeBucketMs_def)
  have n: "2 ^ 40 \<le> ?n" "?n < 2 ^ 62" using assms(2) by (simp_all add: wall_clock_def)
  have i: "i64 (?n - 3600000) = ?f" using n by (intro i64_id) auto
  obtain rows where rows: "we_home E ?b ?f = answers rows" and g: "grouped (bucketOf ?b) (\<lambda>g. int (length g)) rs rows"
    using assms(1) unfolding home_answers_def rs_def by blast
  have c: "countsAt 0 rows = (\<lambda>t. int (length (filter (\<lambda>r. bucketOf ?b r = t) rs)))"
    using countsAt_grouped [OF g] by auto
  have "0 \<le> bucketOf ?b ?f" using bucketOf_bounds(3) [OF b(1)] n by simp
  then have loop: "gridLoop ?b ?n (bucketOf ?b ?f) = Some ts"
    unfolding ts_def using n by (intro gridLoop_exact [OF b(1)]) (simp_all add: volumeBucketMs_def)
  have len: "length ts \<le> 14" using grid_length_bound [OF b(1), of ?n ?f 12] b(2) by (simp add: ts_def)
  let ?rs = "filter (\<lambda>t. bucketOf ?b t \<le> ?n) rs"
  have t: "t \<le> ?n" if "t \<in> set ts" for t using that by (simp add: ts_def gridOf_set [OF b(1)])
  have "\<forall>r \<in> set ?rs. bucketOf ?b r \<in> set ts"
  proof
    fix r assume "r \<in> set ?rs"
    then have "?f \<le> r" "bucketOf ?b r \<le> ?n" by (auto simp: rs_def)
    moreover have "?b dvd bucketOf ?b r - bucketOf ?b ?f" by (rule dvd_diff) simp_all
    ultimately show "bucketOf ?b r \<in> set ts" using bucketOf_mono [OF b(1)] by (simp add: ts_def gridOf_set [OF b(1)])
  qed
  then have "(\<Sum>t\<leftarrow>ts. int (length (filter (\<lambda>r. bucketOf ?b r = t) ?rs))) = int (length ?rs)"
    using gridOf_distinct [OF b(1)] by (intro sum_groups) (auto simp: ts_def)
  moreover have "filter (\<lambda>r. bucketOf ?b r = t) ?rs = filter (\<lambda>r. bucketOf ?b r = t) rs" if "t \<in> set ts" for t
    using t [OF that] by (auto intro!: filter_cong)
  ultimately have s: "(\<Sum>t\<leftarrow>ts. countsAt 0 rows t) = int (length ?rs)" by (simp add: c cong: map_cong)
  have "?rs = filter (\<lambda>t. ?f < t \<and> bucketOf ?b t \<le> ?n) logs" by (simp add: rs_def conj_commute)
  with s loop len show ?thesis
    by (auto simp: homePageVolumeSegment_def Let_def i rows foldl_max c rs_def [symmetric])
qed

definition home_sample :: web_env where
  "home_sample = web_sample\<lparr>we_home := (\<lambda>b f. answers (groupRows (bucketOf b) (\<lambda>g. int (length g)) (filter (\<lambda>t. f < t) [1699999990000, 5])))\<rparr>"

theorem home_volume_exact_witness: "\<exists>view. homePageVolumeSegment home_sample = Some (Card view) \<and> hv_Total view = 1"
proof -
  have a: "home_answers home_sample [1699999990000, 5]"
    unfolding home_answers_def home_sample_def using grouped_groupRows by auto
  have n: "we_now home_sample = 1700000000000" by (simp add: home_sample_def web_sample_def)
  have "bucketOf volumeBucketMs 1699999990000 \<le> 1700000000000" using bucketOf_bounds(4) [of volumeBucketMs 1699999990000] by (simp add: volumeBucketMs_def)
  then show ?thesis using home_volume_exact [OF a] by (auto simp: n wall_clock_def)
qed

text \<open>A service name is the one literal of its links, whatever it contains.\<close>

lemma one_literal:
  assumes "plain pre" and "plain post"
  shows "literals (pre @ sqlString v @ post) = Some [v]"
proof -
  have "unquoted squote post" using assms(2) by (cases post) auto
  then have "sql_lex (sqlString v @ post) = map_option (Cons (TLit v)) (sql_lex post)"
    using sql_lex_lit [of post v] by (simp add: sqlString_def)
  moreover have "sql_lex post = Some (map TChar post)"
    using sql_lex_plain [OF assms(2), of "[]"] by (simp add: sql_lex_Nil)
  moreover have "List.map_filter (\<lambda>t. case t of TLit s \<Rightarrow> Some s | _ \<Rightarrow> None) (map TChar p) = []" for p
    by (induction p) (simp_all add: List.map_filter_simps)
  ultimately show ?thesis
    by (simp add: literals_def sql_lex_plain [OF assms(1)] List.map_filter_def)
qed

lemma service_links_literal:
  "literals (serviceLogsQuery v) = Some [v]" "literals (serviceMetricsQuery v) = Some [v]" "literals (serviceErrorsQuery v) = Some [v]"
  unfolding serviceLogsQuery_def serviceMetricsQuery_def serviceErrorsQuery_def by (rule one_literal; simp)+

end
