(* ===== verification/Log_Details.thy ===== *)
theory Log_Details
  imports Explorer
begin

text \<open>
  The rest of \<open>ui/logs.go\<close>: the detail of one log with its flattened JSON, the export, and the
  text of a parse error; with the helpers of \<open>ui/templates/logs_model.go\<close>. \<open>encoding/json\<close>
  is a parameter that yields the first JSON value of a text with its objects in document order.
\<close>

section \<open>Positions in parse errors\<close>

text \<open>\<open>strings.ReplaceAll\<close> with a pattern that is not empty.\<close>

function ReplaceAll :: "string \<Rightarrow> string \<Rightarrow> string \<Rightarrow> string" where
  "ReplaceAll s old new =
     (case s of
        [] \<Rightarrow> []
      | c # t \<Rightarrow> if old \<noteq> [] \<and> HasPrefix s old then new @ ReplaceAll (drop (length old) s) old new else c # ReplaceAll t old new)"
  by pat_completeness auto
termination
  by (relation "measure (\<lambda>(s, old, new). length s)") auto

declare ReplaceAll.simps [simp del]

text \<open>\<^verbatim>\<open>(\d+):(\d+): (.+)$\<close> at one position: a dot does not match a newline.\<close>

definition posAt :: "string \<Rightarrow> (string \<times> string \<times> string) option" where
  "posAt s =
     (let l = takeWhile is_digit s; s1 = drop (length l) s
      in if l = [] \<or> \<not> HasPrefix s1 '':'' then None
         else let c = takeWhile is_digit (drop 1 s1); s2 = drop (length c) (drop 1 s1); m = drop 2 s2
              in if c = [] \<or> \<not> HasPrefix s2 '': '' \<or> m = [] \<or> CHR 0x0A \<in> set m then None
                 else Some (l, c, m))"

fun sqlErrPosRe :: "string \<Rightarrow> (string \<times> string \<times> string) option" where
  "sqlErrPosRe [] = None"
| "sqlErrPosRe (c # s) = (case posAt (c # s) of Some r \<Rightarrow> Some r | None \<Rightarrow> sqlErrPosRe s)"

definition sqlErrTranslations :: "(string \<times> string) list" where
  "sqlErrTranslations =
     [(''expected semicolon or EOF, found'', ''the query should end here, but found''),
      (''expected expression, found'', ''an expression is missing; found'')]"

definition sqlErrorPosition :: "string \<Rightarrow> (int \<times> int \<times> string) option" where
  "sqlErrorPosition err =
     (case sqlErrPosRe err of
        None \<Rightarrow> None
      | Some (l, c, m) \<Rightarrow>
          Some (ParseIntVal l, ParseIntVal c, foldl (\<lambda>m (old, new). ReplaceAll m old new) m sqlErrTranslations))"

definition humanizeSQLError :: "string \<Rightarrow> string" where
  "humanizeSQLError err =
     (case sqlErrorPosition err of
        Some (l, c, m) \<Rightarrow> ''Line '' @ itoa l @ '', col '' @ itoa c @ '': '' @ m
      | None \<Rightarrow> err)"

section \<open>The fields of a JSON log\<close>

text \<open>A value of another kind than object or string is kept as its compacted text.\<close>

datatype jvalue = JObject "(string \<times> jvalue) list" | JString string | JCompact string

record DetailField =
  df_Key :: string
  df_Value :: string

definition dotted :: "string \<Rightarrow> string \<Rightarrow> string" where
  "dotted pre key = (if pre \<noteq> [] then pre @ ''.'' @ key else key)"

fun flattenObjectBody :: "string \<Rightarrow> (string \<times> jvalue) list \<Rightarrow> DetailField list" where
  "flattenObjectBody pre [] = []"
| "flattenObjectBody pre ((k, JObject m) # kvs) = flattenObjectBody (dotted pre k) m @ flattenObjectBody pre kvs"
| "flattenObjectBody pre ((k, JString s) # kvs) = \<lparr>df_Key = dotted pre k, df_Value = s\<rparr> # flattenObjectBody pre kvs"
| "flattenObjectBody pre ((k, JCompact s) # kvs) = \<lparr>df_Key = dotted pre k, df_Value = s\<rparr> # flattenObjectBody pre kvs"

definition flattenJSONObject :: "(string \<Rightarrow> jvalue option) \<Rightarrow> string \<Rightarrow> DetailField list option" where
  "flattenJSONObject json s =
     (case json s of
        Some (JObject m) \<Rightarrow> let out = flattenObjectBody [] m in if out = [] then None else Some out
      | _ \<Rightarrow> None)"

text \<open>\<open>indent\<close> is decoding and encoding again with indentation, when both succeed.\<close>

definition prettyJSON :: "(string \<Rightarrow> string option) \<Rightarrow> string \<Rightarrow> string" where
  "prettyJSON indent s = (case indent s of Some p \<Rightarrow> p | None \<Rightarrow> s)"

section \<open>The detail page\<close>

record LogDetail =
  ld_ID :: int
  ld_Ts :: int
  ld_IngestedAt :: int
  ld_Level :: "int option"
  ld_Service :: string
  ld_Host :: string
  ld_Raw :: string
  ld_Parsed :: string
  ld_Fields :: "DetailField list"
  ld_RawIsParsed :: bool

text \<open>The scanned row of one log; the message column is read and not shown.\<close>

record detail_row =
  dr_ts :: int
  dr_ingested :: int
  dr_level :: cell
  dr_service :: string
  dr_host :: string
  dr_parsed :: cell
  dr_raw :: string

datatype detail_form = DetailBlock | DetailRow | DetailPage

definition detailOf :: "web_env \<Rightarrow> (string \<Rightarrow> jvalue option) \<Rightarrow> (string \<Rightarrow> string option) \<Rightarrow> int \<Rightarrow> detail_row \<Rightarrow> LogDetail" where
  "detailOf E json indent i r =
     (let ps = cellString (ui_of E) (dr_parsed r);
          d = \<lparr>ld_ID = i, ld_Ts = dr_ts r, ld_IngestedAt = dr_ingested r,
             ld_Level = (if dr_level r = CNull then None else Some (asInt64 (ui_of E) (dr_level r))),
             ld_Service = dr_service r, ld_Host = dr_host r, ld_Raw = dr_raw r, ld_Parsed = [], ld_Fields = [], ld_RawIsParsed = False\<rparr>
      in if dr_parsed r = CNull then d
         else let d1 = d\<lparr>ld_RawIsParsed := (ps = dr_raw r)\<rparr>
              in case flattenJSONObject json ps of
                   Some fs \<Rightarrow> d1\<lparr>ld_Fields := fs\<rparr>
                 | None \<Rightarrow> d1\<lparr>ld_Parsed := prettyJSON indent ps\<rparr>)"

definition logDetailsPage ::
    "web_env \<Rightarrow> (string \<Rightarrow> jvalue option) \<Rightarrow> (string \<Rightarrow> string option) \<Rightarrow> (int \<Rightarrow> detail_row option) \<Rightarrow> ui_request \<Rightarrow> (LogDetail \<times> detail_form) reply" where
  "logDetailsPage E json indent rowOf req =
     (case ParseInt (rq_param req ''id'') of
        None \<Rightarrow> Bare 400
      | Some i \<Rightarrow>
         (case rowOf i of
            None \<Rightarrow> Bare 404
          | Some r \<Rightarrow>
              Render 200 (detailOf E json indent i r,
                if rq_header req ''HX-Request'' = ''true'' \<and> rq_header req ''HX-History-Restore-Request'' \<noteq> ''true''
                then (if qget req ''frag'' = ''block'' then DetailBlock else DetailRow) else DetailPage)))"

section \<open>Export\<close>

definition exportLogs :: "web_env \<Rightarrow> ui_request \<Rightarrow> (export_error, export) result" where
  "exportLogs E req =
     (let lr = parseLogsRequest (qget req)
      in if Contains (lq_Q lr) snippetPlaceholderMarker then Err (XPlaceholder (placeholderErr (lq_Q lr)))
         else case ValidateIn (ue_sqlp E) (lq_Q lr) ScopeLogs of
           Inl e \<Rightarrow> Err (XInvalid e)
         | Inr v \<Rightarrow>
             if lq_FTS lr = [] then runExport E (qget req ''format'') v []
             else (case CombineFTS (ue_sqlp E) (lq_Op lr) v of
                     Inl _ \<Rightarrow> runExport E (qget req ''format'') v []
                   | Inr v' \<Rightarrow> runExport E (qget req ''format'') v' [FTSMatch (lq_FTS lr)]))"

section \<open>Labels of the templates\<close>

definition uiLevelNames :: "(int \<times> string) list" where
  "uiLevelNames = [(0, ''TRACE''), (1, ''DEBUG''), (2, ''INFO''), (3, ''WARN''), (4, ''ERROR''), (5, ''FATAL'')]"

definition levelName :: "int option \<Rightarrow> string" where
  "levelName l = (case l of None \<Rightarrow> ''-'' | Some n \<Rightarrow> (case map_of uiLevelNames n of Some s \<Rightarrow> s | None \<Rightarrow> itoa n))"

definition levelValue :: "int option \<Rightarrow> string" where
  "levelValue l = (case l of None \<Rightarrow> [] | Some n \<Rightarrow> itoa n)"

definition rowsLabel :: "int \<Rightarrow> bool \<Rightarrow> string" where
  "rowsLabel n truncated =
     (if n = 1 then ''1 row'' else itoa n @ '' rows'')
     @ (if truncated then '' (capped at 10000; narrow the query for the rest)'' else [])"

definition splitFirstLine :: "string \<Rightarrow> string \<times> string \<times> nat" where
  "splitFirstLine s0 =
     (let s = TrimRightSet s0 [CHR 0x0D, CHR 0x0A]
      in case Cut1 s (CHR 0x0A) of
           (first, rest, found) \<Rightarrow> if \<not> found then (s, [], 0) else (first, rest, length (filter (\<lambda>c. c = CHR 0x0A) rest) + 1))"

definition moreLinesLabel :: "nat \<Rightarrow> string" where
  "moreLinesLabel n = (if n = 1 then ''1 more line'' else itoa (int n) @ '' more lines'')"

section \<open>Properties\<close>

text \<open>The leaves of an object with their paths, in document order.\<close>

fun leaves :: "string list \<Rightarrow> (string \<times> jvalue) list \<Rightarrow> (string list \<times> string) list" where
  "leaves path [] = []"
| "leaves path ((k, JObject m) # kvs) = leaves (path @ [k]) m @ leaves path kvs"
| "leaves path ((k, JString s) # kvs) = (path @ [k], s) # leaves path kvs"
| "leaves path ((k, JCompact s) # kvs) = (path @ [k], s) # leaves path kvs"

text \<open>A path without an empty key at its start reads as the dotted key.\<close>

lemma Join_snoc: "ps \<noteq> [] \<Longrightarrow> Join (ps @ [k]) sep = Join ps sep @ sep @ k"
  by (induction ps sep rule: Join.induct) auto

lemma Join_nonempty: "ps \<noteq> [] \<Longrightarrow> [] \<notin> set ps \<Longrightarrow> Join ps ''.'' \<noteq> []"
  by (induction ps "''.''" rule: Join.induct) auto

lemma dotted_Join:
  assumes "[] \<notin> set ps"
  shows "dotted (Join ps ''.'') k = Join (ps @ [k]) ''.''"
  using Join_snoc [of ps k "''.''"] Join_nonempty [of ps] assms by (cases "ps = []") (auto simp: dotted_def)

fun keys_ok :: "(string \<times> jvalue) list \<Rightarrow> bool" where
  "keys_ok [] = True"
| "keys_ok ((k, JObject m) # kvs) = (k \<noteq> [] \<and> keys_ok m \<and> keys_ok kvs)"
| "keys_ok ((k, v) # kvs) = keys_ok kvs"

text \<open>
  The detail view shows every leaf of a JSON log once, in document order, under its dotted path, for
  every nesting of objects.
\<close>

theorem flatten_shows_leaves:
  assumes "keys_ok m"
  shows "flattenObjectBody [] m = map (\<lambda>(path, v). \<lparr>df_Key = Join path ''.'', df_Value = v\<rparr>) (leaves [] m)"
proof -
  have "[] \<notin> set ps \<Longrightarrow> keys_ok m \<Longrightarrow>
      flattenObjectBody (Join ps ''.'') m = map (\<lambda>(path, v). \<lparr>df_Key = Join path ''.'', df_Value = v\<rparr>) (leaves ps m)" for ps
    by (induction ps m rule: leaves.induct) (auto simp: dotted_Join)
  from this [of "[]"] assms show ?thesis by simp
qed

theorem flatten_shows_leaves_witness:
  "flattenObjectBody [] [(''a'', JObject [(''b'', JString ''x'')]), (''c'', JCompact ''[1]'')]
   = [\<lparr>df_Key = ''a.b'', df_Value = ''x''\<rparr>, \<lparr>df_Key = ''c'', df_Value = ''[1]''\<rparr>]"
  using flatten_shows_leaves [of "[(''a'', JObject [(''b'', JString ''x'')]), (''c'', JCompact ''[1]'')]"] by simp

text \<open>
  No cell of a CSV export is run as a formula: a cell that starts with a character that a
  spreadsheet reads as the start of a formula is a number.
\<close>

definition cell_safe :: "(string \<Rightarrow> bool) \<Rightarrow> string \<Rightarrow> bool" where
  "cell_safe parse_float s \<longleftrightarrow> s = [] \<or> hd s \<notin> set formulaStart \<or> parse_float s"

lemma csvSafe_safe: "cell_safe pf (csvSafe pf s)"
  by (auto simp: cell_safe_def csvSafe_def formulaStart_def split: list.split)

lemma runExport_ok:
  assumes "runExport E format v args = Ok x"
  shows "\<exists>res. x = exportBody E format res"
  using assms by (cases "Execute (ue_query E (ue_string E (v_stmt v)) args)") (auto simp: runExport_def split: option.splits)

theorem export_cells_safe:
  assumes "exportLogs E req = Ok (ExportCSV rows) \<or> exportMetrics E req = Ok (ExportCSV rows)"
  shows "\<forall>row \<in> set (tl rows). \<forall>c \<in> set row. cell_safe (we_parseFloat E) c"
proof -
  have "\<exists>format v args. runExport E format v args = Ok (ExportCSV rows)"
    using assms by (auto simp: exportLogs_def exportMetrics_def Let_def split: if_splits sum.splits)
  then obtain format res where "ExportCSV rows = exportBody E format res" using runExport_ok by blast
  then show ?thesis using csvSafe_safe by (auto simp: exportBody_def split: if_splits)
qed

text \<open>An export of an aggregation ignores the search text that the page refuses to combine.\<close>

lemma export_search_dropped:
  assumes "ValidateIn (ue_sqlp E) (lq_Q (parseLogsRequest (qget req))) ScopeLogs = Ok v" and "v_Shape v = ShapeAggregation"
    and "\<not> Contains (lq_Q (parseLogsRequest (qget req))) snippetPlaceholderMarker"
  shows "exportLogs E req = runExport E (qget req ''format'') v []"
  using assms by (simp add: exportLogs_def CombineFTS_def Let_def)

end
