(* ===== verification/Sse.thy ===== *)
theory Sse
  imports Go_Prelude
begin

text \<open>
  The framing of server-sent events, \<open>sseWriter\<close> of \<open>ui/stream.go\<close>, and a reference
  decoder: how a browser reads an event stream. The decoder ends a line at a carriage return too, which is
  what the writer has to defend against.
\<close>

section \<open>The writer\<close>

record sseWriter =
  sw_out :: string
  sw_pending :: nat
  sw_flushed :: nat

definition newWriter :: sseWriter where
  "newWriter = \<lparr>sw_out = [], sw_pending = 0, sw_flushed = 0\<rparr>"

abbreviation cr :: char where "cr \<equiv> CHR 0x0D"
abbreviation lf :: char where "lf \<equiv> CHR 0x0A"

definition noCR :: "string \<Rightarrow> string" where
  "noCR s = ReplaceAll1 s cr []"

definition eventText :: "string \<Rightarrow> string \<Rightarrow> string" where
  "eventText name data =
     ''event: '' @ name @ [lf] @ concat (map (\<lambda>line. ''data: '' @ line @ [lf]) (Split1 (noCR data) lf)) @ [lf]"

definition sse_event :: "string \<Rightarrow> string \<Rightarrow> sseWriter \<Rightarrow> sseWriter" where
  "sse_event name data s = s\<lparr>sw_out := sw_out s @ eventText name data, sw_pending := sw_pending s + 1\<rparr>"

definition sse_comment :: "string \<Rightarrow> sseWriter \<Rightarrow> sseWriter" where
  "sse_comment text s = s\<lparr>sw_out := sw_out s @ '': '' @ text @ [lf, lf], sw_pending := sw_pending s + 1\<rparr>"

definition sse_flush :: "sseWriter \<Rightarrow> sseWriter" where
  "sse_flush s = (if sw_pending s > 0 then s\<lparr>sw_flushed := length (sw_out s), sw_pending := 0\<rparr> else s)"

section \<open>The decoder\<close>

fun newlines :: "string \<Rightarrow> string" where
  "newlines [] = []"
| "newlines [c] = [if c = cr then lf else c]"
| "newlines (c # d # s) =
     (if c = cr \<and> d = lf then lf # newlines s else (if c = cr then lf else c) # newlines (d # s))"

text \<open>A line's field and value; a comment has the empty field.\<close>

definition fieldOf :: "string \<Rightarrow> string \<times> string" where
  "fieldOf l = (case Cut1 l (CHR '':'') of (f, v, ok) \<Rightarrow> (f, if HasPrefix v '' '' then tl v else v))"

text \<open>Dispatch at an empty line, unless no data came; the event type and the data are reset.\<close>

fun dispatch :: "string \<Rightarrow> string \<Rightarrow> string list \<Rightarrow> (string \<times> string) list" where
  "dispatch ty buf [] = []"
| "dispatch ty buf (l # ls) =
     (if l = [] then (if buf = [] then dispatch [] [] ls else (if ty = [] then ''message'' else ty, butlast buf) # dispatch [] [] ls)
      else case fieldOf l of
             (f, v) \<Rightarrow> if f = ''event'' then dispatch v buf ls
                     else if f = ''data'' then dispatch ty (buf @ v @ [lf]) ls
                     else dispatch ty buf ls)"

text \<open>What follows the last line end is an incomplete line.\<close>

definition decode :: "string \<Rightarrow> (string \<times> string) list" where
  "decode s = dispatch [] [] (butlast (Split1 (newlines s) lf))"

section \<open>Decoding what was written\<close>

datatype frame = FEvent string string | FComment string

fun frameText :: "frame \<Rightarrow> string" where
  "frameText (FEvent name data) = eventText name data"
| "frameText (FComment text) = '': '' @ text @ [lf, lf]"

definition line_safe :: "string \<Rightarrow> bool" where
  "line_safe s \<longleftrightarrow> cr \<notin> set s \<and> lf \<notin> set s"

fun frame_ok :: "frame \<Rightarrow> bool" where
  "frame_ok (FEvent name data) = (name \<noteq> [] \<and> line_safe name)"
| "frame_ok (FComment text) = line_safe text"

fun frameEvent :: "frame \<Rightarrow> (string \<times> string) list" where
  "frameEvent (FEvent name data) = [(name, noCR data)]"
| "frameEvent (FComment text) = []"

fun frameLines :: "frame \<Rightarrow> string list" where
  "frameLines (FEvent name data) = (''event: '' @ name) # map ((@) ''data: '') (Split1 (noCR data) lf) @ [[]]"
| "frameLines (FComment text) = ['': '' @ text, []]"

definition unlines :: "string list \<Rightarrow> string" where
  "unlines ls = concat (map (\<lambda>l. l @ [lf]) ls)"

lemma noCR_no_cr [simp]: "cr \<notin> set (noCR s)"
  by (induction s) (auto simp: noCR_def)

lemma newlines_id: "cr \<notin> set s \<Longrightarrow> newlines s = s"
  by (induction s rule: newlines.induct) auto

lemma set_Split1: "p \<in> set (Split1 s c) \<Longrightarrow> set p \<subseteq> set s - {c}"
  by (induction s arbitrary: p) (fastforce split: list.splits if_splits)+

lemma frame_unlines: "frameText f = unlines (frameLines f)"
  by (cases f) (simp_all add: unlines_def eventText_def comp_def)

lemma frame_lines_safe: "frame_ok f \<Longrightarrow> l \<in> set (frameLines f) \<Longrightarrow> line_safe l"
  by (cases f) (use noCR_no_cr in \<open>fastforce simp: line_safe_def dest: set_Split1\<close>)+

lemma Split1_unlines: "\<forall>l \<in> set ls. line_safe l \<Longrightarrow> Split1 (unlines ls) lf = ls @ [[]]"
proof (induction ls)
  case (Cons l ls)
  have "Split1 (l @ lf # unlines ls) lf = Split1 l lf @ Split1 (unlines ls) lf" by (rule Split1_append)
  then show ?case using Cons Split1_absent [of lf l] by (simp add: unlines_def line_safe_def)
qed (simp add: unlines_def)

lemma unlines_no_cr: "\<forall>l \<in> set ls. line_safe l \<Longrightarrow> cr \<notin> set (unlines ls)"
  by (auto simp: unlines_def line_safe_def)

lemma unlines_Nil: "unlines [] = []"
  by (simp add: unlines_def)

lemma unlines_append: "unlines (a @ b) = unlines a @ unlines b"
  by (simp add: unlines_def)

lemma fieldOf_known:
  "fieldOf (''event: '' @ v) = (''event'', v)" "fieldOf (''data: '' @ v) = (''data'', v)" "fieldOf ('': '' @ v) = ([], v)"
  by (simp_all add: fieldOf_def)

lemma dispatch_data: "dispatch ty buf (map ((@) ''data: '') ls @ rest) = dispatch ty (buf @ unlines ls) rest"
proof (induction ls arbitrary: buf)
  case (Cons l ls)
  then show ?case using fieldOf_known(2) [of l] by (simp add: unlines_def)
qed (simp add: unlines_def)

lemma unlines_Join: "ls \<noteq> [] \<Longrightarrow> unlines ls = Join ls [lf] @ [lf]"
  by (induction ls "[lf]" rule: Join.induct) (auto simp: unlines_def)

lemma dispatch_frame:
  assumes "frame_ok f"
  shows "dispatch [] [] (frameLines f @ rest) = frameEvent f @ dispatch [] [] rest"
proof (cases f)
  case (FEvent name data)
  have "unlines (Split1 (noCR data) lf) = noCR data @ [lf]"
    by (simp add: unlines_Join Join_Split1)
  then show ?thesis
    using FEvent assms fieldOf_known(1) [of name] dispatch_data [of name "[]" "Split1 (noCR data) lf" "[] # rest"]
    by simp
next
  case (FComment t)
  then show ?thesis using fieldOf_known(3) [of t] by simp
qed

lemma dispatch_frames: "\<forall>f \<in> set fs. frame_ok f \<Longrightarrow> dispatch [] [] (concat (map frameLines fs)) = concat (map frameEvent fs)"
  by (induction fs) (simp_all add: dispatch_frame)

lemma decode_frames:
  assumes "\<forall>f \<in> set fs. frame_ok f"
  shows "decode (concat (map frameText fs)) = concat (map frameEvent fs)"
proof -
  let ?ls = "concat (map frameLines fs)"
  have e: "concat (map frameText fs) = unlines ?ls"
    by (induction fs) (simp_all add: frame_unlines unlines_append unlines_Nil)
  have s: "\<forall>l \<in> set ?ls. line_safe l" using assms frame_lines_safe by fastforce
  show ?thesis
    unfolding e decode_def newlines_id [OF unlines_no_cr [OF s]] Split1_unlines [OF s]
    using dispatch_frames [OF assms] by simp
qed

text \<open>
  C14: no log line can forge an event. Whatever bytes the rendered rows contain, line ends and field names
  included, a browser that reads the stream gets exactly the events that were sent, in their order, each
  with its own name and its own text without carriage returns; pings are never seen.
\<close>

theorem sse_roundtrip:
  assumes "list_all frame_ok fs"
  shows "decode (concat (map frameText fs)) = concat (map frameEvent fs)"
  using assms by (intro decode_frames) (simp add: list_all_iff)

theorem sse_roundtrip_witness:
  "decode (concat (map frameText [FEvent ''log'' (''a'' @ [cr, lf] @ ''event: logout'' @ [lf, lf] @ ''b''), FComment ''ping'']))
   = [(''log'', ''a'' @ [lf] @ ''event: logout'' @ [lf, lf] @ ''b'')]"
  using sse_roundtrip [of "[FEvent ''log'' (''a'' @ [cr, lf] @ ''event: logout'' @ [lf, lf] @ ''b''), FComment ''ping'']"]
  by (simp add: line_safe_def noCR_def)

end
