(* ===== verification/Sql_Answer.thy ===== *)
theory Sql_Answer
  imports Rewrite Query_Exec "HOL-Library.Multiset"
begin

text \<open>
  What the database answers to a rewritten statement. A statement without grouping, as the log viewer's shape
  is, yields the rows of its \<open>FROM\<close> clause for which its condition is true, in an order that its ordering terms allow
  (ties in any order), cut at its limit. The rewrites of \<open>ApplyPagination\<close> and
  \<open>ApplyStreamCursor\<close> are read with this meaning, and their answers go through \<open>Execute\<close>, so that the
  properties of paging and of the live tail rest on the statements that the code builds.
\<close>

declare ToLower.simps [simp del]

text \<open>A row of the \<open>FROM\<close> clause: its key, what conditions see of it, and the cells of the projection.\<close>

record db_row =
  dr_id :: int
  dr_ts :: int
  dr_sql :: sql_row
  dr_cells :: "cell list"

definition keyed_row :: "db_row \<Rightarrow> bool" where
  "keyed_row r \<longleftrightarrow> col (dr_sql r) ''id'' = SInt (dr_id r) \<and> col (dr_sql r) ''timestamp'' = SInt (dr_ts r)"

text \<open>Whether the ordering terms allow one row before another; the flag of a term is true for ascending.\<close>

fun ordered_by :: "(expr \<times> bool) list \<Rightarrow> sql_row \<Rightarrow> sql_row \<Rightarrow> bool" where
  "ordered_by [] a b = True"
| "ordered_by ((e, asc) # terms) a b =
     (case (eval a e, eval b e) of
        (SInt x, SInt y) \<Rightarrow> if x = y then ordered_by terms a b else (x < y) = asc
      | _ \<Rightarrow> True)"

definition limit_of :: "SelectStatement \<Rightarrow> nat option" where
  "limit_of s = (case sel_LimitExpr s of Some (NumberLit v) \<Rightarrow> map_option nat (ParseInt v) | _ \<Rightarrow> None)"

definition sql_answer :: "SelectStatement \<Rightarrow> db_row list \<Rightarrow> db_row list \<Rightarrow> bool" where
  "sql_answer s table out \<longleftrightarrow>
     (\<exists>all n. limit_of s = Some n \<and> sel_OffsetExpr s = None \<and> out = take n all
        \<and> mset all = mset (filter (\<lambda>r. selects s (dr_sql r)) table)
        \<and> sorted_wrt (\<lambda>a b. ordered_by (sel_OrderingTerms s) (dr_sql a) (dr_sql b)) all)"

text \<open>The cursor with which the driver hands out an answer.\<close>

definition source_of :: "string list \<Rightarrow> db_row list \<Rightarrow> row_source" where
  "source_of cols out = \<lparr>rs_start = None, rs_columns = Inr cols, rs_rows = map (\<lambda>r. Inr (dr_cells r)) out, rs_err = None\<rparr>"

definition fetched :: "db_row list \<Rightarrow> cell list list" where
  "fetched out = map (\<lambda>r. map cell_clean (dr_cells r)) out"

section \<open>Execute on an answer\<close>

lemma scanRows_Inr: "\<exists>out. scanRows (map Inr rs) n rows = Inr out"
  by (induction rs arbitrary: n rows) (auto simp: Let_def)

text \<open>
  The caps of \<open>Execute\<close> leave an initial part of the answer, at least one row of it, and all of it when its text is below the cap.
\<close>

lemma Execute_source:
  assumes "int (length out) \<le> MaxRows"
  obtains res m where "Execute (source_of cols out) = (Some res, None)" "res_Columns res = cols" "res_Rows res = fetched (take m out)"
    "m \<le> length out" "out \<noteq> [] \<Longrightarrow> 0 < m" "total_bytes (fetched out) < MaxResultBytes \<Longrightarrow> m = length out"
proof -
  let ?rs = "map (\<lambda>r. Inr (dr_cells r)) out"
  obtain rows trunc where s: "scanRows ?rs 0 [] = Inr (rows, trunc)"
    using scanRows_Inr [of "map dr_cells out" 0 "[]"] by (force simp: comp_def)
  then obtain k where k: "scanned ?rs [] rows trunc k"
    using scanRows_spec [OF s] by (auto simp: total_bytes_def MaxResultBytes_def MaxRows_def)
  have rows: "rows = fetched (take k out)"
    using k by (simp add: scanned_def fetched_def take_map comp_def)
  have pos: "0 < k" if "out \<noteq> []"
  proof (rule ccontr)
    assume "\<not> 0 < k"
    with k that show False by (auto simp: scanned_def total_bytes_def MaxResultBytes_def MaxRows_def split: if_splits)
  qed
  have full: "k = length out" if b: "total_bytes (fetched out) < MaxResultBytes"
  proof -
    have "fetched out = fetched (take k out) @ fetched (drop k out)" by (simp add: fetched_def flip: map_append)
    then have "total_bytes (fetched (take k out)) < MaxResultBytes" using b by (simp add: total_bytes_def)
    then have "\<not> trunc \<or> int (length rows) = MaxRows \<and> k < length out" using k rows by (auto simp: scanned_def split: if_splits)
    moreover have "length rows = min k (length out)" by (simp add: rows fetched_def min.commute)
    ultimately show ?thesis using k assms by (auto simp: scanned_def split: if_splits)
  qed
  have "Execute (source_of cols out) = (Some \<lparr>res_Columns = cols, res_Rows = rows, res_Truncated = trunc\<rparr>, None)"
    using s by (simp add: Execute_def source_of_def)
  from that [OF this _ _ _ pos full] rows k show ?thesis by (simp add: scanned_def)
qed

section \<open>Answers in a strict order are unique\<close>

lemma sorted_key_unique:
  fixes f :: "'a \<Rightarrow> 'b::linorder"
  assumes "mset xs = mset ys" and "sorted (map f xs)" and "sorted (map f ys)" and "inj_on f (set ys)"
  shows "xs = ys"
proof -
  have "mset (map f xs) = mset (map f ys)" using assms(1) by simp
  with assms(2,3) have "map f xs = map f ys" by (metis sorted_sort_id properties_for_sort)
  moreover have "inj_on f (set xs \<union> set ys)" using assms(4) mset_eq_setD [OF assms(1)] by simp
  ultimately show ?thesis by (rule map_inj_on)
qed

lemma sorted_wrt_iff:
  "(\<And>a b. a \<in> set xs \<Longrightarrow> b \<in> set xs \<Longrightarrow> R a b \<longleftrightarrow> Q a b) \<Longrightarrow> sorted_wrt R xs \<longleftrightarrow> sorted_wrt Q xs"
  by (induction xs) auto

section \<open>The statement of the live tail\<close>

text \<open>The last argument of the statement is bound to the cursor.\<close>

definition bindLast :: "int \<Rightarrow> db_row \<Rightarrow> db_row" where
  "bindLast i r = r\<lparr>dr_sql := (dr_sql r)\<lparr>base_val := (\<lambda>e. case e of BindExpr b \<Rightarrow> SInt i | _ \<Rightarrow> base_val (dr_sql r) e)\<rparr>\<rparr>"

text \<open>Whether a condition compares with a placeholder of its own.\<close>

fun value_binds :: "expr \<Rightarrow> bool" where
  "value_binds (BindExpr b) = True"
| "value_binds (ParenExpr e) = value_binds e"
| "value_binds e = False"

fun cond_binds :: "expr \<Rightarrow> bool" where
  "cond_binds (ParenExpr e) = cond_binds e"
| "cond_binds (BinaryExpr x op y) =
     (case op of
        OpAND \<Rightarrow> cond_binds x \<or> cond_binds y
      | OpOR \<Rightarrow> cond_binds x \<or> cond_binds y
      | OpOther t \<Rightarrow> False
      | _ \<Rightarrow> value_binds x \<or> value_binds y)"
| "cond_binds e = False"

definition stmt_binds :: "SelectStatement \<Rightarrow> bool" where
  "stmt_binds s = (case sel_WhereExpr s of None \<Rightarrow> False | Some w \<Rightarrow> cond_binds w)"

lemma bindLast_simps [simp]:
  "dr_id (bindLast i r) = dr_id r" "dr_ts (bindLast i r) = dr_ts r" "dr_cells (bindLast i r) = dr_cells r"
  "col (dr_sql (bindLast i r)) = col (dr_sql r)"
  by (simp_all add: bindLast_def)

lemma eval_bindLast: "\<not> value_binds e \<Longrightarrow> eval (dr_sql (bindLast i r)) e = eval (dr_sql r) e"
  by (induction e rule: value_binds.induct) (auto simp: bindLast_def split: option.split)

lemma holds3_bindLast: "\<not> cond_binds w \<Longrightarrow> holds3 (dr_sql (bindLast i r)) w = holds3 (dr_sql r) w"
proof (induction w rule: cond_binds.induct)
  case (2 x op y)
  then show ?case by (cases op) (simp_all add: eval_bindLast, simp add: bindLast_def)
qed (simp_all add: bindLast_def)

lemma selects_bindLast: "\<not> stmt_binds s \<Longrightarrow> selects s (dr_sql (bindLast i r)) = selects s (dr_sql r)"
  by (simp add: selects_def stmt_binds_def holds3_bindLast split: option.splits)

definition streamTemplate :: string where
  "streamTemplate = ''SELECT * FROM logs ORDER BY id ASC''"

lemma stream_statement:
  assumes "ApplyStreamCursor P n v = Ok v'" and "\<not> stmt_binds (v_stmt v)" and "keyed_row r"
  shows "selects (v_stmt v') (dr_sql (bindLast i r)) \<longleftrightarrow> selects (v_stmt v) (dr_sql r) \<and> i < dr_id r"
    and "sel_LimitExpr (v_stmt v') = Some (NumberLit (itoa n))" and "sel_OffsetExpr (v_stmt v') = None"
    and "mustParse P streamTemplate = Some tpl \<Longrightarrow> sel_OrderingTerms (v_stmt v') = sel_OrderingTerms tpl"
proof -
  from assms(1) obtain t where t: "mustParse P streamTemplate = Some t" and v': "v' = v\<lparr>v_stmt :=
      (andWhere (BinaryExpr (Ident ''id'') OpGT (BindExpr ''?'')) (v_stmt v))
        \<lparr>sel_OrderingTerms := sel_OrderingTerms t, sel_LimitExpr := Some (NumberLit (itoa n)), sel_OffsetExpr := None\<rparr>\<rparr>"
    by (cases "mustParse P streamTemplate") (auto simp: ApplyStreamCursor_def with_template_def streamTemplate_def split: if_splits)
  have "selects (v_stmt v') (dr_sql (bindLast i r))
      \<longleftrightarrow> selects (andWhere (BinaryExpr (Ident ''id'') OpGT (BindExpr ''?'')) (v_stmt v)) (dr_sql (bindLast i r))"
    by (simp add: v' selects_def)
  then show "selects (v_stmt v') (dr_sql (bindLast i r)) \<longleftrightarrow> selects (v_stmt v) (dr_sql r) \<and> i < dr_id r"
    using assms(3) by (simp add: selects_andWhere selects_bindLast [OF assms(2)] keyed_row_def) (simp add: bindLast_def)
  show "sel_LimitExpr (v_stmt v') = Some (NumberLit (itoa n))" "sel_OffsetExpr (v_stmt v') = None"
    "mustParse P streamTemplate = Some tpl \<Longrightarrow> sel_OrderingTerms (v_stmt v') = sel_OrderingTerms tpl"
    using t by (simp_all add: v')
qed

text \<open>What the parser makes of the template.\<close>

definition stream_template_ok :: "sqlp \<Rightarrow> bool" where
  "stream_template_ok P \<longleftrightarrow> (\<exists>t. mustParse P streamTemplate = Some t \<and> sel_OrderingTerms t = [(Ident ''id'', True)])"

text \<open>The rows after the cursor that the query selects.\<close>

definition pending :: "Validated \<Rightarrow> int \<Rightarrow> db_row list \<Rightarrow> db_row list" where
  "pending v i table = filter (\<lambda>r. selects (v_stmt v) (dr_sql r) \<and> i < dr_id r) table"

text \<open>One poll of a table in the order of its ids is answered with the first rows after the cursor.\<close>

lemma poll_answered:
  assumes "ApplyStreamCursor P (int n) v = Ok v'" and "stream_template_ok P" and "\<not> stmt_binds (v_stmt v)" and "int n < 2 ^ 63"
    and "\<forall>r \<in> set table. keyed_row r" and "sorted_wrt (<) (map dr_id table)"
  shows "sql_answer (v_stmt v') (map (bindLast i) table) out \<longleftrightarrow> out = take n (map (bindLast i) (pending v i table))"
proof -
  obtain t where t: "mustParse P streamTemplate = Some t" "sel_OrderingTerms t = [(Ident ''id'', True)]"
    using assms(2) by (auto simp: stream_template_ok_def)
  have stmt: "sel_LimitExpr (v_stmt v') = Some (NumberLit (itoa (int n)))" "sel_OffsetExpr (v_stmt v') = None"
      "sel_OrderingTerms (v_stmt v') = [(Ident ''id'', True)]"
    using assms(1) t by (auto simp: ApplyStreamCursor_def with_template_def streamTemplate_def split: if_splits)
  have lim: "limit_of (v_stmt v') = Some n" using assms(4) by (simp add: limit_of_def stmt ParseInt_itoa)
  let ?P = "map (bindLast i) (pending v i table)"
  have f: "filter (\<lambda>r. selects (v_stmt v') (dr_sql r)) (map (bindLast i) table) = ?P"
    using assms(5) stream_statement(1) [OF assms(1,3)] by (auto simp: pending_def filter_map comp_def intro!: arg_cong [where f = "map _"] filter_cong)
  have key: "keyed_row (bindLast i r)" if "keyed_row r" for r using that by (simp add: keyed_row_def)
  have o: "ordered_by [(Ident ''id'', True)] (dr_sql a) (dr_sql b) \<longleftrightarrow> dr_id a \<le> dr_id b" if "keyed_row a" "keyed_row b" for a b
    using that by (auto simp: keyed_row_def)
  have kP: "\<forall>r \<in> set ?P. keyed_row r" using assms(5) key by (auto simp: pending_def)
  have sP: "sorted_wrt (<) (map dr_id ?P)" using assms(6) by (simp add: pending_def comp_def sorted_wrt_map sorted_wrt_filter)
  then have sP': "sorted (map dr_id ?P)" and dP: "distinct (map dr_id ?P)" by (simp_all add: strict_sorted_iff)
  have sorted_iff: "sorted_wrt (\<lambda>a b. ordered_by [(Ident ''id'', True)] (dr_sql a) (dr_sql b)) all \<longleftrightarrow> sorted (map dr_id all)"
    if "set all = set ?P" for all
    unfolding sorted_map by (rule sorted_wrt_iff) (use that kP o in blast)
  show ?thesis
  proof
    assume "sql_answer (v_stmt v') (map (bindLast i) table) out"
    then obtain all where all: "out = take n all" "mset all = mset ?P"
      "sorted_wrt (\<lambda>a b. ordered_by [(Ident ''id'', True)] (dr_sql a) (dr_sql b)) all"
      by (auto simp: sql_answer_def lim f stmt)
    have "inj_on dr_id (set ?P)" using dP unfolding distinct_map by blast
    moreover have "sorted (map dr_id all)" using all(3) sorted_iff [OF mset_eq_setD [OF all(2)]] by blast
    ultimately have "all = ?P" using sorted_key_unique [OF all(2) _ sP'] by blast
    with all(1) show "out = take n ?P" by simp
  next
    assume "out = take n ?P"
    with sP' sorted_iff [OF refl] show "sql_answer (v_stmt v') (map (bindLast i) table) out"
      unfolding sql_answer_def lim f stmt by blast
  qed
qed

section \<open>The statement of a page\<close>

definition page_template_ok :: "sqlp \<Rightarrow> bool" where
  "page_template_ok P \<longleftrightarrow> (\<exists>t. mustParse P pageTemplate = Some t \<and> sel_OrderingTerms t = [(Ident ''timestamp'', False), (Ident ''id'', False)])"

lemma page_statement:
  assumes "ApplyPagination P ts i n v = Ok v'" and "page_template_ok P"
  shows "sel_LimitExpr (v_stmt v') = Some (NumberLit (itoa n))" "sel_OffsetExpr (v_stmt v') = None"
    "sel_OrderingTerms (v_stmt v') = [(Ident ''timestamp'', False), (Ident ''id'', False)]" "0 < n" "n \<le> MaxRows"
    "int64 ts \<Longrightarrow> int64 i \<Longrightarrow> keyed_row r
      \<Longrightarrow> selects (v_stmt v') (dr_sql r) \<longleftrightarrow> selects (v_stmt v) (dr_sql r) \<and> (dr_ts r < ts \<or> dr_ts r = ts \<and> dr_id r < i)"
proof -
  from assms obtain tpl where tpl: "mustParse P pageTemplate = Some tpl" "sel_OrderingTerms tpl = [(Ident ''timestamp'', False), (Ident ''id'', False)]"
    by (auto simp: page_template_ok_def)
  with assms(1) have n: "0 < n" "n \<le> MaxRows"
    and v': "v' = v\<lparr>v_stmt := (andWhere (beforeCond ts i) (v_stmt v))
      \<lparr>sel_OrderingTerms := sel_OrderingTerms tpl, sel_LimitExpr := Some (NumberLit (itoa n)), sel_OffsetExpr := None\<rparr>\<rparr>"
    by (auto simp: ApplyPagination_def with_template_def split: if_splits)
  show "sel_LimitExpr (v_stmt v') = Some (NumberLit (itoa n))" "sel_OffsetExpr (v_stmt v') = None"
    "sel_OrderingTerms (v_stmt v') = [(Ident ''timestamp'', False), (Ident ''id'', False)]" "0 < n" "n \<le> MaxRows"
    using n by (simp_all add: v' tpl(2))
  have s: "selects (v_stmt v') (dr_sql r) \<longleftrightarrow> selects (andWhere (beforeCond ts i) (v_stmt v)) (dr_sql r)" by (simp add: v' selects_def)
  show "selects (v_stmt v') (dr_sql r) \<longleftrightarrow> selects (v_stmt v) (dr_sql r) \<and> (dr_ts r < ts \<or> dr_ts r = ts \<and> dr_id r < i)"
    if "int64 ts" "int64 i" "keyed_row r"
    using that beforeCond_holds [of ts i "dr_sql r"] unfolding s selects_andWhere keyed_row_def by blast
qed

end
