(* ===== verification/Live_Tail.thy ===== *)
theory Live_Tail
  imports Ui_Base Sse Broadcaster Auth_State Sql_Answer
begin

text \<open>
  The live tail, \<open>ui/stream.go\<close>: one of three loops by the shape of the query. Each loop is a
  \<open>select\<close> over the end of the request, the end of the server, a heartbeat that re-checks the session,
  and the strategy's own events; the loops share the first three. \<open>render\<close> is the row template,
  \<open>None\<close> when it fails.
\<close>

definition streamMaxBatch :: nat where "streamMaxBatch = 50"
definition streamPollLimit :: nat where "streamPollLimit = 100"

section \<open>Choosing a strategy\<close>

datatype strategy = StreamBroadcast | StreamPolling | StreamRefresh

datatype stream_start = SUnsupported | SBadQuery verror | SCompound | SStart strategy logsRequest Validated

definition streamLogs :: "web_env \<Rightarrow> bool \<Rightarrow> ui_request \<Rightarrow> stream_start" where
  "streamLogs E flusher req =
     (if \<not> flusher then SUnsupported
      else let lr = parseLogsRequest (qget req)
           in case ValidateIn (ue_sqlp E) (lq_Q lr) ScopeLogs of
                Inl e \<Rightarrow> SBadQuery e
              | Inr v \<Rightarrow>
                  if v_Compound v then SCompound
                  else if v_Shape v = ShapeLogViewer \<and> lq_FTS lr = [] \<and> \<not> HasConditions v then SStart StreamBroadcast lr v
                  else if v_Shape v = ShapeLogViewer then SStart StreamPolling lr v
                  else SStart StreamRefresh lr v)"

definition sessionActive :: "ui_request \<Rightarrow> int \<Rightarrow> sessions \<Rightarrow> bool" where
  "sessionActive req now ss = (case rq_cookie req of None \<Rightarrow> False | Some c \<Rightarrow> IsSessionValid c now ss)"

section \<open>The loops\<close>

record stream_state =
  st_sw :: sseWriter
  st_lastID :: int
  st_open :: bool

definition close_stream :: "stream_state \<Rightarrow> stream_state" where
  "close_stream s = s\<lparr>st_open := False\<rparr>"

definition on_sw :: "(sseWriter \<Rightarrow> sseWriter) \<Rightarrow> stream_state \<Rightarrow> stream_state" where
  "on_sw f s = s\<lparr>st_sw := f (st_sw s)\<rparr>"

text \<open>The cases that the three loops share; \<open>Heartbeat\<close> carries what \<open>sessionActive\<close> says.\<close>

datatype 'e stream_event = RequestDone | StreamDone | Heartbeat bool | Tick 'e

fun selectStep :: "('e \<Rightarrow> stream_state \<Rightarrow> stream_state) \<Rightarrow> 'e stream_event \<Rightarrow> stream_state \<Rightarrow> stream_state" where
  "selectStep tick RequestDone s = close_stream s"
| "selectStep tick StreamDone s = close_stream s"
| "selectStep tick (Heartbeat active) s = (if active then on_sw (sse_flush \<circ> sse_comment ''ping'') s else close_stream s)"
| "selectStep tick (Tick e) s = tick e s"

definition streamLoop :: "('e \<Rightarrow> stream_state \<Rightarrow> stream_state) \<Rightarrow> 'e stream_event list \<Rightarrow> stream_state \<Rightarrow> stream_state" where
  "streamLoop tick es s = fold (\<lambda>e s. if st_open s then selectStep tick e s else s) es s"

subsection \<open>Strategy A: the broadcaster\<close>

datatype broadcast_event = Received StandardLog | ChannelClosed | FlushTick

definition standardToRow :: "StandardLog \<Rightarrow> LogRow" where
  "standardToRow l = \<lparr>lr_ID = 0, lr_Ts = sl_Timestamp l, lr_Level = sl_Level l, lr_Service = sl_Service l, lr_Host = sl_Host l,
     lr_Message = (case sl_Message l of None \<Rightarrow> sl_Raw l | Some m \<Rightarrow> m), lr_Raw = sl_Raw l\<rparr>"

fun broadcastTick :: "(LogRow \<Rightarrow> string option) \<Rightarrow> broadcast_event \<Rightarrow> stream_state \<Rightarrow> stream_state" where
  "broadcastTick render (Received l) s =
     (case render (standardToRow l) of
        None \<Rightarrow> s
      | Some html \<Rightarrow>
          let sw = sse_event ''log'' html (st_sw s)
          in s\<lparr>st_sw := (if sw_pending sw \<ge> streamMaxBatch then sse_flush sw else sw)\<rparr>)"
| "broadcastTick render ChannelClosed s = close_stream s"
| "broadcastTick render FlushTick s = on_sw sse_flush s"

subsection \<open>Strategy B: polling with a cursor\<close>

text \<open>The statement and its arguments, or the message of the error event.\<close>

definition pollingQuery :: "web_env \<Rightarrow> logsRequest \<Rightarrow> Validated \<Rightarrow> (string, Validated \<times> string list) result" where
  "pollingQuery E lr v0 =
     (case (if lq_FTS lr = [] then Inr (v0, [])
            else case CombineFTS (ue_sqlp E) (lq_Op lr) v0 of Inl e \<Rightarrow> Inl e | Inr v1 \<Rightarrow> Inr (v1, [FTSMatch (lq_FTS lr)])) of
        Inl _ \<Rightarrow> Err ''full-text search does not combine with this query shape''
      | Inr (v1, args) \<Rightarrow>
         (case ApplyStreamCursor (ue_sqlp E) (int streamPollLimit) v1 of
            Inl _ \<Rightarrow> Err ''live tail is not supported for this query shape''
          | Inr v \<Rightarrow> Ok (v, args)))"

definition projectionError :: string where
  "projectionError = ''live tail needs the full logs.* column set; showing periodic refresh is not available for this projection''"

fun pollRows :: "ui_env \<Rightarrow> (LogRow \<Rightarrow> string option) \<Rightarrow> string list \<Rightarrow> cell list list \<Rightarrow> stream_state \<Rightarrow> stream_state" where
  "pollRows U render cols [] s = on_sw sse_flush s"
| "pollRows U render cols (row # rows) s =
     (case rowFromResult U cols row of
        None \<Rightarrow> close_stream (on_sw (sse_flush \<circ> sse_event ''streamerror'' projectionError) s)
      | Some r \<Rightarrow>
          let s1 = (if lr_ID r > st_lastID s then s\<lparr>st_lastID := lr_ID r\<rparr> else s)
          in pollRows U render cols rows (case render r of None \<Rightarrow> s1 | Some html \<Rightarrow> on_sw (sse_event ''log'' html) s1))"

text \<open>One poll: the statement is executed with the cursor as its last argument.\<close>

definition pollTick :: "ui_env \<Rightarrow> (LogRow \<Rightarrow> string option) \<Rightarrow> row_source \<Rightarrow> stream_state \<Rightarrow> stream_state" where
  "pollTick U render src s =
     (case Execute src of
        (Some res, None) \<Rightarrow> pollRows U render (res_Columns res) (res_Rows res) s
      | _ \<Rightarrow> s)"

subsection \<open>Strategy C: periodic refresh\<close>

definition refreshQuery :: "web_env \<Rightarrow> logsRequest \<Rightarrow> Validated \<Rightarrow> (string, Validated \<times> string list) result" where
  "refreshQuery E lr v0 =
     (if lq_FTS lr = [] then Ok (v0, [])
      else case CombineFTS (ue_sqlp E) (lq_Op lr) v0 of
             Inl _ \<Rightarrow> Err ''full-text search does not combine with this query shape''
           | Inr v1 \<Rightarrow> Ok (v1, [FTSMatch (lq_FTS lr)]))"

definition refreshTick :: "ui_env \<Rightarrow> (LogsView \<Rightarrow> string option) \<Rightarrow> logsRequest \<Rightarrow> row_source \<Rightarrow> stream_state \<Rightarrow> stream_state" where
  "refreshTick U renderView lr src s =
     (case Execute src of
        (Some res, None) \<Rightarrow>
          (case renderView (fillResults U res (emptyView (lq_Q lr) (lq_FTS lr) (lq_Op lr))) of
             None \<Rightarrow> s
           | Some html \<Rightarrow> on_sw (sse_flush \<circ> sse_event ''refresh'' html) s)
      | _ \<Rightarrow> s)"

section \<open>A stream ends with its session\<close>

lemma streamLoop_closed: "\<not> st_open s \<Longrightarrow> streamLoop tick es s = s"
  by (induction es) (simp_all add: streamLoop_def)

lemma streamLoop_Cons: "st_open s \<Longrightarrow> streamLoop tick (e # es) s = streamLoop tick es (selectStep tick e s)"
  by (simp add: streamLoop_def)

lemma streamLoop_append: "streamLoop tick (es @ fs) s = streamLoop tick fs (streamLoop tick es s)"
  by (simp add: streamLoop_def)

text \<open>
  Whatever the strategy: the first heartbeat after the session ended closes the stream, and nothing
  is written after it.
\<close>

theorem stream_ends_with_session:
  "st_sw (streamLoop tick (es @ Heartbeat False # fs) s) = st_sw (streamLoop tick es s)"
proof (cases "st_open (streamLoop tick es s)")
  case True
  then show ?thesis by (simp add: streamLoop_append streamLoop_Cons streamLoop_closed close_stream_def)
qed (simp add: streamLoop_append streamLoop_closed)

text \<open>The broadcast loop never lets a batch grow beyond its bound.\<close>

lemma broadcast_batch:
  assumes "sw_pending (st_sw s) < streamMaxBatch"
  shows "sw_pending (st_sw (streamLoop (broadcastTick render) es s)) < streamMaxBatch"
  using assms
proof (induction es arbitrary: s)
  case (Cons e es)
  show ?case
  proof (cases "st_open s")
    case True
    have "sw_pending (st_sw (selectStep (broadcastTick render) e s)) < streamMaxBatch"
    proof (cases e)
      case (Tick b)
      then show ?thesis using Cons.prems
        by (cases b) (auto simp: Let_def sse_event_def sse_flush_def on_sw_def close_stream_def streamMaxBatch_def split: option.split)
    qed (use Cons.prems in \<open>auto simp: close_stream_def on_sw_def sse_flush_def sse_comment_def streamMaxBatch_def\<close>)
    with Cons.IH True show ?thesis by (simp add: streamLoop_Cons)
  qed (use Cons.prems in \<open>simp add: streamLoop_closed\<close>)
qed (simp add: streamLoop_def)

section \<open>Polling against a changing table\<close>

text \<open>
  The stream and the logs table together. \<open>te_query\<close> is the user's query after the full-text join, \<open>te_poll\<close> the
  statement that \<open>ApplyStreamCursor\<close> makes of it, \<open>te_from\<close> tells which logs its \<open>FROM\<close> clause yields (a
  full-text join yields the matching ones), and \<open>te_cols\<close> are the columns of its results. \<open>tl_arrived\<close> is a ghost field, the rows
  inserted since the stream began.
\<close>

record tail_env =
  te_ui :: ui_env
  te_render :: "LogRow \<Rightarrow> string option"
  te_cols :: "string list"
  te_from :: "db_row \<Rightarrow> bool"
  te_query :: Validated
  te_poll :: Validated

record tail =
  tl_table :: "db_row list"
  tl_stream :: stream_state
  tl_arrived :: "db_row list"

text \<open>The column \<open>id\<close> has no \<open>AUTOINCREMENT\<close>: a new row gets the greatest id that the table has at that moment, plus one.\<close>

definition maxID :: "db_row list \<Rightarrow> int" where
  "maxID t = foldr max (map dr_id t) 0"

definition shown :: "tail_env \<Rightarrow> db_row \<Rightarrow> LogRow" where
  "shown K r = viewerRow (te_ui K) (te_cols K) (map cell_clean (dr_cells r))"

definition row_ok :: "tail_env \<Rightarrow> db_row \<Rightarrow> bool" where
  "row_ok K r \<longleftrightarrow> keyed_row r \<and> lr_ID (shown K r) = dr_id r"

text \<open>
  The polling statement is what the code builds, the parser reads the template of the order as SQL does, the user's condition has no placeholders of its own, the
  results have the columns of the viewer (otherwise the first row ends the stream), and the template of a row does not fail.
\<close>

definition tail_ok :: "tail_env \<Rightarrow> bool" where
  "tail_ok K \<longleftrightarrow> ApplyStreamCursor (ue_sqlp (te_ui K)) (int streamPollLimit) (te_query K) = Ok (te_poll K)
     \<and> stream_template_ok (ue_sqlp (te_ui K)) \<and> \<not> stmt_binds (v_stmt (te_query K))
     \<and> list_all (\<lambda>c. colIdx (te_cols K) c \<noteq> None) logViewerColumns \<and> (\<forall>r. te_render K r \<noteq> None)"

definition matches :: "tail_env \<Rightarrow> db_row \<Rightarrow> bool" where
  "matches K r \<longleftrightarrow> te_from K r \<and> selects (v_stmt (te_query K)) (dr_sql r)"

definition waiting :: "tail_env \<Rightarrow> tail \<Rightarrow> db_row list" where
  "waiting K s = filter (\<lambda>r. matches K r \<and> st_lastID (tl_stream s) < dr_id r) (tl_table s)"

abbreviation feed :: "tail_env \<Rightarrow> row_source stream_event \<Rightarrow> tail \<Rightarrow> tail" where
  "feed K e s \<equiv> s\<lparr>tl_stream := streamLoop (pollTick (te_ui K) (te_render K)) [e] (tl_stream s)\<rparr>"

text \<open>A poll: the database answers the statement with the cursor bound to its placeholder.\<close>

definition poll_step :: "tail_env \<Rightarrow> tail \<Rightarrow> tail \<Rightarrow> bool" where
  "poll_step K s s' \<longleftrightarrow>
     (\<exists>out. sql_answer (v_stmt (te_poll K)) (map (bindLast (st_lastID (tl_stream s))) (filter (te_from K) (tl_table s))) out
        \<and> s' = feed K (Tick (source_of (te_cols K) out)) s)"

text \<open>
  Rows are inserted with the next ids and deleted by the retention sweep, which goes by the clients' timestamps; \<open>keep\<close> says whether deletions spare
  the row with the greatest id.
\<close>

inductive tail_step :: "tail_env \<Rightarrow> bool \<Rightarrow> tail \<Rightarrow> tail \<Rightarrow> bool" for K :: tail_env and keep :: bool where
  insert: "map dr_id rs = map (\<lambda>k. maxID (tl_table s) + 1 + int k) [0..<length rs] \<Longrightarrow> \<forall>r \<in> set rs. row_ok K r
    \<Longrightarrow> tail_step K keep s (s\<lparr>tl_table := tl_table s @ rs, tl_arrived := tl_arrived s @ rs\<rparr>)"
| delete: "keep \<longrightarrow> maxID (filter P (tl_table s)) = maxID (tl_table s) \<Longrightarrow> tail_step K keep s (s\<lparr>tl_table := filter P (tl_table s)\<rparr>)"
| poll: "poll_step K s s' \<Longrightarrow> tail_step K keep s s'"
| poll_failed: "Execute src = (res, Some err) \<Longrightarrow> tail_step K keep s (feed K (Tick src) s)"
| other: "e \<in> {RequestDone, StreamDone, Heartbeat True, Heartbeat False} \<Longrightarrow> tail_step K keep s (feed K e s)"

definition tail_start :: "db_row list \<Rightarrow> tail" where
  "tail_start rows = \<lparr>tl_table = rows, tl_stream = \<lparr>st_sw = newWriter, st_lastID = maxID rows, st_open = True\<rparr>, tl_arrived = []\<rparr>"

text \<open>The event of a row.\<close>

definition rowEvent :: "tail_env \<Rightarrow> db_row \<Rightarrow> string \<times> string" where
  "rowEvent K r = (''log'', noCR (the (te_render K (shown K r))))"

text \<open>The text of a stream: the events of the rows written so far, and pings.\<close>

definition frames_of :: "tail_env \<Rightarrow> db_row list \<Rightarrow> string \<Rightarrow> bool" where
  "frames_of K written out \<longleftrightarrow>
     (\<exists>fs. out = concat (map frameText fs) \<and> (\<forall>f \<in> set fs. frame_ok f) \<and> concat (map frameEvent fs) = map (rowEvent K) written)"

lemma frames_decode: "frames_of K written out \<Longrightarrow> decode out = map (rowEvent K) written"
  unfolding frames_of_def by (elim exE conjE) (simp add: decode_frames)

lemma frames_rows:
  assumes "frames_of K written out"
  shows "frames_of K (written @ new) (out @ concat (map (\<lambda>r. frameText (FEvent ''log'' (the (te_render K (shown K r))))) new))"
proof -
  from assms obtain fs where fs: "out = concat (map frameText fs)" "\<forall>f \<in> set fs. frame_ok f" "concat (map frameEvent fs) = map (rowEvent K) written"
    by (auto simp: frames_of_def)
  let ?gs = "map (\<lambda>r. FEvent ''log'' (the (te_render K (shown K r)))) new"
  have "concat (map frameEvent ?gs) = map (rowEvent K) new" by (simp add: comp_def rowEvent_def concat_map_singleton)
  moreover have "\<forall>f \<in> set ?gs. frame_ok f" by (auto simp: line_safe_def)
  ultimately show ?thesis unfolding frames_of_def using fs by (intro exI [of _ "fs @ ?gs"]) (auto simp: comp_def)
qed


text \<open>The table is in the order of ids; the rows written are those up to the cursor that arrived and match, and none of them that is still there is missing.\<close>

definition table_inv :: "tail_env \<Rightarrow> int \<Rightarrow> tail \<Rightarrow> bool" where
  "table_inv K a s \<longleftrightarrow>
     sorted_wrt (<) (map dr_id (tl_table s)) \<and> (\<forall>r \<in> set (tl_table s). row_ok K r \<and> (a < dr_id r \<longrightarrow> r \<in> set (tl_arrived s)))
     \<and> (\<forall>r \<in> set (tl_arrived s). a < dr_id r)"

definition cursor_inv :: "tail_env \<Rightarrow> int \<Rightarrow> db_row list \<Rightarrow> tail \<Rightarrow> bool" where
  "cursor_inv K a written s \<longleftrightarrow> a \<le> st_lastID (tl_stream s) \<and> st_lastID (tl_stream s) \<le> maxID (tl_table s)
     \<and> sorted_wrt (<) (map dr_id written)
     \<and> (\<forall>r \<in> set written. r \<in> set (tl_arrived s) \<and> matches K r \<and> dr_id r \<le> st_lastID (tl_stream s))
     \<and> (\<forall>r \<in> set (tl_table s). matches K r \<and> a < dr_id r \<and> dr_id r \<le> st_lastID (tl_stream s) \<longrightarrow> r \<in> set written)"

definition tail_inv :: "tail_env \<Rightarrow> int \<Rightarrow> db_row list \<Rightarrow> tail \<Rightarrow> bool" where
  "tail_inv K a written s \<longleftrightarrow> table_inv K a s \<and> cursor_inv K a written s \<and> frames_of K written (sw_out (st_sw (tl_stream s)))"

lemma maxID_ge: "r \<in> set t \<Longrightarrow> dr_id r \<le> maxID t"
  by (induction t) (auto simp: maxID_def)

lemma maxID_append: "maxID t \<le> maxID (t @ rs)"
proof -
  have "foldr max xs m \<le> foldr max xs n" if "m \<le> n" for xs and m n :: int
    using that by (induction xs) (auto simp: max.coboundedI2)
  moreover have "0 \<le> foldr max xs (0 :: int)" for xs by (induction xs) (auto simp: max.coboundedI2)
  ultimately show ?thesis by (simp add: maxID_def)
qed

lemma tail_inv_decode: "tail_inv K a written s \<Longrightarrow> decode (sw_out (st_sw (tl_stream s))) = map (rowEvent K) written"
  unfolding tail_inv_def by (blast intro: frames_decode)

lemma flush_out [simp]: "sw_out (sse_flush sw) = sw_out sw"
  by (simp add: sse_flush_def)

text \<open>A poll whose rows all have the full column set writes them all and moves the cursor to the last one.\<close>

lemma pollRows_exact:
  assumes "map (rowFromResult U cols) rows = map Some rs" and "\<And>r. render r = Some (html r)"
    and "sorted_wrt (<) (map lr_ID rs)" and "\<forall>r \<in> set rs. st_lastID s < lr_ID r"
  shows "st_open (pollRows U render cols rows s) = st_open s"
    and "st_lastID (pollRows U render cols rows s) = (if rs = [] then st_lastID s else lr_ID (last rs))"
    and "sw_out (st_sw (pollRows U render cols rows s)) = sw_out (st_sw s) @ concat (map (\<lambda>r. frameText (FEvent ''log'' (html r))) rs)"
proof -
  have "st_open (pollRows U render cols rows s) = st_open s
      \<and> st_lastID (pollRows U render cols rows s) = (if rs = [] then st_lastID s else lr_ID (last rs))
      \<and> sw_out (st_sw (pollRows U render cols rows s)) = sw_out (st_sw s) @ concat (map (\<lambda>r. frameText (FEvent ''log'' (html r))) rs)"
    using assms(1,3,4)
  proof (induction rows arbitrary: rs s)
    case Nil
    then show ?case by (simp add: on_sw_def)
  next
    case (Cons row rows)
    then obtain r rs' where rs: "rs = r # rs'" and row: "rowFromResult U cols row = Some r" "map (rowFromResult U cols) rows = map Some rs'"
      by (cases rs) auto
    let ?s = "on_sw (sse_event ''log'' (html r)) (s\<lparr>st_lastID := lr_ID r\<rparr>)"
    have "pollRows U render cols (row # rows) s = pollRows U render cols rows ?s"
      using row Cons.prems(3) assms(2) rs by simp
    moreover have "sorted_wrt (<) (map lr_ID rs')" "\<forall>x \<in> set rs'. st_lastID ?s < lr_ID x"
      using Cons.prems(2) rs by (auto simp: on_sw_def)
    note Cons.IH [OF row(2) this]
    ultimately show ?case using rs by (auto simp: on_sw_def sse_event_def)
  qed
  then show "st_open (pollRows U render cols rows s) = st_open s"
    and "st_lastID (pollRows U render cols rows s) = (if rs = [] then st_lastID s else lr_ID (last rs))"
    and "sw_out (st_sw (pollRows U render cols rows s)) = sw_out (st_sw s) @ concat (map (\<lambda>r. frameText (FEvent ''log'' (html r))) rs)"
    by auto
qed

text \<open>Splitting a sorted list at the last of its first elements.\<close>

lemma sorted_take_last:
  fixes key :: "'a \<Rightarrow> int"
  assumes "sorted_wrt (<) (map key xs)" and "\<forall>x \<in> set xs. i < key x" and "i' = (if take m xs = [] then i else key (last (take m xs)))"
  shows "filter (\<lambda>x. i' < key x) xs = drop m xs" and "\<forall>x \<in> set (take m xs). key x \<le> i'" and "i \<le> i'"
proof -
  have s: "sorted_wrt (<) (map key (take m xs @ drop m xs))" using assms(1) by simp
  have low: "\<forall>x \<in> set (take m xs). key x \<le> i'"
  proof (cases "take m xs" rule: rev_cases)
    case (snoc ys y)
    with s assms(3) show ?thesis by (auto simp: sorted_wrt_append less_imp_le)
  qed (simp only: list.set ball_empty)
  have high: "\<forall>x \<in> set (drop m xs). i' < key x"
  proof (cases "take m xs" rule: rev_cases)
    case Nil
    with assms(2,3) show ?thesis by (auto dest: in_set_dropD)
  next
    case (snoc ys y)
    with s assms(3) show ?thesis by (auto simp: sorted_wrt_append)
  qed
  have "filter (\<lambda>x. i' < key x) (take m xs @ drop m xs) = drop m xs"
    unfolding filter_append using low high by (simp add: filter_False filter_True not_less)
  then show "filter (\<lambda>x. i' < key x) xs = drop m xs" unfolding append_take_drop_id .
  show "\<forall>x \<in> set (take m xs). key x \<le> i'" by (rule low)
  have "last (take m xs) \<in> set xs" if "take m xs \<noteq> []" using last_in_set [OF that] by (rule in_set_takeD)
  then show "i \<le> i'" using assms(2,3) by (auto simp: less_imp_le)
qed

lemma streamLoop_single: "streamLoop tick [e] s = (if st_open s then selectStep tick e s else s)"
  by (simp add: streamLoop_def)

text \<open>What the database answers to a poll.\<close>

lemma poll_out:
  assumes "tail_ok K" and "sorted_wrt (<) (map dr_id (tl_table s))" and "\<forall>r \<in> set (tl_table s). row_ok K r"
    and "sql_answer (v_stmt (te_poll K)) (map (bindLast (st_lastID (tl_stream s))) (filter (te_from K) (tl_table s))) out"
  shows "out = map (bindLast (st_lastID (tl_stream s))) (take streamPollLimit (waiting K s))"
proof -
  have "sorted_wrt (<) (map dr_id (filter (te_from K) (tl_table s)))" using assms(2) by (simp add: sorted_wrt_map sorted_wrt_filter)
  moreover have "\<forall>r \<in> set (filter (te_from K) (tl_table s)). keyed_row r" using assms(3) by (auto simp: row_ok_def)
  moreover have "pending (te_query K) i (filter (te_from K) (tl_table s)) = filter (\<lambda>r. matches K r \<and> i < dr_id r) (tl_table s)" for i
    by (auto simp: pending_def matches_def intro!: filter_cong)
  ultimately show ?thesis
    using assms(1,4) poll_answered [of "ue_sqlp (te_ui K)" streamPollLimit "te_query K" "te_poll K" "filter (te_from K) (tl_table s)" "st_lastID (tl_stream s)" out]
    by (simp add: tail_ok_def waiting_def take_map streamPollLimit_def)
qed

lemma fetched_bind: "fetched (map (bindLast i) rs) = fetched rs"
  by (simp add: fetched_def comp_def)

text \<open>A poll on an open stream writes the next waiting rows and leaves the others waiting.\<close>

lemma poll_effect:
  assumes "tail_ok K" and "sorted_wrt (<) (map dr_id (tl_table s))" and "\<forall>r \<in> set (tl_table s). row_ok K r"
    and "poll_step K s s'" and "st_open (tl_stream s)"
  obtains m where "s' = s\<lparr>tl_stream := tl_stream s'\<rparr>" "st_open (tl_stream s')"
    "st_lastID (tl_stream s') = (if take m (waiting K s) = [] then st_lastID (tl_stream s) else dr_id (last (take m (waiting K s))))"
    "sw_out (st_sw (tl_stream s')) = sw_out (st_sw (tl_stream s))
       @ concat (map (\<lambda>r. frameText (FEvent ''log'' (the (te_render K (shown K r))))) (take m (waiting K s)))"
    "m \<le> streamPollLimit" "m \<le> length (waiting K s)" "waiting K s \<noteq> [] \<Longrightarrow> 0 < m"
    "total_bytes (fetched (take streamPollLimit (waiting K s))) < MaxResultBytes \<Longrightarrow> m = min streamPollLimit (length (waiting K s))"
proof -
  let ?i = "st_lastID (tl_stream s)" and ?w = "waiting K s"
  from assms(4) obtain out where a: "sql_answer (v_stmt (te_poll K)) (map (bindLast ?i) (filter (te_from K) (tl_table s))) out"
    and s': "s' = feed K (Tick (source_of (te_cols K) out)) s" by (auto simp: poll_step_def)
  note out = poll_out [OF assms(1-3) a]
  have "int (length out) \<le> MaxRows" by (simp add: out streamPollLimit_def MaxRows_def)
  from Execute_source [OF this, of "te_cols K"] obtain res m where e: "Execute (source_of (te_cols K) out) = (Some res, None)"
    and res: "res_Columns res = te_cols K" "res_Rows res = fetched (take m out)" and m: "m \<le> length out" "out \<noteq> [] \<Longrightarrow> 0 < m"
      "total_bytes (fetched out) < MaxResultBytes \<Longrightarrow> m = length out" by blast
  let ?new = "take m ?w"
  have rows: "res_Rows res = fetched ?new" using res(2) m(1) by (simp add: out take_map fetched_bind)
  have cols: "list_all (\<lambda>c. colIdx (te_cols K) c \<noteq> None) logViewerColumns" and ren: "te_render K r = Some (the (te_render K r))" for r
    using assms(1) by (auto simp: tail_ok_def)
  have h1: "map (rowFromResult (te_ui K) (te_cols K)) (fetched ?new) = map Some (map (shown K) ?new)"
    using cols by (simp add: fetched_def rowFromResult_def shown_def)
  have sw: "sorted_wrt (<) (map dr_id ?w)" using assms(2) by (simp add: waiting_def sorted_wrt_map sorted_wrt_filter)
  have key: "\<forall>r \<in> set ?w. lr_ID (shown K r) = dr_id r \<and> ?i < dr_id r" using assms(3) by (auto simp: waiting_def row_ok_def)
  then have ids: "map lr_ID (map (shown K) ?new) = map dr_id ?new" by (auto dest: in_set_takeD)
  have h2: "sorted_wrt (<) (map lr_ID (map (shown K) ?new))" unfolding ids using sw by (simp add: sorted_wrt_map sorted_wrt_take)
  have h3: "\<forall>r \<in> set (map (shown K) ?new). ?i < lr_ID r" using key by (auto dest: in_set_takeD)
  note p = pollRows_exact [OF h1 ren h2 h3]
  have t: "tl_stream s' = pollRows (te_ui K) (te_render K) (te_cols K) (fetched ?new) (tl_stream s)"
    using assms(5) e res(1) rows by (simp add: s' streamLoop_single pollTick_def)
  have last: "lr_ID (last (map (shown K) ?new)) = dr_id (last ?new)" if "?new \<noteq> []"
    using key in_set_takeD [OF last_in_set [OF that]] by (simp add: last_map [OF that])
  show ?thesis
  proof (rule that [of m])
    show "s' = s\<lparr>tl_stream := tl_stream s'\<rparr>" by (simp add: s')
    show "st_open (tl_stream s')" unfolding t p(1) by (rule assms(5))
    show "st_lastID (tl_stream s') = (if ?new = [] then ?i else dr_id (last ?new))" unfolding t p(2) using last by simp
    show "sw_out (st_sw (tl_stream s')) = sw_out (st_sw (tl_stream s)) @ concat (map (\<lambda>r. frameText (FEvent ''log'' (the (te_render K (shown K r))))) ?new)"
      unfolding t p(3) by (simp add: comp_def)
    show "m \<le> streamPollLimit" "m \<le> length ?w" using m(1) by (simp_all add: out)
    show "0 < m" if "?w \<noteq> []" using m(2) that by (simp add: out streamPollLimit_def)
    show "m = min streamPollLimit (length ?w)" if "total_bytes (fetched (take streamPollLimit ?w)) < MaxResultBytes"
      using m(3) that by (simp add: out fetched_bind min.commute)
  qed
qed

lemma tail_inv_poll:
  assumes "tail_ok K" and "tail_inv K a written s" and "poll_step K s s'" and "st_open (tl_stream s)"
  obtains m where "tail_inv K a (written @ take m (waiting K s)) s'" "waiting K s' = drop m (waiting K s)" "st_open (tl_stream s')"
    "m \<le> streamPollLimit" "m \<le> length (waiting K s)" "waiting K s \<noteq> [] \<Longrightarrow> 0 < m"
    "total_bytes (fetched (take streamPollLimit (waiting K s))) < MaxResultBytes \<Longrightarrow> m = min streamPollLimit (length (waiting K s))"
proof -
  let ?i = "st_lastID (tl_stream s)" and ?w = "waiting K s"
  have so: "sorted_wrt (<) (map dr_id (tl_table s))" and ok: "\<forall>r \<in> set (tl_table s). row_ok K r"
    and t: "table_inv K a s" and c: "cursor_inv K a written s" and f: "frames_of K written (sw_out (st_sw (tl_stream s)))"
    using assms(2) by (simp_all add: tail_inv_def table_inv_def)
  from poll_effect [OF assms(1) so ok assms(3,4)] obtain m where s': "s' = s\<lparr>tl_stream := tl_stream s'\<rparr>" and o: "st_open (tl_stream s')"
    and l: "st_lastID (tl_stream s') = (if take m ?w = [] then ?i else dr_id (last (take m ?w)))"
    and out: "sw_out (st_sw (tl_stream s')) = sw_out (st_sw (tl_stream s)) @ concat (map (\<lambda>r. frameText (FEvent ''log'' (the (te_render K (shown K r))))) (take m ?w))"
    and m: "m \<le> streamPollLimit" "m \<le> length ?w" "?w \<noteq> [] \<Longrightarrow> 0 < m"
      "total_bytes (fetched (take streamPollLimit ?w)) < MaxResultBytes \<Longrightarrow> m = min streamPollLimit (length ?w)" by blast
  let ?j = "st_lastID (tl_stream s')" and ?new = "take m ?w"
  have tab: "tl_table s' = tl_table s" "tl_arrived s' = tl_arrived s" by (subst s', simp)+
  have sw: "sorted_wrt (<) (map dr_id ?w)" using so by (simp add: waiting_def sorted_wrt_map sorted_wrt_filter)
  have gt: "\<forall>r \<in> set ?w. ?i < dr_id r" by (simp add: waiting_def)
  note split = sorted_take_last [OF sw gt l]
  have w': "waiting K s' = drop m ?w"
  proof -
    have "waiting K s' = filter (\<lambda>r. ?j < dr_id r) ?w"
      using split(3) by (auto simp: waiting_def tab intro!: filter_cong)
    then show ?thesis using split(1) by simp
  qed
  have new: "r \<in> set (tl_table s) \<and> matches K r \<and> ?i < dr_id r" if "r \<in> set ?new" for r
    using in_set_takeD [OF that] by (simp add: waiting_def)
  have bound: "?j \<le> maxID (tl_table s)"
  proof (cases "?new = []")
    case True
    then show ?thesis using c l by (simp add: cursor_inv_def)
  next
    case False
    then show ?thesis using l maxID_ge new [OF last_in_set [OF False]] by simp
  qed
  have old: "\<forall>r \<in> set written. r \<in> set (tl_arrived s) \<and> matches K r \<and> dr_id r \<le> ?i" and ai: "a \<le> ?i" and sorted: "sorted_wrt (<) (map dr_id written)"
    using c by (simp_all add: cursor_inv_def)
  have "sorted_wrt (<) (map dr_id (written @ ?new))"
    unfolding map_append sorted_wrt_append using sorted sw old new by (auto simp: sorted_wrt_map sorted_wrt_take intro: le_less_trans)
  moreover have "r \<in> set (tl_arrived s) \<and> matches K r \<and> dr_id r \<le> ?j" if "r \<in> set (written @ ?new)" for r
  proof (cases "r \<in> set written")
    case True
    with old split(3) show ?thesis by force
  next
    case False
    with that have r: "r \<in> set ?new" by simp
    with new [OF r] t ai split(2) show ?thesis by (auto simp: table_inv_def)
  qed
  moreover have "r \<in> set (written @ ?new)" if r: "r \<in> set (tl_table s)" "matches K r" "a < dr_id r" "dr_id r \<le> ?j" for r
  proof (cases "dr_id r \<le> ?i")
    case True
    then show ?thesis using r c by (simp add: cursor_inv_def)
  next
    case False
    then have "r \<in> set ?w" using r by (simp add: waiting_def)
    moreover have "r \<notin> set (drop m ?w)" using r(4) unfolding split(1) [symmetric] by simp
    ultimately show ?thesis by (metis Un_iff append_take_drop_id set_append)
  qed
  ultimately have "cursor_inv K a (written @ ?new) s'" unfolding cursor_inv_def tab using bound ai split(3) by simp
  moreover have "table_inv K a s'" using t by (simp add: table_inv_def tab)
  moreover have "frames_of K (written @ ?new) (sw_out (st_sw (tl_stream s')))" unfolding out by (rule frames_rows [OF f])
  ultimately have "tail_inv K a (written @ ?new) s'" by (simp add: tail_inv_def)
  from that [OF this w' o m] show ?thesis .
qed


lemma tail_inv_insert:
  assumes "tail_inv K a written s" and "map dr_id rs = map (\<lambda>k. maxID (tl_table s) + 1 + int k) [0..<length rs]" and "\<forall>r \<in> set rs. row_ok K r"
  shows "tail_inv K a written (s\<lparr>tl_table := tl_table s @ rs, tl_arrived := tl_arrived s @ rs\<rparr>)"
proof -
  let ?s = "s\<lparr>tl_table := tl_table s @ rs, tl_arrived := tl_arrived s @ rs\<rparr>"
  have t: "table_inv K a s" and c: "cursor_inv K a written s" using assms(1) by (simp_all add: tail_inv_def)
  have "\<forall>i \<in> set (map dr_id rs). maxID (tl_table s) < i" unfolding assms(2) by auto
  then have new: "\<forall>r \<in> set rs. maxID (tl_table s) < dr_id r" by simp
  have "sorted_wrt (<) (map dr_id rs)"
    unfolding assms(2) sorted_wrt_map by (rule sorted_wrt_mono_rel [OF _ sorted_wrt_upt]) simp
  then have "sorted_wrt (<) (map dr_id (tl_table s @ rs))"
    unfolding map_append sorted_wrt_append using t new maxID_ge by (auto simp: table_inv_def intro: le_less_trans)
  moreover have "a \<le> maxID (tl_table s)" using c by (auto simp: cursor_inv_def)
  ultimately have "table_inv K a ?s" using t assms(3) new by (auto simp: table_inv_def)
  moreover have "\<not> dr_id r \<le> st_lastID (tl_stream s)" if "r \<in> set rs" for r using new that c by (auto simp: cursor_inv_def)
  then have "cursor_inv K a written ?s" using c maxID_append [of "tl_table s" rs] by (auto simp: cursor_inv_def)
  ultimately show ?thesis using assms(1) by (simp add: tail_inv_def)
qed




lemma tail_inv_start:
  assumes "sorted_wrt (<) (map dr_id rows)" and "\<forall>r \<in> set rows. row_ok K r"
  shows "tail_inv K (maxID rows) [] (tail_start rows)"
proof -
  have "\<not> maxID rows < dr_id r" if "r \<in> set rows" for r using maxID_ge [OF that] by simp
  with assms have "table_inv K (maxID rows) (tail_start rows)" "cursor_inv K (maxID rows) [] (tail_start rows)"
    by (auto simp: table_inv_def cursor_inv_def tail_start_def)
  moreover have "frames_of K [] []" unfolding frames_of_def by (rule exI [of _ "[]"]) simp
  ultimately show ?thesis by (simp add: tail_inv_def tail_start_def newWriter_def)
qed




section \<open>Samples\<close>

definition tail_sqlp :: sqlp where
  "tail_sqlp = sqlp_sample\<lparr>parse_statements :=
     (\<lambda>q. Inr [SelectStmt (if q = streamTemplate then stmt_sample\<lparr>sel_OrderingTerms := [(Ident ''id'', True)]\<rparr> else stmt_sample)])\<rparr>"

definition tail_sample :: tail_env where
  "tail_sample = \<lparr>te_ui = ui_sample\<lparr>ue_sqlp := tail_sqlp\<rparr>, te_render = (\<lambda>r. Some (lr_Raw r)), te_cols = logViewerColumns, te_from = (\<lambda>r. True),
     te_query = validated_sample, te_poll = projr (ApplyStreamCursor tail_sqlp (int streamPollLimit) validated_sample)\<rparr>"

definition tail_row :: "int \<Rightarrow> string \<Rightarrow> db_row" where
  "tail_row i raw = \<lparr>dr_id = i, dr_ts = 5,
     dr_sql = \<lparr>col = (\<lambda>c. if c = ''id'' then SInt i else if c = ''timestamp'' then SInt 5 else SNull), base_val = (\<lambda>e. SNull), base_tri = (\<lambda>e. None)\<rparr>,
     dr_cells = [CInt i, CInt 5, CInt 5, CNull, CText ''api'', CText ''h'', CNull, CNull, CText raw]\<rparr>"

lemma tail_sample_ok: "tail_ok tail_sample"
proof -
  have c: "list_all (\<lambda>c. colIdx logViewerColumns c \<noteq> None) logViewerColumns" by code_simp
  have m: "mustParse tail_sqlp streamTemplate = Some (stmt_sample\<lparr>sel_OrderingTerms := [(Ident ''id'', True)]\<rparr>)"
    by (simp add: mustParse_def tail_sqlp_def)
  then obtain v where "ApplyStreamCursor tail_sqlp (int streamPollLimit) validated_sample = Ok v"
    by (simp add: ApplyStreamCursor_def with_template_def validated_sample_def flip: streamTemplate_def)
  moreover have "stream_template_ok tail_sqlp" using m by (simp add: stream_template_ok_def)
  moreover have "\<not> stmt_binds (v_stmt validated_sample)" by (simp add: stmt_binds_def validated_sample_def stmt_sample_def)
  ultimately show ?thesis using c by (simp add: tail_ok_def tail_sample_def)
qed

lemma tail_row_shown: "shown tail_sample (tail_row i raw) =
    \<lparr>lr_ID = i, lr_Ts = 5, lr_Level = None, lr_Service = ''api'', lr_Host = ''h'', lr_Message = raw, lr_Raw = raw\<rparr>"
  by (simp add: shown_def tail_row_def tail_sample_def viewerRow_def cell_at_def colIdx_def logViewerColumns_def Let_def)

lemma tail_row_ok: "row_ok tail_sample (tail_row i raw)" "matches tail_sample (tail_row i raw)" "dr_id (tail_row i raw) = i"
  "rowEvent tail_sample (tail_row i raw) = (''log'', noCR raw)"
  using tail_row_shown [of i raw]
  by (simp_all add: row_ok_def keyed_row_def tail_row_def matches_def selects_def tail_sample_def validated_sample_def stmt_sample_def rowEvent_def)

lemma poll_exists: "tail_ok K \<Longrightarrow> tail_inv K a written s \<Longrightarrow> \<exists>s'. poll_step K s s'"
  using poll_answered [of "ue_sqlp (te_ui K)" streamPollLimit "te_query K" "te_poll K" "filter (te_from K) (tl_table s)" "st_lastID (tl_stream s)"]
  by (auto simp: poll_step_def tail_ok_def tail_inv_def table_inv_def row_ok_def streamPollLimit_def sorted_wrt_map sorted_wrt_filter)

lemma inserted:
  assumes "map dr_id rs = map (\<lambda>k. 1 + int k) [0..<length rs]" and "\<forall>r \<in> set rs. row_ok K r"
  shows "tail_step K keep (tail_start []) ((tail_start [])\<lparr>tl_table := rs, tl_arrived := rs\<rparr>)"
    and "tail_inv K 0 [] ((tail_start [])\<lparr>tl_table := rs, tl_arrived := rs\<rparr>)"
proof -
  have m: "map dr_id rs = map (\<lambda>k. maxID (tl_table (tail_start [])) + 1 + int k) [0..<length rs]" using assms(1) by (simp add: tail_start_def maxID_def)
  show "tail_step K keep (tail_start []) ((tail_start [])\<lparr>tl_table := rs, tl_arrived := rs\<rparr>)"
    using tail_step.insert [OF m assms(2)] by (simp add: tail_start_def)
  show "tail_inv K 0 [] ((tail_start [])\<lparr>tl_table := rs, tl_arrived := rs\<rparr>)"
    using tail_inv_insert [OF tail_inv_start [of "[]" K] m assms(2)] by (simp add: tail_start_def maxID_def)
qed


text \<open>
  The condition on deletions is needed. A log with an old timestamp arrives and is shown, the retention sweep deletes it while it has the greatest
  id, and the next log gets its id: the cursor has passed it already, and it is never shown.
\<close>

theorem reused_id_skipped:
  "\<exists>s. (tail_step tail_sample False)\<^sup>*\<^sup>* (tail_start []) s \<and> st_open (tl_stream s) \<and> tl_table s = [tail_row 1 ''b'']
    \<and> matches tail_sample (tail_row 1 ''b'') \<and> decode (sw_out (st_sw (tl_stream s))) = [(''log'', ''a'')] \<and> waiting tail_sample s = []"
proof -
  let ?a = "tail_row 1 ''a''" and ?b = "tail_row 1 ''b''" and ?s = "(tail_start [])\<lparr>tl_table := [tail_row 1 ''a''], tl_arrived := [tail_row 1 ''a'']\<rparr>"
  have ins: "tail_step tail_sample False (tail_start []) ?s" "tail_inv tail_sample 0 [] ?s"
    by (rule inserted; simp add: tail_row_ok)+
  obtain s1 where p: "poll_step tail_sample ?s s1" using poll_exists [OF tail_sample_ok ins(2)] by blast
  have w: "waiting tail_sample ?s = [?a]" by (simp add: waiting_def tail_row_ok tail_start_def maxID_def)
  have "st_open (tl_stream ?s)" by (simp add: tail_start_def)
  from tail_inv_poll [OF tail_sample_ok ins(2) p this] obtain m where "tail_inv tail_sample 0 ([] @ take m (waiting tail_sample ?s)) s1"
    and "waiting tail_sample ?s \<noteq> [] \<Longrightarrow> 0 < m" and o: "st_open (tl_stream s1)" by blast
  then have i: "tail_inv tail_sample 0 [?a] s1" unfolding w by (cases m) simp_all
  have tab: "tl_table s1 = [?a]" using p by (auto simp: poll_step_def)
  let ?s2 = "s1\<lparr>tl_table := []\<rparr>" and ?s3 = "s1\<lparr>tl_table := [?b], tl_arrived := tl_arrived s1 @ [?b]\<rparr>"
  have "tail_step tail_sample False s1 ?s2" using tail_step.delete [of False "\<lambda>r. False" s1 tail_sample] by simp
  moreover have "tail_step tail_sample False ?s2 ?s3"
    using tail_step.insert [of "[?b]" ?s2 tail_sample False] by (simp add: maxID_def tail_row_ok)
  ultimately have "(tail_step tail_sample False)\<^sup>*\<^sup>* (tail_start []) ?s3"
    using ins(1) tail_step.poll [OF p] by (meson converse_rtranclp_into_rtranclp r_into_rtranclp)
  moreover have "waiting tail_sample ?s3 = []" using i by (simp add: waiting_def tail_inv_def cursor_inv_def tail_row_ok)
  moreover have "decode (sw_out (st_sw (tl_stream ?s3))) = [(''log'', ''a'')]"
    using tail_inv_decode [OF i] by (simp add: tail_row_ok noCR_def)
  ultimately show ?thesis using o by (intro exI [of _ ?s3]) (simp add: tail_row_ok)
qed

end
