(* ===== verification/Settings_Pages.thy ===== *)
theory Settings_Pages
  imports Ui_Base Retention Backup Scrape Api_Keys
begin

text \<open>
  The settings page, \<open>ui/settings.go\<close> and the key handlers of \<open>ui/router.go\<close>: retention,
  backups, notification channels, scrape targets and API keys. The forms become sequences of \<open>Set\<close> on
  the settings store. Go ranges over the map of plain settings in any order; the keys are distinct, so the
  order does not matter. A failing metadata database is outside the model.
\<close>

record settings_env =
  se_cipher :: cipher
  se_key :: bytes
  se_nonce :: "string \<Rightarrow> bytes"
  se_now :: int
  se_backup :: backup_world
  se_parseURL :: "string \<Rightarrow> url_parts option"
  se_hostname :: "string \<Rightarrow> string option"

abbreviation saved :: "settings_env \<Rightarrow> (string \<times> string \<times> bool) list \<Rightarrow> settings \<Rightarrow> settings" where
  "saved S kvs \<equiv> fold (set_exec (se_cipher S) (se_key S)) (map (\<lambda>(k, v, enc). SetOp (se_nonce S k) (se_now S) k v enc) kvs)"

definition getS :: "settings_env \<Rightarrow> settings \<Rightarrow> string \<Rightarrow> string" where
  "getS S s k = getOrEmpty (se_cipher S) (se_key S) s k"

section \<open>Backups\<close>

record BackupView =
  bv_Enabled :: bool
  bv_Schedule :: string
  bv_Endpoint :: string
  bv_Region :: string
  bv_Bucket :: string
  bv_Prefix :: string
  bv_CredsSet :: bool
  bv_LastRunAt :: int
  bv_LastResult :: string

definition backupView :: "settings_env \<Rightarrow> settings \<Rightarrow> BackupView" where
  "backupView S s =
     (let sched = getS S s ''backup.schedule''
      in \<lparr>bv_Enabled = (ParseBool (getS S s ''backup.enabled'') = Some True),
          bv_Schedule = (if sched = [] then BackupDefaultSchedule else sched),
          bv_Endpoint = getS S s ''backup.s3_endpoint'', bv_Region = getS S s ''backup.s3_region'', bv_Bucket = getS S s ''backup.s3_bucket'',
          bv_Prefix = getS S s ''backup.s3_prefix'',
          bv_CredsSet = (IsSet ''backup.s3_access_key'' s \<and> IsSet ''backup.s3_secret_key'' s),
          bv_LastRunAt = ParseIntVal (getS S s ''backup.last_run_at''), bv_LastResult = getS S s ''backup.last_result''\<rparr>)"

datatype form_message = MUnreadable | MNotCron | MSaved | MDays

text \<open>What a blank field leaves: nothing is written for it.\<close>

definition keepBlank :: "string \<Rightarrow> string \<Rightarrow> bool \<Rightarrow> (string \<times> string \<times> bool) list" where
  "keepBlank key v enc = (let t = TrimSpace v in if t \<noteq> [] then [(key, t, enc)] else [])"

definition backupWrites :: "(string \<Rightarrow> string) \<Rightarrow> string \<Rightarrow> (string \<times> string \<times> bool) list" where
  "backupWrites form schedule =
     [(''backup.enabled'', if form ''enabled'' \<noteq> [] then ''true'' else ''false'', False),
      (''backup.schedule'', schedule, False),
      (''backup.s3_endpoint'', TrimSpace (form ''endpoint''), False),
      (''backup.s3_region'', TrimSpace (form ''region''), False),
      (''backup.s3_bucket'', TrimSpace (form ''bucket''), False),
      (''backup.s3_prefix'', TrimSet (TrimSpace (form ''prefix'')) ''/'', False)]
     @ keepBlank ''backup.s3_access_key'' (form ''access_key'') True
     @ keepBlank ''backup.s3_secret_key'' (form ''secret_key'') True"

definition updateBackupSettings :: "settings_env \<Rightarrow> ui_request \<Rightarrow> settings \<Rightarrow> (BackupView \<times> form_message \<times> bool) reply \<times> settings" where
  "updateBackupSettings S req s =
     (case rq_form req of
        None \<Rightarrow> (Render 200 (backupView S s, MUnreadable, False), s)
      | Some form \<Rightarrow>
         let sched0 = TrimSpace (form ''schedule''); sched = (if sched0 = [] then BackupDefaultSchedule else sched0)
         in if \<not> ValidateCron (se_backup S) sched then (Render 200 (backupView S s, MNotCron, False), s)
            else let s' = saved S (backupWrites form sched) s in (Render 200 (backupView S s', MSaved, True), s'))"

section \<open>Retention\<close>

definition retentionFields :: "(string \<times> string \<times> int) list" where
  "retentionFields = [(''logs_days'', ''retention.logs_days'', RetentionDefaultLogsDays),
     (''metrics_days'', ''retention.metrics_days'', RetentionDefaultMetricsDays),
     (''alert_firings_days'', ''retention.alert_firings_days'', RetentionDefaultFiringsDays)]"

definition retentionDays :: "settings_env \<Rightarrow> settings \<Rightarrow> int list" where
  "retentionDays S s = map (\<lambda>(f, k, d). RetentionDays (se_cipher S) (se_key S) s k d) retentionFields"

definition daysField :: "(string \<Rightarrow> string) \<Rightarrow> string \<Rightarrow> int option" where
  "daysField form f =
     (case ParseInt (TrimSpace (form f)) of
        None \<Rightarrow> None
      | Some n \<Rightarrow> if n < RetentionMinDays \<or> n > RetentionMaxDays then None else Some n)"

definition updateRetentionSettings :: "settings_env \<Rightarrow> ui_request \<Rightarrow> settings \<Rightarrow> (int list \<times> form_message \<times> bool) reply \<times> settings" where
  "updateRetentionSettings S req s =
     (let cur = retentionDays S s
      in case rq_form req of
           None \<Rightarrow> (Render 200 (cur, MUnreadable, False), s)
         | Some form \<Rightarrow>
             (case those (map (\<lambda>(f, k, d). daysField form f) retentionFields) of
                None \<Rightarrow> (Render 200 (cur, MDays, False), s)
              | Some ns \<Rightarrow>
                  (Render 200 (ns, MSaved, True),
                   saved S (map (\<lambda>((f, k, d), n). (k, itoa n, False)) (zip retentionFields ns)) s)))"

section \<open>Notification channels\<close>

definition savePushover :: "settings_env \<Rightarrow> ui_request \<Rightarrow> settings \<Rightarrow> unit reply \<times> settings" where
  "savePushover S req s =
     (Redirect 303 ''/settings'',
      case rq_form req of
        None \<Rightarrow> s
      | Some form \<Rightarrow> saved S (keepBlank ''pushover.app_token'' (form ''app_token'') True @ keepBlank ''pushover.user_key'' (form ''user_key'') True) s)"

definition saveCampfire :: "settings_env \<Rightarrow> ui_request \<Rightarrow> settings \<Rightarrow> unit reply \<times> settings" where
  "saveCampfire S req s =
     (Redirect 303 ''/settings'',
      case rq_form req of
        None \<Rightarrow> s
      | Some form \<Rightarrow> saved S (keepBlank ''campfire.base_url'' (form ''base_url'') False @ keepBlank ''campfire.bot_key'' (form ''bot_key'') True) s)"

datatype test_message = TestOk | TestFailed notify_error | TestNoRoom

definition renderChannelTest :: "(notify_error, unit) result \<Rightarrow> test_message reply" where
  "renderChannelTest r = Render 200 (case r of Inl e \<Rightarrow> TestFailed e | Inr _ \<Rightarrow> TestOk)"

definition testPushover :: "settings_env \<Rightarrow> notify_env \<Rightarrow> settings \<Rightarrow> test_message reply" where
  "testPushover S N s = renderChannelTest (TestPushover N (se_cipher S) (se_key S) s)"

definition testCampfire :: "settings_env \<Rightarrow> notify_env \<Rightarrow> ui_request \<Rightarrow> settings \<Rightarrow> test_message reply" where
  "testCampfire S N req s =
     (case ParseInt (case rq_form req of None \<Rightarrow> [] | Some form \<Rightarrow> form ''room_id'') of
        Some roomID \<Rightarrow> if roomID \<le> 0 then Render 200 TestNoRoom else renderChannelTest (TestCampfire N (se_cipher S) (se_key S) s roomID)
      | None \<Rightarrow> Render 200 TestNoRoom)"

section \<open>Scrape targets and keys\<close>

definition targetFromForm :: "settings_env \<Rightarrow> (string \<Rightarrow> string) \<Rightarrow> ScrapeTarget" where
  "targetFromForm S form =
     (let url = TrimSpace (form ''url'')
      in \<lparr>sc_Service = form ''service'',
          sc_Host = (if TrimSpace (form ''host'') = [] then (case se_hostname S url of Some h \<Rightarrow> h | None \<Rightarrow> form ''host'') else form ''host''),
          sc_URL = url, sc_AuthHeader = form ''auth_header'', sc_IntervalMs = i64 (ParseIntVal (form ''interval_s'') * 1000), sc_Enabled = True,
          sc_LastScrapedAt = None, sc_LastError = None, sc_LastErrorAt = None, sc_CreatedAt = 0\<rparr>)"

datatype target_view = TSettingsPage target_error | TSection "(int \<times> ScrapeTarget) list"

definition createScrapeTarget :: "settings_env \<Rightarrow> ui_request \<Rightarrow> target_row table \<Rightarrow> target_view reply \<times> target_row table" where
  "createScrapeTarget S req tbl =
     (case rq_form req of
        None \<Rightarrow> (Redirect 303 ''/settings'', tbl)
      | Some form \<Rightarrow>
         (case CreateTarget (se_parseURL S) (se_cipher S) (se_key S) (se_nonce S ''scrape'') (se_now S) (targetFromForm S form) tbl of
            Inl e \<Rightarrow>
              (case ListTargets (se_cipher S) (se_key S) tbl of
                 Inl _ \<Rightarrow> (Plain 500 sideways, tbl)
               | Inr _ \<Rightarrow> (Render 400 (TSettingsPage e), tbl))
          | Inr tbl' \<Rightarrow> (Redirect 303 ''/settings'', tbl')))"

definition renderScrapeTargetsSection :: "settings_env \<Rightarrow> target_row table \<Rightarrow> target_view reply" where
  "renderScrapeTargetsSection S tbl =
     (case ListTargets (se_cipher S) (se_key S) tbl of Inl _ \<Rightarrow> Plain 500 sideways | Inr ts \<Rightarrow> Render 200 (TSection ts))"

definition toggleScrapeTarget :: "settings_env \<Rightarrow> ui_request \<Rightarrow> target_row table \<Rightarrow> target_view reply \<times> target_row table" where
  "toggleScrapeTarget S req tbl =
     (case ParseInt (rq_param req ''id'') of
        None \<Rightarrow> (Bare 400, tbl)
      | Some i \<Rightarrow>
         (case ListTargets (se_cipher S) (se_key S) tbl of
            Inl _ \<Rightarrow> (Plain 500 sideways, tbl)
          | Inr ts \<Rightarrow>
              let tbl' = (case find (\<lambda>(j, t). j = i) ts of
                     None \<Rightarrow> tbl
                   | Some (j, t) \<Rightarrow> (case SetEnabled i (\<not> sc_Enabled t) tbl of Inl _ \<Rightarrow> tbl | Inr tbl' \<Rightarrow> tbl'))
              in (renderScrapeTargetsSection S tbl', tbl')))"

definition deleteScrapeTarget :: "settings_env \<Rightarrow> ui_request \<Rightarrow> target_row table \<Rightarrow> target_view reply \<times> target_row table" where
  "deleteScrapeTarget S req tbl =
     (case ParseInt (rq_param req ''id'') of
        None \<Rightarrow> (Bare 400, tbl)
      | Some i \<Rightarrow> let tbl' = DeleteTarget i tbl in (renderScrapeTargetsSection S tbl', tbl'))"

section \<open>What a form changes\<close>

lemma get_saved:
  assumes "cipher_ok (se_cipher S)" and "\<forall>k. length (se_nonce S k) = gcm_nonce_size (se_cipher S)"
  shows "Settings_Store.Get (se_cipher S) (se_key S) k (saved S kvs s) =
    (case map_of (rev (map (\<lambda>(k, v, e). (k, v)) kvs)) k of Some v \<Rightarrow> Ok v | None \<Rightarrow> Settings_Store.Get (se_cipher S) (se_key S) k s)"
proof -
  let ?ops = "map (\<lambda>(k, v, enc). SetOp (se_nonce S k) (se_now S) k v enc) kvs"
  have "\<forall>x \<in> set ?ops. cipher_ok (se_cipher S) \<and> length (set_nonce x) = gcm_nonce_size (se_cipher S)" using assms by auto
  note g = settings.get_execs [OF this, of "se_key S" k s]
  have o: "map (\<lambda>x. (set_key x, Ok (set_value x))) ?ops = map (\<lambda>(k, v). (k, Ok v)) (map (\<lambda>(k, v, e). (k, v)) kvs)"
    by (simp add: comp_def case_prod_beta)
  have r: "map_of (rev (map (\<lambda>(k, v). (k, Ok v)) xs)) k = map_option Ok (map_of (rev xs) k)" for xs :: "(string \<times> string) list"
    by (simp add: map_of_map rev_map)
  show ?thesis unfolding g o r by (cases "map_of (rev (map (\<lambda>(k, v, e). (k, v)) kvs)) k") simp_all
qed

datatype settings_form = FormBackup | FormRetention | FormPushover | FormCampfire

definition submit :: "settings_env \<Rightarrow> settings_form \<Rightarrow> ui_request \<Rightarrow> settings \<Rightarrow> settings" where
  "submit S f req s =
     (case f of
        FormBackup \<Rightarrow> snd (updateBackupSettings S req s)
      | FormRetention \<Rightarrow> snd (updateRetentionSettings S req s)
      | FormPushover \<Rightarrow> snd (savePushover S req s)
      | FormCampfire \<Rightarrow> snd (saveCampfire S req s))"

text \<open>The settings that hold secrets, with the form and the field in which each is typed.\<close>

definition secretFields :: "(string \<times> settings_form \<times> string) list" where
  "secretFields = [(''pushover.app_token'', FormPushover, ''app_token''), (''pushover.user_key'', FormPushover, ''user_key''),
     (''campfire.bot_key'', FormCampfire, ''bot_key''),
     (''backup.s3_access_key'', FormBackup, ''access_key''), (''backup.s3_secret_key'', FormBackup, ''secret_key'')]"

text \<open>A readable form is refused only when it is the backup form with a schedule that is not a cron line.\<close>

definition refused :: "settings_env \<Rightarrow> settings_form \<Rightarrow> (string \<Rightarrow> string) \<Rightarrow> bool" where
  "refused S f form \<longleftrightarrow> f = FormBackup
     \<and> \<not> ValidateCron (se_backup S) (if TrimSpace (form ''schedule'') = [] then BackupDefaultSchedule else TrimSpace (form ''schedule''))"

lemma retention_keys_plain:
  assumes "(k, F, field) \<in> set secretFields"
  shows "map_of (rev (map (\<lambda>(k, v, e). (k, v)) (map (\<lambda>((f, k, d), n). (k, itoa n, False)) (zip retentionFields ns)))) k = None"
proof -
  have "k' \<noteq> k" if "((f, k', d), n) \<in> set (zip retentionFields ns)" for f k' d n
    using set_zip_leftD [OF that] assms by (auto simp: retentionFields_def secretFields_def)
  then have "k \<notin> fst ` set (rev (map (\<lambda>(k, v, e). (k, v)) (map (\<lambda>((f, k, d), n). (k, itoa n, False)) (zip retentionFields ns))))" by force
  then show ?thesis unfolding map_of_eq_None_iff .
qed

lemma keepBlank_lookup:
  "map_of (rev (map (\<lambda>(k, v, e). (k, v)) (kvs @ keepBlank key v enc))) k =
     (if k = key \<and> TrimSpace v \<noteq> [] then Some (TrimSpace v) else map_of (rev (map (\<lambda>(k, v, e). (k, v)) kvs)) k)"
  by (auto simp: keepBlank_def Let_def)

lemmas keepBlank_first = keepBlank_lookup [where kvs = "[]", simplified append.left_neutral]

lemma secretFields_cases:
  assumes "(k, F, field) \<in> set secretFields"
  obtains "k = ''pushover.app_token''" "F = FormPushover" "field = ''app_token''"
    | "k = ''pushover.user_key''" "F = FormPushover" "field = ''user_key''"
    | "k = ''campfire.bot_key''" "F = FormCampfire" "field = ''bot_key''"
    | "k = ''backup.s3_access_key''" "F = FormBackup" "field = ''access_key''"
    | "k = ''backup.s3_secret_key''" "F = FormBackup" "field = ''secret_key''"
  using assms unfolding secretFields_def list.set insert_iff prod.inject empty_iff
  by (elim disjE conjE FalseE) (rule that; assumption)+

lemma backup_lookup:
  assumes "(k, F, field) \<in> set secretFields"
  shows "map_of (rev (map (\<lambda>(k, v, e). (k, v)) (backupWrites form sched))) k =
    (if F = FormBackup \<and> TrimSpace (form field) \<noteq> [] then Some (TrimSpace (form field)) else None)"
  using assms unfolding backupWrites_def append_assoc [symmetric] keepBlank_lookup by (cases rule: secretFields_cases) simp_all

lemma channel_lookup:
  assumes "(k, F, field) \<in> set secretFields"
  shows "map_of (rev (map (\<lambda>(k, v, e). (k, v)) (keepBlank ''pushover.app_token'' (form ''app_token'') True @ keepBlank ''pushover.user_key'' (form ''user_key'') True))) k =
      (if F = FormPushover \<and> TrimSpace (form field) \<noteq> [] then Some (TrimSpace (form field)) else None)"
    and "map_of (rev (map (\<lambda>(k, v, e). (k, v)) (keepBlank ''campfire.base_url'' (form ''base_url'') False @ keepBlank ''campfire.bot_key'' (form ''bot_key'') True))) k =
      (if F = FormCampfire \<and> TrimSpace (form field) \<noteq> [] then Some (TrimSpace (form field)) else None)"
  using assms unfolding keepBlank_lookup keepBlank_first by (cases rule: secretFields_cases; simp)+

text \<open>
  C36: saving a form never loses a secret. Whatever a settings form contains, each stored credential reads
  afterwards exactly as before, unless the form is the one the credential belongs to, is accepted, and has
  something other than blanks in the credential's own field: then it reads as the trimmed text of that field. So a blank field never
  erases or replaces a secret, and no field writes another field's secret.
\<close>

theorem secrets_never_wiped:
  assumes "cipher_ok (se_cipher S)" and "\<forall>k. length (se_nonce S k) = gcm_nonce_size (se_cipher S)" and "(k, F, field) \<in> set secretFields"
  shows "Settings_Store.Get (se_cipher S) (se_key S) k (submit S f req s) =
    (case rq_form req of
       Some form \<Rightarrow> if f = F \<and> \<not> refused S f form \<and> TrimSpace (form field) \<noteq> [] then Ok (TrimSpace (form field))
                    else Settings_Store.Get (se_cipher S) (se_key S) k s
     | None \<Rightarrow> Settings_Store.Get (se_cipher S) (se_key S) k s)"
proof (cases "rq_form req")
  case None
  then show ?thesis
    by (cases f) (simp_all add: submit_def updateBackupSettings_def updateRetentionSettings_def savePushover_def saveCampfire_def)
next
  case (Some form)
  note g = get_saved [OF assms(1,2)]
  show ?thesis
  proof (cases f)
    case FormBackup
    let ?sched = "if TrimSpace (form ''schedule'') = [] then BackupDefaultSchedule else TrimSpace (form ''schedule'')"
    have u: "submit S f req s = (if ValidateCron (se_backup S) ?sched then saved S (backupWrites form ?sched) s else s)"
      using FormBackup Some by (simp add: submit_def updateBackupSettings_def Let_def)
    have "Settings_Store.Get (se_cipher S) (se_key S) k (saved S (backupWrites form ?sched) s) =
        (if F = FormBackup \<and> TrimSpace (form field) \<noteq> [] then Ok (TrimSpace (form field)) else Settings_Store.Get (se_cipher S) (se_key S) k s)"
      unfolding g backup_lookup [OF assms(3)] by simp
    with u FormBackup Some show ?thesis by (auto simp: refused_def)
  next
    case FormRetention
    have F: "F \<noteq> FormRetention" using assms(3) by (auto simp: secretFields_def)
    have "Settings_Store.Get (se_cipher S) (se_key S) k (submit S f req s) = Settings_Store.Get (se_cipher S) (se_key S) k s"
    proof (cases "those (map (\<lambda>(f, k, d). daysField form f) retentionFields)")
      case None
      then show ?thesis using FormRetention Some by (simp add: submit_def updateRetentionSettings_def)
    next
      case days: (Some ns)
      have "submit S f req s = saved S (map (\<lambda>((f, k, d), n). (k, itoa n, False)) (zip retentionFields ns)) s"
        using FormRetention Some days by (simp add: submit_def updateRetentionSettings_def)
      then show ?thesis by (simp only: g retention_keys_plain [OF assms(3)] option.case)
    qed
    with F show ?thesis using FormRetention Some by simp
  next
    case FormPushover
    have u: "submit S f req s =
        saved S (keepBlank ''pushover.app_token'' (form ''app_token'') True @ keepBlank ''pushover.user_key'' (form ''user_key'') True) s"
      using FormPushover Some by (simp add: submit_def savePushover_def)
    show ?thesis unfolding u g channel_lookup(1) [OF assms(3)] using FormPushover Some by (simp add: refused_def)
  next
    case FormCampfire
    have u: "submit S f req s =
        saved S (keepBlank ''campfire.base_url'' (form ''base_url'') False @ keepBlank ''campfire.bot_key'' (form ''bot_key'') True) s"
      using FormCampfire Some by (simp add: submit_def saveCampfire_def)
    show ?thesis unfolding u g channel_lookup(2) [OF assms(3)] using FormCampfire Some by (simp add: refused_def)
  qed
qed

lemma daysField_range: "daysField form f = Some n \<Longrightarrow> RetentionMinDays \<le> n \<and> n \<le> RetentionMaxDays"
  by (auto simp: daysField_def split: option.splits if_splits)

lemma itoa_nonempty: "itoa n \<noteq> []"
  by (simp add: itoa_def)

lemma RetentionDays_saved:
  assumes "Settings_Store.Get C key k s = Ok (itoa n)" and "RetentionMinDays \<le> n" and "n \<le> RetentionMaxDays"
  shows "RetentionDays C key s k d = n"
proof -
  have "ParseInt (itoa n) = Some n" using assms(2,3) by (intro ParseInt_itoa) (simp_all add: RetentionMinDays_def RetentionMaxDays_def)
  then show ?thesis using assms by (simp add: RetentionDays_def itoa_nonempty)
qed

text \<open>
  The retention form is effective and safe. Either the form is accepted, and then the three numbers
  that were entered are within the allowed range and are exactly what the next sweep will read, or it is
  refused and nothing changes.
\<close>

theorem retention_form_effective:
  assumes "cipher_ok (se_cipher S)" and "\<forall>k. length (se_nonce S k) = gcm_nonce_size (se_cipher S)"
    and "updateRetentionSettings S req s = (Render 200 (ns, msg, ok), s')"
  shows "if ok then retentionDays S s' = ns \<and> list_all (\<lambda>n. RetentionMinDays \<le> n \<and> n \<le> RetentionMaxDays) ns
    else s' = s \<and> ns = retentionDays S s"
proof (cases ok)
  case False
  with assms(3) show ?thesis by (auto simp: updateRetentionSettings_def Let_def split: option.splits)
next
  case True
  with assms(3) obtain form where t: "those (map (\<lambda>(f, k, d). daysField form f) retentionFields) = Some ns"
    and s': "s' = saved S (map (\<lambda>((f, k, d), n). (k, itoa n, False)) (zip retentionFields ns)) s"
    by (auto simp: updateRetentionSettings_def Let_def split: option.splits)
  from t obtain a b c where ns: "ns = [a, b, c]" and f: "daysField form ''logs_days'' = Some a" "daysField form ''metrics_days'' = Some b"
      "daysField form ''alert_firings_days'' = Some c"
    by (auto simp: retentionFields_def split: option.splits)
  note r = f [THEN daysField_range]
  have g: "Settings_Store.Get (se_cipher S) (se_key S) ''retention.logs_days'' s' = Ok (itoa a)"
      "Settings_Store.Get (se_cipher S) (se_key S) ''retention.metrics_days'' s' = Ok (itoa b)"
      "Settings_Store.Get (se_cipher S) (se_key S) ''retention.alert_firings_days'' s' = Ok (itoa c)"
    unfolding s' get_saved [OF assms(1,2)] by (simp_all add: retentionFields_def ns)
  have "retentionDays S s' = ns"
    using RetentionDays_saved [OF g(1)] RetentionDays_saved [OF g(2)] RetentionDays_saved [OF g(3)] r
    by (simp add: retentionDays_def retentionFields_def ns)
  with True r ns show ?thesis by simp
qed

section \<open>Witnesses\<close>

definition settings_env_sample :: settings_env where
  "settings_env_sample = \<lparr>se_cipher = cipher_sample, se_key = key_sample, se_nonce = (\<lambda>_. ''nn''), se_now = 5,
     se_backup = \<lparr>bw_cron = (\<lambda>_. Some (\<lambda>_. True)), bw_mkdir = None, bw_copy = (\<lambda>_. None), bw_open = (\<lambda>_. None), bw_put = (\<lambda>_ _. None)\<rparr>,
     se_parseURL = (\<lambda>_. None), se_hostname = (\<lambda>_. None)\<rparr>"

definition form_request :: "(string \<Rightarrow> string) \<Rightarrow> ui_request" where
  "form_request form = \<lparr>rq_query = (\<lambda>_. []), rq_form = Some form, rq_param = (\<lambda>_. []), rq_header = (\<lambda>_. []), rq_cookie = None\<rparr>"

definition settings_sample :: settings where
  "settings_sample = [''pushover.app_token'' \<mapsto> \<lparr>st_value = ''t'', st_encrypted = False, st_updated = 0\<rparr>]"

lemma sample_nonce: "\<forall>k. length (se_nonce settings_env_sample k) = gcm_nonce_size (se_cipher settings_env_sample)"
    "cipher_ok (se_cipher settings_env_sample)"
  using cipher_sample_ok by (simp_all add: settings_env_sample_def cipher_sample_def)

theorem secrets_never_wiped_witness:
  "Settings_Store.Get (se_cipher settings_env_sample) (se_key settings_env_sample) ''pushover.app_token''
     (submit settings_env_sample FormPushover (form_request (\<lambda>k. if k = ''user_key'' then ''u'' else [])) settings_sample) = Ok ''t''
   \<and> Settings_Store.Get (se_cipher settings_env_sample) (se_key settings_env_sample) ''pushover.user_key''
     (submit settings_env_sample FormPushover (form_request (\<lambda>k. if k = ''user_key'' then ''u'' else [])) settings_sample) = Ok ''u''"
proof -
  let ?req = "form_request (\<lambda>k. if k = ''user_key'' then ''u'' else [])"
  have t: "TrimSpace ''u'' = ''u''" "TrimSpace [] = []" by code_simp+
  have "Settings_Store.Get (se_cipher settings_env_sample) (se_key settings_env_sample) ''pushover.app_token'' settings_sample = Ok ''t''"
    by (simp add: Settings_Store.Get_def settings_sample_def)
  then show ?thesis
    using secrets_never_wiped [OF sample_nonce(2,1), of "''pushover.app_token''" FormPushover "''app_token''" FormPushover ?req settings_sample]
      secrets_never_wiped [OF sample_nonce(2,1), of "''pushover.user_key''" FormPushover "''user_key''" FormPushover ?req settings_sample]
    by (simp add: secretFields_def form_request_def refused_def t)
qed

theorem retention_form_effective_witness:
  "retentionDays settings_env_sample (snd (updateRetentionSettings settings_env_sample (form_request (\<lambda>_. ''7'')) Map.empty)) = [7, 7, 7]"
proof -
  have "TrimSpace ''7'' = ''7''" by code_simp
  moreover have "ParseInt ''7'' = Some 7" by (simp add: ParseInt_def digits_val_def is_digit_def byte_def)
  ultimately have "daysField (\<lambda>_. ''7'') f = Some 7" for f by (simp add: daysField_def RetentionMinDays_def RetentionMaxDays_def)
  then obtain s' where "updateRetentionSettings settings_env_sample (form_request (\<lambda>_. ''7'')) Map.empty = (Render 200 ([7, 7, 7], MSaved, True), s')"
    by (simp add: updateRetentionSettings_def form_request_def retentionFields_def)
  with retention_form_effective [OF sample_nonce(2,1) this] show ?thesis by simp
qed

end
