(* ===== verification/Alert_Pages.thy ===== *)
theory Alert_Pages
  imports Ui_Base Alerts
begin

text \<open>
  The alert pages, \<open>ui/alerts.go\<close>. \<open>ap_marshal\<close> is \<open>json.Marshal\<close> on a target. A failing
  metadata database is outside the model.
\<close>

record alert_pages = alert_env +
  ap_marshal :: "Target \<Rightarrow> string"
  ap_query :: "string \<Rightarrow> row_source"
  ap_string :: "SelectStatement \<Rightarrow> string"
  ap_ui :: ui_env
  ap_publicURL :: string
  ap_now :: int

definition alert_env_of :: "alert_pages \<Rightarrow> alert_env" where
  "alert_env_of P = \<lparr>ae_sql = ae_sql P, ae_notify = ae_notify P, ae_verr = ae_verr P, ae_nerr = ae_nerr P, ae_json = ae_json P\<rparr>"

section \<open>The form\<close>

definition channelStates :: "settings \<Rightarrow> bool \<times> bool" where
  "channelStates s =
     (IsSet ''pushover.app_token'' s \<and> IsSet ''pushover.user_key'' s, IsSet ''campfire.base_url'' s \<and> IsSet ''campfire.bot_key'' s)"

text \<open>
  The type of a stored target. The error of \<open>ParseTarget\<close> is dropped, and the target is what the
  decoder left in it: a target that decodes keeps its type also when it is not valid.
\<close>

definition targetOf :: "notify_env \<Rightarrow> string \<Rightarrow> Target" where
  "targetOf E raw = (case json_target E raw of None \<Rightarrow> json_partial E raw | Some t \<Rightarrow> t)"

definition targetTypeOf :: "notify_env \<Rightarrow> string \<Rightarrow> string" where
  "targetTypeOf E raw = tg_Type (targetOf E raw)"

definition targetFromAlertForm :: "(string \<Rightarrow> string) \<Rightarrow> Target" where
  "targetFromAlertForm form =
     (let t = \<lparr>tg_Type = form ''target_type'', tg_Device = [], tg_Priority = 0, tg_Sound = [], tg_RoomID = 0, tg_WarRoom = (form ''war_room'' \<noteq> [])\<rparr>
      in if tg_Type t = ''pushover''
         then t\<lparr>tg_Device := TrimSpace (form ''po_device''), tg_Priority := ParseIntVal (form ''po_priority''), tg_Sound := TrimSpace (form ''po_sound'')\<rparr>
         else if tg_Type t = ''campfire'' then t\<lparr>tg_RoomID := ParseIntVal (form ''cf_room_id'')\<rparr>
         else t)"

definition emptyAlert :: Alert where
  "emptyAlert = \<lparr>al_Name = [], al_Query = [], al_CheckIntervalMs = 0, al_CooldownMs = 0, al_Target = [], al_Enabled = False,
     al_LastCheckedAt = None, al_LastFiredAt = None, al_CurrentlyFiring = False, al_LastError = None, al_LastErrorAt = None, al_CreatedAt = 0\<rparr>"

text \<open>\<open>None\<close> when the form cannot be read. The products are 64-bit.\<close>

definition alertFromForm :: "alert_pages \<Rightarrow> ui_request \<Rightarrow> Alert option" where
  "alertFromForm P req =
     (case rq_form req of
        None \<Rightarrow> None
      | Some form \<Rightarrow> Some (emptyAlert\<lparr>al_Name := form ''name'', al_Query := TrimSpace (form ''query''),
          al_CheckIntervalMs := i64 (ParseIntVal (form ''interval_s'') * 1000), al_CooldownMs := i64 (ParseIntVal (form ''cooldown_m'') * 60000),
          al_Enabled := (form ''enabled'' \<noteq> []), al_Target := ap_marshal P (targetFromAlertForm form)\<rparr>))"

definition channelConfigured :: "notify_env \<Rightarrow> settings \<Rightarrow> string \<Rightarrow> bool" where
  "channelConfigured E s raw =
     (case ParseTarget E raw of
        Inl _ \<Rightarrow> False
      | Inr t \<Rightarrow> (case channelStates s of (po, cf) \<Rightarrow> tg_Type t = ''pushover'' \<and> po \<or> tg_Type t = ''campfire'' \<and> cf))"

section \<open>The handlers\<close>

datatype alert_message = MNone | MChannel | MChannelFirst | MForm | MAlert alert_error

record AlertsView =
  av_Alerts :: "(int \<times> Alert) list"
  av_ErrMsg :: alert_message
  av_PushoverConfigured :: bool
  av_CampfireConfigured :: bool
  av_WarRoomAvailable :: bool

text \<open>The view and whether only the region is rendered.\<close>

definition renderAlerts :: "alert_pages \<Rightarrow> ui_request \<Rightarrow> settings \<Rightarrow> alert_store \<Rightarrow> alert_message \<Rightarrow> (AlertsView \<times> bool) reply" where
  "renderAlerts P req s st msg =
     (case channelStates s of
        (po, cf) \<Rightarrow> Render (if msg \<noteq> MNone then 400 else 200)
          (\<lparr>av_Alerts = ListAlerts st, av_ErrMsg = msg, av_PushoverConfigured = po, av_CampfireConfigured = cf, av_WarRoomAvailable = (ap_publicURL P \<noteq> [])\<rparr>,
           rq_header req ''HX-Request'' = ''true'' \<and> rq_header req ''HX-History-Restore-Request'' \<noteq> ''true''))"

definition alertsPage :: "alert_pages \<Rightarrow> ui_request \<Rightarrow> settings \<Rightarrow> alert_store \<Rightarrow> (AlertsView \<times> bool) reply" where
  "alertsPage P req s st = renderAlerts P req s st MNone"

definition createAlert :: "alert_pages \<Rightarrow> ui_request \<Rightarrow> settings \<Rightarrow> alert_store \<Rightarrow> (AlertsView \<times> bool) reply \<times> alert_store" where
  "createAlert P req s st =
     (case alertFromForm P req of
        None \<Rightarrow> (renderAlerts P req s st MForm, st)
      | Some a \<Rightarrow>
          if \<not> channelConfigured (ae_notify P) s (al_Target a) then (renderAlerts P req s st MChannel, st)
          else (case CreateAlert (alert_env_of P) (ap_now P) a st of
                  Inl e \<Rightarrow> (renderAlerts P req s st (MAlert e), st)
                | Inr st' \<Rightarrow> (Redirect 303 ''/alerts'', st')))"

definition editAlertPage :: "alert_pages \<Rightarrow> ui_request \<Rightarrow> settings \<Rightarrow> alert_store \<Rightarrow> (Alert \<times> bool \<times> bool \<times> bool) reply" where
  "editAlertPage P req s st =
     (case ParseInt (rq_param req ''id'') of
        None \<Rightarrow> Bare 400
      | Some i \<Rightarrow>
         (case GetAlert i st of
            None \<Rightarrow> Bare 404
          | Some a \<Rightarrow> (case channelStates s of (po, cf) \<Rightarrow> Render 200 (a, po, cf, ap_publicURL P \<noteq> []))))"

text \<open>Keeping the type of the stored target is always allowed.\<close>

definition keepsType :: "alert_pages \<Rightarrow> int \<Rightarrow> Alert \<Rightarrow> alert_store \<Rightarrow> bool" where
  "keepsType P i a st =
     (case GetAlert i st of
        None \<Rightarrow> False
      | Some old \<Rightarrow> targetTypeOf (ae_notify P) (al_Target old) = targetTypeOf (ae_notify P) (al_Target a))"

definition updateAlert :: "alert_pages \<Rightarrow> ui_request \<Rightarrow> settings \<Rightarrow> alert_store \<Rightarrow> (AlertsView \<times> bool) reply \<times> alert_store" where
  "updateAlert P req s st =
     (case ParseInt (rq_param req ''id'') of
        None \<Rightarrow> (Bare 400, st)
      | Some i \<Rightarrow>
         (case alertFromForm P req of
            None \<Rightarrow> (renderAlerts P req s st MForm, st)
          | Some a \<Rightarrow>
              if \<not> channelConfigured (ae_notify P) s (al_Target a) \<and> \<not> keepsType P i a st then (renderAlerts P req s st MChannelFirst, st)
              else (case UpdateAlert (alert_env_of P) i a st of
                      Inl e \<Rightarrow> (renderAlerts P req s st (MAlert e), st)
                    | Inr st' \<Rightarrow> (renderAlerts P req s st' MNone, st'))))"

definition deleteAlert :: "alert_pages \<Rightarrow> ui_request \<Rightarrow> settings \<Rightarrow> alert_store \<Rightarrow> (AlertsView \<times> bool) reply \<times> alert_store" where
  "deleteAlert P req s st =
     (case ParseInt (rq_param req ''id'') of
        None \<Rightarrow> (Bare 400, st)
      | Some i \<Rightarrow> (let st' = DeleteAlert i st in (renderAlerts P req s st' MNone, st')))"

text \<open>The page that can run an alert's query; the query itself is appended, escaped.\<close>

definition openAlertPage :: "alert_pages \<Rightarrow> string \<Rightarrow> string" where
  "openAlertPage P q =
     (case ValidateAll (ae_sql P) q of
        Inl _ \<Rightarrow> ''/logs''
      | Inr v \<Rightarrow> if v_ReadsMetrics v \<and> \<not> v_ReadsLogs v then ''/metrics-explorer'' else ''/logs'')"

definition openAlertQuery :: "alert_pages \<Rightarrow> (string \<Rightarrow> string) \<Rightarrow> ui_request \<Rightarrow> unit reply" where
  "openAlertQuery P queryEscape req = (let q = qget req ''q'' in Redirect 303 (openAlertPage P q @ ''?q='' @ queryEscape q))"

definition maxDryRunRows :: nat where "maxDryRunRows = 10"

datatype dry_run = DryError view_error | DryRows "string list" "string list list"

definition dryRunAlert :: "alert_pages \<Rightarrow> ui_request \<Rightarrow> alert_store \<Rightarrow> (string \<times> dry_run) reply" where
  "dryRunAlert P req st =
     (case ParseInt (rq_param req ''id'') of
        None \<Rightarrow> Bare 400
      | Some i \<Rightarrow>
         (case GetAlert i st of
            None \<Rightarrow> Bare 404
          | Some a \<Rightarrow>
             (case ValidateAll (ae_sql P) (al_Query a) of
                Inl e \<Rightarrow> Render 200 (al_Name a, DryError (VInvalid e))
              | Inr v \<Rightarrow>
                 (case Execute (ap_query P (ap_string P (v_stmt v))) of
                    (Some res, None) \<Rightarrow>
                      Render 200 (al_Name a, DryRows (res_Columns res) (map (map (cellString (ap_ui P))) (take maxDryRunRows (res_Rows res))))
                  | (_, err) \<Rightarrow> Render 200 (al_Name a, DryError (VQuery (case err of Some e \<Rightarrow> e | None \<Rightarrow> [])))))))"

section \<open>What the pages guarantee\<close>

text \<open>An alert can be delivered when everything that the sender of its channel reads is stored.\<close>

definition channel_keys :: "(string \<times> string list) list" where
  "channel_keys = [(''pushover'', [''pushover.app_token'', ''pushover.user_key'']), (''campfire'', [''campfire.base_url'', ''campfire.bot_key''])]"

definition deliverable :: "alert_pages \<Rightarrow> settings \<Rightarrow> Alert \<Rightarrow> bool" where
  "deliverable P s a \<longleftrightarrow> (\<exists>t keys. ParseTarget (ae_notify P) (al_Target a) = Ok t \<and> (tg_Type t, keys) \<in> set channel_keys
     \<and> (\<forall>k \<in> set keys. IsSet k s))"

lemma configured_deliverable:
  assumes "channelConfigured (ae_notify P) s (al_Target a)" and "al_Target b = al_Target a"
  shows "deliverable P s b"
  using assms by (auto simp: channelConfigured_def channelStates_def deliverable_def channel_keys_def split: sum.splits)

lemma CreateAlert_new:
  assumes "CreateAlert A now a st = Ok st'" and "row_get i (as_alerts st') = Some b"
  shows "row_get i (as_alerts st) = Some b \<or> al_Target b = al_Target a"
proof -
  from assms(1) obtain a' where v: "validateAlert A a = Ok a'"
    and st': "as_alerts st' = snd (row_insert (a'\<lparr>al_LastCheckedAt := None, al_LastFiredAt := None, al_CurrentlyFiring := False, al_LastError := None,
             al_LastErrorAt := None, al_CreatedAt := now\<rparr>) (as_alerts st))"
    by (auto simp: CreateAlert_def split: sum.splits)
  have "al_Target a' = al_Target a" using validateAlert_ok [OF v] by simp
  then show ?thesis using assms(2) unfolding st' by (auto simp: row_insert_def row_get_def split: if_splits)
qed

lemma UpdateAlert_row:
  assumes "UpdateAlert A i a st = Ok st'" and "GetAlert j st' = Some b"
  shows "if j = i then al_Target b = al_Target a \<and> GetAlert i st \<noteq> None else GetAlert j st = Some b"
proof -
  from assms(1) obtain a' where v: "validateAlert A a = Ok a'" and g: "row_get i (as_alerts st) \<noteq> None"
    and st': "as_alerts st' = row_update i (\<lambda>r. r\<lparr>al_Name := al_Name a', al_Query := al_Query a',
             al_CheckIntervalMs := al_CheckIntervalMs a', al_CooldownMs := al_CooldownMs a', al_Target := al_Target a', al_Enabled := al_Enabled a'\<rparr>) (as_alerts st)"
    by (auto simp: UpdateAlert_def split: sum.splits if_splits)
  have "al_Target a' = al_Target a" using validateAlert_ok [OF v] by simp
  then show ?thesis using assms(2) g by (auto simp: GetAlert_def st' row_get_update split: if_splits)
qed

datatype alert_request = RCreateAlert | RUpdateAlert | RDeleteAlert

definition alert_handle :: "alert_pages \<Rightarrow> alert_request \<Rightarrow> ui_request \<Rightarrow> settings \<Rightarrow> alert_store \<Rightarrow> alert_store" where
  "alert_handle P h req s st =
     (case h of
        RCreateAlert \<Rightarrow> snd (createAlert P req s st)
      | RUpdateAlert \<Rightarrow> snd (updateAlert P req s st)
      | RDeleteAlert \<Rightarrow> snd (deleteAlert P req s st))"

definition same_type :: "alert_pages \<Rightarrow> int \<Rightarrow> Alert \<Rightarrow> alert_store \<Rightarrow> bool" where
  "same_type P i b st \<longleftrightarrow> (\<exists>old. GetAlert i st = Some old \<and> targetTypeOf (ae_notify P) (al_Target old) = targetTypeOf (ae_notify P) (al_Target b))"

lemma same_type_refl: "GetAlert i st = Some b \<Longrightarrow> same_type P i b st"
  by (simp add: same_type_def)

lemma create_deliverable:
  assumes "GetAlert i (snd (createAlert P req s st)) = Some b"
  shows "deliverable P s b \<or> same_type P i b st"
proof (cases "alertFromForm P req")
  case None
  then show ?thesis using assms same_type_refl by (auto simp: createAlert_def)
next
  case (Some a)
  show ?thesis
  proof (cases "channelConfigured (ae_notify P) s (al_Target a)")
    case True
    show ?thesis
    proof (cases "CreateAlert (alert_env_of P) (ap_now P) a st")
      case (Inl e)
      then show ?thesis using assms Some True same_type_refl by (auto simp: createAlert_def)
    next
      case (Inr st')
      then have "GetAlert i st' = Some b" using assms Some True by (simp add: createAlert_def)
      then show ?thesis using CreateAlert_new [OF Inr] configured_deliverable [OF True] same_type_refl unfolding GetAlert_def by metis
    qed
  next
    case False
    then show ?thesis using assms Some same_type_refl by (auto simp: createAlert_def)
  qed
qed

lemma update_deliverable:
  assumes "GetAlert j (snd (updateAlert P req s st)) = Some b"
  shows "deliverable P s b \<or> same_type P j b st"
proof (cases "\<exists>i a st'. alertFromForm P req = Some a \<and> (channelConfigured (ae_notify P) s (al_Target a) \<or> keepsType P i a st)
    \<and> UpdateAlert (alert_env_of P) i a st = Ok st' \<and> snd (updateAlert P req s st) = st'")
  case True
  then obtain i a st' where c: "channelConfigured (ae_notify P) s (al_Target a) \<or> keepsType P i a st"
    and u: "UpdateAlert (alert_env_of P) i a st = Ok st'" and st': "snd (updateAlert P req s st) = st'" by blast
  have g: "GetAlert j st' = Some b" using assms st' by simp
  note r = UpdateAlert_row [OF u g]
  show ?thesis
  proof (cases "j = i")
    case True
    with r c show ?thesis by (auto simp: keepsType_def same_type_def intro: configured_deliverable split: option.splits)
  next
    case False
    with r show ?thesis using same_type_refl by simp
  qed
next
  case False
  then have "snd (updateAlert P req s st) = st"
    by (auto simp: updateAlert_def split: option.splits sum.splits if_splits)
  then show ?thesis using assms same_type_refl by simp
qed

lemma alert_handle_inv:
  assumes "alerts_inv (alert_env_of P) st"
  shows "alerts_inv (alert_env_of P) (alert_handle P h req s st)"
proof (cases h)
  case RCreateAlert
  then show ?thesis using assms by (auto simp: alert_handle_def createAlert_def intro: alerts_inv_create split: option.split sum.split)
next
  case RUpdateAlert
  then show ?thesis using assms by (auto simp: alert_handle_def updateAlert_def intro: alerts_inv_update split: option.split sum.split)
next
  case RDeleteAlert
  then show ?thesis using assms by (auto simp: alert_handle_def deleteAlert_def Let_def intro: alerts_inv_delete split: option.split)
qed

text \<open>
  C35: the alert forms keep every alert valid and every notification deliverable. Whatever a form
  contains, after it every stored alert is valid, and each one either goes to a channel that is configured or
  kept the type of channel that it had.
\<close>

theorem alert_pages_safe:
  assumes "alerts_inv (alert_env_of P) st" and "st' = alert_handle P h req s st"
  shows "alerts_inv (alert_env_of P) st' \<and> (\<forall>i b. GetAlert i st' = Some b \<longrightarrow> deliverable P s b \<or> same_type P i b st)"
proof -
  have "deliverable P s b \<or> same_type P i b st" if "GetAlert i st' = Some b" for i b
  proof (cases h)
    case RCreateAlert
    then show ?thesis using that create_deliverable by (simp add: assms(2) alert_handle_def)
  next
    case RUpdateAlert
    then show ?thesis using that update_deliverable by (simp add: assms(2) alert_handle_def)
  next
    case RDeleteAlert
    then have "GetAlert i st = Some b" using that
      by (auto simp: assms(2) alert_handle_def deleteAlert_def Let_def DeleteAlert_def GetAlert_def row_get_delete split: option.splits if_splits)
    then show ?thesis using same_type_refl by blast
  qed
  then show ?thesis using alert_handle_inv [OF assms(1)] assms(2) by blast
qed

text \<open>The interval of a form is multiplied without a check: an absurd number of seconds can come out as thirty.\<close>

lemma interval_wraps: "i64 (2305843009213693982 * 1000) = MinCheckIntervalMs"
  by (simp add: i64_def MinCheckIntervalMs_def)

definition alert_pages_sample :: alert_pages where
  "alert_pages_sample = \<lparr>ae_sql = sqlp_sample, ae_notify = notify_sample, ae_verr = (\<lambda>_. ''invalid''), ae_nerr = (\<lambda>_. ''failed''),
     ae_json = (\<lambda>_. ''[]''), ap_marshal = (\<lambda>_. ''{}''), ap_query = (\<lambda>_. \<lparr>rs_start = None, rs_columns = Inr [], rs_rows = [], rs_err = None\<rparr>),
     ap_string = (\<lambda>_. []), ap_ui = \<lparr>ue_sqlp = sqlp_sample, ue_string = (\<lambda>_. []), ue_query = (\<lambda>_ _. \<lparr>rs_start = None, rs_columns = Inr [], rs_rows = [], rs_err = None\<rparr>),
       ue_fmt = (\<lambda>_. []), ue_oor = (\<lambda>_. 0)\<rparr>, ap_publicURL = [], ap_now = 7\<rparr>"

definition alert_form_sample :: ui_request where
  "alert_form_sample = \<lparr>rq_query = (\<lambda>_. []),
     rq_form = Some (\<lambda>k. if k = ''name'' then ''errors'' else if k = ''query'' then ''q'' else if k = ''interval_s'' then ''60'' else if k = ''cooldown_m'' then ''5''
       else if k = ''enabled'' then ''on'' else if k = ''target_type'' then ''campfire'' else if k = ''cf_room_id'' then ''7'' else []),
     rq_param = (\<lambda>_. ''1''), rq_header = (\<lambda>_. []), rq_cookie = None\<rparr>"

abbreviation no_alerts :: alert_store where
  "no_alerts \<equiv> \<lparr>as_alerts = [], as_firings = [], as_sent = []\<rparr>"

text \<open>With Campfire configured the form stores an alert for its room.\<close>

lemma sample_created:
  "as_alerts (alert_handle alert_pages_sample RCreateAlert alert_form_sample notify_settings no_alerts) =
     [(1, alert_sample\<lparr>al_CheckIntervalMs := 60000, al_CooldownMs := 300000, al_CreatedAt := 7\<rparr>)]"
proof -
  have p: "ParseIntVal ''60'' = 60" "ParseIntVal ''5'' = 5" by code_simp+
  have t: "TrimSpace ''errors'' = ''errors''" "TrimSpace ''q'' = ''q''" by code_simp+
  have f: "alertFromForm alert_pages_sample alert_form_sample = Some (alert_sample\<lparr>al_CheckIntervalMs := 60000, al_CooldownMs := 300000\<rparr>)"
    by (simp add: alertFromForm_def alert_form_sample_def alert_pages_sample_def emptyAlert_def alert_sample_def p t i64_def)
  have e: "alert_env_of alert_pages_sample = alert_env_sample" by (simp add: alert_env_of_def alert_pages_sample_def alert_env_sample_def)
  have "channelConfigured (ae_notify alert_pages_sample) notify_settings (al_Target alert_sample)"
    by (simp add: channelConfigured_def ParseTarget_def alert_pages_sample_def notify_sample_def channelStates_def IsSet_def notify_settings_def)
  moreover have "validateAlert alert_env_sample (alert_sample\<lparr>al_CheckIntervalMs := 60000, al_CooldownMs := 300000\<rparr>) =
      Ok (alert_sample\<lparr>al_CheckIntervalMs := 60000, al_CooldownMs := 300000\<rparr>)"
  proof -
    have "ParseTarget (ae_notify alert_env_sample) raw \<noteq> Err e" for raw e
      by (simp add: ParseTarget_def alert_env_sample_def notify_sample_def)
    then show ?thesis by (auto simp: validateAlert_def sample_query_ok alert_sample_def MinCheckIntervalMs_def t split: sum.splits)
  qed
  moreover have "ap_now alert_pages_sample = 7" by (simp add: alert_pages_sample_def)
  ultimately show ?thesis
    by (simp add: alert_handle_def createAlert_def f e CreateAlert_def row_insert_def next_rowid_def) (simp add: alert_sample_def)
qed

theorem alert_pages_safe_witness:
  "\<exists>st' b. st' = alert_handle alert_pages_sample RCreateAlert alert_form_sample notify_settings no_alerts
     \<and> GetAlert 1 st' = Some b \<and> al_Name b = ''errors'' \<and> alerts_inv (alert_env_of alert_pages_sample) st'
     \<and> deliverable alert_pages_sample notify_settings b \<and> \<not> same_type alert_pages_sample 1 b no_alerts
     \<and> \<not> deliverable alert_pages_sample Map.empty b"
proof -
  have i: "alerts_inv (alert_env_of alert_pages_sample) no_alerts"
    by (simp add: alerts_inv_def keyed_def row_get_def)
  let ?st = "alert_handle alert_pages_sample RCreateAlert alert_form_sample notify_settings no_alerts"
  let ?b = "alert_sample\<lparr>al_CheckIntervalMs := 60000, al_CooldownMs := 300000, al_CreatedAt := 7\<rparr>"
  have g: "GetAlert 1 ?st = Some ?b" by (simp add: GetAlert_def sample_created row_get_def)
  have n: "\<not> same_type alert_pages_sample 1 ?b no_alerts" by (simp add: same_type_def GetAlert_def row_get_def)
  have m: "\<not> deliverable alert_pages_sample Map.empty ?b" by (auto simp: deliverable_def channel_keys_def IsSet_def)
  from alert_pages_safe [OF i refl, of RCreateAlert alert_form_sample notify_settings] g n
  have "alerts_inv (alert_env_of alert_pages_sample) ?st" "deliverable alert_pages_sample notify_settings ?b" by blast+
  with g n m show ?thesis by (auto simp: alert_sample_def)
qed

end
