(* ===== verification/Ui_Server.thy ===== *)
theory Ui_Server
  imports Api_Auth Home_Page Log_Details Live_Tail Settings_Pages Alert_Pages
begin

text \<open>
  The web interface as a whole: \<open>ui/router.go\<close>, \<open>ui/middleware.go\<close> and \<open>ui/csrf.go\<close>
  over the handlers of the page theories and the state they share. net/http's parsing of a request
  (\<open>uc_request\<close>), chi's matching (\<open>uc_match\<close>) and nosurf's verdict on a request (\<open>uc_csrf\<close>)
  are parameters. A reply's page is not rendered: its body is left empty. \<open>None\<close> is a request whose
  handler does not return.
\<close>

datatype ui_route =
    GLogin | GLogo | GStatic | PLogin | GHome | PLogout
  | GHomeVolume | GHomeErrors | GHomeServices | GHomeMetrics | GHomeMetricsServices
  | GLogs | GLogsStream | GLogsExport | GLogDetails
  | GAlerts | PAlerts | GAlertsOpen | GAlertEdit | UAlert | DAlert | PAlertTest
  | GSettings | URetention | UBackup | PBackupRun | PApiKeys | DApiKey | PPushover | PPushoverTest | PCampfire | PCampfireTest
  | PScrape | PScrapeToggle | DScrape
  | GExplorer | GMetricsExport | GCompile | GFilterOptions | PSavePanel | GWarRoom
  | GDashboards | PDashboards | GDashboard | DDashboard | PPanels | GPanel | UPanel | DPanel

datatype ui_matched = UiMatched ui_route "string \<Rightarrow> string" | UiNotFound | UiMethodNotAllowed

definition uiRoutes :: "(string \<times> string \<times> ui_route) list" where
  "uiRoutes =
     [(''GET'', ''/login'', GLogin), (''GET'', ''/logo.png'', GLogo), (''*'', ''/static/*'', GStatic), (''POST'', ''/login'', PLogin),
      (''GET'', ''/'', GHome), (''POST'', ''/logout'', PLogout),
      (''GET'', ''/home/volume'', GHomeVolume), (''GET'', ''/home/errors'', GHomeErrors), (''GET'', ''/home/services'', GHomeServices),
      (''GET'', ''/home/metrics'', GHomeMetrics), (''GET'', ''/home/metrics-services'', GHomeMetricsServices),
      (''GET'', ''/logs/'', GLogs), (''GET'', ''/logs/stream'', GLogsStream), (''GET'', ''/logs/export'', GLogsExport), (''GET'', ''/logs/{id:[0-9]+}'', GLogDetails),
      (''GET'', ''/alerts/'', GAlerts), (''POST'', ''/alerts/'', PAlerts), (''GET'', ''/alerts/open'', GAlertsOpen), (''GET'', ''/alerts/{id}/edit'', GAlertEdit),
      (''PUT'', ''/alerts/{id}'', UAlert), (''DELETE'', ''/alerts/{id}'', DAlert), (''POST'', ''/alerts/{id}/test'', PAlertTest),
      (''GET'', ''/settings/'', GSettings), (''PUT'', ''/settings/retention'', URetention), (''PUT'', ''/settings/backup'', UBackup),
      (''POST'', ''/settings/backup/run'', PBackupRun), (''POST'', ''/settings/api-keys'', PApiKeys), (''DELETE'', ''/settings/api-keys/{id}'', DApiKey),
      (''POST'', ''/settings/pushover'', PPushover), (''POST'', ''/settings/pushover/test'', PPushoverTest), (''POST'', ''/settings/campfire'', PCampfire),
      (''POST'', ''/settings/campfire/test'', PCampfireTest), (''POST'', ''/settings/scrape-targets'', PScrape),
      (''POST'', ''/settings/scrape-targets/{id}/toggle'', PScrapeToggle), (''DELETE'', ''/settings/scrape-targets/{id}'', DScrape),
      (''GET'', ''/metrics-explorer/'', GExplorer), (''GET'', ''/metrics-explorer/export'', GMetricsExport), (''GET'', ''/metrics-explorer/compile'', GCompile),
      (''GET'', ''/metrics-explorer/filter-options'', GFilterOptions), (''POST'', ''/metrics-explorer/save-panel'', PSavePanel), (''GET'', ''/war-room'', GWarRoom),
      (''GET'', ''/dashboards/'', GDashboards), (''POST'', ''/dashboards/'', PDashboards), (''GET'', ''/dashboards/{id:[0-9]+}'', GDashboard),
      (''DELETE'', ''/dashboards/{id:[0-9]+}'', DDashboard), (''POST'', ''/dashboards/{id:[0-9]+}/panels'', PPanels),
      (''GET'', ''/dashboards/{id:[0-9]+}/panels/{pid:[0-9]+}'', GPanel), (''PUT'', ''/dashboards/{id:[0-9]+}/panels/{pid:[0-9]+}'', UPanel),
      (''DELETE'', ''/dashboards/{id:[0-9]+}/panels/{pid:[0-9]+}'', DPanel)]"

text \<open>The routes that are registered without \<open>sessionAuth\<close>.\<close>

definition publicRoutes :: "ui_route list" where
  "publicRoutes = [GLogin, GLogo, GStatic, PLogin]"

record ui_config =
  uc_api :: api_config
  uc_secret :: string
  uc_request :: "api_request \<Rightarrow> ui_request"
  uc_match :: "(string \<times> string \<times> ui_route) list \<Rightarrow> string \<Rightarrow> string \<Rightarrow> ui_matched"
  uc_csrf :: "api_request \<Rightarrow> bool"
  uc_uuid :: "api_request \<Rightarrow> string"
  uc_nonce :: "api_request \<Rightarrow> string"
  uc_keySalt :: "api_request \<Rightarrow> bytes"
  uc_keySecret :: "api_request \<Rightarrow> string"
  uc_web :: web_env
  uc_alerts :: alert_pages
  uc_settings :: settings_env
  uc_escape :: "string \<Rightarrow> string"
  uc_json :: "string \<Rightarrow> jvalue option"
  uc_indent :: "string \<Rightarrow> string option"
  uc_logRow :: "int \<Rightarrow> detail_row option"
  uc_errorsSince :: "int \<Rightarrow> HomeErrorRow cursor"
  uc_logServices :: "int \<Rightarrow> HomeServiceRow cursor"
  uc_metricServices :: "int \<Rightarrow> HomeServiceRow cursor"
  uc_failing :: "(string \<times> string) cursor"
  uc_lastMetric :: "int option option"
  uc_pointsSince :: "int \<Rightarrow> int option"
  uc_logo :: bytes
  uc_files :: "(string \<times> string) list \<Rightarrow> api_request \<Rightarrow> api_response"
  uc_stamp :: "api_request \<Rightarrow> string"
  uc_backupNames :: "string list \<times> string list"

record ui_server = auth_state +
  us_sessions :: sessions
  us_dash :: dash_store
  us_alerts :: alert_store
  us_settings :: settings
  us_targets :: "target_row table"

section \<open>Middlewares\<close>

definition maxUIBodyBytes :: nat where "maxUIBodyBytes = 2 ^ 20"

text \<open>\<open>bodyLimit\<close>: a body beyond the cap cannot be read, so its form does not parse.\<close>

definition bodyLimit :: "ui_config \<Rightarrow> api_request \<Rightarrow> ui_request" where
  "bodyLimit K req =
     (uc_request K req)\<lparr>rq_form := (case api_request.rq_body req of
        BodyError \<Rightarrow> None
      | Body b \<Rightarrow> if length b > maxUIBodyBytes then None else rq_form (uc_request K req))\<rparr>"

definition cspTemplate :: "string \<Rightarrow> string" where
  "cspTemplate nonce =
     Join [''default-src '' @ [squote] @ ''self'' @ [squote],
       ''script-src '' @ [squote] @ ''self'' @ [squote] @ '' '' @ [squote] @ ''nonce-'' @ nonce @ [squote],
       ''style-src '' @ [squote] @ ''self'' @ [squote] @ '' '' @ [squote] @ ''unsafe-inline'' @ [squote],
       ''img-src '' @ [squote] @ ''self'' @ [squote] @ '' data:'', ''font-src '' @ [squote] @ ''self'' @ [squote] @ '' data:'',
       ''connect-src '' @ [squote] @ ''self'' @ [squote], ''object-src '' @ [squote] @ ''none'' @ [squote],
       ''frame-src '' @ [squote] @ ''none'' @ [squote], ''frame-ancestors '' @ [squote] @ ''none'' @ [squote],
       ''base-uri '' @ [squote] @ ''self'' @ [squote], ''form-action '' @ [squote] @ ''self'' @ [squote]] ''; ''"

definition uiHeaders :: "ui_config \<Rightarrow> api_request \<Rightarrow> (string \<times> string) list" where
  "uiHeaders K req =
     [(''Content-Security-Policy'', cspTemplate (uc_nonce K req)), (''X-Frame-Options'', ''DENY''), (''X-Content-Type-Options'', ''nosniff''),
      (''Referrer-Policy'', ''same-origin''), (''Cache-Control'', ''no-store'')]
     @ (if ca_env (uc_api K) = ''pro'' then [(''Strict-Transport-Security'', ''max-age=31536000; includeSubDomains'')] else [])"

definition answer :: "'v reply \<Rightarrow> api_response" where
  "answer r =
     (case r of
        Render n v \<Rightarrow> \<lparr>rp_code = int n, rp_headers = [(''Content-Type'', ''text/html; charset=utf-8'')], rp_body = []\<rparr>
      | Redirect n u \<Rightarrow> \<lparr>rp_code = int n, rp_headers = [(''Location'', u)], rp_body = []\<rparr>
      | Plain n t \<Rightarrow> \<lparr>rp_code = int n, rp_headers = [(''Content-Type'', ''text/plain; charset=utf-8'')], rp_body = t @ nl\<rparr>
      | Bare n \<Rightarrow> \<lparr>rp_code = int n, rp_headers = [], rp_body = []\<rparr>
      | HxRedirect n u \<Rightarrow> \<lparr>rp_code = int n, rp_headers = [(''HX-Redirect'', u)], rp_body = []\<rparr>)"

abbreviation sendRedirect :: "nat \<Rightarrow> string \<Rightarrow> api_response" where
  "sendRedirect n u \<equiv> answer (Redirect n u :: unit reply)"

definition validSession :: "ui_config \<Rightarrow> api_request \<Rightarrow> ui_server \<Rightarrow> bool" where
  "validSession K req s = (case rq_cookie (uc_request K req) of None \<Rightarrow> False | Some c \<Rightarrow> IsSessionValid c (rq_now req) (us_sessions s))"

definition sessionAuth ::
    "ui_config \<Rightarrow> api_request \<Rightarrow> (ui_server \<Rightarrow> (api_response \<times> ui_server) option) \<Rightarrow> ui_server \<Rightarrow> (api_response \<times> ui_server) option" where
  "sessionAuth K req next s =
     (case rq_cookie (uc_request K req) of
        None \<Rightarrow> Some (sendRedirect 302 ''/login'', s)
      | Some c \<Rightarrow> if \<not> IsSessionValid c (rq_now req) (us_sessions s) then Some (sendRedirect 302 ''/login'', s) else next s)"

definition csrfErrorHandler :: "ui_config \<Rightarrow> api_request \<Rightarrow> api_response" where
  "csrfErrorHandler K req =
     (if rq_header (uc_request K req) ''HX-Request'' = ''true'' then answer (HxRedirect 403 ''/login?err=stale'' :: unit reply)
      else sendRedirect 303 ''/login?err=stale'')"

definition uiClient :: "ui_config \<Rightarrow> api_request \<Rightarrow> string" where
  "uiClient K req = ClientIP (ca_parseIP (uc_api K)) req (ca_trustProxy (uc_api K))"

definition loginThrottle :: "ui_config \<Rightarrow> (ui_server \<Rightarrow> api_response \<times> ui_server) \<Rightarrow> api_request \<Rightarrow> ui_server \<Rightarrow> api_response \<times> ui_server" where
  "loginThrottle K next req s =
     (if IsLocked (uiClient K req) (rq_now req) (au_throttle s) then (answer (Render 429 ()), s) else next s)"

section \<open>Login and logout\<close>

definition sessionCookieMaxAge :: int where "sessionCookieMaxAge = 7 * 24 * 60 * 60"

definition setSessionCookie :: "ui_config \<Rightarrow> string \<Rightarrow> int \<Rightarrow> api_response \<Rightarrow> api_response" where
  "setSessionCookie K value maxAge r =
     r\<lparr>rp_headers := (''Set-Cookie'', ''PoomlSession='' @ value @ ''; Path=/; Max-Age='' @ itoa (if maxAge < 0 then 0 else maxAge) @ ''; HttpOnly''
        @ (if ca_env (uc_api K) = ''pro'' then ''; Secure'' else []) @ ''; SameSite=Lax'') # rp_headers r\<rparr>"

text \<open>The page names the kind of its message: none, or \<open>info\<close> after a stale form.\<close>

definition loginPage :: "ui_config \<Rightarrow> api_request \<Rightarrow> ui_server \<Rightarrow> string reply" where
  "loginPage K req s =
     (if validSession K req s then Redirect 303 ''/''
      else Render 200 (if qget (uc_request K req) ''err'' = ''stale'' then ''info'' else []))"

definition processLogin :: "ui_config \<Rightarrow> api_request \<Rightarrow> ui_server \<Rightarrow> api_response \<times> ui_server" where
  "processLogin K req s =
     (case rq_form (bodyLimit K req) of
        None \<Rightarrow> (answer (Render 400 ()), s)
      | Some form \<Rightarrow>
          if \<not> SecureCompare (ca_crypto (uc_api K)) (form ''secret'') (uc_secret K)
          then (answer (Render 401 ()), s\<lparr>au_throttle := RecordFailure (uiClient K req) (rq_failAt req) (au_throttle s)\<rparr>)
          else (case CreateSession (uc_uuid K req) (rq_handledAt req) (us_sessions s) of
                  ((sid, expiresAt), ss) \<Rightarrow> (setSessionCookie K sid sessionCookieMaxAge (sendRedirect 303 ''/''), s\<lparr>us_sessions := ss\<rparr>)))"

definition processLogout :: "ui_config \<Rightarrow> api_request \<Rightarrow> ui_server \<Rightarrow> api_response \<times> ui_server" where
  "processLogout K req s =
     (setSessionCookie K [] (-1) (sendRedirect 303 ''/login''),
      case rq_cookie (uc_request K req) of None \<Rightarrow> s | Some c \<Rightarrow> s\<lparr>us_sessions := InvalidateSession c (us_sessions s)\<rparr>)"

definition loginRoute :: "ui_config \<Rightarrow> api_request \<Rightarrow> ui_server \<Rightarrow> api_response \<times> ui_server" where
  "loginRoute K req = loginThrottle K (processLogin K req) req"

section \<open>API keys and backups\<close>

text \<open>The keys are listed with their labels only, which the key table of the model leaves out.\<close>

record SettingsView =
  sv_NewKey :: string
  sv_ErrMsg :: bool
  sv_PushoverConfigured :: bool
  sv_CampfireBaseURL :: string
  sv_CampfireKeySet :: bool
  sv_ScrapeTargets :: "(int \<times> ScrapeTarget) list"
  sv_RetentionDays :: "int list"
  sv_Backup :: BackupView

definition settingsView :: "ui_config \<Rightarrow> ui_server \<Rightarrow> string \<Rightarrow> bool \<Rightarrow> SettingsView option" where
  "settingsView K s newKey bad =
     (let S = uc_settings K; st = us_settings s
      in case ListTargets (se_cipher S) (se_key S) (us_targets s) of
           Inl _ \<Rightarrow> None
         | Inr ts \<Rightarrow> Some \<lparr>sv_NewKey = newKey, sv_ErrMsg = bad,
             sv_PushoverConfigured = (IsSet ''pushover.app_token'' st \<and> IsSet ''pushover.user_key'' st),
             sv_CampfireBaseURL = getS S st ''campfire.base_url'', sv_CampfireKeySet = IsSet ''campfire.bot_key'' st,
             sv_ScrapeTargets = ts, sv_RetentionDays = retentionDays S st, sv_Backup = backupView S st\<rparr>)"

definition settingsPage :: "ui_config \<Rightarrow> ui_server \<Rightarrow> nat \<Rightarrow> string \<Rightarrow> bool \<Rightarrow> SettingsView reply" where
  "settingsPage K s status newKey bad =
     (case settingsView K s newKey bad of None \<Rightarrow> Plain 500 sideways | Some v \<Rightarrow> Render status v)"

definition createApiKey :: "ui_config \<Rightarrow> api_request \<Rightarrow> ui_server \<Rightarrow> SettingsView reply \<times> ui_server" where
  "createApiKey K req s =
     (case rq_form (bodyLimit K req) of
        None \<Rightarrow> (Redirect 303 ''/settings'', s)
      | Some form \<Rightarrow>
         (case Create (ca_crypto (uc_api K)) (form ''label'') (uc_keySalt K req) (uc_keySecret K req) (au_keys s) of
            None \<Rightarrow> (settingsPage K s 400 [] True, s)
          | Some (newKey, ks) \<Rightarrow> (settingsPage K (s\<lparr>au_keys := ks\<rparr>) 200 newKey False, s\<lparr>au_keys := ks\<rparr>)))"

text \<open>Both steps of \<open>Revoke\<close>, with no other goroutine in between.\<close>

definition Revoke :: "int \<Rightarrow> ApiKeysService \<Rightarrow> ApiKeysService" where
  "Revoke i ks = (case r_purge i (r_delete i ks) of Some ks' \<Rightarrow> ks' | None \<Rightarrow> ks)"

definition deleteApiKey :: "ui_config \<Rightarrow> ui_request \<Rightarrow> ui_server \<Rightarrow> unit reply \<times> ui_server" where
  "deleteApiKey K ur s =
     (case ParseInt (rq_param ur ''id'') of
        None \<Rightarrow> (Bare 400, s)
      | Some i \<Rightarrow> (Render 200 (), s\<lparr>au_keys := Revoke i (au_keys s)\<rparr>))"

text \<open>One manual run; no other one is in progress.\<close>

definition runBackupNow :: "ui_config \<Rightarrow> api_request \<Rightarrow> ui_server \<Rightarrow> (BackupView \<times> string option) reply \<times> ui_server" where
  "runBackupNow K req s =
     (let S = uc_settings K
      in case RunNow (se_cipher S) (se_key S) (uc_stamp K req) (uc_backupNames K) (se_backup S) (rq_handledAt req) (new_backup (us_settings s)) of
           (err, b) \<Rightarrow> (Render 200 (backupView S (bk_settings b), map_option backupErrText err), s\<lparr>us_settings := bk_settings b\<rparr>))"

section \<open>Static files\<close>

definition logo :: "ui_config \<Rightarrow> api_response" where
  "logo K = \<lparr>rp_code = 200, rp_headers = [(''Content-Type'', ''image/png''), (''Cache-Control'', ''public, max-age=86400'')], rp_body = uc_logo K\<rparr>"

text \<open>\<open>http.FileServer\<close> over the embedded files gets the headers that are set so far.\<close>

definition staticHandler :: "ui_config \<Rightarrow> api_request \<Rightarrow> api_response" where
  "staticHandler K req = uc_files K [(''Cache-Control'', ''public, max-age=86400'')] req"

section \<open>Endpoints\<close>

fun exportReply :: "ui_config \<Rightarrow> (export_error, export) result \<Rightarrow> export reply" where
  "exportReply K (Inl (XPlaceholder m)) = Plain 400 m"
| "exportReply K (Inl (XInvalid e)) = Plain 400 (ae_verr (uc_alerts K) e)"
| "exportReply K (Inl (XExec e)) = Plain 400 e"
| "exportReply K (Inr x) = Render 200 x"

definition logsReply :: "page_outcome \<Rightarrow> LogsView reply" where
  "logsReply o' = (case o' of PBadRequest \<Rightarrow> Bare 400 | PPage v _ _ \<Rightarrow> Render 200 v)"

definition streamReply :: "ui_config \<Rightarrow> stream_start \<Rightarrow> unit reply" where
  "streamReply K st = (case st of SUnsupported \<Rightarrow> Plain 500 ''streaming unsupported'' | SBadQuery e \<Rightarrow> Plain 400 (humanizeSQLError (ae_verr (uc_alerts K) e))
     | SCompound \<Rightarrow> Plain 400 ''live tail is not supported for compound queries'' | SStart _ _ _ \<Rightarrow> Render 200 ())"

text \<open>The request with the route's parameters.\<close>

definition withParams :: "ui_config \<Rightarrow> api_request \<Rightarrow> (string \<Rightarrow> string) \<Rightarrow> ui_request" where
  "withParams K req param = (bodyLimit K req)\<lparr>rq_param := param\<rparr>"

definition readOnly :: "'v reply \<Rightarrow> ui_server \<Rightarrow> (api_response \<times> ui_server) option" where
  "readOnly r s = Some (answer r, s)"

definition onDash :: "dash_view reply \<times> dash_store \<Rightarrow> ui_server \<Rightarrow> (api_response \<times> ui_server) option" where
  "onDash r s = Some (answer (fst r), s\<lparr>us_dash := snd r\<rparr>)"

definition onAlerts :: "'v reply \<times> alert_store \<Rightarrow> ui_server \<Rightarrow> (api_response \<times> ui_server) option" where
  "onAlerts r s = Some (answer (fst r), s\<lparr>us_alerts := snd r\<rparr>)"

definition onSettings :: "'v reply \<times> settings \<Rightarrow> ui_server \<Rightarrow> (api_response \<times> ui_server) option" where
  "onSettings r s = Some (answer (fst r), s\<lparr>us_settings := snd r\<rparr>)"

definition onTargets :: "'v reply \<times> target_row table \<Rightarrow> ui_server \<Rightarrow> (api_response \<times> ui_server) option" where
  "onTargets r s = Some (answer (fst r), s\<lparr>us_targets := snd r\<rparr>)"

definition savePanelEndpoint :: "web_env \<Rightarrow> ui_request \<Rightarrow> ui_server \<Rightarrow> (api_response \<times> ui_server) option" where
  "savePanelEndpoint E ur s = (case saveExplorerPanel E ur (us_dash s) of None \<Rightarrow> None | Some (r, st) \<Rightarrow> Some (answer r, s\<lparr>us_dash := st\<rparr>))"

fun pageEndpoint :: "ui_config \<Rightarrow> ui_route \<Rightarrow> ui_request \<Rightarrow> api_request \<Rightarrow> ui_server \<Rightarrow> (api_response \<times> ui_server) option" where
  "pageEndpoint K GLogin ur req s = readOnly (loginPage K req s) s"
| "pageEndpoint K PLogin ur req s = Some (loginRoute K req s)"
| "pageEndpoint K PLogout ur req s = Some (processLogout K req s)"
| "pageEndpoint K GHomeVolume ur req s = (case homePageVolumeSegment (uc_web K) of None \<Rightarrow> None | Some c \<Rightarrow> readOnly (Render 200 c) s)"
| "pageEndpoint K GHomeErrors ur req s = readOnly (Render 200 (homePageErrorsSegment (uc_errorsSince K) (rq_handledAt req))) s"
| "pageEndpoint K GHomeServices ur req s = readOnly (Render 200 (homePageServicesSegment (uc_logServices K) (rq_handledAt req))) s"
| "pageEndpoint K GHomeMetrics ur req s = readOnly (Render 200 (homePageMetricsSegment (uc_failing K) (uc_lastMetric K) (uc_pointsSince K) (rq_handledAt req))) s"
| "pageEndpoint K GHomeMetricsServices ur req s = readOnly (Render 200 (homePageMetricsServicesSegment (uc_metricServices K) (rq_handledAt req))) s"
| "pageEndpoint K GLogs ur req s = readOnly (logsReply (logsPage (ui_of (uc_web K)) (qget ur))) s"
| "pageEndpoint K GLogsStream ur req s = readOnly (streamReply K (streamLogs (uc_web K) True ur)) s"
| "pageEndpoint K GLogsExport ur req s = readOnly (exportReply K (exportLogs (uc_web K) ur)) s"
| "pageEndpoint K GLogDetails ur req s = readOnly (logDetailsPage (uc_web K) (uc_json K) (uc_indent K) (uc_logRow K) ur) s"
| "pageEndpoint K GAlerts ur req s = readOnly (alertsPage (uc_alerts K) ur (us_settings s) (us_alerts s)) s"
| "pageEndpoint K PAlerts ur req s = onAlerts (createAlert (uc_alerts K) ur (us_settings s) (us_alerts s)) s"
| "pageEndpoint K GAlertsOpen ur req s = readOnly (openAlertQuery (uc_alerts K) (uc_escape K) ur) s"
| "pageEndpoint K GAlertEdit ur req s = readOnly (editAlertPage (uc_alerts K) ur (us_settings s) (us_alerts s)) s"
| "pageEndpoint K UAlert ur req s = onAlerts (updateAlert (uc_alerts K) ur (us_settings s) (us_alerts s)) s"
| "pageEndpoint K DAlert ur req s = onAlerts (deleteAlert (uc_alerts K) ur (us_settings s) (us_alerts s)) s"
| "pageEndpoint K PAlertTest ur req s = readOnly (dryRunAlert (uc_alerts K) ur (us_alerts s)) s"
| "pageEndpoint K GSettings ur req s = readOnly (settingsPage K s 200 [] False) s"
| "pageEndpoint K URetention ur req s = onSettings (updateRetentionSettings (uc_settings K) ur (us_settings s)) s"
| "pageEndpoint K UBackup ur req s = onSettings (updateBackupSettings (uc_settings K) ur (us_settings s)) s"
| "pageEndpoint K PBackupRun ur req s = (case runBackupNow K req s of (r, s') \<Rightarrow> Some (answer r, s'))"
| "pageEndpoint K PApiKeys ur req s = (case createApiKey K req s of (r, s') \<Rightarrow> Some (answer r, s'))"
| "pageEndpoint K DApiKey ur req s = (case deleteApiKey K ur s of (r, s') \<Rightarrow> Some (answer r, s'))"
| "pageEndpoint K PPushover ur req s = onSettings (savePushover (uc_settings K) ur (us_settings s)) s"
| "pageEndpoint K PPushoverTest ur req s = readOnly (testPushover (uc_settings K) (ae_notify (uc_alerts K)) (us_settings s)) s"
| "pageEndpoint K PCampfire ur req s = onSettings (saveCampfire (uc_settings K) ur (us_settings s)) s"
| "pageEndpoint K PCampfireTest ur req s = readOnly (testCampfire (uc_settings K) (ae_notify (uc_alerts K)) ur (us_settings s)) s"
| "pageEndpoint K PScrape ur req s = onTargets (createScrapeTarget (uc_settings K) ur (us_targets s)) s"
| "pageEndpoint K PScrapeToggle ur req s = onTargets (toggleScrapeTarget (uc_settings K) ur (us_targets s)) s"
| "pageEndpoint K DScrape ur req s = onTargets (deleteScrapeTarget (uc_settings K) ur (us_targets s)) s"
| "pageEndpoint K GExplorer ur req s = (case metricsExplorerPage (uc_web K) (us_dash s) ur of None \<Rightarrow> None | Some r \<Rightarrow> readOnly r s)"
| "pageEndpoint K GMetricsExport ur req s = readOnly (exportReply K (exportMetrics (uc_web K) ur)) s"
| "pageEndpoint K GCompile ur req s = readOnly (Render 200 (compileDSL (uc_web K) ur)) s"
| "pageEndpoint K GFilterOptions ur req s = readOnly (Render 200 (filterOptions (uc_web K) ur)) s"
| "pageEndpoint K PSavePanel ur req s = savePanelEndpoint (uc_web K) ur s"
| "pageEndpoint K GWarRoom ur req s = (case warRoomPage (uc_web K) ur of None \<Rightarrow> None | Some v \<Rightarrow> readOnly (Render 200 v) s)"
| "pageEndpoint K GDashboards ur req s = readOnly (dashboardsPage (us_dash s)) s"
| "pageEndpoint K PDashboards ur req s = onDash (createDashboard (uc_web K) ur (us_dash s)) s"
| "pageEndpoint K GDashboard ur req s = readOnly (dashboardPage (uc_web K) ur (us_dash s)) s"
| "pageEndpoint K DDashboard ur req s = onDash (deleteDashboard ur (us_dash s)) s"
| "pageEndpoint K PPanels ur req s = onDash (createPanel (uc_web K) ur (us_dash s)) s"
| "pageEndpoint K GPanel ur req s = (case panelFragment (uc_web K) ur (us_dash s) of None \<Rightarrow> None | Some r \<Rightarrow> readOnly r s)"
| "pageEndpoint K UPanel ur req s = onDash (updatePanel (uc_web K) ur (us_dash s)) s"
| "pageEndpoint K DPanel ur req s = onDash (deletePanel ur (us_dash s)) s"
| "pageEndpoint K GHome ur req s = readOnly (Render 200 ()) s"
| "pageEndpoint K GLogo ur req s = Some (logo K, s)"
| "pageEndpoint K GStatic ur req s = Some (staticHandler K req, s)"

definition uiMatchOf :: "ui_config \<Rightarrow> api_request \<Rightarrow> ui_matched" where
  "uiMatchOf K req = uc_match K uiRoutes (rq_method req) (rq_path req)"

text \<open>
  A path under a subrouter goes through its \<open>sessionAuth\<close> also when no route or method matches there.
\<close>

definition guardedPrefixes :: "string list" where
  "guardedPrefixes = [''/home'', ''/logs'', ''/alerts'', ''/settings'', ''/metrics-explorer'', ''/dashboards'']"

definition underGuard :: "string \<Rightarrow> bool" where
  "underGuard path = list_ex (\<lambda>p. path = p \<or> HasPrefix path (p @ ''/'')) guardedPrefixes"

definition unrouted :: "ui_config \<Rightarrow> api_request \<Rightarrow> unit reply \<Rightarrow> ui_server \<Rightarrow> (api_response \<times> ui_server) option" where
  "unrouted K req r s = (if underGuard (rq_path req) then sessionAuth K req (readOnly r) s else readOnly r s)"

definition uiRoute :: "ui_config \<Rightarrow> api_request \<Rightarrow> ui_server \<Rightarrow> (api_response \<times> ui_server) option" where
  "uiRoute K req s =
     (case uiMatchOf K req of
        UiNotFound \<Rightarrow> unrouted K req (Plain 404 ''404 page not found'') s
      | UiMethodNotAllowed \<Rightarrow> unrouted K req (Bare 405) s
      | UiMatched r param \<Rightarrow>
          if r \<in> set publicRoutes then pageEndpoint K r (withParams K req param) req s
          else sessionAuth K req (pageEndpoint K r (withParams K req param) req) s)"

text \<open>
  The middlewares in their order: headers, body cap, CSRF check, then the route. A handler's \<open>Set\<close>
  replaces a header of the middleware.
\<close>

definition uiServe :: "ui_config \<Rightarrow> api_request \<Rightarrow> ui_server \<Rightarrow> (api_response \<times> ui_server) option" where
  "uiServe K req s =
     map_option (\<lambda>(r, s'). (r\<lparr>rp_headers := filter (\<lambda>h. fst h \<notin> fst ` set (rp_headers r)) (uiHeaders K req) @ rp_headers r\<rparr>, s'))
       (if \<not> uc_csrf K req then Some (csrfErrorHandler K req, s) else uiRoute K req s)"

text \<open>chi only answers with a route of the table, registered for the request's method or for every method.\<close>

definition ui_match_ok :: "ui_config \<Rightarrow> bool" where
  "ui_match_ok K \<longleftrightarrow> (\<forall>table method path r param. uc_match K table method path = UiMatched r param
     \<longrightarrow> (\<exists>m pat. (m, pat, r) \<in> set table \<and> (m = method \<or> m = ''*'')))"

section \<open>Who may change what\<close>

text \<open>The routes that only read, and the methods of the others.\<close>

definition readingRoutes :: "ui_route list" where
  "readingRoutes =
     [GLogin, GLogo, GStatic, GHome, GHomeVolume, GHomeErrors, GHomeServices, GHomeMetrics, GHomeMetricsServices, GLogs, GLogsStream, GLogsExport,
      GLogDetails, GAlerts, GAlertsOpen, GAlertEdit, GSettings, GExplorer, GMetricsExport, GCompile, GFilterOptions, GWarRoom,
      GDashboards, GDashboard, GPanel, PAlertTest, PPushoverTest, PCampfireTest]"

lemma readOnly_state: "readOnly r s = Some (p, s') \<Longrightarrow> s' = s"
  by (simp add: readOnly_def)

lemma reading_routes_read:
  assumes "r \<in> set readingRoutes" and "pageEndpoint K r ur req s = Some (p, s')"
  shows "s' = s"
  using assms by (auto simp: readingRoutes_def split: option.splits dest: readOnly_state)

lemma writing_routes_method:
  assumes "(m, pat, r) \<in> set uiRoutes" and "r \<notin> set readingRoutes"
  shows "m \<in> {''POST'', ''PUT'', ''DELETE''}"
  using assms by (auto simp: uiRoutes_def readingRoutes_def)

lemma public_writers: "r \<in> set publicRoutes \<Longrightarrow> r \<notin> set readingRoutes \<Longrightarrow> r = PLogin"
  by (auto simp: publicRoutes_def readingRoutes_def)

lemma sessionAuth_eq:
  "sessionAuth K req next s = (if validSession K req s then next s else Some (sendRedirect 302 ''/login'', s))"
  by (simp add: sessionAuth_def validSession_def split: option.split)

lemma loginRoute_cases:
  obtains (idle) r where "loginRoute K req s = (r, s)"
  | (refused) r where "\<not> IsLocked (uiClient K req) (rq_now req) (au_throttle s)"
      "loginRoute K req s = (r, s\<lparr>au_throttle := RecordFailure (uiClient K req) (rq_failAt req) (au_throttle s)\<rparr>)"
  | (accepted) form r where "\<not> IsLocked (uiClient K req) (rq_now req) (au_throttle s)"
      "rq_form (bodyLimit K req) = Some form" "SecureCompare (ca_crypto (uc_api K)) (form ''secret'') (uc_secret K)"
      "loginRoute K req s = (r, s\<lparr>us_sessions := snd (CreateSession (uc_uuid K req) (rq_handledAt req) (us_sessions s))\<rparr>)"
proof (cases "IsLocked (uiClient K req) (rq_now req) (au_throttle s) \<or> rq_form (bodyLimit K req) = None")
  case True
  then have "snd (loginRoute K req s) = s" by (auto simp: loginRoute_def loginThrottle_def processLogin_def)
  then show ?thesis using idle [of "fst (loginRoute K req s)"] by (metis prod.collapse)
next
  case False
  then obtain form where f: "rq_form (bodyLimit K req) = Some form" "\<not> IsLocked (uiClient K req) (rq_now req) (au_throttle s)" by auto
  show ?thesis
  proof (cases "SecureCompare (ca_crypto (uc_api K)) (form ''secret'') (uc_secret K)")
    case True
    with f accepted show ?thesis by (simp add: loginRoute_def loginThrottle_def processLogin_def CreateSession_def Let_def)
  next
    case False
    with f refused show ?thesis by (simp add: loginRoute_def loginThrottle_def processLogin_def)
  qed
qed

lemma unrouted_state: "unrouted K req r s = Some (p, s') \<Longrightarrow> s' = s"
  by (auto simp: unrouted_def sessionAuth_eq readOnly_def split: if_splits)

lemma uiServe_state:
  assumes "uiServe K req s = Some (p, s')" and "s' \<noteq> s"
  obtains r param q where "uc_csrf K req" "uiMatchOf K req = UiMatched r param" "r \<notin> set readingRoutes"
    "pageEndpoint K r (withParams K req param) req s = Some (q, s')" "r = PLogin \<or> validSession K req s"
proof -
  from assms obtain q where c: "uc_csrf K req" and q: "uiRoute K req s = Some (q, s')"
    by (auto simp: uiServe_def split: if_splits)
  from q assms(2) obtain r param where m: "uiMatchOf K req = UiMatched r param"
    by (auto simp: uiRoute_def dest: unrouted_state split: ui_matched.splits)
  with q assms(2) have e: "pageEndpoint K r (withParams K req param) req s = Some (q, s')"
    and a: "r \<in> set publicRoutes \<or> validSession K req s"
    by (auto simp: uiRoute_def sessionAuth_eq split: if_splits)
  from reading_routes_read [OF _ e] assms(2) have w: "r \<notin> set readingRoutes" by blast
  with a public_writers that [OF c m w e] show ?thesis by blast
qed

text \<open>
  C20: nothing changes behind the operator's back. When a request to the web interface changes anything -
  sessions, dashboards, alerts, settings, scrape targets, API keys, the throttle - then its method is POST,
  PUT or DELETE, it passed the CSRF check, and it carries the cookie of a valid session; the only exception is
  the login form, which may only record a failed attempt of its address or, with the right secret, add a session.
\<close>

theorem ui_change_authorised:
  assumes "ui_match_ok K" and "uiServe K req s = Some (p, s')" and "s' \<noteq> s"
  shows "uc_csrf K req \<and> rq_method req \<in> {''POST'', ''PUT'', ''DELETE''} \<and>
    (validSession K req s
     \<or> s' = s\<lparr>au_throttle := RecordFailure (uiClient K req) (rq_failAt req) (au_throttle s)\<rparr>
     \<or> (\<exists>form. rq_form (bodyLimit K req) = Some form \<and> SecureCompare (ca_crypto (uc_api K)) (form ''secret'') (uc_secret K)
          \<and> s' = s\<lparr>us_sessions := (us_sessions s)(uc_uuid K req \<mapsto> rq_handledAt req + sessionExpiryDurationMs)\<rparr>))"
proof -
  from uiServe_state [OF assms(2,3)] obtain r param q where c: "uc_csrf K req" and m: "uiMatchOf K req = UiMatched r param"
    and w: "r \<notin> set readingRoutes" and e: "pageEndpoint K r (withParams K req param) req s = Some (q, s')"
    and a: "r = PLogin \<or> validSession K req s" .
  from assms(1) m obtain mt pat where "(mt, pat, r) \<in> set uiRoutes" "mt = rq_method req \<or> mt = ''*''"
    unfolding ui_match_ok_def uiMatchOf_def by blast
  with writing_routes_method [OF _ w] have "rq_method req \<in> {''POST'', ''PUT'', ''DELETE''}" by fastforce
  moreover have "validSession K req s
     \<or> s' = s\<lparr>au_throttle := RecordFailure (uiClient K req) (rq_failAt req) (au_throttle s)\<rparr>
     \<or> (\<exists>form. rq_form (bodyLimit K req) = Some form \<and> SecureCompare (ca_crypto (uc_api K)) (form ''secret'') (uc_secret K)
          \<and> s' = s\<lparr>us_sessions := (us_sessions s)(uc_uuid K req \<mapsto> rq_handledAt req + sessionExpiryDurationMs)\<rparr>)"
    using a
  proof
    assume "r = PLogin"
    with e have "loginRoute K req s = (q, s')" by simp
    then show ?thesis
      by (cases rule: loginRoute_cases [of K req s]) (use assms(3) in \<open>auto simp: CreateSession_def Let_def\<close>)
  qed simp
  ultimately show ?thesis using c by blast
qed

text \<open>
  A page without a session is a redirect to the login. For a request that matches a protected route and
  passes the CSRF check, a missing, unknown or expired session cookie gives exactly that redirect, whatever the
  page would have done.
\<close>

theorem ui_guarded:
  assumes "uiMatchOf K req = UiMatched r param" and "r \<notin> set publicRoutes" and "\<not> validSession K req s" and "uc_csrf K req"
  shows "\<exists>p. uiServe K req s = Some (p, s) \<and> rp_code p = 302 \<and> (''Location'', ''/login'') \<in> set (rp_headers p) \<and> rp_body p = []"
  using assms by (simp add: uiServe_def uiRoute_def sessionAuth_eq answer_def)

section \<open>Login\<close>

text \<open>The login form behind the CSRF check, as a gate: its credential is the secret of the form.\<close>

definition loginRequest :: "ui_config \<Rightarrow> api_request \<Rightarrow> bool" where
  "loginRequest K req \<longleftrightarrow> uc_csrf K req \<and> (case uiMatchOf K req of UiMatched r _ \<Rightarrow> r = PLogin | _ \<Rightarrow> False)"

definition wrongSecret :: "ui_config \<Rightarrow> api_request \<Rightarrow> bool" where
  "wrongSecret K req = (case rq_form (bodyLimit K req) of None \<Rightarrow> False
     | Some form \<Rightarrow> \<not> SecureCompare (ca_crypto (uc_api K)) (form ''secret'') (uc_secret K))"

text \<open>What the client sees of a request: a handler that does not return gives no answer.\<close>

definition uiAnswer :: "ui_config \<Rightarrow> api_request \<Rightarrow> ui_server \<Rightarrow> api_response \<times> ui_server" where
  "uiAnswer K req s = (case uiServe K req s of Some r \<Rightarrow> r | None \<Rightarrow> (\<lparr>rp_code = 0, rp_headers = [], rp_body = []\<rparr>, s))"

lemma uiAnswer_login:
  assumes "loginRequest K req" and "uiAnswer K req s = (p, s')"
  shows "rp_code p = rp_code (fst (loginRoute K req s)) \<and> s' = snd (loginRoute K req s)"
  using assms
  by (auto simp: loginRequest_def uiAnswer_def uiServe_def uiRoute_def publicRoutes_def case_prod_beta split: ui_matched.splits)

interpretation login_gate: gate "uiClient K" "loginRequest K" "\<lambda>req _. wrongSecret K req" "uiAnswer K" for K
proof
  fix req p s' and s :: ui_server
  assume "loginRequest K req" "\<not> IsLocked (uiClient K req) (rq_now req) (au_throttle s)" "wrongSecret K req" "uiAnswer K req s = (p, s')"
  with uiAnswer_login [of K req s p s'] have "rp_code p = 401"
    and "s' = s\<lparr>au_keys := au_keys s, au_throttle := RecordFailure (uiClient K req) (rq_failAt req) (au_throttle s)\<rparr>"
    by (auto simp: loginRoute_def loginThrottle_def processLogin_def wrongSecret_def answer_def split: option.splits)
  then show "rp_code p = 401 \<and> (\<exists>ks. s' = s\<lparr>au_keys := ks, au_throttle := RecordFailure (uiClient K req) (rq_failAt req) (au_throttle s)\<rparr>)"
    by blast
qed (auto dest!: uiAnswer_login simp: loginRoute_def loginThrottle_def answer_def)

text \<open>
  C21: the secret cannot be guessed through the login form. After five wrong secrets from an address within a
  minute, the next login attempt of that address is answered with 429 and creates no session, even with the right secret.
\<close>

theorem login_bruteforce_locked:
  assumes "serveAll (uiAnswer K) rs s = (codes, s')"
    and "\<forall>r \<in> set rs. loginRequest K r \<and> uiClient K r = ip \<and> wrongSecret K r"
    and "\<forall>r \<in> set rs. T - throttlingWindowMs < rq_failAt r \<and> rq_failAt r \<le> T"
    and "throttlingMaxFails \<le> length (filter (\<lambda>c. c = 401) codes)"
    and "loginRequest K req" and "uiClient K req = ip" and "rq_now req = T"
  shows "rp_code (fst (uiAnswer K req s')) = 429 \<and> snd (uiAnswer K req s') = s'"
proof -
  obtain p s2 where "uiAnswer K req s' = (p, s2)" by fastforce
  with login_gate.bruteforce [OF assms(1) _ assms(3-7) this] assms(2) show ?thesis by simp
qed

text \<open>
  C22: what a login gives and a logout takes. After a login with the right secret from an address that is not
  locked, exactly the requests within the next seven days that carry the new session's cookie count as logged in by
  it; once such a request has logged out, no request with that cookie does. Other sessions are not affected.
\<close>

theorem login_logout:
  assumes "loginRequest K req" and "\<not> IsLocked (uiClient K req) (rq_now req) (au_throttle s)"
    and "rq_form (bodyLimit K req) = Some form" and "form ''secret'' = uc_secret K"
    and "uiServe K req s = Some (p, s1)"
    and "rq_cookie (uc_request K later) = Some c"
    and "uiMatchOf K out = UiMatched PLogout param" and "uc_csrf K out" and "rq_cookie (uc_request K out) = Some (uc_uuid K req)"
    and "rq_now out < rq_handledAt req + sessionExpiryDurationMs" and "uiServe K out s1 = Some (q, s2)"
  shows "rp_code p = 303
    \<and> validSession K later s1 = (if c = uc_uuid K req then rq_now later < rq_handledAt req + sessionExpiryDurationMs else validSession K later s)
    \<and> validSession K later s2 = (c \<noteq> uc_uuid K req \<and> validSession K later s)"
proof -
  have "uiAnswer K req s = (p, s1)" using assms(5) by (simp add: uiAnswer_def)
  from uiAnswer_login [OF assms(1) this] assms(2-4)
  have p: "rp_code p = 303" and s1: "s1 = s\<lparr>us_sessions := (us_sessions s)(uc_uuid K req \<mapsto> rq_handledAt req + sessionExpiryDurationMs)\<rparr>"
    by (auto simp: loginRoute_def loginThrottle_def processLogin_def SecureCompare_def CreateSession_def Let_def setSessionCookie_def answer_def)
  have "validSession K out s1" using assms(9,10) by (simp add: validSession_def s1 IsSessionValid_def)
  with assms(7,8,9,11) have s2: "us_sessions s2 = (us_sessions s1)(uc_uuid K req := None)"
    by (auto simp: uiServe_def uiRoute_def publicRoutes_def sessionAuth_eq processLogout_def InvalidateSession_def)
  have "validSession K later s1 = (if c = uc_uuid K req then rq_now later < rq_handledAt req + sessionExpiryDurationMs else validSession K later s)"
    using assms(6) by (simp add: validSession_def s1 IsSessionValid_def)
  moreover have "validSession K later s2 = (c \<noteq> uc_uuid K req \<and> validSession K later s)"
    using assms(6) by (simp add: validSession_def s2) (simp add: s1 IsSessionValid_def)
  ultimately show ?thesis using p by blast
qed

section \<open>Concrete requests\<close>

definition ui_match_sample :: "(string \<times> string \<times> ui_route) list \<Rightarrow> string \<Rightarrow> string \<Rightarrow> ui_matched" where
  "ui_match_sample table method path =
     (case find (\<lambda>(m, pat, r). m = method \<and> pat = path) table of None \<Rightarrow> UiNotFound | Some (m, pat, r) \<Rightarrow> UiMatched r (\<lambda>_. ''1''))"

text \<open>The cookie and the form's secret are headers of the sample's requests.\<close>

definition ui_request_of :: "api_request \<Rightarrow> ui_request" where
  "ui_request_of req = \<lparr>rq_query = (\<lambda>_. []), rq_form = Some (\<lambda>_. HeaderGet ''Secret'' req), rq_param = (\<lambda>_. []), rq_header = (\<lambda>_. []),
     rq_cookie = (case HeaderValues ''Cookie'' req of [] \<Rightarrow> None | c # _ \<Rightarrow> Some c)\<rparr>"

definition ui_config_sample :: ui_config where
  "ui_config_sample =
     \<lparr>uc_api = \<lparr>ca_crypto = crypto_sample, ca_parseIP = (\<lambda>_. None), ca_trustProxy = False, ca_env = ''local'', ca_marshalError = (\<lambda>c m. c)\<rparr>,
      uc_secret = ''swordfish'', uc_request = ui_request_of, uc_match = ui_match_sample, uc_csrf = (\<lambda>_. True), uc_uuid = (\<lambda>_. ''sid''), uc_nonce = (\<lambda>_. ''n''),
      uc_keySalt = (\<lambda>_. []), uc_keySecret = (\<lambda>_. ''s''), uc_web = web_sample, uc_alerts = alert_pages_sample, uc_settings = settings_env_sample,
      uc_escape = id, uc_json = (\<lambda>_. None), uc_indent = (\<lambda>_. None), uc_logRow = (\<lambda>_. None), uc_errorsSince = (\<lambda>_. answers []),
      uc_logServices = (\<lambda>_. answers []), uc_metricServices = (\<lambda>_. answers []), uc_failing = answers [], uc_lastMetric = None,
      uc_pointsSince = (\<lambda>_. None), uc_logo = [], uc_files = (\<lambda>hs _. \<lparr>rp_code = 200, rp_headers = hs, rp_body = []\<rparr>), uc_stamp = (\<lambda>_. []),
      uc_backupNames = (dbNames, dbNames)\<rparr>"

definition ui_server_sample :: ui_server where
  "ui_server_sample = \<lparr>au_throttle = [], au_keys = NewApiKeysService, us_sessions = Map.empty, us_dash = dash_store_sample,
     us_alerts = \<lparr>as_alerts = [], as_firings = [], as_sent = []\<rparr>, us_settings = Map.empty, us_targets = []\<rparr>"

definition page_request :: "string \<Rightarrow> string \<Rightarrow> (string \<times> string) list \<Rightarrow> ms \<Rightarrow> api_request" where
  "page_request method path headers t = \<lparr>rq_method = method, rq_path = path, rq_remoteAddr = ''h'', rq_headers = headers, rq_body = Body ''x'',
     rq_now = t, rq_failAt = t, rq_handledAt = t\<rparr>"

lemma ui_match_sample_ok: "ui_match_ok ui_config_sample"
  by (auto simp: ui_match_ok_def ui_config_sample_def ui_match_sample_def split: option.splits dest!: find_SomeD)

lemma page_match:
  "uiMatchOf ui_config_sample (page_request ''POST'' ''/login'' hs t) = UiMatched PLogin (\<lambda>_. ''1'')"
  "uiMatchOf ui_config_sample (page_request ''POST'' ''/logout'' hs t) = UiMatched PLogout (\<lambda>_. ''1'')"
  "uiMatchOf ui_config_sample (page_request ''GET'' ''/dashboards/'' hs t) = UiMatched GDashboards (\<lambda>_. ''1'')"
  by (simp_all add: uiMatchOf_def ui_config_sample_def page_request_def uiRoutes_def ui_match_sample_def)

lemma page_client: "uiClient ui_config_sample (page_request m u hs t) = ''h''"
  by (simp add: uiClient_def ui_config_sample_def ClientIP_def Let_def page_request_def remoteHost_def SplitHostPort_def cut_last_def)

lemma page_form: "rq_form (bodyLimit ui_config_sample (page_request m u hs t)) = Some (\<lambda>_. HeaderGet ''Secret'' (page_request m u hs t))"
  by (simp add: bodyLimit_def ui_config_sample_def page_request_def ui_request_of_def maxUIBodyBytes_def)

lemma page_csrf: "uc_csrf ui_config_sample req"
  by (simp add: ui_config_sample_def)

lemma page_times: "rq_now (page_request m u hs t) = t" "rq_failAt (page_request m u hs t) = t" "rq_handledAt (page_request m u hs t) = t"
  by (simp_all add: page_request_def)

lemmas page_simps = page_match page_client page_form page_csrf page_times

abbreviation login_request :: "string \<Rightarrow> ms \<Rightarrow> api_request" where
  "login_request secret t \<equiv> page_request ''POST'' ''/login'' [(''Secret'', secret)] t"

lemma login_sample:
  "loginRequest ui_config_sample (login_request secret t)"
  "wrongSecret ui_config_sample (login_request secret t) \<longleftrightarrow> secret \<noteq> ''swordfish''"
  by (simp_all add: loginRequest_def wrongSecret_def page_simps) (simp_all add: ui_config_sample_def SecureCompare_def sample_sha page_request_def HeaderGet_def HeaderValues_def)

lemma no_session_sample: "\<not> validSession K req ui_server_sample"
  by (auto simp: validSession_def ui_server_sample_def IsSessionValid_def split: option.splits)

lemma login_served:
  "\<exists>p. uiServe ui_config_sample (login_request ''swordfish'' t) ui_server_sample
     = Some (p, ui_server_sample\<lparr>us_sessions := [''sid'' \<mapsto> t + sessionExpiryDurationMs]\<rparr>)"
proof -
  have "loginRoute ui_config_sample (login_request ''swordfish'' t) ui_server_sample = (setSessionCookie ui_config_sample ''sid'' sessionCookieMaxAge (sendRedirect 303 ''/''),
      ui_server_sample\<lparr>us_sessions := [''sid'' \<mapsto> t + sessionExpiryDurationMs]\<rparr>)"
    using login_sample(2) [of "''swordfish''" t]
    by (simp add: loginRoute_def loginThrottle_def processLogin_def wrongSecret_def page_simps CreateSession_def Let_def)
      (simp add: ui_server_sample_def ui_config_sample_def IsLocked_def)
  then show ?thesis by (simp add: uiServe_def uiRoute_def page_simps publicRoutes_def)
qed

theorem ui_change_authorised_witness:
  "\<exists>p s'. uiServe ui_config_sample (login_request ''swordfish'' 5) ui_server_sample = Some (p, s') \<and> s' \<noteq> ui_server_sample
     \<and> rq_method (login_request ''swordfish'' 5) \<in> {''POST'', ''PUT'', ''DELETE''}"
proof -
  from login_served obtain p where
    p: "uiServe ui_config_sample (login_request ''swordfish'' 5) ui_server_sample
      = Some (p, ui_server_sample\<lparr>us_sessions := [''sid'' \<mapsto> 5 + sessionExpiryDurationMs]\<rparr>)" (is "_ = Some (_, ?s')") by blast
  have ne: "?s' \<noteq> ui_server_sample" by (simp add: ui_server_sample_def fun_eq_iff)
  from ui_change_authorised [OF ui_match_sample_ok p ne] p ne show ?thesis by blast
qed

theorem ui_guarded_witness:
  "\<exists>p. uiServe ui_config_sample (page_request ''GET'' ''/dashboards/'' [(''Cookie'', ''stale'')] 5) ui_server_sample = Some (p, ui_server_sample) \<and> rp_code p = 302"
  using ui_guarded [OF page_match(3) _ no_session_sample page_csrf] by (auto simp: publicRoutes_def)

theorem login_logout_witness:
  "\<exists>s1 s2. validSession ui_config_sample (page_request ''GET'' ''/dashboards/'' [(''Cookie'', ''sid'')] 9) s1
     \<and> \<not> validSession ui_config_sample (page_request ''GET'' ''/dashboards/'' [(''Cookie'', ''sid'')] 9) s2"
proof -
  let ?out = "page_request ''POST'' ''/logout'' [(''Cookie'', ''sid'')] 7" and ?later = "page_request ''GET'' ''/dashboards/'' [(''Cookie'', ''sid'')] 9"
  from login_served obtain p s1 where p: "uiServe ui_config_sample (login_request ''swordfish'' 5) ui_server_sample = Some (p, s1)" by blast
  have c: "rq_cookie (uc_request ui_config_sample (page_request m u [(''Cookie'', ''sid'')] t)) = Some ''sid''" for m u t
    by (simp add: ui_config_sample_def ui_request_of_def HeaderValues_def page_request_def)
  have u: "uc_uuid ui_config_sample r = ''sid''" "uc_secret ui_config_sample = ''swordfish''" for r by (simp_all add: ui_config_sample_def)
  have "uiServe ui_config_sample ?out s1 \<noteq> None"
    by (cases "validSession ui_config_sample ?out s1") (simp_all add: uiServe_def uiRoute_def page_simps publicRoutes_def sessionAuth_eq)
  then obtain q s2 where q: "uiServe ui_config_sample ?out s1 = Some (q, s2)" by auto
  have l: "\<not> IsLocked ip t (au_throttle ui_server_sample)" for ip t by (simp add: ui_server_sample_def IsLocked_def)
  have "HeaderGet ''Secret'' (login_request ''swordfish'' 5) = ''swordfish''" by (simp add: HeaderGet_def HeaderValues_def page_request_def)
  with login_logout [OF login_sample(1) l page_form _ p, of ?later "''sid''" ?out "\<lambda>_. ''1''" q s2] q c u
  show ?thesis by (auto simp: page_simps sessionExpiryDurationMs_def)
qed

theorem login_bruteforce_locked_witness:
  "\<exists>codes s'. serveAll (uiAnswer ui_config_sample) (map (login_request ''guess'') [1, 2, 3, 4, 5]) ui_server_sample = (codes, s')
     \<and> codes = [401, 401, 401, 401, 401] \<and> rp_code (fst (uiAnswer ui_config_sample (login_request ''swordfish'' 6) s')) = 429"
proof -
  let ?srv = "uiAnswer ui_config_sample" and ?rs = "map (login_request ''guess'') [1, 2, 3, 4, 5]"
  obtain codes s' where r: "serveAll ?srv ?rs ui_server_sample = (codes, s')" by fastforce
  have st: "rp_code (fst (?srv (login_request ''guess'' t) s)) = 401 \<and> au_throttle (snd (?srv (login_request ''guess'' t) s)) = RecordFailure ''h'' t (au_throttle s)"
    if "\<not> IsLocked ''h'' t (au_throttle s)" for t s
    using login_gate.refused [of ui_config_sample "login_request ''guess'' t" s "fst (?srv (login_request ''guess'' t) s)" "snd (?srv (login_request ''guess'' t) s)"] that
    by (auto simp: login_sample page_simps)
  have "codes = [401, 401, 401, 401, 401]"
    using r by (simp add: case_prod_beta st ui_server_sample_def)
      (auto simp: st RecordFailure_def failEntry_def IsLocked_def newEntry_def Let_def throttlingMaxEntries_def throttlingMaxFails_def throttlingWindowMs_def)
  moreover have "rp_code (fst (?srv (login_request ''swordfish'' 6) s')) = 429"
    using login_bruteforce_locked [OF r, of "''h''" 6 "login_request ''swordfish'' 6"] calculation
    by (simp add: login_sample page_simps throttlingMaxFails_def throttlingWindowMs_def)
  ultimately show ?thesis using r by blast
qed

end
