(* ===== verification/Db_Pool.thy ===== *)
theory Db_Pool
  imports Sql_Text
begin

text \<open>
  The database pools, \<open>db/pool.go\<close>: opening and closing the four pools, the hooks that prepare a
  connection, and the authorizer of the read pool. A pool is identified by its driver and its data source;
  the pools that are open are a list, so that a pool that is forgotten on an error path can be seen. What
  \<open>sql.Open\<close>, \<open>Ping\<close> and \<open>Exec\<close> answer is the record \<open>sql_world\<close>.
\<close>

record pool =
  pl_driver :: string
  pl_source :: string
  pl_maxOpen :: nat

record sql_world =
  sw_open :: "string \<Rightarrow> string \<Rightarrow> string option"
  sw_ping :: "pool \<Rightarrow> string option"
  sw_exec :: "pool \<Rightarrow> string \<Rightarrow> string option"
  sw_cpus :: nat
  sw_join :: "string \<Rightarrow> string \<Rightarrow> string"

text \<open>An error names the pool that could not be opened.\<close>

datatype pool_error = POpen string | PPing string | PLogsRead pool_error | PLogsWrite pool_error | PMetrics pool_error | PMeta pool_error | PHeapLimit string

section \<open>Connections\<close>

definition logsReadPragmas :: "string list" where
  "logsReadPragmas = [''PRAGMA synchronous = NORMAL'', ''PRAGMA temp_store = MEMORY'', ''PRAGMA cache_size = -10000'']"

definition logsWritePragmas :: "string list" where
  "logsWritePragmas = [''PRAGMA synchronous = NORMAL'', ''PRAGMA temp_store = MEMORY'', ''PRAGMA cache_size = -40000'', ''PRAGMA optimize = 0x10002'']"

definition metricsPragmas :: "string list" where
  "metricsPragmas = [''PRAGMA synchronous = NORMAL'', ''PRAGMA temp_store = MEMORY'', ''PRAGMA cache_size = -10000'', ''PRAGMA optimize = 0x10002'']"

definition metaPragmas :: "string list" where
  "metaPragmas = [''PRAGMA synchronous = NORMAL'', ''PRAGMA temp_store = MEMORY'', ''PRAGMA cache_size = -2000'', ''PRAGMA optimize = 0x10002'',
     ''PRAGMA foreign_keys = ON'']"

text \<open>A connection is what it has executed, and whether the authorizer watches it.\<close>

record conn =
  cn_log :: "string list"
  cn_authorized :: bool

fun makeConnectHook :: "(string \<Rightarrow> string option) \<Rightarrow> string list \<Rightarrow> conn \<Rightarrow> (string, conn) result" where
  "makeConnectHook exec [] c = Ok c"
| "makeConnectHook exec (p # ps) c =
     (case exec p of Some e \<Rightarrow> Err e | None \<Rightarrow> makeConnectHook exec ps (c\<lparr>cn_log := cn_log c @ [p]\<rparr>))"

definition attachText :: "string \<Rightarrow> string" where
  "attachText metricsPath = ''ATTACH DATABASE '' @ [squote] @ ''file:'' @ ReplaceAll1 metricsPath squote [squote, squote] @ ''?mode=ro'' @ [squote] @ '' AS metricsdb''"

definition makeLogsReadHook :: "(string \<Rightarrow> string option) \<Rightarrow> string \<Rightarrow> conn \<Rightarrow> (string, conn) result" where
  "makeLogsReadHook exec metricsPath c =
     (case makeConnectHook exec logsReadPragmas c of
        Inl e \<Rightarrow> Err e
      | Inr c1 \<Rightarrow> (case exec (attachText metricsPath) of
            Some e \<Rightarrow> Err e
          | None \<Rightarrow> Ok (c1\<lparr>cn_log := cn_log c1 @ [attachText metricsPath], cn_authorized := True\<rparr>)))"

section \<open>The authorizer\<close>

text \<open>The operations of SQLite's authorizer callback that the code names, and all others.\<close>

datatype auth_op = SQLITE_PRAGMA | SQLITE_ATTACH | SQLITE_DETACH | SQLITE_FUNCTION | OtherOp nat

definition EqualFold :: "string \<Rightarrow> string \<Rightarrow> bool" where
  "EqualFold a b \<longleftrightarrow> ToLower a = ToLower b"

text \<open>True is \<open>SQLITE_OK\<close>, False is \<open>SQLITE_DENY\<close>. The compared names are ASCII, where \<open>strings.EqualFold\<close> ignores case only.\<close>

fun readAuthorizer :: "auth_op \<Rightarrow> string \<Rightarrow> string \<Rightarrow> string \<Rightarrow> bool" where
  "readAuthorizer SQLITE_PRAGMA arg1 arg2 arg3 = EqualFold arg1 ''data_version''"
| "readAuthorizer SQLITE_ATTACH arg1 arg2 arg3 = False"
| "readAuthorizer SQLITE_DETACH arg1 arg2 arg3 = False"
| "readAuthorizer SQLITE_FUNCTION arg1 arg2 arg3 = (\<not> EqualFold arg2 ''load_extension'')"
| "readAuthorizer (OtherOp n) arg1 arg2 arg3 = True"

section \<open>Opening and closing\<close>

definition openPool :: "sql_world \<Rightarrow> string \<Rightarrow> string \<Rightarrow> nat \<Rightarrow> pool list \<Rightarrow> (pool_error, pool) result \<times> pool list" where
  "openPool W driver source maxOpen hs =
     (case sw_open W driver source of
        Some e \<Rightarrow> (Err (POpen e), hs)
      | None \<Rightarrow>
          let p = \<lparr>pl_driver = driver, pl_source = source, pl_maxOpen = maxOpen\<rparr>
          in case sw_ping W p of Some e \<Rightarrow> (Err (PPing e), remove1 p (p # hs)) | None \<Rightarrow> (Ok p, p # hs))"

definition closeAll :: "pool list \<Rightarrow> pool list \<Rightarrow> pool list" where
  "closeAll ps hs = fold remove1 ps hs"

record Pools =
  po_LogsRead :: pool
  po_LogsWrite :: pool
  po_Metrics :: pool
  po_Meta :: pool

text \<open>The read driver is registered anew by each call, under a numbered name.\<close>

definition logsReadDriver :: "nat \<Rightarrow> string" where
  "logsReadDriver n = ''sqlite3-pooml-logs-read-'' @ nat_str n"

definition OpenPools :: "sql_world \<Rightarrow> nat \<Rightarrow> string \<Rightarrow> pool list \<Rightarrow> (pool_error, Pools) result \<times> pool list" where
  "OpenPools W n dbDir hs0 =
     (let logsPath = sw_join W dbDir ''logs.db''; metricsPath = sw_join W dbDir ''metrics.db''; metaPath = sw_join W dbDir ''meta.db'';
          poolSize = sw_cpus W * 2 + 1
      in case openPool W (logsReadDriver n) (''file:'' @ logsPath @ ''?mode=ro'') poolSize hs0 of
           (Inl e, hs) \<Rightarrow> (Err (PLogsRead e), hs)
         | (Inr logsRead, hs1) \<Rightarrow>
      (case openPool W ''sqlite3-pooml-logs-write'' (''file:'' @ logsPath @ ''?mode=rw'') 1 hs1 of
           (Inl e, hs) \<Rightarrow> (Err (PLogsWrite e), closeAll [logsRead] hs)
         | (Inr logsWrite, hs2) \<Rightarrow>
      (case openPool W ''sqlite3-pooml-metrics'' (''file:'' @ metricsPath @ ''?mode=rw'') poolSize hs2 of
           (Inl e, hs) \<Rightarrow> (Err (PMetrics e), closeAll [logsRead, logsWrite] hs)
         | (Inr metrics, hs3) \<Rightarrow>
      (case openPool W ''sqlite3-pooml-meta'' (''file:'' @ metaPath @ ''?mode=rw'') poolSize hs3 of
           (Inl e, hs) \<Rightarrow> (Err (PMeta e), closeAll [logsRead, logsWrite, metrics] hs)
         | (Inr meta, hs4) \<Rightarrow>
      (case sw_exec W meta ''PRAGMA hard_heap_limit = 1073741824'' of
           Some e \<Rightarrow> (Err (PHeapLimit e), closeAll [logsRead, logsWrite, metrics, meta] hs4)
         | None \<Rightarrow> (Ok \<lparr>po_LogsRead = logsRead, po_LogsWrite = logsWrite, po_Metrics = metrics, po_Meta = meta\<rparr>, hs4))))))"

definition ClosePools :: "Pools \<Rightarrow> pool list \<Rightarrow> pool list" where
  "ClosePools p hs = closeAll [po_LogsRead p, po_LogsWrite p, po_Metrics p, po_Meta p] hs"

section \<open>Properties\<close>

text \<open>What \<open>openPool\<close> promises: a pool is open exactly when it is returned.\<close>

definition opened :: "sql_world \<Rightarrow> string \<Rightarrow> string \<Rightarrow> nat \<Rightarrow> (pool_error, pool) result" where
  "opened W d src k = fst (openPool W d src k [])"

lemma openPool_eq:
  "openPool W d src k hs = (case opened W d src k of Inl e \<Rightarrow> (Inl e, hs) | Inr p \<Rightarrow> (Inr p, p # hs))"
  by (simp add: opened_def openPool_def Let_def split: option.split)

lemma opened_pool: "opened W d src k = Inr p \<Longrightarrow> p = \<lparr>pl_driver = d, pl_source = src, pl_maxOpen = k\<rparr>"
  by (auto simp: opened_def openPool_def Let_def split: option.splits)

text \<open>The four attempts do not depend on what is open already.\<close>

definition dbFile :: "sql_world \<Rightarrow> string \<Rightarrow> string \<Rightarrow> string \<Rightarrow> string" where
  "dbFile W dbDir name mode = ''file:'' @ sw_join W dbDir name @ mode"

lemma OpenPools_eq:
  "OpenPools W n dbDir hs =
    (case opened W (logsReadDriver n) (dbFile W dbDir ''logs.db'' ''?mode=ro'') (sw_cpus W * 2 + 1) of Inl e \<Rightarrow> (Err (PLogsRead e), hs) | Inr a \<Rightarrow>
    (case opened W ''sqlite3-pooml-logs-write'' (dbFile W dbDir ''logs.db'' ''?mode=rw'') 1 of Inl e \<Rightarrow> (Err (PLogsWrite e), closeAll [a] (a # hs)) | Inr b \<Rightarrow>
    (case opened W ''sqlite3-pooml-metrics'' (dbFile W dbDir ''metrics.db'' ''?mode=rw'') (sw_cpus W * 2 + 1) of
       Inl e \<Rightarrow> (Err (PMetrics e), closeAll [a, b] (b # a # hs)) | Inr c \<Rightarrow>
    (case opened W ''sqlite3-pooml-meta'' (dbFile W dbDir ''meta.db'' ''?mode=rw'') (sw_cpus W * 2 + 1) of
       Inl e \<Rightarrow> (Err (PMeta e), closeAll [a, b, c] (c # b # a # hs)) | Inr m \<Rightarrow>
    (case sw_exec W m ''PRAGMA hard_heap_limit = 1073741824'' of
       Some e \<Rightarrow> (Err (PHeapLimit e), closeAll [a, b, c, m] (m # c # b # a # hs))
     | None \<Rightarrow> (Ok \<lparr>po_LogsRead = a, po_LogsWrite = b, po_Metrics = c, po_Meta = m\<rparr>, m # c # b # a # hs))))))"
  unfolding OpenPools_def Let_def openPool_eq dbFile_def by (simp split: sum.split option.split)

lemma closeAll_rev: "distinct ps \<Longrightarrow> closeAll (rev ps) (ps @ hs) = hs"
  by (induction ps rule: rev_induct) (auto simp: closeAll_def remove1_append)

text \<open>
  C40: opening the databases is all or nothing. Whatever fails on the way, the failed call leaves open exactly
  the pools that were open before it; a call that succeeds adds four pools, of which the one for the logs'
  readers is opened read-only and the one for their writer has a single connection; and closing takes exactly these
  four away again.
\<close>

theorem pools_all_or_nothing:
  "case OpenPools W n dbDir hs of
     (Inl e, hs') \<Rightarrow> hs' = hs
   | (Inr p, hs') \<Rightarrow> hs' = [po_Meta p, po_Metrics p, po_LogsWrite p, po_LogsRead p] @ hs \<and> ClosePools p hs' = hs
       \<and> pl_source (po_LogsRead p) = ''file:'' @ sw_join W dbDir ''logs.db'' @ ''?mode=ro'' \<and> pl_maxOpen (po_LogsWrite p) = 1"
proof -
  let ?k = "sw_cpus W * 2 + 1"
  define o1 where "o1 = opened W (logsReadDriver n) (dbFile W dbDir ''logs.db'' ''?mode=ro'') ?k"
  define o2 where "o2 = opened W ''sqlite3-pooml-logs-write'' (dbFile W dbDir ''logs.db'' ''?mode=rw'') 1"
  define o3 where "o3 = opened W ''sqlite3-pooml-metrics'' (dbFile W dbDir ''metrics.db'' ''?mode=rw'') ?k"
  define o4 where "o4 = opened W ''sqlite3-pooml-meta'' (dbFile W dbDir ''meta.db'' ''?mode=rw'') ?k"
  note o = OpenPools_eq [of W n dbDir hs, folded o1_def o2_def o3_def o4_def]
  show ?thesis
  proof (cases o1)
    case (Inr a)
    note a = this opened_pool [OF this [unfolded o1_def]]
    show ?thesis
    proof (cases o2)
      case (Inr b)
      note b = this opened_pool [OF this [unfolded o2_def]]
      show ?thesis
      proof (cases o3)
        case (Inr c)
        note c = this opened_pool [OF this [unfolded o3_def]]
        show ?thesis
        proof (cases o4)
          case (Inr m)
          with opened_pool [OF this [unfolded o4_def]] a(2) b(2) c(2) have "distinct [m, c, b, a]" by (simp add: logsReadDriver_def)
          then have "closeAll [a, b, c, m] (m # c # b # a # hs) = hs" using closeAll_rev [of "[m, c, b, a]" hs] by simp
          with a b c Inr show ?thesis by (simp add: o ClosePools_def dbFile_def split: option.split)
        next
          case Inl
          from a(2) b(2) c(2) have "distinct [c, b, a]" by (simp add: logsReadDriver_def)
          with a b c Inl show ?thesis using closeAll_rev [of "[c, b, a]" hs] by (simp add: o)
        qed
      next
        case Inl
        from a(2) b(2) have "distinct [b, a]" by (simp add: logsReadDriver_def)
        with a b Inl show ?thesis using closeAll_rev [of "[b, a]" hs] by (simp add: o)
      qed
    next
      case Inl
      with a show ?thesis using closeAll_rev [of "[a]" hs] by (simp add: o)
    qed
  qed (simp add: o)
qed

text \<open>A connection of the read pool is only handed out once the authorizer watches it.\<close>

lemma read_conn_authorized:
  assumes "makeLogsReadHook exec path c = Inr c'"
  shows "cn_authorized c' \<and> cn_log c' = cn_log c @ logsReadPragmas @ [attachText path]"
proof -
  have run: "cn_log c1 = cn_log c @ ps" if "makeConnectHook exec ps c = Inr c1" for ps c c1
    using that by (induction ps arbitrary: c) (auto split: option.splits)
  show ?thesis using assms by (auto simp: makeLogsReadHook_def run split: sum.splits option.splits)
qed

end
