(* ===== verification/Boot.thy ===== *)
theory Boot
  imports Backup Db_Pool
begin

text \<open>
  Starting the server: the environment readers of \<open>main.go\<close> and the start-up sequence that uses them.
  \<open>log.Fatal\<close> ends the process, so a reader gives an error or its value. The environment, the home directory,
  \<open>filepath\<close>, \<open>MkdirAll\<close>, zerolog's level parser, the migrations and the build information are the record
  \<open>os_world\<close>.
\<close>

datatype up_outcome = UpApplied | UpNoChange | UpFailed

record os_world = sql_world +
  ow_getenv :: "string \<Rightarrow> string"
  ow_home :: "string option"
  ow_abs :: "string \<Rightarrow> string option"
  ow_mkdirAll :: "string \<Rightarrow> bool"
  ow_parseLevel :: "string \<Rightarrow> int option"
  ow_source :: "string \<Rightarrow> bool"
  ow_up :: "string \<Rightarrow> string \<Rightarrow> up_outcome option"
  ow_buildInfo :: "(string \<times> string) list option"

datatype fatal =
    UnsupportedEnv | BadLogLevel | Required string | TooShort string | NoHome | NoAbs | NoDir
  | BadBool string | BadURL | BadTimeout | TimeoutTooSmall | MigrationSource string | MigrationInstance string | MigrationFailed string | PoolsFailed pool_error

definition minSecretLength :: nat where "minSecretLength = 32"

section \<open>Readers\<close>

definition getEnv :: "os_world \<Rightarrow> (fatal, string) result" where
  "getEnv W =
     (let v = ow_getenv W ''POOML_ENV''; env = (if v = [] then ''pro'' else v)
      in if env \<in> set [''local'', ''pro''] then Ok env else Err UnsupportedEnv)"

definition setupLogging :: "os_world \<Rightarrow> (fatal, int) result" where
  "setupLogging W =
     (let l = ToLower (TrimSpace (ow_getenv W ''POOML_LOG_LEVEL''))
      in case ow_parseLevel W (if l = [] then ''info'' else l) of None \<Rightarrow> Err BadLogLevel | Some n \<Rightarrow> Ok n)"

definition getRequiredSecret :: "os_world \<Rightarrow> string \<Rightarrow> (fatal, string) result" where
  "getRequiredSecret W name =
     (let v = ow_getenv W name
      in if v = [] then Err (Required name) else if length v < minSecretLength then Err (TooShort name) else Ok v)"

definition getRequiredDBDir :: "os_world \<Rightarrow> (fatal, string) result" where
  "getRequiredDBDir W =
     (let v0 = ow_getenv W ''POOML_DB_DIR''
      in if v0 = [] then Err (Required ''POOML_DB_DIR'')
         else case (if v0 = ''~'' \<or> HasPrefix v0 ''~/''
                    then (case ow_home W of None \<Rightarrow> Err NoHome | Some h \<Rightarrow> Ok (sw_join W h (drop 1 v0)))
                    else Ok v0) of
           Inl e \<Rightarrow> Err e
         | Inr v \<Rightarrow> (case ow_abs W v of None \<Rightarrow> Err NoAbs | Some a \<Rightarrow> if ow_mkdirAll W a then Ok a else Err NoDir))"

definition getServerAddrs :: "os_world \<Rightarrow> string \<times> string" where
  "getServerAddrs W =
     (let a = ow_getenv W ''POOML_API_ADDR''; u = ow_getenv W ''POOML_UI_ADDR''
      in (if a = [] then ''localhost:8080'' else a, if u = [] then ''localhost:8081'' else u))"

text \<open>A switch that is off when its variable is empty.\<close>

definition getSwitch :: "os_world \<Rightarrow> string \<Rightarrow> (fatal, bool) result" where
  "getSwitch W name =
     (let v = ow_getenv W name
      in if v = [] then Ok False else case ParseBool v of None \<Rightarrow> Err (BadBool name) | Some b \<Rightarrow> Ok b)"

definition getTrustProxyHeaders :: "os_world \<Rightarrow> (fatal, bool) result" where
  "getTrustProxyHeaders W = getSwitch W ''POOML_TRUST_PROXY_HEADERS''"

text \<open>A part that is off, or on with a secret of its own.\<close>

definition getOptionalSecret :: "os_world \<Rightarrow> string \<Rightarrow> string \<Rightarrow> (fatal, string option) result" where
  "getOptionalSecret W switch name =
     (case getSwitch W switch of
        Inl e \<Rightarrow> Err e
      | Inr False \<Rightarrow> Ok None
      | Inr True \<Rightarrow> (case getRequiredSecret W name of Inl e \<Rightarrow> Err e | Inr v \<Rightarrow> Ok (Some v)))"

definition getMetricsConfigs :: "os_world \<Rightarrow> (fatal, bool \<times> string) result" where
  "getMetricsConfigs W =
     (case getOptionalSecret W ''POOML_METRICS_ENABLED'' ''POOML_METRICS_AUTH_SECRET'' of
        Inl e \<Rightarrow> Err e | Inr None \<Rightarrow> Ok (False, []) | Inr (Some v) \<Rightarrow> Ok (True, v))"

definition getQueryAPISecret :: "os_world \<Rightarrow> (fatal, string) result" where
  "getQueryAPISecret W =
     (case getOptionalSecret W ''POOML_QUERY_API_ENABLED'' ''POOML_QUERY_API_AUTH_SECRET'' of
        Inl e \<Rightarrow> Err e | Inr None \<Rightarrow> Ok [] | Inr (Some v) \<Rightarrow> Ok v)"

definition getPublicURL :: "os_world \<Rightarrow> (fatal, string) result" where
  "getPublicURL W =
     (let v = TrimSpace (ow_getenv W ''POOML_PUBLIC_URL'')
      in if v = [] then Ok []
         else if \<not> HasPrefix v ''http://'' \<and> \<not> HasPrefix v ''https://'' then Err BadURL
         else Ok (TrimSuffix v ''/''))"

text \<open>A \<open>time.Duration\<close> counts nanoseconds in 64 bits; the product is not checked.\<close>

definition getShutdownTimeout :: "os_world \<Rightarrow> (fatal, int) result" where
  "getShutdownTimeout W =
     (let v = ow_getenv W ''POOML_SHUTDOWN_TIMEOUT_SECONDS''
      in if v = [] then Ok (30 * 1000000000)
         else case ParseInt v of
           None \<Rightarrow> Err BadTimeout
         | Some secs \<Rightarrow> if secs < 1 then Err TimeoutTooSmall else Ok (i64 (secs * 1000000000)))"

definition resolveVersion :: "string \<Rightarrow> (string \<times> string) list option \<Rightarrow> string" where
  "resolveVersion version info =
     (if version \<noteq> ''dev'' then version
      else case info of
        None \<Rightarrow> version
      | Some kvs \<Rightarrow>
          (let (rev, dirty) = fold (\<lambda>(k, v) (rev, dirty).
                 if k = ''vcs.revision'' then (v, dirty)
                 else if k = ''vcs.modified'' \<and> v = ''true'' then (rev, ''+dirty'') else (rev, dirty)) kvs ([], [])
           in if rev \<noteq> [] then ''dev ('' @ take 12 rev @ dirty @ '')'' else version))"

text \<open>The warning about a deployment that may be reachable without a proxy.\<close>

definition localBind :: "string \<Rightarrow> bool" where
  "localBind addr \<longleftrightarrow> HasPrefix addr ''localhost'' \<or> HasPrefix addr ''127.''"

definition warnsExposed :: "string \<Rightarrow> bool \<Rightarrow> string \<Rightarrow> string \<Rightarrow> bool" where
  "warnsExposed env trust apiAddr uiAddr \<longleftrightarrow> env = ''pro'' \<and> \<not> trust \<and> (\<not> localBind apiAddr \<or> \<not> localBind uiAddr)"

section \<open>Start-up\<close>

record boot_config =
  bc_env :: string
  bc_uiSecret :: string
  bc_encryptionKey :: string
  bc_dbDir :: string
  bc_apiAddr :: string
  bc_uiAddr :: string
  bc_trustProxy :: bool
  bc_timeout :: int
  bc_publicURL :: string
  bc_metrics :: "bool \<times> string"
  bc_querySecret :: string
  bc_warned :: bool

definition bind_result :: "('e, 'a) result \<Rightarrow> ('a \<Rightarrow> ('e, 'b) result) \<Rightarrow> ('e, 'b) result" where
  "bind_result r f = (case r of Inl e \<Rightarrow> Inl e | Inr x \<Rightarrow> f x)"

text \<open>
  \<open>main\<close> up to the start of the servers. Deriving the encryption key (\<open>Settings_Store\<close>) and registering the self scrape
  (\<open>Scrape\<close>) belong to their services and are left out here.
\<close>

definition prepare :: "os_world \<Rightarrow> (fatal, boot_config) result" where
  "prepare W =
     bind_result (getEnv W) (\<lambda>env. bind_result (setupLogging W) (\<lambda>_.
     bind_result (getRequiredSecret W ''POOML_UI_SECRET'') (\<lambda>ui. bind_result (getRequiredSecret W ''POOML_ENCRYPTION_KEY'') (\<lambda>key.
     bind_result (getRequiredDBDir W) (\<lambda>dir. bind_result (getTrustProxyHeaders W) (\<lambda>trust. bind_result (getShutdownTimeout W) (\<lambda>timeout.
       let (apiAddr, uiAddr) = getServerAddrs W
       in Ok \<lparr>bc_env = env, bc_uiSecret = ui, bc_encryptionKey = key, bc_dbDir = dir, bc_apiAddr = apiAddr, bc_uiAddr = uiAddr,
            bc_trustProxy = trust, bc_timeout = timeout, bc_publicURL = [], bc_metrics = (False, []), bc_querySecret = [], bc_warned = False\<rparr>)))))))"

definition finishBoot :: "os_world \<Rightarrow> boot_config \<Rightarrow> (fatal, boot_config) result" where
  "finishBoot W c =
     bind_result (getPublicURL W) (\<lambda>url. bind_result (getMetricsConfigs W) (\<lambda>m. bind_result (getQueryAPISecret W) (\<lambda>q.
       Ok (c\<lparr>bc_publicURL := url, bc_metrics := m, bc_querySecret := q,
             bc_warned := warnsExposed (bc_env c) (bc_trustProxy c) (bc_apiAddr c) (bc_uiAddr c)\<rparr>))))"

text \<open>
  \<open>db/migrate.go\<close>: \<open>ow_source root\<close> tells whether the embedded files can be opened, \<open>ow_up url root\<close> is the outcome of
  \<open>Up\<close>, or \<open>None\<close> when there is no migration instance for the database.
\<close>

definition migrateOne :: "os_world \<Rightarrow> string \<Rightarrow> string \<Rightarrow> string \<Rightarrow> (fatal, unit) result" where
  "migrateOne W name dbPath fsRoot =
     (let dbURL = ''sqlite3://file:'' @ dbPath @ ''?mode=rwc&x-no-tx-wrap=true&_auto_vacuum=incremental''
      in if \<not> ow_source W fsRoot then Err (MigrationSource name)
         else case ow_up W dbURL fsRoot of
           None \<Rightarrow> Err (MigrationInstance name)
         | Some UpFailed \<Rightarrow> Err (MigrationFailed name)
         | Some _ \<Rightarrow> Ok ())"

definition MigrateAll :: "os_world \<Rightarrow> string \<Rightarrow> (fatal, unit) result" where
  "MigrateAll W dbDir =
     bind_result (migrateOne W ''logs'' (sw_join W dbDir ''logs.db'') ''migrations/logs'') (\<lambda>_.
     bind_result (migrateOne W ''metrics'' (sw_join W dbDir ''metrics.db'') ''migrations/metrics'') (\<lambda>_.
     migrateOne W ''meta'' (sw_join W dbDir ''meta.db'') ''migrations/meta''))"

definition boot :: "os_world \<Rightarrow> (fatal, boot_config) result" where
  "boot W =
     bind_result (prepare W) (\<lambda>c.
     bind_result (MigrateAll W (bc_dbDir c)) (\<lambda>_.
       case OpenPools (sql_world.truncate W) 1 (bc_dbDir c) [] of
         (Inl e, _) \<Rightarrow> Err (PoolsFailed e)
       | (Inr pools, _) \<Rightarrow> finishBoot W c))"

section \<open>What a started server can rely on\<close>

lemma bind_result_Inr [simp]: "bind_result r f = Inr y \<longleftrightarrow> (\<exists>x. r = Inr x \<and> f x = Inr y)"
  by (cases r) (auto simp: bind_result_def)

lemma getRequiredSecret_long: "getRequiredSecret W name = Inr v \<Longrightarrow> minSecretLength \<le> length v"
  by (auto simp: getRequiredSecret_def Let_def split: if_splits)

lemma getOptionalSecret_long: "getOptionalSecret W sw name = Inr (Some v) \<Longrightarrow> minSecretLength \<le> length v"
  by (auto simp: getOptionalSecret_def split: sum.splits bool.splits dest: getRequiredSecret_long)

definition boot_ok :: "boot_config \<Rightarrow> bool" where
  "boot_ok c \<longleftrightarrow>
     bc_env c \<in> {''local'', ''pro''} \<and> minSecretLength \<le> length (bc_uiSecret c) \<and> minSecretLength \<le> length (bc_encryptionKey c)
   \<and> (fst (bc_metrics c) \<longrightarrow> minSecretLength \<le> length (snd (bc_metrics c))) \<and> (\<not> fst (bc_metrics c) \<longrightarrow> snd (bc_metrics c) = [])
   \<and> (bc_querySecret c \<noteq> [] \<longrightarrow> minSecretLength \<le> length (bc_querySecret c))
   \<and> (bc_env c = ''pro'' \<and> \<not> bc_trustProxy c \<and> \<not> bc_warned c \<longrightarrow> localBind (bc_apiAddr c) \<and> localBind (bc_uiAddr c))"

text \<open>A database whose migrations ran or were up to date.\<close>

definition migrated :: "os_world \<Rightarrow> string \<Rightarrow> string \<Rightarrow> bool" where
  "migrated W dbDir name \<longleftrightarrow>
     ow_source W (''migrations/'' @ name)
   \<and> ow_up W (''sqlite3://file:'' @ sw_join W dbDir (name @ ''.db'') @ ''?mode=rwc&x-no-tx-wrap=true&_auto_vacuum=incremental'') (''migrations/'' @ name)
       \<in> {Some UpApplied, Some UpNoChange}"

lemma migrateOne_ok:
  assumes "migrateOne W name (sw_join W dbDir (name @ ''.db'')) (''migrations/'' @ name) = Inr u"
  shows "migrated W dbDir name"
  using assms by (auto simp: migrateOne_def migrated_def Let_def split: if_splits option.splits up_outcome.splits)

text \<open>
  C39: a server that starts is configured safely. Whatever the environment holds, either the process ends with an
  error, or: the environment is a known one, the secrets of the login and of the encryption have at least 32 bytes, the
  metrics endpoint and the query API are off or have secrets of at least 32 bytes of their own, and a production
  server that listens beyond the local machine without a trusted proxy has warned about it; the migrations of all three
  databases ran or were up to date.
\<close>

theorem boot_safe:
  assumes "boot W = Inr c"
  shows "boot_ok c \<and> (\<forall>name \<in> {''logs'', ''metrics'', ''meta''}. migrated W (bc_dbDir c) name)"
proof -
  from assms obtain c0 u where c0: "prepare W = Inr c0" and mi: "MigrateAll W (bc_dbDir c0) = Inr u"
    and o: "(case OpenPools (sql_world.truncate W) 1 (bc_dbDir c0) [] of
        (Inl e, _) \<Rightarrow> Err (PoolsFailed e) | (Inr pools, _) \<Rightarrow> finishBoot W c0) = Inr c"
    unfolding boot_def bind_result_Inr by blast
  from o have c: "finishBoot W c0 = Inr c" by (auto split: prod.splits sum.splits)
  have mi: "\<forall>name \<in> {''logs'', ''metrics'', ''meta''}. migrated W (bc_dbDir c0) name"
    using mi migrateOne_ok [of W "''logs''"] migrateOne_ok [of W "''metrics''"] migrateOne_ok [of W "''meta''"] by (auto simp: MigrateAll_def)
  have p: "bc_env c0 \<in> {''local'', ''pro''}" "minSecretLength \<le> length (bc_uiSecret c0)" "minSecretLength \<le> length (bc_encryptionKey c0)"
    using c0 by (auto simp: prepare_def getEnv_def Let_def split: if_splits prod.splits dest: getRequiredSecret_long)
  from c obtain url m q where m: "getMetricsConfigs W = Inr m" and q: "getQueryAPISecret W = Inr q"
    and c: "c = c0\<lparr>bc_publicURL := url, bc_metrics := m, bc_querySecret := q,
      bc_warned := warnsExposed (bc_env c0) (bc_trustProxy c0) (bc_apiAddr c0) (bc_uiAddr c0)\<rparr>"
    by (auto simp: finishBoot_def)
  have "(fst m \<longrightarrow> minSecretLength \<le> length (snd m)) \<and> (\<not> fst m \<longrightarrow> snd m = [])"
    using m by (auto simp: getMetricsConfigs_def split: sum.splits option.splits dest: getOptionalSecret_long)
  moreover have "q \<noteq> [] \<longrightarrow> minSecretLength \<le> length q"
    using q by (auto simp: getQueryAPISecret_def split: sum.splits option.splits dest: getOptionalSecret_long)
  ultimately have "boot_ok c" using p by (auto simp: boot_ok_def c warnsExposed_def)
  then show ?thesis using mi by (simp add: c)
qed

text \<open>
  The time limit of the shutdown is at least a second only up to 9223372036 seconds: one second more and the
  product is negative, so that every stage of the shutdown finds the deadline passed.
\<close>

lemma getShutdownTimeout_exact:
  assumes "ParseInt (ow_getenv W ''POOML_SHUTDOWN_TIMEOUT_SECONDS'') = Some secs" and "1 \<le> secs" and "secs \<le> 9223372036"
  shows "getShutdownTimeout W = Inr (secs * 1000000000)"
proof -
  have "ow_getenv W ''POOML_SHUTDOWN_TIMEOUT_SECONDS'' \<noteq> []" using assms(1) by (auto simp: ParseInt_def)
  moreover have "i64 (secs * 1000000000) = secs * 1000000000" using assms(2,3) by (simp add: i64_def)
  ultimately show ?thesis using assms by (simp add: getShutdownTimeout_def Let_def)
qed

lemma shutdown_timeout_wraps:
  assumes "ParseInt (ow_getenv W ''POOML_SHUTDOWN_TIMEOUT_SECONDS'') = Some 9223372037"
  shows "getShutdownTimeout W = Inr (- 9223372036709551616)"
proof -
  have "ow_getenv W ''POOML_SHUTDOWN_TIMEOUT_SECONDS'' \<noteq> []" using assms by (auto simp: ParseInt_def)
  with assms show ?thesis by (simp add: getShutdownTimeout_def Let_def i64_def)
qed

definition os_sample :: os_world where
  "os_sample = \<lparr>sw_open = (\<lambda>_ _. None), sw_ping = (\<lambda>_. None), sw_exec = (\<lambda>_ _. None), sw_cpus = 4, sw_join = (\<lambda>d f. d @ ''/'' @ f),
     ow_getenv = (\<lambda>k. if k \<in> {''POOML_UI_SECRET'', ''POOML_ENCRYPTION_KEY''} then replicate 32 (CHR ''s'') else if k = ''POOML_DB_DIR'' then ''/data''
        else if k = ''POOML_UI_ADDR'' then ''0.0.0.0:80'' else []),
     ow_home = None, ow_abs = Some, ow_mkdirAll = (\<lambda>_. True), ow_parseLevel = (\<lambda>_. Some 1), ow_source = (\<lambda>_. True), ow_up = (\<lambda>_ _. Some UpNoChange), ow_buildInfo = None\<rparr>"

theorem boot_safe_witness: "\<exists>c. boot os_sample = Inr c \<and> bc_warned c \<and> boot_ok c"
proof -
  have d: "ow_getenv os_sample ''POOML_DB_DIR'' = ''/data''" "ow_abs os_sample v = Some v" "ow_mkdirAll os_sample v" "MigrateAll os_sample v = Inr ()" for v
    by (simp_all add: os_sample_def MigrateAll_def migrateOne_def bind_result_def)
  have "getRequiredSecret os_sample ''POOML_UI_SECRET'' = Inr (replicate 32 (CHR ''s''))" "getRequiredSecret os_sample ''POOML_ENCRYPTION_KEY'' = Inr (replicate 32 (CHR ''s''))"
    by (simp_all add: getRequiredSecret_def Let_def os_sample_def minSecretLength_def)
  moreover have "getEnv os_sample = Inr ''pro''" "getServerAddrs os_sample = (''localhost:8080'', ''0.0.0.0:80'')" "getTrustProxyHeaders os_sample = Inr False"
    "getShutdownTimeout os_sample = Inr 30000000000" "getMetricsConfigs os_sample = Inr (False, [])" "getQueryAPISecret os_sample = Inr []"
    by (simp_all add: getEnv_def getServerAddrs_def getTrustProxyHeaders_def getSwitch_def getShutdownTimeout_def getMetricsConfigs_def getQueryAPISecret_def
        getOptionalSecret_def Let_def os_sample_def)
  moreover have "setupLogging os_sample = Inr 1" by (simp add: setupLogging_def Let_def os_sample_def)
  moreover have "TrimSpace [] = []" by code_simp
  then have "getPublicURL os_sample = Inr []" by (simp add: getPublicURL_def Let_def os_sample_def)
  moreover have "getRequiredDBDir os_sample = Inr ''/data''" by (simp add: getRequiredDBDir_def Let_def d)
  moreover obtain p hs where "OpenPools (sql_world.truncate os_sample) 1 ''/data'' [] = (Inr p, hs)"
    by (simp add: OpenPools_eq opened_def openPool_def Let_def os_sample_def sql_world.defs)
  ultimately have "\<exists>c. boot os_sample = Inr c \<and> bc_warned c"
    by (simp add: boot_def prepare_def finishBoot_def bind_result_def d warnsExposed_def localBind_def)
  then obtain c where c: "boot os_sample = Inr c" "bc_warned c" by blast
  from boot_safe [OF c(1)] c show ?thesis by blast
qed

end
