(* ===== verification/Shutdown.thy ===== *)
theory Shutdown
  imports Log_Pipeline Metrics_Pipeline
begin

text \<open>
  The life of the process after the start, \<open>main.go\<close>: two servers, the two ingestion pipelines with all
  their goroutines, the scraper, the background jobs and the database pools, and the staged shutdown that takes
  them down. The steps of \<open>main\<close> and of the goroutines it starts for the shutdown are \<open>main_step\<close>; what
  everything else does in between is \<open>world_step\<close>. A select with two ready cases takes either. The
  pipelines are the models of \<open>Log_Pipeline\<close> and \<open>Metrics_Pipeline\<close>, so that a stage that waits for a
  pipeline waits for its real \<open>Shutdown\<close>.
\<close>

datatype stage = Serving | StHttp | StLogs | StScraper | StMetrics | StJobs | StClose | Exited

record process =
  pr_stage :: stage
  pr_deadline :: bool
  pr_apiOpen :: bool
  pr_uiOpen :: bool
  pr_apiBusy :: nat
  pr_uiBusy :: nat
  pr_apiClosing :: bool
  pr_uiClosing :: bool
  pr_sseCancelled :: bool
  pr_apiShut :: bool
  pr_uiShut :: bool
  pr_logs :: Pipeline
  pr_scraperCancelled :: bool
  pr_scraper :: bool
  pr_metrics :: MPipeline
  pr_metricsDrain :: bool
  pr_appCancelled :: bool
  pr_jobs :: "string list"
  pr_pools :: bool

definition jobNames :: "string list" where
  "jobNames = [''sessions-sweeper'', ''throttling-sweeper-api'', ''throttling-sweeper-ui'', ''alert-evaluator'', ''retention-sweeper'', ''backup'', ''db-optimizer'']"

definition startProcess :: "nat \<Rightarrow> process" where
  "startProcess cpus =
     \<lparr>pr_stage = Serving, pr_deadline = False, pr_apiOpen = True, pr_uiOpen = True, pr_apiBusy = 0, pr_uiBusy = 0, pr_apiClosing = False, pr_uiClosing = False,
      pr_sseCancelled = False, pr_apiShut = False, pr_uiShut = False, pr_logs = NewPipeline cpus, pr_scraperCancelled = False, pr_scraper = True, pr_metrics = NewMPipeline,
      pr_metricsDrain = False, pr_appCancelled = False, pr_jobs = jobNames, pr_pools = True\<rparr>"

section \<open>The shutdown\<close>

text \<open>
  \<open>Server.Shutdown\<close> closes the listener, which may have failed before, runs the registered hooks, and returns when no request is in progress or when
  its context is done. \<open>pr_apiBusy\<close> and \<open>pr_uiBusy\<close> are the numbers of requests in progress on the two servers, the live tails among the latter. The drain of a pipeline is started by entering its stage and goes on in its own
  goroutine, even when \<open>main\<close> stops waiting.
\<close>

inductive main_step :: "process \<Rightarrow> process \<Rightarrow> bool" where
  signal: "pr_stage s = Serving \<Longrightarrow> main_step s (s\<lparr>pr_stage := StHttp\<rparr>)"
| close_api: "pr_stage s = StHttp \<Longrightarrow> \<not> pr_apiClosing s \<Longrightarrow> main_step s (s\<lparr>pr_apiClosing := True, pr_apiOpen := False\<rparr>)"
| close_ui: "pr_stage s = StHttp \<Longrightarrow> \<not> pr_uiClosing s \<Longrightarrow> main_step s (s\<lparr>pr_uiClosing := True, pr_uiOpen := False, pr_sseCancelled := True\<rparr>)"
| api_down: "pr_stage s = StHttp \<Longrightarrow> pr_apiClosing s \<Longrightarrow> \<not> pr_apiShut s \<Longrightarrow> pr_apiBusy s = 0 \<or> pr_deadline s
    \<Longrightarrow> main_step s (s\<lparr>pr_apiShut := True\<rparr>)"
| ui_down: "pr_stage s = StHttp \<Longrightarrow> pr_uiClosing s \<Longrightarrow> \<not> pr_uiShut s \<Longrightarrow> pr_uiBusy s = 0 \<or> pr_deadline s
    \<Longrightarrow> main_step s (s\<lparr>pr_uiShut := True\<rparr>)"
| http_down: "pr_stage s = StHttp \<Longrightarrow> pr_apiShut s \<Longrightarrow> pr_uiShut s \<Longrightarrow> main_step s (s\<lparr>pr_stage := StLogs\<rparr>)"
| logs_drained: "pr_stage s = StLogs \<Longrightarrow> lp_shutdown (pr_logs s) = Finished \<or> pr_deadline s
    \<Longrightarrow> main_step s (s\<lparr>pr_stage := StScraper, pr_scraperCancelled := True\<rparr>)"
| scraper_down: "pr_stage s = StScraper \<Longrightarrow> \<not> pr_scraper s \<Longrightarrow> main_step s (s\<lparr>pr_stage := StMetrics, pr_metricsDrain := True\<rparr>)"
| scraper_late: "pr_stage s = StScraper \<Longrightarrow> pr_deadline s \<Longrightarrow> main_step s (s\<lparr>pr_stage := StJobs, pr_appCancelled := True\<rparr>)"
| metrics_drained: "pr_stage s = StMetrics \<Longrightarrow> mp_shutdown (pr_metrics s) = MFinished \<or> pr_deadline s
    \<Longrightarrow> main_step s (s\<lparr>pr_stage := StJobs, pr_appCancelled := True\<rparr>)"
| jobs_down: "pr_stage s = StJobs \<Longrightarrow> pr_jobs s = [] \<or> pr_deadline s \<Longrightarrow> main_step s (s\<lparr>pr_stage := StClose\<rparr>)"
| close_pools: "pr_stage s = StClose \<Longrightarrow> main_step s (s\<lparr>pr_stage := Exited, pr_pools := False\<rparr>)"

section \<open>Everything else\<close>

text \<open>
  A request may enter a pipeline only while it is being served, and the scraper only while it runs. Jobs and the
  scraper may end at any time: when they see that their context is cancelled, or by a panic, which
  \<open>startJob\<close> turns into the end of that job. The log pipeline's gate is closed by the goroutine of stage two,
  the metrics pipeline's by that of stage three.
\<close>

definition started_drain :: "stage \<Rightarrow> bool" where
  "started_drain g \<longleftrightarrow> g \<notin> {Serving, StHttp}"

inductive world_step :: "go_env \<Rightarrow> process \<Rightarrow> process \<Rightarrow> bool" for E :: go_env where
  accept_api: "pr_apiOpen s \<Longrightarrow> world_step E s (s\<lparr>pr_apiBusy := Suc (pr_apiBusy s)\<rparr>)"
| accept_ui: "pr_uiOpen s \<Longrightarrow> world_step E s (s\<lparr>pr_uiBusy := Suc (pr_uiBusy s)\<rparr>)"
| answer_api: "pr_apiBusy s = Suc k \<Longrightarrow> world_step E s (s\<lparr>pr_apiBusy := k\<rparr>)"
| answer_ui: "pr_uiBusy s = Suc k \<Longrightarrow> world_step E s (s\<lparr>pr_uiBusy := k\<rparr>)"
| listener_fails: "world_step E s (s\<lparr>pr_apiOpen := False\<rparr>)"
| ui_listener_fails: "world_step E s (s\<lparr>pr_uiOpen := False\<rparr>)"
| ingest: "0 < pr_apiBusy s \<Longrightarrow> lexec E (TiEnter ev) (pr_logs s) = Some p \<Longrightarrow> world_step E s (s\<lparr>pr_logs := p\<rparr>)"
| log_work: "\<forall>ev. a \<noteq> TiEnter ev \<Longrightarrow> a \<noteq> SdGate \<Longrightarrow> lexec E a (pr_logs s) = Some p \<Longrightarrow> world_step E s (s\<lparr>pr_logs := p\<rparr>)"
| log_gate: "started_drain (pr_stage s) \<Longrightarrow> lexec E SdGate (pr_logs s) = Some p \<Longrightarrow> world_step E s (s\<lparr>pr_logs := p\<rparr>)"
| push: "0 < pr_apiBusy s \<or> pr_scraper s \<Longrightarrow> mexec (TpEnter rows) (pr_metrics s) = Some p \<Longrightarrow> world_step E s (s\<lparr>pr_metrics := p\<rparr>)"
| metrics_work: "\<forall>rows. a \<noteq> TpEnter rows \<Longrightarrow> a \<noteq> MdGate \<Longrightarrow> mexec a (pr_metrics s) = Some p \<Longrightarrow> world_step E s (s\<lparr>pr_metrics := p\<rparr>)"
| metrics_gate: "pr_metricsDrain s \<Longrightarrow> mexec MdGate (pr_metrics s) = Some p \<Longrightarrow> world_step E s (s\<lparr>pr_metrics := p\<rparr>)"
| scraper_ends: "world_step E s (s\<lparr>pr_scraper := False\<rparr>)"
| job_ends: "j \<in> set (pr_jobs s) \<Longrightarrow> world_step E s (s\<lparr>pr_jobs := remove1 j (pr_jobs s)\<rparr>)"
| timeout: "pr_stage s \<noteq> Serving \<Longrightarrow> world_step E s (s\<lparr>pr_deadline := True\<rparr>)"

inductive_cases main_stepE: "main_step s t"
inductive_cases world_stepE: "world_step E s t"

definition proc_step :: "go_env \<Rightarrow> process \<Rightarrow> process \<Rightarrow> bool" where
  "proc_step E s t \<longleftrightarrow> main_step s t \<or> world_step E s t"

abbreviation proc_reachable :: "go_env \<Rightarrow> nat \<Rightarrow> process \<Rightarrow> bool" where
  "proc_reachable E cpus \<equiv> (proc_step E)\<^sup>*\<^sup>* (startProcess cpus)"

section \<open>Invariant\<close>

text \<open>The stages in their order.\<close>

fun rank :: "stage \<Rightarrow> nat" where
  "rank Serving = 0"
| "rank StHttp = 1"
| "rank StLogs = 2"
| "rank StScraper = 3"
| "rank StMetrics = 4"
| "rank StJobs = 5"
| "rank StClose = 6"
| "rank Exited = 7"

definition http_inv :: "process \<Rightarrow> bool" where
  "http_inv s \<longleftrightarrow> (pr_apiClosing s \<longrightarrow> \<not> pr_apiOpen s) \<and> (pr_uiClosing s \<longrightarrow> \<not> pr_uiOpen s \<and> pr_sseCancelled s)
     \<and> (pr_apiShut s \<longrightarrow> pr_apiClosing s \<and> (pr_apiBusy s = 0 \<or> pr_deadline s))
     \<and> (pr_uiShut s \<longrightarrow> pr_uiClosing s \<and> (pr_uiBusy s = 0 \<or> pr_deadline s))
     \<and> (2 \<le> rank (pr_stage s) \<longrightarrow> pr_apiShut s \<and> pr_uiShut s) \<and> (pr_deadline s \<longrightarrow> pr_stage s \<noteq> Serving)"

definition drain_inv :: "process \<Rightarrow> bool" where
  "drain_inv s \<longleftrightarrow> (lp_closed (pr_logs s) \<longrightarrow> 2 \<le> rank (pr_stage s)) \<and> (mp_closed (pr_metrics s) \<longrightarrow> pr_metricsDrain s)
     \<and> (pr_metricsDrain s \<longrightarrow> \<not> pr_scraper s \<and> 4 \<le> rank (pr_stage s))
     \<and> (3 \<le> rank (pr_stage s) \<longrightarrow> lp_shutdown (pr_logs s) = Finished \<or> pr_deadline s)
     \<and> (4 \<le> rank (pr_stage s) \<longrightarrow> \<not> pr_scraper s \<or> pr_deadline s)
     \<and> (5 \<le> rank (pr_stage s) \<longrightarrow> mp_shutdown (pr_metrics s) = MFinished \<or> pr_deadline s)
     \<and> (6 \<le> rank (pr_stage s) \<longrightarrow> pr_jobs s = [] \<or> pr_deadline s) \<and> (pr_appCancelled s \<longrightarrow> 5 \<le> rank (pr_stage s)) \<and> (\<not> pr_pools s \<longrightarrow> rank (pr_stage s) = 7)"

definition pipes_inv :: "go_env \<Rightarrow> nat \<Rightarrow> process \<Rightarrow> bool" where
  "pipes_inv E n s \<longleftrightarrow> reachable (lexec E) (NewPipeline n) (pr_logs s) \<and> reachable mexec NewMPipeline (pr_metrics s)"

lemma lexec_closed:
  assumes "lexec E a p = Some q" and "a \<noteq> SdGate"
  shows "lp_closed q = lp_closed p"
  using assms by (cases a) (auto simp: lp_defs tryFlush_def Let_def split: option.splits list.splits caller.splits worker.splits fanout.splits if_splits prod.splits)

lemma lexec_finished: "lexec E a p = Some q \<Longrightarrow> lp_shutdown p = Finished \<Longrightarrow> lp_shutdown q = Finished"
  by (cases a) (auto simp: lp_defs tryFlush_def Let_def split: option.splits list.splits caller.splits worker.splits fanout.splits if_splits prod.splits)

lemma mexec_closed:
  assumes "mexec a p = Some q" and "a \<noteq> MdGate"
  shows "mp_closed q = mp_closed p"
  using assms by (cases a) (auto simp: mp_defs Let_def split: mp_splits)

lemma mexec_finished: "mexec a p = Some q \<Longrightarrow> mp_shutdown p = MFinished \<Longrightarrow> mp_shutdown q = MFinished"
  by (cases a) (auto simp: mp_defs Let_def split: mp_splits)

lemma http_inv_step: "proc_step E s t \<Longrightarrow> http_inv s \<Longrightarrow> http_inv t"
  unfolding proc_step_def http_inv_def by (elim disjE main_stepE world_stepE) auto

lemma pipes_inv_step: "proc_step E s t \<Longrightarrow> pipes_inv E n s \<Longrightarrow> pipes_inv E n t"
  unfolding proc_step_def pipes_inv_def by (elim disjE main_stepE world_step.cases) (auto simp del: lexec.simps mexec.simps intro: reach_step)

lemma drain_inv_main: "main_step s t \<Longrightarrow> drain_inv s \<Longrightarrow> drain_inv t"
  unfolding drain_inv_def by (elim main_stepE) auto

lemma drain_inv_world:
  assumes "world_step E s t" and "drain_inv s"
  shows "drain_inv t"
  using assms(1)
proof (cases rule: world_step.cases)
  case (ingest ev p)
  then show ?thesis using assms(2) lexec_closed [OF ingest(3)] lexec_finished [OF ingest(3)] by (auto simp: drain_inv_def)
next
  case (log_work a p)
  then show ?thesis using assms(2) lexec_closed [OF log_work(4)] lexec_finished [OF log_work(4)] by (auto simp: drain_inv_def)
next
  case (log_gate p)
  then have "2 \<le> rank (pr_stage s)" by (cases "pr_stage s") (auto simp: started_drain_def)
  then show ?thesis using log_gate assms(2) lexec_finished [OF log_gate(3)] by (auto simp: drain_inv_def)
next
  case (push rows p)
  then show ?thesis using assms(2) mexec_closed [OF push(3)] mexec_finished [OF push(3)] by (auto simp: drain_inv_def)
next
  case (metrics_work a p)
  then show ?thesis using assms(2) mexec_closed [OF metrics_work(4)] mexec_finished [OF metrics_work(4)] by (auto simp: drain_inv_def)
next
  case (metrics_gate p)
  then show ?thesis using assms(2) mexec_finished [OF metrics_gate(3)] by (auto simp: drain_inv_def)
qed (use assms(2) in \<open>auto simp: drain_inv_def\<close>)

lemma proc_invs:
  assumes "proc_reachable E n s"
  shows "http_inv s \<and> drain_inv s \<and> pipes_inv E n s"
  using assms
proof induction
  case base
  show ?case by (simp add: http_inv_def drain_inv_def pipes_inv_def startProcess_def NewPipeline_def NewMPipeline_def reach_init)
next
  case (step s t)
  then show ?case using http_inv_step pipes_inv_step drain_inv_main drain_inv_world unfolding proc_step_def by blast
qed

section \<open>Properties\<close>


text \<open>The steps that \<open>main\<close> and its helpers still have to make.\<close>

definition main_left :: "process \<Rightarrow> nat" where
  "main_left s = 2 * (7 - rank (pr_stage s)) + (if rank (pr_stage s) < 2
     then of_bool (\<not> pr_apiClosing s) + of_bool (\<not> pr_uiClosing s) + of_bool (\<not> pr_apiShut s) + of_bool (\<not> pr_uiShut s) else 0)"

text \<open>
  C3: the process always ends. Once the shutdown's deadline has passed, whatever the requests, the pipelines, the
  scraper and the jobs do or fail to do: until the process has ended \<open>main\<close> can take its next step, it needs at
  most sixteen of them, each brings it closer, and nothing that happens elsewhere sets it back.
\<close>

theorem shutdown_bounded:
  assumes "proc_reachable E n s" and "pr_deadline s" and "pr_stage s \<noteq> Exited"
  shows "(\<exists>t. main_step s t) \<and> (\<forall>t. main_step s t \<longrightarrow> main_left t < main_left s)
    \<and> (\<forall>t. world_step E s t \<longrightarrow> main_left t \<le> main_left s \<and> pr_deadline t) \<and> main_left s \<le> 16"
proof -
  have sv: "pr_stage s \<noteq> Serving" using proc_invs [OF assms(1)] assms(2) by (simp add: http_inv_def)
  have "\<exists>t. main_step s t"
  proof (cases "pr_stage s")
    case StHttp
    then consider "\<not> pr_apiClosing s" | "\<not> pr_uiClosing s" | "pr_apiClosing s" "\<not> pr_apiShut s" | "pr_uiClosing s" "\<not> pr_uiShut s" | "pr_apiShut s" "pr_uiShut s" by blast
    then show ?thesis using StHttp assms(2) by cases (blast intro: main_step.intros)+
  qed (use assms(2,3) sv in \<open>blast intro: main_step.intros\<close>)+
  moreover have "\<forall>t. main_step s t \<longrightarrow> main_left t < main_left s"
    by (intro allI impI, erule main_stepE) (simp_all add: main_left_def)
  moreover have "\<forall>t. world_step E s t \<longrightarrow> main_left t \<le> main_left s \<and> pr_deadline t"
    by (intro allI impI, erule world_stepE) (use assms(2) in \<open>simp_all add: main_left_def\<close>)
  moreover have "main_left s \<le> 16" using sv by (cases "pr_stage s") (simp_all add: main_left_def)
  ultimately show ?thesis by blast
qed

section \<open>A graceful shutdown\<close>

text \<open>Runs of the pipelines are runs of the process.\<close>

lemma step_main: "main_step s t \<Longrightarrow> proc_step E s t"
  by (simp add: proc_step_def)

lemma step_world: "world_step E s t \<Longrightarrow> proc_step E s t"
  by (simp add: proc_step_def)

lemma reach_main: "(proc_step E)\<^sup>*\<^sup>* r s \<Longrightarrow> main_step s t \<Longrightarrow> (proc_step E)\<^sup>*\<^sup>* r t"
  by (meson rtranclp.rtrancl_into_rtrancl step_main)

lemma reach_world: "(proc_step E)\<^sup>*\<^sup>* r s \<Longrightarrow> world_step E s t \<Longrightarrow> (proc_step E)\<^sup>*\<^sup>* r t"
  by (meson rtranclp.rtrancl_into_rtrancl step_world)

lemma drain_action_internal: "drain_action a \<Longrightarrow> (\<forall>ev. a \<noteq> TiEnter ev) \<and> a \<noteq> SdGate"
  by (cases a) auto

lemma reach_drain:
  assumes "(proc_step E)\<^sup>*\<^sup>* r s" and "run (lexec E) as (pr_logs s) = Some q" and "list_all drain_action as"
  shows "(proc_step E)\<^sup>*\<^sup>* r (s\<lparr>pr_logs := q\<rparr>)"
  using assms
proof (induction as arbitrary: s)
  case (Cons a as)
  from Cons.prems obtain p where p: "lexec E a (pr_logs s) = Some p" "run (lexec E) as p = Some q" by (auto split: option.splits)
  from Cons.prems(3) p(1) have "world_step E s (s\<lparr>pr_logs := p\<rparr>)" using drain_action_internal [of a] by (auto simp del: lexec.simps intro: log_work)
  from Cons.IH [OF reach_world [OF Cons.prems(1) this]] p(2) Cons.prems(3) show ?case by simp
next
  case Nil
  then have e: "s\<lparr>pr_logs := q\<rparr> = s" by (auto intro: process.equality)
  show ?case unfolding e by (rule Nil.prems(1))
qed

lemma reach_accepting:
  assumes "reachable (lexec E) (NewPipeline n) p" and "\<not> lp_closed p"
  shows "proc_reachable E n ((startProcess n)\<lparr>pr_apiBusy := 1, pr_logs := p\<rparr>)"
  using assms
proof induction
  case reach_init
  have "world_step E (startProcess n) ((startProcess n)\<lparr>pr_apiBusy := Suc (pr_apiBusy (startProcess n))\<rparr>)"
    by (rule accept_api) (simp add: startProcess_def)
  from reach_world [OF rtranclp.rtrancl_refl this] show ?case by (simp add: startProcess_def)
next
  case (reach_step p a q)
  then have a: "a \<noteq> SdGate" by (auto simp: sd_gate_def split: if_splits)
  with reach_step lexec_closed have IH: "proc_reachable E n ((startProcess n)\<lparr>pr_apiBusy := 1, pr_logs := p\<rparr>)" by blast
  let ?s = "(startProcess n)\<lparr>pr_apiBusy := 1, pr_logs := p\<rparr>"
  have "world_step E ?s (?s\<lparr>pr_logs := q\<rparr>)"
    using ingest [of ?s E _ q] log_work [of a E ?s q] a reach_step.hyps(2) by (cases "\<exists>ev. a = TiEnter ev") (auto simp del: lexec.simps)
  with reach_world [OF IH] show ?case by simp
qed

text \<open>After the servers are down, the drains and the ends of the jobs lead to the exit.\<close>

lemma reach_jobs_end:
  assumes "(proc_step E)\<^sup>*\<^sup>* r s"
  shows "(proc_step E)\<^sup>*\<^sup>* r (s\<lparr>pr_jobs := []\<rparr>)"
  using assms
proof (induction "pr_jobs s" arbitrary: s)
  case (Cons j js)
  have "world_step E s (s\<lparr>pr_jobs := remove1 j (pr_jobs s)\<rparr>)" by (rule job_ends) (simp add: Cons.hyps(2) [symmetric])
  from Cons.hyps(1) [OF _ reach_world [OF Cons.prems this]] show ?case by (simp add: Cons.hyps(2) [symmetric])
next
  case Nil
  then have e: "s\<lparr>pr_jobs := []\<rparr> = s" by (auto intro: process.equality)
  show ?case unfolding e by (rule Nil.prems)
qed

lemma reach_exit:
  assumes "(proc_step E)\<^sup>*\<^sup>* r s" and "pr_stage s = StLogs" and "lp_shutdown (pr_logs s) = Finished" and "pr_metrics s = NewMPipeline"
  shows "\<exists>t. (proc_step E)\<^sup>*\<^sup>* r t \<and> pr_stage t = Exited \<and> \<not> pr_pools t \<and> pr_deadline t = pr_deadline s \<and> pr_logs t = pr_logs s"
proof -
  let ?s1 = "s\<lparr>pr_stage := StScraper, pr_scraperCancelled := True, pr_scraper := False\<rparr>"
  let ?s2 = "?s1\<lparr>pr_stage := StMetrics, pr_metricsDrain := True\<rparr>"
  let ?m1 = "NewMPipeline\<lparr>mp_closed := True, mp_shutdown := MGateClosed\<rparr>"
  let ?m2 = "?m1\<lparr>mp_chClosed := True, mp_shutdown := MChClosed\<rparr>"
  let ?m3 = "?m2\<lparr>mp_writerDone := True\<rparr>"
  let ?m4 = "?m3\<lparr>mp_shutdown := MFinished\<rparr>"
  have m: "mexec MdGate NewMPipeline = Some ?m1" "mexec MdClose ?m1 = Some ?m2" "mexec (WrClose 0) ?m2 = Some ?m3" "mexec MdFinish ?m3 = Some ?m4"
    by (simp_all add: md_gate_def md_close_def wr_close_def wr_flush_def md_finish_def NewMPipeline_def metricsBatchSize_def)
  have "(proc_step E)\<^sup>*\<^sup>* r (s\<lparr>pr_stage := StScraper, pr_scraperCancelled := True\<rparr>)"
    using reach_main [OF assms(1) logs_drained] assms(2,3) by simp
  from reach_world [OF this scraper_ends] have "(proc_step E)\<^sup>*\<^sup>* r ?s1" by simp
  from reach_main [OF this scraper_down] have "(proc_step E)\<^sup>*\<^sup>* r ?s2" by simp
  from reach_world [OF this metrics_gate [of _ _ E]] m(1) assms(4) have "(proc_step E)\<^sup>*\<^sup>* r (?s2\<lparr>pr_metrics := ?m1\<rparr>)" by simp
  from reach_world [OF this metrics_work [of MdClose]] m(2) have "(proc_step E)\<^sup>*\<^sup>* r (?s2\<lparr>pr_metrics := ?m2\<rparr>)" by simp
  from reach_world [OF this metrics_work [of "WrClose 0"]] m(3) have "(proc_step E)\<^sup>*\<^sup>* r (?s2\<lparr>pr_metrics := ?m3\<rparr>)" by simp
  from reach_world [OF this metrics_work [of MdFinish]] m(4) have "(proc_step E)\<^sup>*\<^sup>* r (?s2\<lparr>pr_metrics := ?m4\<rparr>)" by simp
  from reach_jobs_end [OF reach_main [OF this metrics_drained]]
  have "(proc_step E)\<^sup>*\<^sup>* r (?s2\<lparr>pr_metrics := ?m4, pr_stage := StJobs, pr_appCancelled := True, pr_jobs := []\<rparr>)" by simp
  from reach_main [OF reach_main [OF this jobs_down] close_pools]
  have "(proc_step E)\<^sup>*\<^sup>* r (?s2\<lparr>pr_metrics := ?m4, pr_appCancelled := True, pr_jobs := [], pr_stage := Exited, pr_pools := False\<rparr>)" by simp
  then show ?thesis by (intro exI) (auto intro!: conjI)
qed

lemma graceful_run:
  assumes "reachable (lexec E) (NewPipeline n) p" and "0 < n" and "\<not> lp_closed p" and "list_all returned (lp_callers p)"
  shows "\<exists>s. proc_reachable E n s \<and> pr_stage s = Exited \<and> \<not> pr_deadline s \<and> \<not> pr_pools s
    \<and> logs_of E (lp_accepted p) = mset (lp_db (pr_logs s)) + mset (lp_dropped p)"
proof -
  let ?s = "(startProcess n)\<lparr>pr_logs := p\<rparr>" and ?c = "p\<lparr>lp_closed := True, lp_shutdown := GateClosed\<rparr>"
  have "lp_shutdown p = Running" using closing_reachable [OF assms(1)] assms(3)
    by (cases "lp_shutdown p") (auto simp: closing_inv_def phase_inv_def)
  then have gate: "lexec E SdGate p = Some ?c" using assms(4) by (simp add: sd_gate_def)
  from drain_completes [OF closing_reachable [OF reach_step [OF assms(1) gate]]] obtain as q where
    q: "list_all drain_action as" "run (lexec E) as ?c = Some q" "lp_shutdown q = Finished" "lp_accepted q = lp_accepted p" "lp_dropped q = lp_dropped p"
    by fastforce
  have stored: "logs_of E (lp_accepted p) = mset (lp_db q) + mset (lp_dropped p)"
    using finished_stored [OF run_reachable [OF reach_step [OF assms(1) gate] q(2)] assms(2) q(3)] q(4,5) by simp
  have "proc_reachable E n ?s"
    using reach_world [OF reach_accepting [OF assms(1,3)] answer_api [of _ 0]] by (simp add: startProcess_def)
  from reach_main [OF this signal] have "proc_reachable E n (?s\<lparr>pr_stage := StHttp\<rparr>)" by (simp add: startProcess_def)
  from reach_main [OF reach_main [OF this close_api] close_ui]
  have "proc_reachable E n (?s\<lparr>pr_stage := StHttp, pr_apiOpen := False, pr_uiOpen := False, pr_apiClosing := True, pr_uiClosing := True, pr_sseCancelled := True\<rparr>)" by (simp add: startProcess_def)
  from reach_main [OF reach_main [OF this api_down] ui_down]
  have "proc_reachable E n (?s\<lparr>pr_stage := StHttp, pr_apiOpen := False, pr_uiOpen := False, pr_apiClosing := True, pr_uiClosing := True, pr_sseCancelled := True, pr_apiShut := True, pr_uiShut := True\<rparr>)"
    by (simp add: startProcess_def)
  from reach_world [OF reach_main [OF this http_down] log_gate] gate
  have "proc_reachable E n (?s\<lparr>pr_logs := ?c, pr_stage := StLogs, pr_apiOpen := False, pr_uiOpen := False, pr_apiClosing := True, pr_uiClosing := True, pr_sseCancelled := True, pr_apiShut := True, pr_uiShut := True\<rparr>)"
    by (simp add: startProcess_def started_drain_def)
  from reach_drain [OF this, of as q] q(1,2)
  have "proc_reachable E n (?s\<lparr>pr_logs := q, pr_stage := StLogs, pr_apiOpen := False, pr_uiOpen := False, pr_apiClosing := True, pr_uiClosing := True, pr_sseCancelled := True, pr_apiShut := True, pr_uiShut := True\<rparr>)"
    by (simp add: startProcess_def)
  from reach_exit [OF this] q(3) stored show ?thesis by (auto simp: startProcess_def)
qed

text \<open>
  A shutdown can always end in time with everything stored. Whatever the log pipeline has accepted so far, with no
  call in progress, the process can go on to close the servers, drain the pipeline and end before the deadline, with every log
  of every accepted payload in the database or, from an earlier failure, given up.
\<close>

theorem graceful_exit:
  assumes "reachable (lexec E) (NewPipeline n) p" and "0 < n" and "\<not> lp_closed p" and "list_all returned (lp_callers p)"
  shows "\<exists>s. proc_reachable E n s \<and> pr_stage s = Exited \<and> \<not> pr_deadline s
    \<and> logs_of E (lp_accepted p) = mset (lp_db (pr_logs s)) + mset (lp_dropped p)"
  using graceful_run [OF assms] by blast

theorem graceful_exit_witness:
  "\<exists>s. proc_reachable bare_env 1 s \<and> pr_stage s = Exited \<and> \<not> pr_deadline s \<and> logs_of bare_env [ev_sample] = mset (lp_db (pr_logs s))"
  using graceful_exit [OF lp_sample_reachable] by (simp add: lp_sample_def NewPipeline_def)


theorem shutdown_bounded_witness:
  "main_left ((startProcess 1)\<lparr>pr_stage := StHttp, pr_deadline := True\<rparr>) \<le> 16
   \<and> (\<exists>t. main_step ((startProcess 1)\<lparr>pr_stage := StHttp, pr_deadline := True\<rparr>) t)"
proof -
  have "proc_step E (startProcess 1) ((startProcess 1)\<lparr>pr_stage := StHttp\<rparr>)" for E
    by (rule step_main, rule signal) (simp add: startProcess_def)
  then have "proc_reachable bare_env 1 ((startProcess 1)\<lparr>pr_stage := StHttp\<rparr>)" by blast
  from reach_world [OF this timeout]
  have "proc_reachable bare_env 1 ((startProcess 1)\<lparr>pr_stage := StHttp, pr_deadline := True\<rparr>)" by simp
  from shutdown_bounded [OF this] show ?thesis by simp
qed

end
