(* ===== verification/Html.thy ===== *)
theory Html
  imports Notify
begin

text \<open>
  How a template of \<open>ui/templates\<close> writes its page. The generated Go code is a sequence of writes
  to a buffer: a fixed piece of HTML, or a value that goes through one of the escaping functions of
  the templ library; every component first asks whether the request is still alive. A component is
  the list of these writes. Writing to the buffer, which is in memory, does not fail, and the calls for style and script
  items write nothing, since all classes are plain strings. The escaping functions are fields of \<open>templ_env\<close>, since the library
  is not part of the sources, and \<open>templ_ok\<close> says what is documented of them: text has no
  \<open><\<close>, an attribute value no quote.

  A scanner for tags and quoted attribute values reads a page as a browser does, and \<open>place\<close> decides
  whether every value of a component stands where its escaping is meant for. The soundness theorem is
  that such a component has a fixed structure: no value that it shows adds or removes a tag, an
  attribute or a quote. Components without script and style elements are covered.
\<close>

section \<open>Components\<close>

datatype 'j part =
    Check
  | Lit string
  | Txt string
  | Att string
  | Href string
  | Classes "string list"
  | Style string
  | Spread "(string \<times> string) list"
  | Json string 'j

text \<open>
  \<open>te_text\<close> is \<open>templ.EscapeString\<close>, \<open>te_attr\<close> \<open>Resolve\<close> and \<open>te_url\<close> \<open>ResolveURL\<close> of an attribute
  expression, \<open>te_class\<close> the resolved \<open>CSSClasses\<close>, \<open>te_style\<close> the sanitized and
  escaped style, \<open>te_spread\<close> \<open>RenderAttributes\<close>; \<open>JSONScript\<close>
  writes an opening tag, the JSON text and a closing tag.
\<close>

record 'j templ_env =
  te_text :: "string \<Rightarrow> string"
  te_attr :: "string \<Rightarrow> string"
  te_url :: "string \<Rightarrow> string"
  te_class :: "string list \<Rightarrow> string"
  te_style :: "string \<Rightarrow> string"
  te_spread :: "(string \<times> string) list \<Rightarrow> string"
  te_jopen :: "string \<Rightarrow> string"
  te_json :: "'j \<Rightarrow> string"
  te_jclose :: string

fun emit :: "'j templ_env \<Rightarrow> 'j part \<Rightarrow> string" where
  "emit T Check = []"
| "emit T (Lit s) = s"
| "emit T (Txt s) = te_text T s"
| "emit T (Att s) = te_attr T s"
| "emit T (Href s) = te_url T s"
| "emit T (Classes cs) = te_class T cs"
| "emit T (Style s) = te_style T s"
| "emit T (Spread as) = te_spread T as"
| "emit T (Json i j) = te_jopen T i @ te_json T j @ te_jclose T"

text \<open>
  \<open>live n\<close> says whether the context is alive at the \<open>n\<close>-th check; a check that fails ends the
  rendering with an error and what is in the buffer so far.
\<close>

fun render :: "'j templ_env \<Rightarrow> (nat \<Rightarrow> bool) \<Rightarrow> 'j part list \<Rightarrow> string \<times> bool" where
  "render T live [] = ([], True)"
| "render T live (p # ps) =
     (if p = Check \<and> \<not> live 0 then ([], False)
      else let r = render T (if p = Check then live \<circ> Suc else live) ps in (emit T p @ fst r, snd r))"

definition renderComponent :: "'j templ_env \<Rightarrow> (nat \<Rightarrow> bool) \<Rightarrow> 'j part list \<Rightarrow> string option" where
  "renderComponent T live ps = (case render T live ps of (html, ok) \<Rightarrow> if ok then Some html else None)"

abbreviation alive :: "nat \<Rightarrow> bool" where "alive \<equiv> (\<lambda>_. True)"

definition html :: "'j templ_env \<Rightarrow> 'j part list \<Rightarrow> string" where
  "html T ps = fst (render T alive ps)"

lemma render_alive: "render T alive ps = (concat (map (emit T) ps), True)"
  by (induction ps) (auto simp: comp_def Let_def)

lemma html_concat: "html T ps = concat (map (emit T) ps)"
  by (simp add: html_def render_alive)

lemma render_complete: "snd (render T live ps) \<Longrightarrow> fst (render T live ps) = html T ps"
  by (induction ps arbitrary: live) (auto simp: html_concat Let_def split: if_splits)

lemma renderComponent_alive [simp]: "renderComponent T alive ps = Some (html T ps)"
  by (simp add: renderComponent_def render_alive html_concat)

section \<open>Reading a page\<close>

datatype hstate = Data | Tag | Quoted

fun hstep :: "hstate \<Rightarrow> char \<Rightarrow> hstate" where
  "hstep Data c = (if c = CHR ''<'' then Tag else Data)"
| "hstep Tag c = (if c = CHR ''>'' then Data else if c = dquote then Quoted else Tag)"
| "hstep Quoted c = (if c = dquote then Tag else Quoted)"

fun hrun :: "hstate \<Rightarrow> string \<Rightarrow> hstate" where
  "hrun st [] = st"
| "hrun st (c # s) = hrun (hstep st c) s"

text \<open>What makes up the structure: everything but the text between the tags and the inside of the attribute values.\<close>

fun marks :: "hstate \<Rightarrow> string \<Rightarrow> string" where
  "marks st [] = []"
| "marks st (c # s) = (if st = Tag \<or> hstep st c = Tag then [c] else []) @ marks (hstep st c) s"

definition markup :: "string \<Rightarrow> string" where
  "markup s = marks Data s"

lemma hrun_append [simp]: "hrun st (s @ t) = hrun (hrun st s) t"
  by (induction s arbitrary: st) auto

lemma marks_append [simp]: "marks st (s @ t) = marks st s @ marks (hrun st s) t"
  by (induction s arbitrary: st) auto

lemma text_inert: "CHR ''<'' \<notin> set s \<Longrightarrow> hrun Data s = Data \<and> marks Data s = []"
  by (induction s) auto

lemma value_inert: "dquote \<notin> set s \<Longrightarrow> hrun Quoted s = Quoted \<and> marks Quoted s = []"
  by (induction s) auto

section \<open>Values in their places\<close>

text \<open>The state after a component that starts in a given state, when each of its values is in its place.\<close>

fun place :: "hstate \<Rightarrow> 'j part list \<Rightarrow> hstate option" where
  "place st [] = Some st"
| "place st (Check # ps) = place st ps"
| "place st (Lit s # ps) = place (hrun st s) ps"
| "place st (Txt s # ps) = (if st = Data then place st ps else None)"
| "place st (Att s # ps) = (if st = Quoted then place st ps else None)"
| "place st (Href s # ps) = (if st = Quoted then place st ps else None)"
| "place st (Classes cs # ps) = (if st = Quoted then place st ps else None)"
| "place st (Style s # ps) = (if st = Quoted then place st ps else None)"
| "place st (Spread as # ps) = (if st = Tag then place st ps else None)"
| "place st (Json i j # ps) = (if st = Data then place st ps else None)"

lemma place_append: "place st (ps @ qs) = Option.bind (place st ps) (\<lambda>st'. place st' qs)"
  by (induction st ps rule: place.induct) auto

lemma place_concat: "(\<And>x. place st (f x) = Some st) \<Longrightarrow> place st (concat (map f xs)) = Some st"
  by (induction xs) (simp_all add: place_append)

lemma place_if: "place st (if b then ps else qs) = (if b then place st ps else place st qs)"
  by simp

lemma place_let: "place st (Let x f) = place st (f x)"
  by simp

lemma place_case_prod: "place st (case p of (a, b) \<Rightarrow> f a b) = (case p of (a, b) \<Rightarrow> place st (f a b))"
  by (simp split: prod.split)

text \<open>
  For the evaluation on a component: the literals are read from left to right, and nothing else of
  the list is looked at before. The collection holds the components that start and end outside of all tags.
\<close>

lemma place_cong: "st = st' \<Longrightarrow> place st ps = place st' ps"
  by simp

lemma hrun_cong: "st = st' \<Longrightarrow> hrun st s = hrun st' s"
  by simp

lemma bind_first_cong: "m = m' \<Longrightarrow> Option.bind m f = Option.bind m' f"
  by simp

lemmas place_congs = place_cong hrun_cong bind_first_cong if_cong

named_theorems in_place \<open>components with all values in their places\<close>

lemmas place_simps = place_append place_concat place_if place_let place_case_prod

section \<open>Nothing shown changes the structure\<close>

definition templ_ok :: "'j templ_env \<Rightarrow> bool" where
  "templ_ok T \<longleftrightarrow>
     (\<forall>s. CHR ''<'' \<notin> set (te_text T s)) \<and> (\<forall>s. dquote \<notin> set (te_attr T s)) \<and> (\<forall>s. dquote \<notin> set (te_url T s))
     \<and> (\<forall>cs. dquote \<notin> set (te_class T cs)) \<and> (\<forall>s. dquote \<notin> set (te_style T s)) \<and> (\<forall>as. hrun Tag (te_spread T as) = Tag)
     \<and> (\<forall>i. hrun Data (te_jopen T i) = Data) \<and> (\<forall>j. CHR ''<'' \<notin> set (te_json T j)) \<and> hrun Data (te_jclose T) = Data"

text \<open>What is fixed of a write: its kind, and the literals.\<close>

fun kind :: "'j part \<Rightarrow> unit part" where
  "kind Check = Check"
| "kind (Lit s) = Lit s"
| "kind (Txt s) = Txt []"
| "kind (Att s) = Att []"
| "kind (Href s) = Href []"
| "kind (Classes cs) = Classes []"
| "kind (Style s) = Style []"
| "kind (Spread as) = Spread as"
| "kind (Json i j) = Json i ()"

definition outline :: "'j part list \<Rightarrow> unit part list" where
  "outline ps = map kind ps"

lemma outline_simps [simp]: "outline [] = []" "outline (p # ps) = kind p # outline ps"
  by (simp_all add: outline_def)

lemma outline_append [simp]: "outline (ps @ qs) = outline ps @ outline qs"
  by (simp add: outline_def)

lemma kind_Check [simp]: "kind p = Check \<longleftrightarrow> p = Check"
  by (cases p) auto

lemma emit_inert:
  assumes "templ_ok T" and "place st [p] = Some st'"
  shows "hrun st (emit T p) = st'"
  using assms text_inert value_inert by (cases p) (auto simp: templ_ok_def split: if_splits)

text \<open>Two libraries that agree on what does not depend on the values.\<close>

definition same_static :: "'j templ_env \<Rightarrow> 'j templ_env \<Rightarrow> bool" where
  "same_static T U \<longleftrightarrow> te_spread T = te_spread U \<and> te_jopen T = te_jopen U \<and> te_jclose T = te_jclose U"

lemma emit_same:
  assumes "templ_ok T" and "templ_ok U" and "same_static T U" and "place st [p] = Some st'" and "kind p = kind q"
  shows "marks st (emit T p) = marks st (emit U q)" and "place st [q] = Some st'"
  using assms text_inert value_inert by (cases p; cases q; auto simp: templ_ok_def same_static_def split: if_splits)+

lemma place_ConsE:
  assumes "place st (p # ps) = Some st'"
  obtains st1 where "place st [p] = Some st1" and "place st1 ps = Some st'"
proof (cases "place st [p]")
  case None
  then show thesis using assms place_append [of st "[p]" ps] by simp
next
  case (Some st1)
  then show thesis using assms place_append [of st "[p]" ps] that by simp
qed

text \<open>A rendering leaves the scanner where \<open>place\<close> says.\<close>

lemma hrun_html:
  assumes "templ_ok T" and "place st ps = Some st'"
  shows "hrun st (html T ps) = st'"
  using assms(2)
proof (induction ps arbitrary: st)
  case (Cons p ps)
  from Cons.prems obtain st1 where p: "place st [p] = Some st1" and ps: "place st1 ps = Some st'"
    by (rule place_ConsE)
  from emit_inert [OF assms(1) p] Cons.IH [OF ps] show ?case by (simp add: html_concat)
qed (simp add: html_concat)

text \<open>
  Two components with the same outline have the same structure, whatever values they show and
  wherever the context ends the rendering.
\<close>

lemma render_inert:
  assumes "templ_ok T" and "templ_ok U" and "same_static T U" and "place st ps = Some st'" and "outline ps = outline qs"
  shows "marks st (fst (render T live ps)) = marks st (fst (render U live qs)) \<and> snd (render T live ps) = snd (render U live qs)"
  using assms(4, 5)
proof (induction ps arbitrary: st live qs)
  case Nil
  then show ?case by (auto simp: outline_def)
next
  case (Cons p ps)
  from Cons.prems(2) obtain q qs' where q: "qs = q # qs'" "kind p = kind q" "outline ps = outline qs'"
    by (auto simp: outline_def)
  from Cons.prems(1) obtain st1 where p: "place st [p] = Some st1" and ps: "place st1 ps = Some st'"
    by (rule place_ConsE)
  note same = emit_same [OF assms(1-3) p q(2)]
  have run: "hrun st (emit T p) = st1" "hrun st (emit U q) = st1"
    using emit_inert [OF assms(1) p] emit_inert [OF assms(2) same(2)] by blast+
  have check: "p = Check \<longleftrightarrow> q = Check" using q(2) kind_Check by metis
  have "marks st1 (fst (render T lv ps)) = marks st1 (fst (render U lv qs')) \<and> snd (render T lv ps) = snd (render U lv qs')" for lv
    by (rule Cons.IH [OF ps q(3)])
  then show ?case using same(1) run check unfolding q(1) by (cases "p = Check") (simp_all add: Let_def)
qed

lemma markup_fixed:
  assumes "templ_ok T" and "place Data ps = Some Data" and "outline ps = outline qs"
  shows "markup (fst (render T live ps)) = markup (fst (render T live qs))"
  using render_inert [OF assms(1) assms(1) _ assms(2, 3)] by (simp add: markup_def same_static_def)

text \<open>
  A component is inert when its structure is the one that it has with every value left blank, also
  when the context ends the rendering early, and a complete rendering ends outside of all tags.
\<close>

definition blanked :: "'j templ_env \<Rightarrow> 'j templ_env" where
  "blanked T = T\<lparr>te_text := (\<lambda>_. []), te_attr := (\<lambda>_. []), te_url := (\<lambda>_. []), te_class := (\<lambda>_. []), te_style := (\<lambda>_. []), te_json := (\<lambda>_. [])\<rparr>"

definition inert :: "'j templ_env \<Rightarrow> 'j part list \<Rightarrow> bool" where
  "inert T ps \<longleftrightarrow> (\<forall>live. markup (fst (render T live ps)) = markup (fst (render (blanked T) live ps))) \<and> hrun Data (html T ps) = Data"

lemma place_inert:
  assumes "templ_ok T" and "place Data ps = Some Data"
  shows "inert T ps"
proof -
  have "templ_ok (blanked T)" "same_static T (blanked T)" using assms(1) by (simp_all add: templ_ok_def blanked_def same_static_def)
  then show ?thesis
    using render_inert [OF assms(1) _ _ assms(2) refl] hrun_html [OF assms] by (simp add: inert_def markup_def)
qed

text \<open>
  What the handlers rely on: a component that takes a view and has every value in its place. Whatever
  is in the view, such a component is inert, also inside of a list of them, and what the browser gets from
  a complete rendering can be put anywhere between two tags.
\<close>

locale fragment =
  fixes comp :: "'v \<Rightarrow> 'j part list"
  assumes in_place: "place Data (comp v) = Some Data"
begin

lemma fragment_inert: "templ_ok T \<Longrightarrow> inert T (comp v)"
  by (simp add: place_inert in_place)

lemma fragment_list: "templ_ok T \<Longrightarrow> inert T (concat (map comp vs))"
  by (simp add: place_inert place_concat in_place)

lemma fragment_embeds:
  assumes "templ_ok T" and "renderComponent T live (comp v) = Some h" and "hrun Data before = Data"
  shows "markup (before @ h @ after) = markup before @ markup h @ markup after"
proof -
  have "h = html T (comp v)"
    using assms(2) render_complete [of T live "comp v"] by (auto simp: renderComponent_def split: prod.splits if_splits)
  then have "hrun Data h = Data" using hrun_html [OF assms(1) in_place] by simp
  then show ?thesis using assms(3) by (simp add: markup_def)
qed

end

section \<open>Quoted strings\<close>

text \<open>
  The verb \<open>%q\<close>, which several labels use: \<open>uni\<close> is what it makes of a run of bytes that are not
  ASCII, by the Unicode tables of Go.
\<close>

definition lowerhex :: string where "lowerhex = ''0123456789abcdef''"

definition quoteByte :: "char \<Rightarrow> string" where
  "quoteByte c =
     (if c = dquote \<or> c = CHR 0x5C then [CHR 0x5C, c]
      else case map_of [(7, CHR ''a''), (8, CHR ''b''), (12, CHR ''f''), (10, CHR ''n''), (13, CHR ''r''), (9, CHR ''t''), (11, CHR ''v'')] (byte c) of
        Some e \<Rightarrow> [CHR 0x5C, e]
      | None \<Rightarrow> if byte c < 32 \<or> byte c = 127 then [CHR 0x5C, CHR ''x'', lowerhex ! (byte c div 16), lowerhex ! (byte c mod 16)] else [c])"

function quoteBody :: "(string \<Rightarrow> string) \<Rightarrow> string \<Rightarrow> string" where
  "quoteBody uni [] = []"
| "quoteBody uni (c # s) =
     (if byte c < 128 then quoteByte c @ quoteBody uni s
      else uni (takeWhile (\<lambda>b. 128 \<le> byte b) (c # s)) @ quoteBody uni (dropWhile (\<lambda>b. 128 \<le> byte b) s))"
  by pat_completeness auto
termination
  by (relation "measure (\<lambda>(u, s). length s)") (auto simp: le_imp_less_Suc length_dropWhile_le)

definition Quote :: "(string \<Rightarrow> string) \<Rightarrow> string \<Rightarrow> string" where
  "Quote uni s = [dquote] @ quoteBody uni s @ [dquote]"

section \<open>The escaping of the Go library\<close>

text \<open>With \<open>html.EscapeString\<close> in all places the hypothesis holds.\<close>

definition templ_sample :: "'j templ_env" where
  \<open>templ_sample = \<lparr>te_text = EscapeString, te_attr = EscapeString, te_url = EscapeString,
     te_class = (\<lambda>cs. EscapeString (Join cs '' '')), te_style = EscapeString,
     te_spread = (\<lambda>as. concat (map (\<lambda>(k, v). '' '' @ filter (\<lambda>c. is_letter c) k @ ''="'' @ EscapeString v @ ''"'') as)),
     te_jopen = (\<lambda>i. ''<script id="'' @ EscapeString i @ ''" type="application/json">''),
     te_json = (\<lambda>_. ''{}''), te_jclose = ''</script>''\<rparr>\<close>

lemma hrun_Tag_letters: "hrun Tag (filter is_letter k) = Tag"
  by (induction k) (auto simp: is_letter_def is_upper_def byte_def)

lemma templ_sample_ok: "templ_ok templ_sample"
proof -
  have v: "hrun Quoted (EscapeString s) = Quoted" for s using value_inert escape_safe by blast
  have "hrun Tag (te_spread templ_sample as) = Tag" for as
    by (induction as) (auto simp: templ_sample_def hrun_Tag_letters v)
  then show ?thesis by (auto simp: templ_ok_def templ_sample_def escape_safe v)
qed

end
