(* ===== verification/Links.thy ===== *)
theory Links
  imports Logs_Page Home_Page "HOL-Library.List_Lexorder" "HOL-Library.Char_ord"
begin

text \<open>
  The links of the pages: \<open>ui/templates/logs_model.go\<close>, \<open>home_model.go\<close> and \<open>metrics_model.go\<close> build
  the addresses, \<open>net/url\<close> writes them, and the handlers read them back. A set of query values is an
  association list with distinct keys; \<open>Encode\<close> writes it in the order of the keys.
\<close>

section \<open>Query strings\<close>

definition unreserved :: "char \<Rightarrow> bool" where
  "unreserved c \<longleftrightarrow> is_letter c \<or> is_digit c \<or> c \<in> set ''-_.~''"

definition upperhex :: string where "upperhex = ''0123456789ABCDEF''"

definition QueryEscape :: "string \<Rightarrow> string" where
  "QueryEscape s = concat (map (\<lambda>c.
     if unreserved c then [c] else if c = CHR '' '' then ''+''
     else [CHR ''%'', upperhex ! (byte c div 16), upperhex ! (byte c mod 16)]) s)"

definition unhex :: "char \<Rightarrow> nat option" where
  "unhex c = (if is_digit c then Some (byte c - 48)
     else if 97 \<le> byte c \<and> byte c \<le> 102 then Some (byte c - 97 + 10)
     else if 65 \<le> byte c \<and> byte c \<le> 70 then Some (byte c - 65 + 10) else None)"

text \<open>\<open>None\<close> is the error of an incomplete or bad escape.\<close>

fun QueryUnescape :: "string \<Rightarrow> string option" where
  "QueryUnescape [] = Some []"
| "QueryUnescape (c # s) =
     (if c = CHR ''%'' then
        (case s of
           a # b # t \<Rightarrow>
             (case (unhex a, unhex b) of
                (Some x, Some y) \<Rightarrow> map_option ((#) (char_of (16 * x + y))) (QueryUnescape t)
              | _ \<Rightarrow> None)
         | _ \<Rightarrow> None)
      else map_option ((#) (if c = CHR ''+'' then CHR '' '' else c)) (QueryUnescape s))"

type_synonym url_values = "(string \<times> string) list"

definition EncodeValues :: "url_values \<Rightarrow> string" where
  "EncodeValues vs = Join (map (\<lambda>(k, v). QueryEscape k @ ''='' @ QueryEscape v) (sort_key fst vs)) ''&''"

text \<open>
  \<open>url.ParseQuery\<close> keeps the pairs that it can read: a piece with a semicolon or a bad escape is
  dropped. The values of a key are in the order of the pieces.
\<close>

definition parsePiece :: "string \<Rightarrow> (string \<times> string) option" where
  "parsePiece p =
     (if p = [] \<or> CHR '';'' \<in> set p then None
      else case Cut1 p (CHR ''='') of
        (k, v, _) \<Rightarrow> (case (QueryUnescape k, QueryUnescape v) of (Some k', Some v') \<Rightarrow> Some (k', v') | _ \<Rightarrow> None))"

definition ParseQuery :: "string \<Rightarrow> url_values" where
  "ParseQuery q = List.map_filter parsePiece (Split1 q (CHR ''&''))"

definition GetValue :: "url_values \<Rightarrow> string \<Rightarrow> string" where
  "GetValue vs k = (case map_of vs k of None \<Rightarrow> [] | Some v \<Rightarrow> v)"

section \<open>The links\<close>

definition filterURL :: "string \<Rightarrow> string \<Rightarrow> string \<Rightarrow> string" where
  "filterURL q column v = ''/logs?'' @ EncodeValues [(''q'', q), (column, v)]"

definition ftsValues :: "LogsView \<Rightarrow> url_values" where
  "ftsValues v = (if lv_FTS v \<noteq> [] then [(''fts'', lv_FTS v), (''op'', lv_Op v)] else [])"

definition pageURL :: "LogsView \<Rightarrow> string" where
  "pageURL v = ''/logs?'' @ EncodeValues
     ([(''q'', lv_Q v), (''before_ts'', itoa (lv_NextBeforeTs v)), (''before_id'', itoa (lv_NextBeforeID v))] @ ftsValues v)"

definition exportURL :: "LogsView \<Rightarrow> string \<Rightarrow> string" where
  "exportURL v format = ''/logs/export?'' @ EncodeValues ([(''q'', lv_Q v), (''format'', format)] @ ftsValues v)"

definition TriageQuery :: string where
  "TriageQuery = ''SELECT * FROM logs WHERE level >= 4 AND timestamp > unixepoch() * 1000 - 3600000 ORDER BY timestamp DESC LIMIT 100''"

definition triageURL :: string where
  "triageURL = ''/logs?'' @ EncodeValues [(''q'', TriageQuery), (''live'', ''1'')]"

definition serviceLogsURL :: "string \<Rightarrow> string" where
  "serviceLogsURL service = ''/logs?'' @ EncodeValues [(''q'', serviceLogsQuery service)]"

definition serviceMetricsURL :: "string \<Rightarrow> string" where
  "serviceMetricsURL service = ''/metrics-explorer?'' @ EncodeValues [(''q'', serviceMetricsQuery service), (''view'', ''table'')]"

definition serviceErrorsURL :: "string \<Rightarrow> string" where
  "serviceErrorsURL service = ''/logs?'' @ EncodeValues [(''q'', serviceErrorsQuery service)]"

definition metricsExportURL :: "string \<Rightarrow> string \<Rightarrow> string" where
  "metricsExportURL q format = ''/metrics-explorer/export?'' @ EncodeValues [(''q'', q), (''format'', format)]"

definition catalogDSLURL :: "string \<Rightarrow> string" where
  "catalogDSLURL dsl = ''/metrics-explorer?'' @ EncodeValues [(''dsl'', dsl)]"

definition metricsViewURL :: "string \<Rightarrow> string \<Rightarrow> string \<Rightarrow> string" where
  "metricsViewURL q dsl view =
     ''/metrics-explorer?'' @ EncodeValues ([(''q'', q), (''view'', view)] @ (if dsl \<noteq> [] then [(''dsl'', dsl)] else []))"

section \<open>What is written is read back\<close>

lemma byte_bound: "byte c < 256"
  by (simp add: byte_def)

lemma unhex_upperhex:
  assumes "n < 16"
  shows "unhex (upperhex ! n) = Some n"
proof -
  have "list_all (\<lambda>n. unhex (upperhex ! n) = Some n) [0..<16]" by code_simp
  then show ?thesis using assms by (simp add: list_all_iff)
qed

lemma unreserved_plain: "unreserved c \<Longrightarrow> c \<noteq> CHR ''%'' \<and> c \<noteq> CHR ''+''"
  by (auto simp: unreserved_def is_letter_def is_upper_def is_digit_def byte_def)

lemma QueryEscape_simps [simp]:
  "QueryEscape [] = []"
  "QueryEscape (c # s) =
     (if unreserved c then [c] else if c = CHR '' '' then ''+''
      else [CHR ''%'', upperhex ! (byte c div 16), upperhex ! (byte c mod 16)]) @ QueryEscape s"
  by (simp_all add: QueryEscape_def)

lemma char_of_byte [simp]: "char_of (byte c) = c"
  by (simp add: byte_def)

lemma unescape_escape: "QueryUnescape (QueryEscape s) = Some s"
proof (induction s)
  case (Cons c s)
  have "byte c div 16 < 16" using byte_bound [of c] by linarith
  then show ?case
    using Cons unreserved_plain [of c] by (auto simp: unhex_upperhex)
qed simp

text \<open>An escaped string has none of the delimiters.\<close>

lemma upperhex_letters: "set upperhex \<inter> set ''&=;'' = {}"
  by (auto simp: upperhex_def)

lemma QueryEscape_plain: "set (QueryEscape s) \<inter> set ''&=;'' = {}"
proof (induction s)
  case (Cons c s)
  have "byte c div 16 < 16" using byte_bound [of c] by linarith
  then have "upperhex ! (byte c div 16) \<in> set upperhex" "upperhex ! (byte c mod 16) \<in> set upperhex"
    using nth_mem [of "byte c div 16" upperhex] nth_mem [of "byte c mod 16" upperhex] by (simp_all add: upperhex_def)
  moreover have "unreserved c \<Longrightarrow> c \<notin> set ''&=;''"
    by (auto simp: unreserved_def is_letter_def is_upper_def is_digit_def byte_def)
  ultimately show ?case using Cons upperhex_letters by auto
qed simp

lemma Cut1_found: "sep \<notin> set k \<Longrightarrow> Cut1 (k @ sep # v) sep = (k, v, True)"
  by (induction k) auto

lemma parsePiece_pair: "parsePiece (QueryEscape k @ ''='' @ QueryEscape v) = Some (k, v)"
proof -
  have "CHR ''='' \<notin> set (QueryEscape k)" "CHR '';'' \<notin> set (QueryEscape k @ ''='' @ QueryEscape v)"
    using QueryEscape_plain [of k] QueryEscape_plain [of v] by auto
  then show ?thesis by (simp add: parsePiece_def Cut1_found unescape_escape)
qed

lemma Split1_Join:
  assumes "xs \<noteq> []" and "\<forall>x \<in> set xs. sep \<notin> set x"
  shows "Split1 (Join xs [sep]) sep = xs"
  using assms by (induction xs "[sep]" rule: Join.induct) (simp_all add: Split1_absent Split1_append)

lemma ParseQuery_Encode: "ParseQuery (EncodeValues vs) = sort_key fst vs"
proof (cases "vs = []")
  case True
  then show ?thesis by (simp add: ParseQuery_def EncodeValues_def parsePiece_def List.map_filter_simps)
next
  case False
  define pieces where "pieces = map (\<lambda>(k, v). QueryEscape k @ ''='' @ QueryEscape v) (sort_key fst vs)"
  have "pieces \<noteq> []" using False length_sort [of fst vs] unfolding pieces_def by (metis length_0_conv map_is_Nil_conv)
  moreover have "\<forall>x \<in> set pieces. CHR ''&'' \<notin> set x"
    using QueryEscape_plain by (fastforce simp: pieces_def)
  ultimately have "Split1 (EncodeValues vs) (CHR ''&'') = pieces"
    using Split1_Join unfolding EncodeValues_def pieces_def by blast
  moreover have "List.map_filter parsePiece (map (\<lambda>(k, v). QueryEscape k @ ''='' @ QueryEscape v) xs) = xs" for xs
    using parsePiece_pair by (induction xs) (auto simp: List.map_filter_simps)
  ultimately show ?thesis by (simp add: ParseQuery_def pieces_def)
qed

lemma GetValue_Encode:
  assumes "distinct (map fst vs)"
  shows "GetValue (ParseQuery (EncodeValues vs)) = GetValue vs"
proof -
  have "mset (map fst (sort_key fst vs)) = mset (map fst vs)" by simp
  then have "distinct (map fst (sort_key fst vs))" using assms mset_eq_imp_distinct_iff by blast
  then have "map_of (sort_key fst vs) = map_of vs" using assms map_of_inject_set by fastforce
  then show ?thesis by (simp add: ParseQuery_Encode GetValue_def fun_eq_iff)
qed

text \<open>The query part of an address.\<close>

definition queryOf :: "string \<Rightarrow> string" where
  "queryOf u = fst (snd (Cut1 u (CHR ''?'')))"

lemma queryOf_simp [simp]: "CHR ''?'' \<notin> set p \<Longrightarrow> queryOf (p @ CHR ''?'' # q) = q"
  by (simp add: queryOf_def Cut1_found)

lemma queryOf_logs [simp]: "queryOf (''/logs?'' @ q) = q" "queryOf (''/logs/export?'' @ q) = q"
  using queryOf_simp [of "''/logs''" q] queryOf_simp [of "''/logs/export''" q] by simp_all

definition link_values :: "string \<Rightarrow> string \<Rightarrow> string" where
  "link_values u = GetValue (ParseQuery (queryOf u))"

lemma pageURL_values:
  "link_values (pageURL v) =
     GetValue ([(''q'', lv_Q v), (''before_ts'', itoa (lv_NextBeforeTs v)), (''before_id'', itoa (lv_NextBeforeID v))] @ ftsValues v)"
  by (simp add: link_values_def pageURL_def GetValue_Encode ftsValues_def del: append_Cons)

lemma filterURL_values: "column \<noteq> ''q'' \<Longrightarrow> link_values (filterURL q column x) = GetValue [(''q'', q), (column, x)]"
  by (simp add: link_values_def filterURL_def GetValue_Encode del: append_Cons)

text \<open>
  C16: the link that scrolls further back is read back as it was meant, whatever the query and the
  search text contain. The handler gets the query and the search of the page, the cursor of its oldest row, and no quick filter.
\<close>

theorem page_link_roundtrip:
  assumes "lv_Q v \<noteq> []" and "TrimSpace (lv_Q v) = lv_Q v" and "TrimSpace (lv_FTS v) = lv_FTS v" and "lv_Op v \<in> {''and'', ''or''}"
    and "int64 (lv_NextBeforeTs v)" and "int64 (lv_NextBeforeID v)"
  shows "parseLogsRequest (link_values (pageURL v))
           = \<lparr>lq_Q = lv_Q v, lq_FTS = lv_FTS v, lq_Op = (if lv_FTS v = [] then ''and'' else lv_Op v)\<rparr>
         \<and> pageParams (link_values (pageURL v)) = Some (lv_NextBeforeTs v, lv_NextBeforeID v)
         \<and> (\<forall>c \<in> {''service'', ''level'', ''host''}. link_values (pageURL v) c = [])"
  using assms by (auto simp: pageURL_values GetValue_def ftsValues_def parseLogsRequest_def pageParams_def ParseInt_itoa int64_def)

definition link_view_sample :: LogsView where
  "link_view_sample = (emptyView ''SELECT * FROM logs WHERE message = 1 + 1'' ''a&b=c;'' ''or'')\<lparr>lv_NextBeforeTs := -5, lv_NextBeforeID := 42\<rparr>"

theorem page_link_roundtrip_witness:
  "parseLogsRequest (link_values (pageURL link_view_sample))
     = \<lparr>lq_Q = ''SELECT * FROM logs WHERE message = 1 + 1'', lq_FTS = ''a&b=c;'', lq_Op = ''or''\<rparr>"
proof -
  have "lv_Q link_view_sample \<noteq> []" "TrimSpace (lv_Q link_view_sample) = lv_Q link_view_sample"
    "TrimSpace (lv_FTS link_view_sample) = lv_FTS link_view_sample" "lv_Op link_view_sample \<in> {''and'', ''or''}"
    "int64 (lv_NextBeforeTs link_view_sample)" "int64 (lv_NextBeforeID link_view_sample)"
    by code_simp+
  from page_link_roundtrip [OF this] show ?thesis by (simp add: link_view_sample_def emptyView_def)
qed

end
