(* ===== verification/Log_Templates.thy ===== *)
theory Log_Templates
  imports Html Links Log_Details Live_Tail
begin

text \<open>
  The fragments of the log viewer, \<open>ui/templates/logs.templ\<close> as generated into \<open>logs_templ.go\<close>, and
  the labels of \<open>logs_model.go\<close>: the result table with its rows, the row that loads older logs, the
  expanded detail of a log, and the search controls. The whole page and its script are not modelled.
\<close>

section \<open>Labels\<close>

text \<open>\<open>time.UnixMilli(ms).UTC()\<close>: the day and the time of day, and the civil date of a day since 1970.\<close>

definition civil :: "int \<Rightarrow> int \<times> int \<times> int" where
  "civil days =
     (let z = days + 719468; era = z div 146097; doe = z mod 146097;
          yoe = (doe - doe div 1460 + doe div 36524 - doe div 146096) div 365;
          doy = doe - (365 * yoe + yoe div 4 - yoe div 100); mp = (5 * doy + 2) div 153;
          d = doy - (153 * mp + 2) div 5 + 1; m = (if mp < 10 then mp + 3 else mp - 9)
      in (yoe + era * 400 + (if m \<le> 2 then 1 else 0), m, d))"

text \<open>Decimal digits with leading zeros, the sign before them.\<close>

definition padInt :: "nat \<Rightarrow> int \<Rightarrow> string" where
  "padInt w n = (let s = itoa \<bar>n\<bar> in (if n < 0 then ''-'' else []) @ replicate (w - length s) (CHR ''0'') @ s)"

definition utcMinute :: "int \<Rightarrow> string" where
  "utcMinute ms =
     (case civil (ms div 86400000) of
        (y, m, d) \<Rightarrow>
          let t = ms mod 86400000
          in padInt 4 y @ ''-'' @ padInt 2 m @ ''-'' @ padInt 2 d @ '' '' @ padInt 2 (t div 3600000) @ '':'' @ padInt 2 (t div 60000 mod 60))"

definition utcTime :: "int \<Rightarrow> string" where
  "utcTime ms = utcMinute ms @ '':'' @ padInt 2 (ms mod 86400000 div 1000 mod 60) @ ''.'' @ padInt 3 (ms mod 1000)"

definition msString :: "int \<Rightarrow> string" where "msString ms = itoa ms"

definition rowID :: "int \<Rightarrow> string" where "rowID i = itoa i"

definition uiLevelClasses :: "(int \<times> string) list" where
  "uiLevelClasses = [(0, ''badge-soft''), (1, ''badge-soft''), (2, ''badge-soft badge-info''), (3, ''badge-soft badge-warning''),
     (4, ''badge-soft badge-error''), (5, ''badge-soft badge-error font-bold'')]"

definition streamLevelWidth :: string where "streamLevelWidth = ''w-14 justify-center shrink-0''"

definition levelClass :: "int option \<Rightarrow> string" where
  "levelClass l = ''badge badge-sm font-mono cursor-pointer'' @
     (case l of
        None \<Rightarrow> '' badge-soft opacity-40''
      | Some n \<Rightarrow> (case map_of uiLevelClasses n of Some c \<Rightarrow> '' '' @ c | None \<Rightarrow> '' badge-soft''))"

definition serviceBadgeClass :: "string \<Rightarrow> string" where
  "serviceBadgeClass name = ''badge badge-sm badge-outline font-mono cursor-pointer max-w-28 min-w-0''
     @ (if length name > 14 then '' tooltip'' else [])"

definition serviceTip :: "string \<Rightarrow> string" where
  "serviceTip name = (if length name > 14 then name else [])"

text \<open>The text of the error of a view, as the handlers store it; \<open>errText\<close> gives the wording.\<close>

definition viewError :: "(view_error \<Rightarrow> string) \<Rightarrow> LogsView \<Rightarrow> string" where
  "viewError errText v = (case lv_Error v of None \<Rightarrow> [] | Some e \<Rightarrow> errText e)"

section \<open>The components\<close>

definition FTSSearchInput :: "string \<Rightarrow> 'j part list" where
  \<open>FTSSearchInput fts =
    [Check, Lit ''<input type="search" name="fts" value="'', Att fts,
     Lit (''" placeholder="Search everything (FTS5 syntax welcome)" class="input input-bordered input-sm sm:input-md ''
          @ ''flex-1 min-w-0 font-mono">'')]\<close>

definition FTSOpToggle :: "string \<Rightarrow> string \<Rightarrow> 'j part list" where
  \<open>FTSOpToggle op extraClass =
    [Check, Lit ''<div class="'', Classes [''join'', extraClass],
     Lit ''" title="How the search combines with the SQL below"'', Lit ''>'']
    @ (if op = ''or'' then
          [Lit (''<input class="join-item btn btn-sm" type="radio" name="op" value="and" aria-label="AND"> <input ''
                @ ''class="join-item btn btn-sm" type="radio" name="op" value="or" aria-label="OR" checked>'')]
        else
          [Lit (''<input class="join-item btn btn-sm" type="radio" name="op" value="and" aria-label="AND" checked>''
                @ '' <input class="join-item btn btn-sm" type="radio" name="op" value="or" aria-label="OR">'')])
    @ [Lit ''</div>'']\<close>

definition resultsToolbar :: "int \<Rightarrow> bool \<Rightarrow> LogsView \<Rightarrow> 'j part list" where
  \<open>resultsToolbar n truncated v =
    [Check,
     Lit ''<div class="flex items-center justify-between shrink-0 pb-1"><span class="text-sm opacity-70">'',
     Txt (rowsLabel n truncated),
     Lit (''</span> <label class="flex items-center gap-1 cursor-pointer text-sm" title="Wrap long lines instead ''
          @ ''of truncating"><input type="checkbox" id="wrap-toggle" class="toggle toggle-xs"> wrap</label></div>'')]\<close>

definition exportFooter :: "LogsView \<Rightarrow> 'j part list" where
  \<open>exportFooter v =
    [Check,
     Lit (''<div class="flex justify-end gap-3 text-sm shrink-0 pt-1"><span class="opacity-60">export:</span>''
          @ '' <a href="''),
     Href (exportURL v ''csv''), Lit ''" class="link">CSV</a> <a href="'', Href (exportURL v ''json''),
     Lit ''" class="link">JSON</a></div>'']\<close>

definition pageSentinel :: "LogsView \<Rightarrow> 'j part list" where
  \<open>pageSentinel v =
    [Check]
    @ (if lv_HasMore v then
          [Lit ''   <tr hx-get="'', Att (pageURL v),
           Lit (''" hx-trigger="intersect root:#log-scroll" hx-swap="outerHTML"><td colspan="4" class="text-center ''
                @ ''py-2 opacity-40 text-sm"><span class="loading loading-dots loading-xs"></span> reaching further ''
                @ ''back</td></tr>'')]
        else if lv_AtStart v then
          [Lit ''<tr><td colspan="4" class="text-center py-2 opacity-30 text-sm">beginning of history</td></tr>'']
        else [])\<close>

definition logRowTr :: "LogRow \<Rightarrow> string \<Rightarrow> 'j part list" where
  \<open>logRowTr r q =
    [Check, Lit ''<tr class="log-row hover:bg-base-content/5 cursor-pointer" data-id="'',
     Att (rowID (lr_ID r)), Lit ''"><td class="whitespace-nowrap opacity-80"><span data-ts="'',
     Att (msString (lr_Ts r)), Lit ''">'', Txt (utcTime (lr_Ts r)),
     Lit ''</span></td><td class="text-center">'']
    @ (if (lr_Level r) \<noteq> None then
          [Lit ''<button class="'', Classes [levelClass (lr_Level r)], Lit ''" hx-get="'',
           Att (filterURL q ''level'' (levelValue (lr_Level r))),
           Lit ''" hx-target="#results" hx-swap="innerHTML"'', Lit ''>'', Txt (levelName (lr_Level r)),
           Lit ''</button>'']
        else
          [Lit ''<span class="'', Classes [levelClass (lr_Level r)], Lit ''"'', Lit ''>-</span>''])
    @ [Lit ''</td><td class="text-center hidden sm:table-cell">'', Lit ''<button class="'',
       Classes [serviceBadgeClass (lr_Service r)], Lit ''" data-tip="'', Att (serviceTip (lr_Service r)),
       Lit ''" hx-get="'', Att (filterURL q ''service'' (lr_Service r)),
       Lit ''" hx-target="#results" hx-swap="innerHTML"'', Lit ''><span class="truncate">'',
       Txt (lr_Service r), Lit ''</span></button></td><td class="msg-cell max-w-xl truncate" title="'',
       Att (lr_Message r), Lit ''">'', Txt (lr_Message r), Lit ''</td></tr>'']\<close>

definition logViewer :: "LogsView \<Rightarrow> 'j part list" where
  \<open>logViewer v =
    [Check]
    @ resultsToolbar (int (length (lv_Rows v))) (lv_Truncated v) v
    @ [Lit (''<div id="log-scroll" data-anchor="bottom" class="flex-1 min-h-0 overflow-y-auto overflow-x-auto ''
            @ ''border border-base-content/15 rounded-box bg-base-100 [overflow-anchor:none]"><table class="table ''
            @ ''font-mono"><thead class="sticky top-0 bg-base-100 z-10"><tr class="text-sm text-center"><th class="w-32">''
            @ ''time</th><th class="w-16">level</th><th class="w-28 hidden sm:table-cell">service</th><th>message</th>''
            @ ''</tr></thead> <tbody id="log-rows">'')]
    @ pageSentinel v
    @ concat (map (\<lambda>r.
          logRowTr r (lv_Q v)) (lv_Rows v))
    @ (if (lv_Rows v) = [] then
          [Lit (''<tr><td colspan="4" class="text-center py-8 opacity-60 italic">Nothing matches. All quiet, or too ''
                @ ''quiet?</td></tr>'')]
        else [])
    @ [Lit ''</tbody></table></div>'']
    @ exportFooter v\<close>

definition LogRowsPage :: "LogsView \<Rightarrow> 'j part list" where
  \<open>LogRowsPage v =
    [Check]
    @ pageSentinel v
    @ concat (map (\<lambda>r.
          logRowTr r (lv_Q v)) (lv_Rows v))\<close>

definition StreamRow :: "LogRow \<Rightarrow> string \<Rightarrow> 'j part list" where
  \<open>StreamRow r q =
    [Check]
    @ logRowTr r q\<close>

definition metaPair :: "string \<Rightarrow> string \<Rightarrow> 'j part list" where
  \<open>metaPair label value =
    [Check, Lit ''<span class="whitespace-nowrap"><span class="opacity-60">'', Txt label,
     Lit ''</span> <span class="font-semibold">'', Txt value, Lit ''</span></span>'']\<close>

definition logDetailMeta :: "LogDetail \<Rightarrow> 'j part list" where
  \<open>logDetailMeta d =
    [Check]
    @ metaPair ''id'' (rowID (ld_ID d))
    @ [Lit (''<span class="whitespace-nowrap"><span class="opacity-60">event</span> <span class="font-semibold" ''
            @ ''data-ts="''),
       Att (msString (ld_Ts d)), Lit ''" data-ts-full>'', Txt (utcTime (ld_Ts d)),
       Lit (''</span></span> <span class="whitespace-nowrap"><span class="opacity-60">ingested</span> <span class="font-semibold" ''
            @ ''data-ts="''),
       Att (msString (ld_IngestedAt d)), Lit ''" data-ts-full>'', Txt (utcTime (ld_IngestedAt d)),
       Lit ''</span></span>'']
    @ metaPair ''service'' (ld_Service d)
    @ metaPair ''host'' (ld_Host d)\<close>

definition multilineValue :: "string \<Rightarrow> 'j part list" where
  \<open>multilineValue value =
    [Check]
    @ (let (first, rest, more) = splitFirstLine value in
      (if more = 0 then
            [Lit ''<span class="whitespace-pre-wrap break-all">'', Txt first, Lit ''</span>'']
          else
            [Lit (''<details class="group"><summary class="cursor-pointer list-none select-none flex flex-wrap gap-x-3 ''
                  @ ''items-baseline"><span class="whitespace-pre-wrap break-all">''),
             Txt first,
             Lit (''</span> <span class="opacity-60 group-hover:opacity-100 whitespace-nowrap"><span class="group-open:hidden">''
                  @ [CHR 0xE2, CHR 0x96, CHR 0xB8] @ '' ''),
             Txt (moreLinesLabel more),
             Lit (''</span><span class="hidden group-open:inline">'' @ [CHR 0xE2, CHR 0x96, CHR 0xBE]
                  @ '' collapse</span></span></summary><pre class="whitespace-pre-wrap break-all max-h-96 overflow-y-auto ''
                  @ ''mt-1 pl-3 border-l border-base-content/15">''),
             Txt rest, Lit ''</pre></details>'']))\<close>

definition logDetailPayload :: "LogDetail \<Rightarrow> 'j part list" where
  \<open>logDetailPayload d =
    [Check]
    @ (if (ld_Fields d) \<noteq> [] then
          [Lit (''<dl class="grid grid-cols-[max-content_minmax(0,1fr)] gap-x-3 gap-y-1 bg-base-100 rounded-field '' @ ''p-2">'')]
          @ concat (map (\<lambda>f.
                [Lit ''<dt class="opacity-60 whitespace-nowrap">'', Txt (df_Key f), Lit ''</dt><dd class="min-w-0">'']
                @ multilineValue (df_Value f)
                @ [Lit ''</dd>'']) (ld_Fields d))
          @ [Lit ''</dl>'']
          @ (if ld_RawIsParsed d then
                [Lit (''<details class="group bg-base-100 rounded-field p-2"><summary class="cursor-pointer opacity-60 ''
                      @ ''hover:opacity-100 select-none"><span class="group-open:hidden">show raw</span><span class="hidden ''
                      @ ''group-open:inline">hide raw</span></summary><pre class="whitespace-pre-wrap break-all mt-1">''),
                 Txt (ld_Raw d), Lit ''</pre></details>'']
              else
                [Lit ''<div class="bg-base-100 rounded-field p-2">'']
                @ multilineValue (ld_Raw d)
                @ [Lit ''</div>''])
        else
          [Lit ''<div class="bg-base-100 rounded-field p-2">'']
          @ multilineValue (ld_Raw d)
          @ [Lit ''</div>'']
          @ (if (ld_Parsed d) \<noteq> [] then
                [Lit ''<pre class="whitespace-pre-wrap break-all bg-base-100 rounded-field p-2 opacity-80">'',
                 Txt (ld_Parsed d), Lit ''</pre>'']
              else []))\<close>

definition LogDetailRow :: "LogDetail \<Rightarrow> 'j part list" where
  \<open>LogDetailRow d =
    [Check,
     Lit (''<tr class="detail-row bg-base-300/40"><td colspan="4" class="p-3"><div class="flex flex-col gap-2 ''
          @ ''text-sm font-mono"><div class="flex gap-x-4 gap-y-1 flex-wrap">'')]
    @ logDetailMeta d
    @ [Lit (''<span class="js-close-detail cursor-pointer ml-auto opacity-60 hover:opacity-100">''
            @ [CHR 0xE2, CHR 0x9C, CHR 0x95] @ '' close</span></div>'')]
    @ logDetailPayload d
    @ [Lit ''</div></td></tr>'']\<close>

definition LogDetailBlock :: "LogDetail \<Rightarrow> 'j part list" where
  \<open>LogDetailBlock d =
    [Check,
     Lit (''<div class="stream-detail bg-base-300/40 rounded-field p-3 my-1"><div class="flex flex-col gap-2 ''
          @ ''text-sm font-mono"><div class="flex gap-x-4 gap-y-1 flex-wrap">'')]
    @ logDetailMeta d
    @ [Lit (''<span class="js-close-detail cursor-pointer ml-auto opacity-60 hover:opacity-100">''
            @ [CHR 0xE2, CHR 0x9C, CHR 0x95] @ '' close</span></div>'')]
    @ logDetailPayload d
    @ [Lit ''</div></div>'']\<close>

definition genericTable :: "LogsView \<Rightarrow> 'j part list" where
  \<open>genericTable v =
    [Check]
    @ resultsToolbar (int (length (lv_Cells v))) (lv_Truncated v) v
    @ [Lit (''<div id="log-scroll" class="flex-1 min-h-0 overflow-y-auto overflow-x-auto border border-base-content/15 ''
            @ ''rounded-box bg-base-100"><table class="table font-mono"><thead class="sticky top-0 bg-base-100 ''
            @ ''z-10"><tr class="text-sm text-center">'')]
    @ concat (map (\<lambda>c.
          [Lit ''<th>'', Txt c, Lit ''</th>'']) (lv_Columns v))
    @ [Lit ''</tr></thead> <tbody>'']
    @ concat (map (\<lambda>row.
          [Lit ''<tr>'']
          @ concat (map (\<lambda>cell.
                [Lit ''<td class="msg-cell max-w-md truncate" title="'', Att cell, Lit ''">'', Txt cell,
                 Lit ''</td>'']) row)
          @ [Lit ''</tr>'']) (lv_Cells v))
    @ (if (lv_Cells v) = [] then
          [Lit (''<tr><td colspan="99" class="text-center py-8 opacity-60 italic">Zero rows. The query ran fine; '' @ ''there''
                @ [CHR 0x27] @ ''s just nothing there.</td></tr>'')]
        else [])
    @ [Lit ''</tbody></table></div>'']
    @ exportFooter v\<close>

definition LogsResults :: "(view_error \<Rightarrow> string) \<Rightarrow> LogsView \<Rightarrow> 'j part list" where
  \<open>LogsResults errText v =
    [Check]
    @ (if (viewError errText v) \<noteq> [] then
          [Lit ''<div role="alert" class="alert alert-error text-sm shrink-0">'', Txt (viewError errText v),
           Lit ''</div>'']
        else if lv_IsViewer v then
          logViewer v
        else
          genericTable v)\<close>

text \<open>A recent time, one before 1970, and both sides of the start of a leap day.\<close>

lemma utcTime_examples:
  "utcTime 1700000000000 = ''2023-11-14 22:13:20.000''" "utcTime (-1) = ''1969-12-31 23:59:59.999''"
  "utcTime 1709164799999 = ''2024-02-28 23:59:59.999''" "utcTime 1709164800000 = ''2024-02-29 00:00:00.000''"
  by code_simp+

section \<open>Every value in its place\<close>

lemma FTSSearchInput_place [in_place]: "place Data (FTSSearchInput fts) = Some Data"
  unfolding FTSSearchInput_def by (simp add: place_simps in_place cong: place_congs)

lemma FTSOpToggle_place [in_place]: "place Data (FTSOpToggle op extraClass) = Some Data"
  unfolding FTSOpToggle_def by (simp add: place_simps in_place cong: place_congs)

lemma resultsToolbar_place [in_place]: "place Data (resultsToolbar n truncated v) = Some Data"
  unfolding resultsToolbar_def by (simp add: place_simps in_place cong: place_congs)

lemma exportFooter_place [in_place]: "place Data (exportFooter v) = Some Data"
  unfolding exportFooter_def by (simp add: place_simps in_place cong: place_congs)

lemma pageSentinel_place [in_place]: "place Data (pageSentinel v) = Some Data"
  unfolding pageSentinel_def by (simp add: place_simps in_place cong: place_congs)

lemma logRowTr_place [in_place]: "place Data (logRowTr r q) = Some Data"
  unfolding logRowTr_def by (simp add: place_simps in_place cong: place_congs)

lemma logViewer_place [in_place]: "place Data (logViewer v) = Some Data"
  unfolding logViewer_def by (simp add: place_simps in_place cong: place_congs)

lemma LogRowsPage_place [in_place]: "place Data (LogRowsPage v) = Some Data"
  unfolding LogRowsPage_def by (simp add: place_simps in_place cong: place_congs)

lemma StreamRow_place [in_place]: "place Data (StreamRow r q) = Some Data"
  unfolding StreamRow_def by (simp add: place_simps in_place cong: place_congs)

lemma metaPair_place [in_place]: "place Data (metaPair label value) = Some Data"
  unfolding metaPair_def by (simp add: place_simps in_place cong: place_congs)

lemma logDetailMeta_place [in_place]: "place Data (logDetailMeta d) = Some Data"
  unfolding logDetailMeta_def by (simp add: place_simps in_place cong: place_congs)

lemma multilineValue_place [in_place]: "place Data (multilineValue value) = Some Data"
  unfolding multilineValue_def by (simp add: place_simps in_place cong: place_congs split: prod.split)

lemma logDetailPayload_place [in_place]: "place Data (logDetailPayload d) = Some Data"
  unfolding logDetailPayload_def by (simp add: place_simps in_place cong: place_congs)

lemma LogDetailRow_place [in_place]: "place Data (LogDetailRow d) = Some Data"
  unfolding LogDetailRow_def by (simp add: place_simps in_place cong: place_congs)

lemma LogDetailBlock_place [in_place]: "place Data (LogDetailBlock d) = Some Data"
  unfolding LogDetailBlock_def by (simp add: place_simps in_place cong: place_congs)

lemma genericTable_place [in_place]: "place Data (genericTable v) = Some Data"
  unfolding genericTable_def by (simp add: place_simps in_place cong: place_congs)

lemma LogsResults_place [in_place]: "place Data (LogsResults errText v) = Some Data"
  unfolding LogsResults_def by (simp add: place_simps in_place cong: place_congs)

section \<open>As fragments\<close>

interpretation log_results: fragment "LogsResults e" for e
  by unfold_locales (auto intro: LogsResults_place split: prod.split)

interpretation log_rows: fragment "LogRowsPage"
  by unfold_locales (auto intro: LogRowsPage_place split: prod.split)

interpretation stream_row: fragment "\<lambda>(r, q). StreamRow r q"
  by unfold_locales (auto intro: StreamRow_place split: prod.split)

interpretation detail_row_form: fragment "LogDetailRow"
  by unfold_locales (auto intro: LogDetailRow_place split: prod.split)

interpretation detail_block_form: fragment "LogDetailBlock"
  by unfold_locales (auto intro: LogDetailBlock_place split: prod.split)

section \<open>The structure of the log pages\<close>

text \<open>Two rows have the same shape when both have a level or none, two views when their tables have the same size.\<close>

definition row_shape :: "LogRow \<Rightarrow> LogRow \<Rightarrow> bool" where
  "row_shape r r' \<longleftrightarrow> (lr_Level r = None \<longleftrightarrow> lr_Level r' = None)"

definition view_shape :: "(view_error \<Rightarrow> string) \<Rightarrow> LogsView \<Rightarrow> LogsView \<Rightarrow> bool" where
  "view_shape errText v v' \<longleftrightarrow>
     (viewError errText v = [] \<longleftrightarrow> viewError errText v' = []) \<and> lv_IsViewer v = lv_IsViewer v' \<and> lv_HasMore v = lv_HasMore v'
     \<and> lv_AtStart v = lv_AtStart v' \<and> list_all2 row_shape (lv_Rows v) (lv_Rows v')
     \<and> length (lv_Columns v) = length (lv_Columns v') \<and> map length (lv_Cells v) = map length (lv_Cells v')"

lemma outline_row: "row_shape r r' \<Longrightarrow> outline (logRowTr r q) = outline (logRowTr r' q')"
  unfolding row_shape_def logRowTr_def by simp

lemma outline_rows:
  "list_all2 row_shape rs rs' \<Longrightarrow> outline (concat (map (\<lambda>r. logRowTr r q) rs)) = outline (concat (map (\<lambda>r. logRowTr r q') rs'))"
  by (induction rs rs' rule: list_all2_induct) (auto dest: outline_row [of _ _ q q'])

lemma outline_same_length:
  assumes "length xs = length ys" and "\<And>x y. outline (f x) = outline (f y)"
  shows "outline (concat (map f xs)) = outline (concat (map f ys))"
  using assms(1) by (induction xs ys rule: list_induct2) (auto intro: assms(2))

lemma outline_cells:
  assumes "map length xss = map length yss" and "\<And>xs ys. length xs = length ys \<Longrightarrow> outline (f xs) = outline (f ys)"
  shows "outline (concat (map f xss)) = outline (concat (map f yss))"
proof -
  have "length xss = length yss" using assms(1) map_eq_imp_length_eq by blast
  then show ?thesis using assms(1) by (induction xss yss rule: list_induct2) (auto intro: assms(2))
qed

lemma outline_page:
  assumes "view_shape e v v'"
  shows "outline (pageSentinel v) = outline (pageSentinel v')"
    and "outline (concat (map (\<lambda>r. logRowTr r (lv_Q v)) (lv_Rows v))) = outline (concat (map (\<lambda>r. logRowTr r (lv_Q v')) (lv_Rows v')))"
  using assms by (auto simp: view_shape_def pageSentinel_def intro: outline_rows)

lemma outline_toolbar: "outline (resultsToolbar n tr v) = outline (resultsToolbar n' tr' v')" "outline (exportFooter v) = outline (exportFooter v')"
  by (simp_all add: resultsToolbar_def exportFooter_def)

lemma outline_viewer:
  assumes "view_shape e v v'"
  shows "outline (logViewer v) = outline (logViewer v')"
proof -
  have "lv_Rows v = [] \<longleftrightarrow> lv_Rows v' = []" using assms by (auto simp: view_shape_def)
  then show ?thesis unfolding logViewer_def outline_append
    by (intro arg_cong2 [where f = "(@)"] outline_toolbar outline_page [OF assms]) simp_all
qed

lemma outline_table:
  assumes "view_shape e v v'"
  shows "outline (genericTable v :: 'a part list) = outline (genericTable v' :: 'a part list)"
proof -
  have e: "lv_Cells v = [] \<longleftrightarrow> lv_Cells v' = []" using assms by (metis view_shape_def map_is_Nil_conv)
  have cols: "outline (concat (map f (lv_Columns v))) = outline (concat (map f (lv_Columns v')))"
    if "\<And>x y. outline (f x) = outline (f y)" for f :: "string \<Rightarrow> 'a part list"
    using assms by (intro outline_same_length that) (simp add: view_shape_def)
  have cells: "outline (concat (map f (lv_Cells v))) = outline (concat (map f (lv_Cells v')))"
    if "\<And>xs ys. length xs = length ys \<Longrightarrow> outline (f xs) = outline (f ys)" for f :: "string list \<Rightarrow> 'a part list"
    using assms by (intro outline_cells that) (simp_all add: view_shape_def)
  show ?thesis unfolding genericTable_def outline_append
    by (intro arg_cong2 [where f = "(@)"] outline_toolbar cols cells) (auto simp: e intro: outline_same_length)
qed

text \<open>
  C17: no log changes the structure of the page. Two result pages of the same shape, with any logs,
  queries and error texts in them, have the same tags, attribute names and quotes, for every rendering
  and also for one that is cut off; the same holds for a page of older rows.
\<close>

theorem log_page_inert:
  fixes T :: "'j templ_env"
  assumes "templ_ok T" and "view_shape errText v v'"
  shows "markup (fst (render T live (LogsResults errText v))) = markup (fst (render T live (LogsResults errText v')))
         \<and> markup (fst (render T live (LogRowsPage v))) = markup (fst (render T live (LogRowsPage v')))"
proof -
  have "outline (LogsResults errText v :: 'j part list) = outline (LogsResults errText v' :: 'j part list)"
    using assms(2) by (auto simp: LogsResults_def view_shape_def outline_viewer [OF assms(2)] outline_table [OF assms(2)])
  moreover have "outline (LogRowsPage v :: 'j part list) = outline (LogRowsPage v' :: 'j part list)"
    unfolding LogRowsPage_def outline_append by (intro arg_cong2 [where f = "(@)"] outline_page [OF assms(2)] refl)
  ultimately show ?thesis using markup_fixed [OF assms(1)] LogsResults_place LogRowsPage_place by blast
qed

definition evil_row :: LogRow where
  \<open>evil_row = \<lparr>lr_ID = 7, lr_Ts = 1700000000000, lr_Level = Some 4, lr_Service = ''"><img src=x>'', lr_Host = [],
     lr_Message = ''</td><script>alert(1)</script>'', lr_Raw = []\<rparr>\<close>

definition evil_view :: LogsView where
  "evil_view = (emptyView ''SELECT * FROM logs'' [] ''and'')\<lparr>lv_IsViewer := True, lv_Rows := [evil_row], lv_HasMore := True, lv_NextBeforeTs := 1\<rparr>"

definition plain_view :: LogsView where
  "plain_view = evil_view\<lparr>lv_Rows := [evil_row\<lparr>lr_Service := ''api'', lr_Message := ''ok'', lr_Level := Some 2\<rparr>]\<rparr>"

theorem log_page_inert_witness:
  "markup (fst (render (templ_sample :: unit templ_env) alive (LogsResults (\<lambda>_. []) evil_view)))
   = markup (fst (render (templ_sample :: unit templ_env) alive (LogsResults (\<lambda>_. []) plain_view)))"
proof -
  have "view_shape (\<lambda>_. []) evil_view plain_view"
    by (simp add: view_shape_def evil_view_def plain_view_def evil_row_def emptyView_def viewError_def row_shape_def)
  then show ?thesis by (rule log_page_inert [OF templ_sample_ok, THEN conjunct1])
qed

end
