(* ===== verification/Home_Templates.thy ===== *)
theory Home_Templates
  imports Log_Templates Home_Page
begin

text \<open>
  The cards of the start page, \<open>ui/templates/home.templ\<close> as generated into \<open>home_templ.go\<close>, and the links
  of the navigation in \<open>layout_templ.go\<close>.
\<close>

section \<open>Labels\<close>

definition barTitle :: "VolumePoint \<Rightarrow> string" where
  "barTitle p = utcTime (vp_BucketMs p) @ '' - '' @ itoa (vp_Count p) @ '' logs''"

section \<open>The components\<close>

definition HomeVolume :: "HomeVolumeView \<Rightarrow> 'j part list" where
  \<open>HomeVolume v =
    [Check]
    @ (if (hv_Total v) = 0 then
          [Lit ''<p class="text-sm opacity-60 italic py-6">Not a single log in the last hour. Peaceful, or unplugged?</p>'']
        else
          [Lit ''<div class="flex items-end gap-1 h-24 pt-2">'']
          @ concat (map (\<lambda>p.
                [Lit ''<div class="flex-1 bg-primary/70 rounded-t min-w-1" style="'',
                 Style (barHeight (vp_Count p) (hv_Max v)), Lit ''" title="'', Att (barTitle p), Lit ''"></div>'']) (hv_Points v))
          @ [Lit ''</div><p class="text-sm opacity-60 pt-1">'', Txt (itoa (hv_Total v)),
             Lit '' logs, 5-minute buckets</p>''])\<close>

definition HomeErrors :: "HomeErrorRow list \<Rightarrow> 'j part list" where
  \<open>HomeErrors rows =
    [Check]
    @ (if rows = [] then
          [Lit (''<p class="text-sm opacity-60 italic py-2">Zero errors in 24 hours. Either excellent, or nobody'' @ [CHR 0x27]
                @ ''s home.</p>'')]
        else
          [Lit ''<ul class="flex flex-col gap-1">'']
          @ concat (map (\<lambda>r.
                [Lit ''<li><a href="'', Href (serviceErrorsURL (he_Service r)),
                 Lit (''" class="flex items-center justify-between gap-2 hover:bg-base-content/5 rounded-field px-2 py-1">''
                      @ ''<span class="font-mono text-sm truncate min-w-0">''),
                 Txt (he_Service r), Lit ''</span> <span class="badge badge-sm badge-soft badge-error font-mono">'',
                 Txt (itoa (he_Count r)), Lit ''</span></a></li>'']) rows)
          @ [Lit ''</ul>''])\<close>

definition HomeServices :: "HomeServiceRow list \<Rightarrow> 'j part list" where
  \<open>HomeServices rows =
    [Check]
    @ (if rows = [] then
          [Lit (''<p class="text-sm opacity-60 italic py-2">No services yet. Point FluentBit at <code class="font-mono">''
                @ ''/api/v1/ingest</code> and they'' @ [CHR 0x27] @ ''ll show up here.</p>'')]
        else
          [Lit ''<ul class="flex flex-col gap-1">'']
          @ concat (map (\<lambda>r.
                [Lit ''<li><a href="'', Href (serviceLogsURL (hs_Service r)),
                 Lit (''" class="flex items-center justify-between gap-2 hover:bg-base-content/5 rounded-field px-2 py-1">''
                      @ ''<span class="font-mono text-sm truncate min-w-0">''),
                 Txt (hs_Service r),
                 Lit ''</span> <span class="text-sm opacity-60 whitespace-nowrap" data-reltime="'',
                 Att (msString (hs_LastSeenMs r)), Lit ''">'', Txt (utcTime (hs_LastSeenMs r)),
                 Lit ''</span></a></li>'']) rows)
          @ [Lit ''</ul>''])\<close>

definition HomeMetricsServices :: "HomeServiceRow list \<Rightarrow> 'j part list" where
  \<open>HomeMetricsServices rows =
    [Check]
    @ (if rows = [] then
          [Lit (''<p class="text-sm opacity-60 italic py-2">No services reporting metrics yet. Add a scrape target ''
                @ ''in <a href="/settings" class="link link-primary">Settings</a> or push OTLP.</p>'')]
        else
          [Lit ''<ul class="flex flex-col gap-1">'']
          @ concat (map (\<lambda>r.
                [Lit ''<li><a href="'', Href (serviceMetricsURL (hs_Service r)),
                 Lit (''" class="flex items-center justify-between gap-2 hover:bg-base-content/5 rounded-field px-2 py-1">''
                      @ ''<span class="font-mono text-sm truncate min-w-0">''),
                 Txt (hs_Service r),
                 Lit ''</span> <span class="text-sm opacity-60 whitespace-nowrap" data-reltime="'',
                 Att (msString (hs_LastSeenMs r)), Lit ''">'', Txt (utcTime (hs_LastSeenMs r)),
                 Lit ''</span></a></li>'']) rows)
          @ [Lit ''</ul>''])\<close>

definition HomeMetrics :: "HomeMetricsView \<Rightarrow> 'j part list" where
  \<open>HomeMetrics v =
    [Check]
    @ (if ((hm_LastSeenMs v) = 0) \<and> ((hm_FailingTargets v) = []) then
          [Lit (''<p class="text-sm opacity-60 italic py-2">No metrics yet. Add a scrape target in <a href="/settings" ''
                @ ''class="link link-primary">Settings</a> or push OTLP to <code class="font-mono">/api/v1/otlp/v1/metrics</code>''
                @ ''.</p>'')]
        else
          [Lit ''<div class="flex items-center gap-4 flex-wrap text-sm">'']
          @ (if (hm_FailingTargets v) = [] then
                [Lit ''<span class="badge badge-sm badge-soft badge-success">scrapes ok</span> '']
              else
                [Lit ''<span class="badge badge-sm badge-soft badge-error">'',
                 Txt (itoa (int (length (hm_FailingTargets v)))), Lit '' failing</span> ''])
          @ (if (hm_LastSeenMs v) > 0 then
                [Lit ''<span class="opacity-70">last datapoint <span data-reltime="'',
                 Att (msString (hm_LastSeenMs v)), Lit ''">'', Txt (utcTime (hm_LastSeenMs v)),
                 Lit ''</span></span> '']
              else [])
          @ [Lit ''<span class="opacity-70">'', Txt (itoa (hm_Points24h v)),
             Lit ('' datapoints '' @ [CHR 0xC2, CHR 0xB7]
                  @ '' 24h</span> <a href="/metrics-explorer" class="link opacity-70 ml-auto">explore ''
                  @ [CHR 0xE2, CHR 0x86, CHR 0x92] @ ''</a></div>'')]
          @ concat (map (\<lambda>t.
                [Lit ''<div class="text-sm text-error truncate" title="'', Att (snd t),
                 Lit ''"><a href="/settings" class="link">'', Txt (fst t), Lit ''</a>: '', Txt (snd t),
                 Lit ''</div>'']) (hm_FailingTargets v)))\<close>

definition menuLink :: "string \<Rightarrow> string \<Rightarrow> bool \<Rightarrow> 'j part list" where
  \<open>menuLink href label active =
    [Check, Lit ''<li>'', Lit ''<a href="'', Href href, Lit ''" class="'',
     Classes (if active then [''menu-active''] else []), Lit ''"'', Lit ''>'', Txt label,
     Lit ''</a></li>'']\<close>

definition navLink :: "string \<Rightarrow> string \<Rightarrow> bool \<Rightarrow> 'j part list" where
  \<open>navLink href label active =
    [Check]
    @ (if active then
          [Lit ''<a href="'', Href href, Lit ''" class="tab tab-active text-base font-semibold">'', Txt label,
           Lit ''</a>'']
        else
          [Lit ''<a href="'', Href href, Lit ''" class="tab text-base">'', Txt label, Lit ''</a>''])\<close>

section \<open>Every value in its place\<close>

lemma HomeVolume_place [in_place]: "place Data (HomeVolume v) = Some Data"
  unfolding HomeVolume_def by (simp add: place_simps in_place cong: place_congs)

lemma HomeErrors_place [in_place]: "place Data (HomeErrors rows) = Some Data"
  unfolding HomeErrors_def by (simp add: place_simps in_place cong: place_congs)

lemma HomeServices_place [in_place]: "place Data (HomeServices rows) = Some Data"
  unfolding HomeServices_def by (simp add: place_simps in_place cong: place_congs)

lemma HomeMetricsServices_place [in_place]: "place Data (HomeMetricsServices rows) = Some Data"
  unfolding HomeMetricsServices_def by (simp add: place_simps in_place cong: place_congs)

lemma HomeMetrics_place [in_place]: "place Data (HomeMetrics v) = Some Data"
  unfolding HomeMetrics_def by (simp add: place_simps in_place cong: place_congs)

lemma menuLink_place [in_place]: "place Data (menuLink href label active) = Some Data"
  unfolding menuLink_def by (simp add: place_simps in_place cong: place_congs)

lemma navLink_place [in_place]: "place Data (navLink href label active) = Some Data"
  unfolding navLink_def by (simp add: place_simps in_place cong: place_congs)

section \<open>As fragments\<close>

interpretation home_volume: fragment "HomeVolume"
  by unfold_locales (auto intro: HomeVolume_place split: prod.split)

interpretation home_errors: fragment "HomeErrors"
  by unfold_locales (auto intro: HomeErrors_place split: prod.split)

interpretation home_services: fragment "HomeServices"
  by unfold_locales (auto intro: HomeServices_place split: prod.split)

interpretation home_metrics_services: fragment "HomeMetricsServices"
  by unfold_locales (auto intro: HomeMetricsServices_place split: prod.split)

interpretation home_metrics: fragment "HomeMetrics"
  by unfold_locales (auto intro: HomeMetrics_place split: prod.split)

end
