(* ===== verification/Panel_Templates.thy ===== *)
theory Panel_Templates
  imports Log_Templates Dashboard_Pages Explorer
begin

text \<open>
  The fragments of the dashboards and of the metrics explorer: \<open>dashboards_templ.go\<close>, the quick query
  block of \<open>quickquery_templ.go\<close>, the editor sizes of \<open>editor_templ.go\<close> and the small components of
  \<open>metrics_templ.go\<close>. What goes into a JSON script element is of type \<open>payload\<close>.
\<close>

section \<open>Labels\<close>

datatype payload = PChart "ChartPayload option" | PNames "string list"

definition shapeError :: "(shape_error \<Rightarrow> string) \<Rightarrow> ShapedResult \<Rightarrow> string" where
  "shapeError errText s = (case sr_ErrMsg s of None \<Rightarrow> [] | Some e \<Rightarrow> errText e)"

definition panelPlaceholder :: "string \<Rightarrow> string" where
  "panelPlaceholder dashboardType =
     (if dashboardType = ''logs''
      then ''SELECT * FROM logs WHERE service = '' @ [squote] @ ''orders-api'' @ [squote] @ '' AND level >= 4 ORDER BY timestamp DESC LIMIT 100''
      else ''SELECT timestamp / 60000 * 60000 AS minute, AVG(value) FROM metrics WHERE name = '' @ [squote] @ ''queue_depth'' @ [squote]
        @ '' GROUP BY minute ORDER BY minute LIMIT 500'')"

definition panelWidthClass :: "int \<Rightarrow> string" where
  "panelWidthClass w = (if w = 2 then ''md:col-span-2'' else if w = 3 then ''md:col-span-3'' else ''md:col-span-1'')"

definition editorReserve :: "string \<Rightarrow> int \<Rightarrow> int \<Rightarrow> int \<Rightarrow> string" where
  "editorReserve q basePx linePx maxPx =
     (let lns = int (length (filter (\<lambda>c. c = CHR 0x0A) (TrimRightSet q [CHR 0x0A]))) + 1; h = min (basePx + (lns - 1) * linePx) maxPx
      in ''min-height: '' @ itoa h @ ''px; --cm-reserve: '' @ itoa h @ ''px'')"

definition sqlEditorReserve :: "string \<Rightarrow> string" where "sqlEditorReserve q = editorReserve q 56 20 128"

definition logsEditorReserve :: "string \<Rightarrow> string" where "logsEditorReserve q = editorReserve q 64 21 160"

definition legacyID :: "string \<Rightarrow> bool \<Rightarrow> (string \<times> string) list" where
  "legacyID i legacy = (if legacy then [(''id'', i)] else [])"

text \<open>A chart without a payload would be a nil dereference, \<open>None\<close>.\<close>

definition autoViewLabel :: "MetricsExplorerView \<Rightarrow> string option" where
  "autoViewLabel v =
     (if me_View v \<noteq> ''auto'' then Some ''auto''
      else let k = sr_Kind (me_Shaped v)
           in if k = ''chart'' then map_option (\<lambda>c. ''auto ('' @ cp_Type c @ '')'') (sr_Chart (me_Shaped v))
              else if k = ''stat'' \<or> k = ''table'' then Some (''auto ('' @ k @ '')'') else Some ''auto'')"

section \<open>The components\<close>

definition QuickQueryBlock :: "string \<Rightarrow> bool \<Rightarrow> payload part list" where
  \<open>QuickQueryBlock dsl legacy =
    [Check,
     Lit (''<div class="quick-query flex flex-col gap-1"><span class="flex items-center gap-2"><span class="text-sm ''
          @ ''opacity-80">Quick query</span> <span class="join">''),
     Lit ''<button type="button"'', Spread (legacyID ''dsl-mode-builder'' legacy),
     Lit '' class="qq-mode-builder join-item btn btn-sm"'', Lit ''>builder</button> '',
     Lit ''<button type="button"'', Spread (legacyID ''dsl-mode-text'' legacy),
     Lit '' class="qq-mode-text join-item btn btn-sm"'', Lit ''>text</button></span></span>'',
     Lit ''<div'', Spread (legacyID ''dsl-builder'' legacy),
     Lit ('' class="qq-builder hidden flex-col gap-2 border-2 border-base-content/20 rounded-field bg-base-100 ''
          @ ''p-2"''),
     Lit (''><div class="flex items-end gap-2 flex-wrap"><label class="flex flex-col gap-1"><span class="text-sm ''
          @ ''opacity-60">verb</span> ''),
     Lit ''<select'', Spread (legacyID ''b-verb'' legacy),
     Lit '' class="qq-verb select select-bordered select-sm"'',
     Lit (''><option>avg</option> <option>increase</option> <option>rate</option> <option>min</option> <option>''
          @ ''max</option> <option>sum</option> <option>count</option> <option>latest</option></select></label>''
          @ '' <label class="flex flex-col gap-1"><span class="text-sm opacity-60">metric</span> ''),
     Lit ''<input'', Spread (legacyID ''b-metric'' legacy),
     Lit ('' list="metric-names-dl" class="qq-metric input input-bordered input-sm w-64" placeholder="pick ''
          @ ''or type"''),
     Lit (''></label></div><div class="flex items-end gap-2 flex-wrap"><div class="qq-filters contents"></div>''
          @ ''<button type="button" class="qq-add-filter btn btn-ghost btn-sm mb-1" title="Add a key=value filter ''
          @ ''(service and host are columns; anything else matches labels)">+ filter</button></div><div class="flex ''
          @ ''items-end gap-2 flex-wrap"><label class="flex flex-col gap-1"><span class="text-sm opacity-60">''
          @ ''per</span> ''),
     Lit ''<select'', Spread (legacyID ''b-per'' legacy),
     Lit '' class="qq-per select select-bordered select-sm w-20"'',
     Lit (''><option value="">off</option> <option>1m</option> <option>5m</option> <option>10m</option> <option>''
          @ ''30m</option> <option>1h</option> <option>1d</option></select></label> <label class="flex flex-col ''
          @ ''gap-1"><span class="text-sm opacity-60">last</span> ''),
     Lit ''<select'', Spread (legacyID ''b-last'' legacy),
     Lit '' class="qq-last select select-bordered select-sm w-22"'',
     Lit (''><option>15m</option> <option>1h</option> <option>6h</option> <option selected>24h</option> <option>''
          @ ''7d</option> <option>30d</option></select></label> <label class="flex items-center gap-2 text-sm ''
          @ ''mb-1 cursor-pointer">''),
     Lit ''<input type="checkbox"'', Spread (legacyID ''b-by-service'' legacy),
     Lit '' class="qq-by-service checkbox checkbox-sm"'',
     Lit ''> by service</label></div><div class="qq-preview text-sm font-mono opacity-60"></div></div>'',
     Lit ''<div'', Spread (legacyID ''dsl-input'' legacy), Lit '' data-dsl="'', Att dsl,
     Lit (''" class="qq-dsl-input relative border-2 border-base-content/20 rounded-field bg-base-100 overflow-hidden ''
          @ ''transition-colors" style="min-height: 45px"''),
     Lit ''><span class="qq-ph" aria-hidden="true"></span></div>'', Lit ''<div'',
     Spread (legacyID ''dsl-hint'' legacy), Lit '' class="qq-hint text-sm text-error hidden"'',
     Lit ''></div>'', Lit ''<div'', Spread (legacyID ''dsl-counter-hint'' legacy),
     Lit '' class="qq-counter-hint text-sm text-warning hidden"'',
     Lit ''></div><input type="hidden" name="dsl" value="'', Att dsl, Lit ''"></div>'']\<close>

definition QuickQueryData :: "string list \<Rightarrow> payload part list" where
  \<open>QuickQueryData names =
    [Check, Lit ''<datalist id="metric-names-dl">'']
    @ concat (map (\<lambda>n.
          [Lit ''<option value="'', Att n, Lit ''"></option>'']) names)
    @ [Lit ''</datalist> <datalist id="b-fkeys-dl"></datalist> <datalist id="b-fvals-dl"></datalist>'',
       Json ''metric-names'' (PNames names)]\<close>

definition dashboardTypeBadge :: "string \<Rightarrow> payload part list" where
  \<open>dashboardTypeBadge dtype =
    [Check, Lit ''<span class="badge badge-sm badge-soft font-mono">'', Txt dtype, Lit ''</span>'']\<close>

definition shapedTable :: "ShapedResult \<Rightarrow> string \<Rightarrow> payload part list" where
  \<open>shapedTable s heightClass =
    [Check, Lit ''<div class="'', Classes [''overflow-x-auto'', heightClass], Lit ''"'',
     Lit ''><table class="table table-sm font-mono"><thead><tr>'']
    @ concat (map (\<lambda>c.
          [Lit ''<th>'', Txt c, Lit ''</th>'']) (sr_Columns s))
    @ [Lit ''</tr></thead> <tbody>'']
    @ concat (map (\<lambda>row.
          [Lit ''<tr>'']
          @ concat (map (\<lambda>cell.
                [Lit ''<td class="max-w-48 truncate" title="'', Att cell, Lit ''">'', Txt cell, Lit ''</td>'']) row)
          @ [Lit ''</tr>'']) (sr_Rows s))
    @ [Lit ''</tbody></table></div>'']\<close>

definition Shaped :: "(shape_error \<Rightarrow> string) \<Rightarrow> ShapedResult \<Rightarrow> payload part list" where
  \<open>Shaped errText s =
    [Check]
    @ (if (sr_Kind s) = ''error'' then
          [Lit ''<p class="text-error text-sm break-words py-2">'', Txt (shapeError errText s), Lit ''</p>'']
        else if (sr_Kind s) = ''empty'' then
          [Lit ''<p class="text-sm opacity-60 italic py-2">No rows right now.</p>'']
        else if (sr_Kind s) = ''stat'' then
          [Lit ''<div class="flex items-center justify-center py-6"><span class="text-4xl font-bold font-mono">'',
           Txt (sr_Stat s), Lit ''</span></div>'']
        else if (sr_Kind s) = ''table'' then
          shapedTable s ''max-h-56''
        else if (sr_Kind s) = ''chart'' then
          [Lit ''<div class="h-56 relative"><canvas data-chart="'', Att (sr_ChartID s),
           Lit ''"></canvas></div>'', Json (''chart-data-'' @ (sr_ChartID s)) (PChart (sr_Chart s))]
        else [])\<close>

definition streamPanel :: "LogRow list \<Rightarrow> payload part list" where
  \<open>streamPanel rows =
    [Check]
    @ (if rows = [] then
          [Lit ''<p class="text-sm opacity-60 italic py-2">No matching log lines right now.</p>'']
        else
          [Lit ''<div class="stream-scroll overflow-y-auto overflow-x-hidden max-h-56 flex flex-col">'']
          @ concat (map (\<lambda>r.
                [Lit (''<div class="stream-row flex items-baseline gap-2 px-1 py-0.5 rounded hover:bg-base-content/5 min-w-0 ''
                      @ ''cursor-pointer" data-id="''),
                 Att (itoa (lr_ID r)),
                 Lit ''"><span class="font-mono text-sm opacity-70 whitespace-nowrap" data-ts="'',
                 Att (msString (lr_Ts r)), Lit ''">'', Txt (utcTime (lr_Ts r)), Lit ''</span> '',
                 Lit ''<span class="'', Classes [((levelClass (lr_Level r)) @ '' '') @ streamLevelWidth], Lit ''"'',
                 Lit ''>'', Txt (levelName (lr_Level r)),
                 Lit ''</span> <span class="font-mono text-sm truncate min-w-0" title="'', Att (lr_Message r),
                 Lit ''">'', Txt (lr_Message r), Lit ''</span></div>'']) rows)
          @ [Lit ''</div>''])\<close>

definition PanelFragment :: "(shape_error \<Rightarrow> string) \<Rightarrow> PanelView \<Rightarrow> payload part list" where
  \<open>PanelFragment errText v =
    [Check]
    @ (if (sr_Kind (pv_Shaped v)) = ''stream'' then
          streamPanel (pv_StreamRows v)
        else
          Shaped errText (pv_Shaped v))\<close>

definition panelFormFields :: "int \<times> Panel \<Rightarrow> string \<Rightarrow> string \<Rightarrow> payload part list" where
  \<open>panelFormFields p dashboardType csrfToken =
    [Check, Lit ''<input type="hidden" name="csrf_token" value="'', Att csrfToken,
     Lit (''"><div class="grid gap-3 md:grid-cols-3"><label class="flex flex-col gap-1"><span class="text-sm ''
          @ ''opacity-80">Title</span> <input type="text" name="title" value="''),
     Att (pa_Title (snd p)),
     Lit ''" class="input input-bordered input-sm" maxlength="100" required></label> '']
    @ (if dashboardType = ''logs'' then
          [Lit (''<label class="flex flex-col gap-1"><span class="text-sm opacity-80">Show as</span> <select name="chart_type" ''
                @ ''class="select select-bordered select-sm"><option value="stream"'')]
          @ (if ((pa_ChartType (snd p)) = ''stream'') \<or> ((pa_ChartType (snd p)) = []) then
                [Lit '' selected'']
              else [])
          @ [Lit ''>stream - latest matching lines</option> <option value="chart"'']
          @ (if (pa_ChartType (snd p)) = ''chart'' then
                [Lit '' selected'']
              else [])
          @ [Lit ''>chart - counts over time or by category</option> <option value="number"'']
          @ (if (pa_ChartType (snd p)) = ''number'' then
                [Lit '' selected'']
              else [])
          @ [Lit ''>number - a single count</option></select></label> '']
        else
          [Lit (''<label class="flex flex-col gap-1"><span class="text-sm opacity-80">Chart</span> <select name="chart_type" ''
                @ ''class="select select-bordered select-sm"><option value=""'')]
          @ (if (pa_ChartType (snd p)) = [] then
                [Lit '' selected'']
              else [])
          @ [Lit ''>auto-detect</option> <option value="line"'']
          @ (if (pa_ChartType (snd p)) = ''line'' then
                [Lit '' selected'']
              else [])
          @ [Lit ''>line</option> <option value="bar"'']
          @ (if (pa_ChartType (snd p)) = ''bar'' then
                [Lit '' selected'']
              else [])
          @ [Lit ''>bar</option> <option value="stat"'']
          @ (if (pa_ChartType (snd p)) = ''stat'' then
                [Lit '' selected'']
              else [])
          @ [Lit ''>stat</option></select></label> ''])
    @ [Lit (''<label class="flex flex-col gap-1"><span class="text-sm opacity-80">Width (of 3 columns)</span>''
            @ '' <select name="width" class="select select-bordered select-sm"><option value="1"'')]
    @ (if (pa_Width (snd p)) = 1 then
          [Lit '' selected'']
        else [])
    @ [Lit ''>1</option> <option value="2"'']
    @ (if (pa_Width (snd p)) = 2 then
          [Lit '' selected'']
        else [])
    @ [Lit ''>2</option> <option value="3"'']
    @ (if (pa_Width (snd p)) = 3 then
          [Lit '' selected'']
        else [])
    @ [Lit ''>3</option></select></label></div>'']
    @ (if dashboardType = ''logs'' then
          [Lit '' <div class="flex gap-2 items-center">'']
          @ FTSSearchInput (pa_FTS (snd p))
          @ FTSOpToggle (pa_Op (snd p)) []
          @ [Lit ''</div>'']
        else
          QuickQueryBlock (pa_DSL (snd p)) False)
    @ [Lit ''<div class="flex flex-col gap-1"><span class="flex items-center justify-between">'']
    @ (if dashboardType = ''logs'' then
          [Lit (''<span class="text-sm opacity-80">Query over <code class="font-mono">logs</code> (stream lists rows;''
                @ '' chart/number want an aggregation)</span> '')]
        else
          [Lit (''<span class="text-sm opacity-80">Query over <code class="font-mono">metrics</code> <span class="opacity-60">''
                @ ''- the quick query compiles here; edit it and it'' @ [CHR 0x27] @ ''s yours</span></span> '')])
    @ (if dashboardType = ''logs'' then
          [Lit (''<button type="button" class="open-in-logs link link-primary text-sm" title="Run this query on the ''
                @ ''logs page (new tab)">open in logs '' @ [CHR 0xE2, CHR 0x86, CHR 0x97] @ ''</button>'')]
        else
          [Lit (''<button type="button" class="open-in-explorer link link-primary text-sm" title="Run this query ''
                @ ''on the metrics explorer (new tab)">open in explorer '' @ [CHR 0xE2, CHR 0x86, CHR 0x97] @ ''</button>'')])
    @ [Lit ''</span> <textarea name="query" class="hidden">'', Txt (pa_Query (snd p)),
       Lit (''</textarea><div class="sql-editor-host border-2 border-base-content/20 rounded-field bg-base-100 ''
            @ ''overflow-hidden transition-colors" style="''),
       Style (sqlEditorReserve (pa_Query (snd p))), Lit ''" data-placeholder="'',
       Att (panelPlaceholder dashboardType), Lit ''"></div></div>'']\<close>

definition PanelEditCard :: "int \<times> Panel \<Rightarrow> string \<Rightarrow> string \<Rightarrow> string \<Rightarrow> payload part list" where
  \<open>PanelEditCard p dashboardType errMsg csrfToken =
    [Check, Lit ''<div class="'',
     Classes [''panel-card card bg-base-100 border border-primary/40 md:col-span-3''], Lit ''"'',
     Lit ''><div class="card-body py-4 gap-3">'']
    @ (if errMsg \<noteq> [] then
          [Lit ''<div role="alert" class="alert alert-error text-sm">'', Txt errMsg, Lit ''</div>'']
        else [])
    @ [Lit ''<form hx-put="'',
       Att (''/dashboards/'' @ itoa (pa_DashboardID (snd p)) @ ''/panels/'' @ itoa (fst p)),
       Lit ''" hx-target="closest .panel-card" hx-swap="outerHTML" class="flex flex-col gap-3">'']
    @ panelFormFields p dashboardType csrfToken
    @ [Lit (''<div class="flex gap-2"><button type="submit" class="btn btn-primary btn-sm">Save</button> <button ''
            @ ''type="button" class="btn btn-ghost btn-sm" hx-get="''),
       Att (''/dashboards/'' @ itoa (pa_DashboardID (snd p)) @ ''/panels/'' @ itoa (fst p) @ ''?card=1''),
       Lit ''" hx-target="closest .panel-card" hx-swap="outerHTML">Cancel</button></div></form></div></div>'']\<close>

definition PanelCard :: "(string \<Rightarrow> string) \<Rightarrow> int \<times> Panel \<Rightarrow> string \<Rightarrow> payload part list" where
  \<open>PanelCard uni p csrfToken =
    [Check, Lit ''<div id="'', Att (''panel-card-'' @ itoa (fst p)), Lit ''" class="'',
     Classes [''panel-card card bg-base-100 min-w-0'', panelWidthClass (pa_Width (snd p))], Lit ''"'',
     Lit (''><div class="card-body py-3 gap-2"><div class="flex items-center justify-between gap-2"><h3 class="card-title ''
          @ ''text-sm truncate min-w-0" title="''),
     Att (pa_Query (snd p)), Lit ''">'', Txt (pa_Title (snd p)),
     Lit ''</h3><span class="flex gap-1 shrink-0"><button class="btn btn-ghost btn-sm" hx-get="'',
     Att (''/dashboards/'' @ itoa (pa_DashboardID (snd p)) @ ''/panels/'' @ itoa (fst p) @ ''?edit=1''),
     Lit (''" hx-target="closest .panel-card" hx-swap="outerHTML">Edit</button> <button class="btn btn-ghost ''
          @ ''btn-sm text-error" hx-delete="''),
     Att (''/dashboards/'' @ itoa (pa_DashboardID (snd p)) @ ''/panels/'' @ itoa (fst p)),
     Lit ''" hx-target="closest .panel-card" hx-swap="outerHTML" hx-confirm="'',
     Att (''Delete panel '' @ Quote uni (pa_Title (snd p)) @ ''?''),
     Lit (''">'' @ [CHR 0xE2, CHR 0x9C, CHR 0x95] @ ''</button></span></div><div hx-get="''),
     Att (''/dashboards/'' @ itoa (pa_DashboardID (snd p)) @ ''/panels/'' @ itoa (fst p)),
     Lit (''" hx-trigger="load, every 30s" hx-swap="innerHTML" class="min-h-24"><span class="loading loading-dots ''
          @ ''loading-sm opacity-40"></span></div></div></div>'')]\<close>

definition PanelsRegion :: "(string \<Rightarrow> string) \<Rightarrow> int \<Rightarrow> string \<Rightarrow> (int \<times> Panel) list \<Rightarrow> string \<Rightarrow> payload part list" where
  \<open>PanelsRegion uni dashboardID dashboardType panels csrfToken =
    [Check, Lit ''<div id="panels-region" class="grid grid-cols-1 md:grid-cols-3 gap-4">'']
    @ (if panels = [] then
          [Lit ''<p class="text-sm opacity-60 italic md:col-span-3">Empty so far. Add a panel below - try '']
          @ (if dashboardType = ''logs'' then
                [Lit (''<code class="font-mono">SELECT timestamp / 600000 * 600000 AS bucket, COUNT(*) FROM logs WHERE ''
                      @ ''level >= 4 AND timestamp > (unixepoch() - 86400) * 1000 GROUP BY bucket ORDER BY bucket</code>'')]
              else
                [Lit (''<code class="font-mono">SELECT timestamp, value FROM metrics WHERE name = '' @ [CHR 0x27] @ ''queue_depth''
                      @ [CHR 0x27] @ '' AND timestamp > (unixepoch() - 86400) * 1000 ORDER BY timestamp</code>'')])
          @ [Lit ''</p>'']
        else [])
    @ concat (map (\<lambda>p.
          PanelCard uni p csrfToken) panels)
    @ [Lit ''</div>'']\<close>

definition viewSegment :: "MetricsExplorerView \<Rightarrow> string \<Rightarrow> string \<Rightarrow> 'j part list" where
  \<open>viewSegment v view label =
    [Check, Lit ''<a href="'', Href (metricsViewURL (me_Query v) (me_DSL v) view), Lit ''" class="'',
     Classes ([''join-item btn btn-sm''] @ (if (me_View v) = view then [''btn-primary''] else [])),
     Lit ''"'', Lit ''>'', Txt label, Lit ''</a>'']\<close>

definition saveAsPanel :: "MetricsExplorerView \<Rightarrow> string \<Rightarrow> 'j part list" where
  \<open>saveAsPanel v csrfToken =
    [Check, Lit ''<div class="card bg-base-100"><div class="card-body py-3">'']
    @ (if (me_Dashboards v) = [] then
          [Lit (''<p class="text-sm opacity-60">Like this view? <a href="/dashboards" class="link link-primary">Create ''
                @ ''a metrics dashboard</a> and you can save queries as panels.</p>'')]
        else
          [Lit (''<form method="post" action="/metrics-explorer/save-panel" class="flex gap-2 items-end flex-wrap">''
                @ ''<input type="hidden" name="csrf_token" value="''),
           Att csrfToken, Lit ''"> <input type="hidden" name="query" value="'', Att (me_Query v),
           Lit ''"> <input type="hidden" name="dsl" value="'', Att (me_DSL v),
           Lit ''"> <input type="hidden" name="chart_type" value="'', Att (me_View v),
           Lit (''"> <span class="text-sm opacity-60 self-center mr-1">Keep this view:</span> <label class="flex ''
                @ ''flex-col gap-1"><span class="text-sm opacity-80">Panel title</span> <input type="text" name="title" ''
                @ ''class="input input-bordered input-sm w-48" maxlength="100" required></label> <label class="flex ''
                @ ''flex-col gap-1"><span class="text-sm opacity-80">Dashboard</span> <select name="dashboard_id" class="select ''
                @ ''select-bordered select-sm">'')]
          @ concat (map (\<lambda>d.
                [Lit ''<option value="'', Att (itoa (fst d)), Lit ''">'', Txt (da_Name (snd d)), Lit ''</option>'']) (me_Dashboards v))
          @ [Lit ''</select></label> <button type="submit" class="btn btn-ghost btn-sm">Save as panel</button></form>''])
    @ [Lit ''</div></div>'']\<close>

section \<open>Every value in its place\<close>

lemma QuickQueryBlock_place [in_place]: "place Data (QuickQueryBlock dsl legacy) = Some Data"
  unfolding QuickQueryBlock_def by (simp add: place_simps in_place cong: place_congs)

lemma QuickQueryData_place [in_place]: "place Data (QuickQueryData names) = Some Data"
  unfolding QuickQueryData_def by (simp add: place_simps in_place cong: place_congs)

lemma dashboardTypeBadge_place [in_place]: "place Data (dashboardTypeBadge dtype) = Some Data"
  unfolding dashboardTypeBadge_def by (simp add: place_simps in_place cong: place_congs)

lemma shapedTable_place [in_place]: "place Data (shapedTable s heightClass) = Some Data"
  unfolding shapedTable_def by (simp add: place_simps in_place cong: place_congs)

lemma Shaped_place [in_place]: "place Data (Shaped errText s) = Some Data"
  unfolding Shaped_def by (simp add: place_simps in_place cong: place_congs)

lemma streamPanel_place [in_place]: "place Data (streamPanel rows) = Some Data"
  unfolding streamPanel_def by (simp add: place_simps in_place cong: place_congs)

lemma PanelFragment_place [in_place]: "place Data (PanelFragment errText v) = Some Data"
  unfolding PanelFragment_def by (simp add: place_simps in_place cong: place_congs)

lemma panelFormFields_place [in_place]: "place Data (panelFormFields p dashboardType csrfToken) = Some Data"
  unfolding panelFormFields_def by (simp add: place_simps in_place cong: place_congs)

lemma PanelEditCard_place [in_place]: "place Data (PanelEditCard p dashboardType errMsg csrfToken) = Some Data"
  unfolding PanelEditCard_def by (simp add: place_simps in_place cong: place_congs)

lemma PanelCard_place [in_place]: "place Data (PanelCard uni p csrfToken) = Some Data"
  unfolding PanelCard_def by (simp add: place_simps in_place cong: place_congs)

lemma PanelsRegion_place [in_place]: "place Data (PanelsRegion uni dashboardID dashboardType panels csrfToken) = Some Data"
  unfolding PanelsRegion_def by (simp add: place_simps in_place cong: place_congs)

lemma viewSegment_place [in_place]: "place Data (viewSegment v view label) = Some Data"
  unfolding viewSegment_def by (simp add: place_simps in_place cong: place_congs)

lemma saveAsPanel_place [in_place]: "place Data (saveAsPanel v csrfToken) = Some Data"
  unfolding saveAsPanel_def by (simp add: place_simps in_place cong: place_congs)

text \<open>The reserved height of an editor is between its base and its maximum.\<close>

lemma sqlEditorReserve_bounds: "\<exists>h. 56 \<le> h \<and> h \<le> 128 \<and> sqlEditorReserve q = ''min-height: '' @ itoa h @ ''px; --cm-reserve: '' @ itoa h @ ''px''"
  by (rule exI [of _ "min (56 + (int (length (filter (\<lambda>c. c = CHR 0x0A) (TrimRightSet q [CHR 0x0A]))) + 1 - 1) * 20) 128"])
    (simp add: sqlEditorReserve_def editorReserve_def Let_def)

section \<open>As fragments\<close>

interpretation panel_fragment: fragment "PanelFragment e" for e
  by unfold_locales (auto intro: PanelFragment_place split: prod.split)

interpretation panel_card: fragment "\<lambda>p. PanelCard uni p token" for uni token
  by unfold_locales (auto intro: PanelCard_place split: prod.split)

interpretation panels_region: fragment "\<lambda>ps. PanelsRegion uni i ty ps token" for uni i ty token
  by unfold_locales (auto intro: PanelsRegion_place split: prod.split)

interpretation panel_edit: fragment "\<lambda>(p, err). PanelEditCard p ty err token" for ty token
  by unfold_locales (auto intro: PanelEditCard_place split: prod.split)

end
