(* ===== verification/War_Templates.thy ===== *)
theory War_Templates
  imports Panel_Templates War_Room
begin

text \<open>
  The panes of the war room, \<open>ui/templates/warroom.templ\<close> as generated into \<open>warroom_templ.go\<close>.
\<close>

section \<open>Labels\<close>

definition warError :: "(war_error \<Rightarrow> string) \<Rightarrow> WarMetricRow \<Rightarrow> string" where
  "warError warText row = (case wm_Err row of None \<Rightarrow> [] | Some e \<Rightarrow> warText e)"

definition oobAttr :: "bool \<Rightarrow> (string \<times> string) list" where
  "oobAttr oob = (if oob then [(''hx-swap-oob'', ''true'')] else [])"

definition warChartID :: "nat \<Rightarrow> string" where
  "warChartID i = ''war-chart-'' @ itoa (int i)"

section \<open>The components\<close>

definition warPreset :: "string \<Rightarrow> int \<Rightarrow> payload part list" where
  \<open>warPreset label spanMs =
    [Check, Lit ''<button type="button" class="join-item btn btn-sm" data-span-ms="'',
     Att (msString spanMs), Lit ''">'', Txt label, Lit ''</button>'']\<close>

definition warWindowLabel :: "WarRoomView \<Rightarrow> bool \<Rightarrow> payload part list" where
  \<open>warWindowLabel v oob =
    [Check, Lit ''<span id="war-window-label"'', Spread (oobAttr oob),
     Lit '' class="font-mono text-sm opacity-80 whitespace-nowrap" data-win-from="'',
     Att (msString (wv_FromMs v)), Lit ''" data-win-to="'', Att (msString (wv_ToMs v)), Lit ''"'',
     Lit ''>'', Txt (utcTime (wv_FromMs v)), Lit ('' '' @ [CHR 0xE2, CHR 0x86, CHR 0x92] @ '' ''),
     Txt (utcTime (wv_ToMs v)), Lit ''</span>'']\<close>

definition warWindowCard :: "WarRoomView \<Rightarrow> payload part list" where
  \<open>warWindowCard v =
    [Check,
     Lit (''<div class="card bg-base-100"><div class="card-body py-3"><div class="flex items-center gap-x-4 ''
          @ ''gap-y-2 flex-wrap"><h2 class="card-title text-base">War Room</h2>'')]
    @ warWindowLabel v False
    @ [Lit ''<input type="hidden" name="from" value="'', Att (msString (wv_FromMs v)),
       Lit ''"> <input type="hidden" name="to" value="'', Att (msString (wv_ToMs v)),
       Lit ''"><div class="join">'']
    @ warPreset ''15m'' ((15 * 60) * 1000)
    @ warPreset ''1h'' ((60 * 60) * 1000)
    @ warPreset ''6h'' (((6 * 60) * 60) * 1000)
    @ warPreset ''24h'' (((24 * 60) * 60) * 1000)
    @ [Lit (''</div><label class="flex items-center gap-1 cursor-pointer text-sm shrink-0" title="Pin the right ''
            @ ''edge to now; everything refreshes on its own"><input type="checkbox" id="war-follow" name="follow" ''
            @ ''value="1"'')]
    @ (if wv_Follow v then
          [Lit '' checked'']
        else [])
    @ [Lit ('' class="toggle toggle-sm toggle-success"> Follow now</label> <span class="text-sm opacity-60 ml-auto ''
            @ ''hidden lg:inline">drag any chart to zoom (Back undoes) '' @ [CHR 0xC2, CHR 0xB7]
            @ '' click pins a time line (Esc clears)</span></div></div></div>'')]\<close>

definition warMetricChart :: "(shape_error \<Rightarrow> string) \<Rightarrow> (war_error \<Rightarrow> string) \<Rightarrow> WarMetricRow \<Rightarrow> bool \<Rightarrow> payload part list" where
  \<open>warMetricChart errText warText row oob =
    [Check, Lit ''<div id="'', Att (warChartID (wm_Index row)), Lit ''"'', Spread (oobAttr oob),
     Lit ''>'']
    @ (if (warError warText row) \<noteq> [] then
          [Lit ''<p class="text-error text-sm break-words py-1">'', Txt (warError warText row), Lit ''</p>'']
        else if (sr_Kind (wm_Shaped row)) \<noteq> [] then
          Shaped errText (wm_Shaped row)
        else [])
    @ [Lit ''</div>'']\<close>

definition warMetricCard :: "(shape_error \<Rightarrow> string) \<Rightarrow> (war_error \<Rightarrow> string) \<Rightarrow> WarMetricRow \<Rightarrow> bool \<Rightarrow> payload part list" where
  \<open>warMetricCard errText warText row oob =
    [Check,
     Lit ''<div class="card bg-base-100"><div class="card-body py-3 gap-2" data-qq-scope><details'']
    @ (if ((wm_DSL row) = []) \<and> ((wm_Index row) = 0) then
          [Lit '' open'']
        else [])
    @ [Lit ''><summary class="cursor-pointer text-sm">'']
    @ (if (wm_DSL row) \<noteq> [] then
          [Lit ''<span class="font-mono">'', Txt (wm_DSL row),
           Lit (''</span> <span class="opacity-50">'' @ [CHR 0xC2, CHR 0xB7] @ '' edit</span>'')]
        else
          [Lit ''<span class="opacity-70">+ add a metric row</span>''])
    @ [Lit ''</summary><div class="flex flex-col gap-2 pt-2">'']
    @ QuickQueryBlock (wm_DSL row) False
    @ [Lit (''<span class="text-sm opacity-60">the page window replaces the query'' @ [CHR 0x27]
            @ ''s <code class="font-mono">last</code> clause</span><div><button type="submit" class="btn btn-primary ''
            @ ''btn-sm">Run</button></div></div></details>'')]
    @ warMetricChart errText warText row oob
    @ [Lit ''</div></div>'']\<close>

definition warMini :: "WarRoomView \<Rightarrow> bool \<Rightarrow> payload part list" where
  \<open>warMini v oob =
    [Check, Lit ''<div id="war-mini"'', Spread (oobAttr oob), Lit '' class="flex flex-col gap-1"'',
     Lit ''>'']
    @ (if wv_MiniChart v \<noteq> None then
          [Lit ''<div class="h-28 relative"><canvas data-chart="wmini"></canvas></div>'',
           Json ''chart-data-wmini'' (PChart (wv_MiniChart v)), Lit ''<span class="text-sm opacity-60">'',
           Txt (warMiniLabel v), Lit ''</span>'']
        else [])
    @ [Lit ''</div>'']\<close>

definition warStreamRow :: "LogRow \<Rightarrow> payload part list" where
  \<open>warStreamRow r =
    [Check,
     Lit (''<div class="stream-row flex items-baseline gap-2 px-1 py-0.5 rounded hover:bg-base-content/5 min-w-0 ''
          @ ''cursor-pointer" data-id="''),
     Att (rowID (lr_ID r)),
     Lit ''"><span class="font-mono text-sm opacity-70 whitespace-nowrap" data-ts="'',
     Att (msString (lr_Ts r)), Lit ''">'', Txt (utcTime (lr_Ts r)), Lit ''</span> '',
     Lit ''<span class="'', Classes [((levelClass (lr_Level r)) @ '' '') @ streamLevelWidth], Lit ''"'',
     Lit ''>'', Txt (levelName (lr_Level r)),
     Lit (''</span> <span class="badge badge-sm badge-outline font-mono shrink-0 w-28 min-w-0 justify-center">''
          @ ''<span class="truncate">''),
     Txt (lr_Service r), Lit ''</span></span> <span class="font-mono text-sm truncate min-w-0" title="'',
     Att (lr_Message r), Lit ''">'', Txt (lr_Message r), Lit ''</span></div>'']\<close>

definition warLogs :: "(view_error \<Rightarrow> string) \<Rightarrow> WarRoomView \<Rightarrow> bool \<Rightarrow> payload part list" where
  \<open>warLogs viewText v oob =
    [Check, Lit ''<div id="war-logs"'', Spread (oobAttr oob), Lit '' class="flex flex-col gap-1"'',
     Lit ''>'']
    @ (if (viewError viewText (wv_Logs v)) \<noteq> [] then
          [Lit ''<div role="alert" class="alert alert-error text-sm">'', Txt (viewError viewText (wv_Logs v)),
           Lit ''</div>'']
        else if lv_IsViewer (wv_Logs v) then
          [Lit ''<span class="text-sm opacity-70">'',
           Txt (rowsLabel (int (length (lv_Rows (wv_Logs v)))) (lv_Truncated (wv_Logs v))), Lit ''</span> '']
          @ (if (lv_Rows (wv_Logs v)) = [] then
                [Lit (''<p class="text-sm opacity-60 italic py-2">Nothing in this window at these levels. Widen the window, ''
                      @ ''or loosen the query.</p>'')]
              else
                [Lit (''<div class="stream-scroll overflow-y-auto overflow-x-hidden h-[45vh] border border-base-content/15 ''
                      @ ''rounded-box bg-base-100 flex flex-col p-1">'')]
                @ concat (map (\<lambda>r.
                      warStreamRow r) (lv_Rows (wv_Logs v)))
                @ [Lit ''</div>''])
        else
          [Lit ('' <div class="overflow-x-auto max-h-96 border border-base-content/15 rounded-box bg-base-100"><table ''
                @ ''class="table table-sm font-mono"><thead><tr>'')]
          @ concat (map (\<lambda>c.
                [Lit ''<th>'', Txt c, Lit ''</th>'']) (lv_Columns (wv_Logs v)))
          @ [Lit ''</tr></thead> <tbody>'']
          @ concat (map (\<lambda>row.
                [Lit ''<tr>'']
                @ concat (map (\<lambda>cell.
                      [Lit ''<td class="max-w-md truncate" title="'', Att cell, Lit ''">'', Txt cell, Lit ''</td>'']) row)
                @ [Lit ''</tr>'']) (lv_Cells (wv_Logs v)))
          @ (if (lv_Cells (wv_Logs v)) = [] then
                [Lit ''<tr><td colspan="99" class="text-center py-6 opacity-60 italic">Zero rows in this window.</td></tr>'']
              else [])
          @ [Lit ''</tbody></table></div>''])
    @ [Lit ''</div>'']\<close>

definition warLogsCard :: "(view_error \<Rightarrow> string) \<Rightarrow> WarRoomView \<Rightarrow> payload part list" where
  \<open>warLogsCard viewText v =
    [Check,
     Lit (''<div class="card bg-base-100"><div class="card-body py-3 gap-2"><h3 class="card-title text-base">''
          @ ''Logs in window</h3>'')]
    @ warMini v False
    @ [Lit ''<div class="flex gap-2 items-center">'']
    @ FTSSearchInput (lv_FTS (wv_Logs v))
    @ FTSOpToggle (lv_Op (wv_Logs v)) []
    @ [Lit (''</div><div class="flex flex-col gap-1"><span class="flex items-center justify-between"><span class="text-sm ''
            @ ''opacity-80">SQL over <code class="font-mono">logs</code> <span class="opacity-60">- the window'' @ [CHR 0x27]
            @ ''s <code class="font-mono">timestamp BETWEEN</code> is added on top; default keeps it to warnings ''
            @ ''and up</span></span> <span class="text-sm opacity-60 hidden sm:flex items-center gap-3"><button ''
            @ ''type="button" class="fmt-sql link link-primary" title="Format the SQL (Cmd/Ctrl+Shift+F)">format</button>''
            @ '' Cmd/Ctrl+Enter runs</span></span> <textarea name="q" class="hidden">''),
       Txt (lv_Q (wv_Logs v)),
       Lit (''</textarea><div class="sql-editor-host border-2 border-base-content/20 rounded-field bg-base-100 ''
            @ ''overflow-hidden transition-colors" style="''),
       Style (sqlEditorReserve (lv_Q (wv_Logs v))), Lit ''" data-placeholder="'', Att WarDefaultLogsQuery,
       Lit (''"></div></div><div class="flex items-center gap-2"><button type="submit" class="btn btn-primary ''
            @ ''btn-sm">Run</button> <a href="/war-room" class="btn btn-ghost btn-sm" title="Back to the default ''
            @ ''view: last hour, warnings and up">Reset</a></div>'')]
    @ warLogs viewText v False
    @ [Lit ''</div></div>'']\<close>

definition WarRoomPanes :: "(shape_error \<Rightarrow> string) \<Rightarrow> (war_error \<Rightarrow> string) \<Rightarrow> (view_error \<Rightarrow> string) \<Rightarrow> WarRoomView \<Rightarrow> payload part list" where
  \<open>WarRoomPanes errText warText viewText v =
    [Check]
    @ warWindowLabel v True
    @ concat (map (\<lambda>row.
          warMetricChart errText warText row True) (wv_Metrics v))
    @ warMini v True
    @ warLogs viewText v True\<close>

section \<open>Every value in its place\<close>

lemma warPreset_place [in_place]: "place Data (warPreset label spanMs) = Some Data"
  unfolding warPreset_def by (simp add: place_simps in_place cong: place_congs)

lemma warWindowLabel_place [in_place]: "place Data (warWindowLabel v oob) = Some Data"
  unfolding warWindowLabel_def by (simp add: place_simps in_place cong: place_congs)

lemma warWindowCard_place [in_place]: "place Data (warWindowCard v) = Some Data"
  unfolding warWindowCard_def by (simp add: place_simps in_place cong: place_congs)

lemma warMetricChart_place [in_place]: "place Data (warMetricChart errText warText row oob) = Some Data"
  unfolding warMetricChart_def by (simp add: place_simps in_place cong: place_congs)

lemma warMetricCard_place [in_place]: "place Data (warMetricCard errText warText row oob) = Some Data"
  unfolding warMetricCard_def by (simp add: place_simps in_place cong: place_congs)

lemma warMini_place [in_place]: "place Data (warMini v oob) = Some Data"
  unfolding warMini_def by (simp add: place_simps in_place cong: place_congs)

lemma warStreamRow_place [in_place]: "place Data (warStreamRow r) = Some Data"
  unfolding warStreamRow_def by (simp add: place_simps in_place cong: place_congs)

lemma warLogs_place [in_place]: "place Data (warLogs viewText v oob) = Some Data"
  unfolding warLogs_def by (simp add: place_simps in_place cong: place_congs)

lemma warLogsCard_place [in_place]: "place Data (warLogsCard viewText v) = Some Data"
  unfolding warLogsCard_def by (simp add: place_simps in_place cong: place_congs)

lemma WarRoomPanes_place [in_place]: "place Data (WarRoomPanes errText warText viewText v) = Some Data"
  unfolding WarRoomPanes_def by (simp add: place_simps in_place cong: place_congs)

section \<open>As fragments\<close>

interpretation war_panes: fragment "WarRoomPanes e w t" for e w t
  by unfold_locales (auto intro: WarRoomPanes_place split: prod.split)

end
