(* ===== verification/Alert_Templates.thy ===== *)
theory Alert_Templates
  imports Panel_Templates Alert_Pages
begin

text \<open>
  The list of alerts, the alert form and the result of a dry run, \<open>ui/templates/alerts.templ\<close> as
  generated into \<open>alerts_templ.go\<close>. \<open>alertText\<close> gives the wording of a message, \<open>uni\<close> what \<open>%q\<close>
  makes of the characters outside of ASCII.
\<close>

section \<open>Labels\<close>

definition alertError :: "(alert_message \<Rightarrow> string) \<Rightarrow> alert_message \<Rightarrow> string" where
  "alertError alertText m = (if m = MNone then [] else alertText m)"

definition withoutErr :: "AlertsView \<Rightarrow> AlertsView" where
  "withoutErr v = v\<lparr>av_ErrMsg := MNone\<rparr>"

definition humanMs :: "int \<Rightarrow> string" where
  "humanMs ms =
     (if ms mod 3600000 = 0 then itoa (go_div ms 3600000) @ ''h''
      else if ms mod 60000 = 0 then itoa (go_div ms 60000) @ ''m''
      else itoa (go_div ms 1000) @ ''s'')"

definition roomIDValue :: "notify_env \<Rightarrow> string \<Rightarrow> string" where
  "roomIDValue N raw = (let i = tg_RoomID (targetOf N raw) in if i > 0 then itoa i else [])"

definition defaultTarget :: "bool \<Rightarrow> bool \<Rightarrow> string" where
  \<open>defaultTarget po cf =
     (if \<not> po \<and> cf then ''{"type":"campfire"}'' else if po then ''{"type":"pushover"}'' else [])\<close>

definition channelLabel :: "string \<Rightarrow> bool \<Rightarrow> string" where
  "channelLabel name configured = (if configured then name else name @ '' (not configured)'')"

definition middot :: string where "middot = '' '' @ [CHR 0xC2, CHR 0xB7] @ '' ''"

definition targetSummary :: "notify_env \<Rightarrow> string \<Rightarrow> string" where
  "targetSummary N raw =
     (case ParseTarget N raw of
        Inl _ \<Rightarrow> ''invalid''
      | Inr t \<Rightarrow>
          if tg_Type t = ''campfire'' then ''campfire'' @ middot @ ''room '' @ itoa (tg_RoomID t)
          else ''pushover'' @ (if tg_Device t \<noteq> [] then middot @ tg_Device t else [])
            @ (if tg_Priority t \<noteq> 0 then middot @ ''p'' @ (if tg_Priority t > 0 then ''+'' else []) @ itoa (tg_Priority t) else []))"

text \<open>The alert that the create form starts from.\<close>

definition newAlert :: "string \<Rightarrow> Alert" where
  "newAlert target = \<lparr>al_Name = [], al_Query = [], al_CheckIntervalMs = 60000, al_CooldownMs = 900000, al_Target = target, al_Enabled = True,
     al_LastCheckedAt = None, al_LastFiredAt = None, al_CurrentlyFiring = False, al_LastError = None, al_LastErrorAt = None, al_CreatedAt = 0\<rparr>"

section \<open>The components\<close>

definition alertStatus :: "int \<times> Alert \<Rightarrow> 'j part list" where
  \<open>alertStatus a =
    [Check]
    @ (if \<not> (al_Enabled (snd a)) then
          [Lit ''<span class="badge badge-sm badge-soft">disabled</span> '']
        else if al_CurrentlyFiring (snd a) then
          [Lit ''<span class="badge badge-sm badge-error font-semibold">FIRING</span> '']
        else
          [Lit ''<span class="badge badge-sm badge-soft badge-success">quiet</span> ''])
    @ (if (al_LastError (snd a)) \<noteq> None then
          [Lit ''<div class="text-sm text-error max-w-40 truncate" title="'', Att (the (al_LastError (snd a))),
           Lit ''">'', Txt (the (al_LastError (snd a))), Lit ''</div>'']
        else [])
    @ (if (al_LastCheckedAt (snd a)) \<noteq> None then
          [Lit ''<div class="text-sm opacity-60" data-reltime="'',
           Att (msString (the (al_LastCheckedAt (snd a)))), Lit ''">'',
           Txt (utcTime (the (al_LastCheckedAt (snd a)))), Lit ''</div>'']
        else [])\<close>

definition alertRow :: "notify_env \<Rightarrow> (string \<Rightarrow> string) \<Rightarrow> int \<times> Alert \<Rightarrow> 'j part list" where
  \<open>alertRow N uni a =
    [Check, Lit ''<tr><td><div class="font-semibold">'', Txt (al_Name (snd a)),
     Lit ''</div><div class="font-mono text-sm opacity-60 max-w-md truncate" title="'',
     Att (al_Query (snd a)), Lit ''">'', Txt (al_Query (snd a)),
     Lit ''</div></td><td class="text-center whitespace-nowrap text-sm">'',
     Txt (humanMs (al_CheckIntervalMs (snd a))),
     Lit ''</td><td class="text-center"><span class="badge badge-sm badge-outline font-mono">'',
     Txt (targetSummary N (al_Target (snd a))), Lit ''</span></td><td class="text-center">'']
    @ alertStatus a
    @ [Lit ''</td><td class="text-right whitespace-nowrap"><button class="btn btn-ghost btn-sm" hx-post="'',
       Att (''/alerts/'' @ itoa (fst a) @ ''/test''),
       Lit ''" hx-target="#dry-run" hx-swap="innerHTML">Test</button> <button class="btn btn-ghost btn-sm" hx-get="'',
       Att (''/alerts/'' @ itoa (fst a) @ ''/edit''),
       Lit (''" hx-target="closest tr" hx-swap="outerHTML">Edit</button> <button class="btn btn-ghost btn-sm ''
            @ ''text-error" hx-delete="''),
       Att (''/alerts/'' @ itoa (fst a)),
       Lit ''" hx-target="#alerts-region" hx-swap="outerHTML" hx-confirm="'',
       Att (''Delete alert '' @ Quote uni (al_Name (snd a)) @ ''?''), Lit ''">Delete</button></td></tr>'']\<close>

definition AlertsRegion :: "notify_env \<Rightarrow> (string \<Rightarrow> string) \<Rightarrow> (alert_message \<Rightarrow> string) \<Rightarrow> AlertsView \<Rightarrow> 'j part list" where
  \<open>AlertsRegion N uni alertText v =
    [Check, Lit ''<div id="alerts-region" class="flex flex-col gap-3">'']
    @ (if (alertError alertText (av_ErrMsg v)) \<noteq> [] then
          [Lit ''<div role="alert" class="alert alert-error text-sm">'',
           Txt (alertError alertText (av_ErrMsg v)), Lit ''</div>'']
        else [])
    @ [Lit ''<div id="dry-run"></div>'']
    @ (if (av_Alerts v) = [] then
          [Lit (''<p class="text-sm opacity-60 italic">No alerts yet. Define one above - a query that returns rows ''
                @ ''is a firing alert.</p>'')]
        else
          [Lit (''<div class="overflow-x-auto border border-base-content/15 rounded-box bg-base-100"><table class="table">''
                @ ''<thead><tr class="text-sm text-center"><th class="text-left">alert</th><th>every</th><th>target</th>''
                @ ''<th>status</th><th></th></tr></thead> <tbody>'')]
          @ concat (map (\<lambda>a.
                alertRow N uni a) (av_Alerts v))
          @ [Lit ''</tbody></table></div>''])
    @ [Lit ''</div>'']\<close>

definition alertFormFields :: "notify_env \<Rightarrow> int \<times> Alert \<Rightarrow> bool \<Rightarrow> bool \<Rightarrow> bool \<Rightarrow> string \<Rightarrow> 'j part list" where
  \<open>alertFormFields N a poConfigured cfConfigured warAvailable csrfToken =
    [Check, Lit ''<input type="hidden" name="csrf_token" value="'', Att csrfToken,
     Lit (''"><div class="grid gap-3 md:grid-cols-3"><label class="flex flex-col gap-1"><span class="text-sm ''
          @ ''opacity-80">Name</span> <input type="text" name="name" value="''),
     Att (al_Name (snd a)),
     Lit (''" class="input input-bordered input-sm" maxlength="100" required></label> <label class="flex flex-col ''
          @ ''gap-1"><span class="text-sm opacity-80">Check every (seconds, min 30)</span> <input type="number" ''
          @ ''name="interval_s" value="''),
     Att (itoa (go_div (al_CheckIntervalMs (snd a)) 1000)),
     Lit (''" min="30" class="input input-bordered input-sm" required></label> <label class="flex flex-col ''
          @ ''gap-1"><span class="text-sm opacity-80">Cooldown between notifications (minutes)</span> <input ''
          @ ''type="number" name="cooldown_m" value="''),
     Att (itoa (go_div (al_CooldownMs (snd a)) 60000)),
     Lit (''" min="0" class="input input-bordered input-sm" required></label></div><div class="flex flex-col ''
          @ ''gap-1"><span class="flex items-center justify-between"><span class="text-sm opacity-80">Query (fires ''
          @ ''when it returns rows)</span> <button type="button" class="open-by-signal link link-primary text-sm" ''
          @ ''title="Run this query on the logs page or the metrics explorer, whichever table it reads (new tab)">''
          @ ''open in logs / explorer '' @ [CHR 0xE2, CHR 0x86, CHR 0x97]
          @ ''</button></span> <textarea name="query" class="hidden">''),
     Txt (al_Query (snd a)),
     Lit (''</textarea><div class="sql-editor-host border-2 border-base-content/20 rounded-field bg-base-100 ''
          @ ''overflow-hidden transition-colors" style="''),
     Style (sqlEditorReserve (al_Query (snd a))), Lit ''"></div></div>'']
    @ (if (\<not> poConfigured) \<and> (\<not> cfConfigured) \<and> ((targetTypeOf N (al_Target (snd a))) = []) then
          [Lit (''<div role="alert" class="alert text-sm">No notification channel configured yet. <a href="/settings" ''
                @ ''class="link link-primary">Set up Pushover or Campfire in Settings</a> first.</div>'')]
        else [])
    @ [Lit (''<div class="grid gap-3 md:grid-cols-3 items-start"><label class="flex flex-col gap-1"><span class="text-sm ''
            @ ''opacity-80">Notify via</span> '')]
    @ (if (\<not> poConfigured) \<and> (\<not> cfConfigured) \<and> ((targetTypeOf N (al_Target (snd a))) = []) then
          [Lit ('' <select name="target_type" class="select select-bordered select-sm" disabled><option value="">''
                @ ''no channels configured yet</option></select>'')]
        else
          [Lit ''<select name="target_type" class="select select-bordered select-sm">'']
          @ (if poConfigured \<or> ((targetTypeOf N (al_Target (snd a))) = ''pushover'') then
                [Lit ''<option value="pushover"'']
                @ (if (targetTypeOf N (al_Target (snd a))) = ''pushover'' then
                      [Lit '' selected'']
                    else [])
                @ [Lit ''>'', Txt (channelLabel ''Pushover'' poConfigured), Lit ''</option> '']
              else [])
          @ (if cfConfigured \<or> ((targetTypeOf N (al_Target (snd a))) = ''campfire'') then
                [Lit ''<option value="campfire"'']
                @ (if (targetTypeOf N (al_Target (snd a))) = ''campfire'' then
                      [Lit '' selected'']
                    else [])
                @ [Lit ''>'', Txt (channelLabel ''Campfire'' cfConfigured), Lit ''</option>'']
              else [])
          @ [Lit ''</select>''])
    @ [Lit ''</label>'', Lit ''<div class="'',
       Classes ([''target-campfire''] @ (if (targetTypeOf N (al_Target (snd a))) \<noteq> ''campfire'' then [''hidden''] else [])),
       Lit ''"'',
       Lit (''><label class="flex flex-col gap-1"><span class="text-sm opacity-80">Room id</span> <input type="number" ''
            @ ''name="cf_room_id" value="''),
       Att (roomIDValue N (al_Target (snd a))),
       Lit ''" class="input input-bordered input-sm w-32"></label></div>'', Lit ''<div class="'',
       Classes ([''target-pushover md:col-span-2 grid grid-cols-3 gap-2''] @ (if (targetTypeOf N (al_Target (snd a))) \<noteq> ''pushover'' then [''hidden''] else [])),
       Lit ''"'',
       Lit (''><label class="flex flex-col gap-1"><span class="text-sm opacity-80">Device (optional)</span> <input ''
            @ ''type="text" name="po_device" value="''),
       Att (tg_Device (targetOf N (al_Target (snd a)))),
       Lit (''" class="input input-bordered input-sm"></label> <label class="flex flex-col gap-1"><span class="text-sm ''
            @ ''opacity-80">Priority (-2..2)</span> <input type="number" name="po_priority" value="''),
       Att (itoa (tg_Priority (targetOf N (al_Target (snd a))))),
       Lit (''" min="-2" max="2" class="input input-bordered input-sm"></label> <label class="flex flex-col gap-1">''
            @ ''<span class="text-sm opacity-80">Sound (optional)</span> <input type="text" name="po_sound" value="''),
       Att (tg_Sound (targetOf N (al_Target (snd a)))),
       Lit (''" class="input input-bordered input-sm"></label></div></div><div class="flex items-center gap-6 ''
            @ ''flex-wrap"><label class="flex items-center gap-2 cursor-pointer text-sm"><input type="checkbox" ''
            @ ''name="enabled"'')]
    @ (if al_Enabled (snd a) then
          [Lit '' checked'']
        else [])
    @ [Lit ('' class="toggle toggle-sm toggle-success"> Enabled</label> <label class="flex items-center gap-2 ''
            @ ''cursor-pointer text-sm"><input type="checkbox" name="war_room"'')]
    @ (if tg_WarRoom (targetOf N (al_Target (snd a))) then
          [Lit '' checked'']
        else [])
    @ [Lit '' class="toggle toggle-sm"> Include a War Room link in notifications '']
    @ (if \<not> warAvailable then
          [Lit ''<span class="opacity-60">(needs POOML_PUBLIC_URL set to work)</span>'']
        else [])
    @ [Lit ''</label></div>'']\<close>

definition alertForm :: "notify_env \<Rightarrow> string \<Rightarrow> string \<Rightarrow> int \<times> Alert \<Rightarrow> bool \<Rightarrow> bool \<Rightarrow> bool \<Rightarrow> string \<Rightarrow> 'j part list" where
  \<open>alertForm N method action a poConfigured cfConfigured warAvailable csrfToken =
    [Check]
    @ (if method = ''POST'' then
          [Lit ''<form method="post" action="'', Href action, Lit ''" class="flex flex-col gap-3">'']
          @ alertFormFields N a poConfigured cfConfigured warAvailable csrfToken
          @ [Lit ''<div><button type="submit" class="btn btn-primary btn-sm">Create alert</button></div></form>'']
        else
          [Lit ''<form hx-put="'', Att action,
           Lit ''" hx-target="#alerts-region" hx-swap="outerHTML" class="flex flex-col gap-3">'']
          @ alertFormFields N a poConfigured cfConfigured warAvailable csrfToken
          @ [Lit (''<div class="flex gap-2"><button type="submit" class="btn btn-primary btn-sm">Save</button> <button ''
                  @ ''type="button" class="btn btn-ghost btn-sm" hx-get="/alerts" hx-target="#alerts-region" hx-swap="outerHTML">''
                  @ ''Cancel</button></div></form>'')])\<close>

definition alertCreateCard :: "notify_env \<Rightarrow> (alert_message \<Rightarrow> string) \<Rightarrow> AlertsView \<Rightarrow> string \<Rightarrow> 'j part list" where
  \<open>alertCreateCard N alertText v csrfToken =
    [Check,
     Lit (''<div class="card bg-base-100"><div class="card-body py-4"><h3 class="card-title">New alert</h3>''
          @ ''<p class="text-sm opacity-60 -mt-1">If the query returns rows, the alert fires. Level-triggered, ''
          @ ''with a cooldown between notifications.</p>'')]
    @ (if (alertError alertText (av_ErrMsg v)) \<noteq> [] then
          [Lit ''<div role="alert" class="alert alert-error text-sm">'',
           Txt (alertError alertText (av_ErrMsg v)), Lit ''</div>'']
        else [])
    @ alertForm N ''POST'' ''/alerts'' (0, newAlert (defaultTarget (av_PushoverConfigured v) (av_CampfireConfigured v))) (av_PushoverConfigured v)
        (av_CampfireConfigured v) (av_WarRoomAvailable v) csrfToken
    @ [Lit ''</div></div>'']\<close>

definition AlertEditRow :: "notify_env \<Rightarrow> int \<times> Alert \<Rightarrow> bool \<Rightarrow> bool \<Rightarrow> bool \<Rightarrow> string \<Rightarrow> 'j part list" where
  \<open>AlertEditRow N a poConfigured cfConfigured warAvailable csrfToken =
    [Check, Lit ''<tr><td colspan="5" class="bg-base-200/50 p-3">'']
    @ alertForm N ''PUT'' (''/alerts/'' @ itoa (fst a)) a poConfigured cfConfigured warAvailable csrfToken
    @ [Lit ''</td></tr>'']\<close>

definition DryRunResult :: "string \<Rightarrow> string list \<Rightarrow> string list list \<Rightarrow> string \<Rightarrow> 'j part list" where
  \<open>DryRunResult name columns cells errMsg =
    [Check, Lit ''<div class="alert text-sm flex flex-col items-start gap-1">'']
    @ (if errMsg \<noteq> [] then
          [Lit ''<span class="text-error">Dry run of '', Txt name, Lit '' failed: '', Txt errMsg,
           Lit ''</span>'']
        else if cells = [] then
          [Lit ''<span><b>'', Txt name, Lit ''</b>: 0 rows - would not fire. All quiet.</span>'']
        else
          [Lit ''<span><b>'', Txt name, Lit ''</b>: '', Txt (itoa (int (length cells))),
           Lit ('' row(s) - this WOULD fire (no notification sent).</span><div class="overflow-x-auto w-full max-h-48">''
                @ ''<table class="table table-sm font-mono"><thead><tr>'')]
          @ concat (map (\<lambda>c.
                [Lit ''<th>'', Txt c, Lit ''</th>'']) columns)
          @ [Lit ''</tr></thead> <tbody>'']
          @ concat (map (\<lambda>row.
                [Lit ''<tr>'']
                @ concat (map (\<lambda>cell.
                      [Lit ''<td class="max-w-60 truncate" title="'', Att cell, Lit ''">'', Txt cell, Lit ''</td>'']) row)
                @ [Lit ''</tr>'']) cells)
          @ [Lit ''</tbody></table></div>''])
    @ [Lit ''</div>'']\<close>

section \<open>Every value in its place\<close>

lemma alertStatus_place [in_place]: "place Data (alertStatus a) = Some Data"
  unfolding alertStatus_def by (simp add: place_simps in_place cong: place_congs)

lemma alertRow_place [in_place]: "place Data (alertRow N uni a) = Some Data"
  unfolding alertRow_def by (simp add: place_simps in_place cong: place_congs)

lemma AlertsRegion_place [in_place]: "place Data (AlertsRegion N uni alertText v) = Some Data"
  unfolding AlertsRegion_def by (simp add: place_simps in_place cong: place_congs)

lemma alertFormFields_place [in_place]: "place Data (alertFormFields N a poConfigured cfConfigured warAvailable csrfToken) = Some Data"
  unfolding alertFormFields_def by (simp add: place_simps in_place cong: place_congs)

lemma alertForm_place [in_place]: "place Data (alertForm N method action a poConfigured cfConfigured warAvailable csrfToken) = Some Data"
  unfolding alertForm_def by (simp add: place_simps in_place cong: place_congs)

lemma alertCreateCard_place [in_place]: "place Data (alertCreateCard N alertText v csrfToken) = Some Data"
  unfolding alertCreateCard_def by (simp add: place_simps in_place cong: place_congs)

lemma AlertEditRow_place [in_place]: "place Data (AlertEditRow N a poConfigured cfConfigured warAvailable csrfToken) = Some Data"
  unfolding AlertEditRow_def by (simp add: place_simps in_place cong: place_congs)

lemma DryRunResult_place [in_place]: "place Data (DryRunResult name columns cells errMsg) = Some Data"
  unfolding DryRunResult_def by (simp add: place_simps in_place cong: place_congs)

section \<open>As fragments\<close>

interpretation alerts_region: fragment "AlertsRegion N uni t" for N uni t
  by unfold_locales (auto intro: AlertsRegion_place split: prod.split)

interpretation alert_edit: fragment "\<lambda>a. AlertEditRow N a po cf war token" for N po cf war token
  by unfold_locales (auto intro: AlertEditRow_place split: prod.split)

interpretation dry_run: fragment "\<lambda>(name, cols, cells, err). DryRunResult name cols cells err"
  by unfold_locales (auto intro: DryRunResult_place split: prod.split)

end
