(* ===== verification/Settings_Templates.thy ===== *)
theory Settings_Templates
  imports Alert_Templates Settings_Pages
begin

text \<open>
  The sections of the settings page, \<open>ui/templates/settings.templ\<close> as generated into \<open>settings_templ.go\<close>.
\<close>

section \<open>Labels\<close>

record ApiKey =
  ak_ID :: int
  ak_Label :: string
  ak_CreatedAt :: int

definition csrfHeader :: "(string \<Rightarrow> string) \<Rightarrow> string \<Rightarrow> string" where
  \<open>csrfHeader uni token = ''{"X-CSRF-Token": '' @ Quote uni token @ ''}''\<close>

definition secretPlaceholder :: "bool \<Rightarrow> string" where
  "secretPlaceholder configured = (if configured then ''configured - enter to replace'' else [])"

definition formatMs :: "int \<Rightarrow> string" where
  "formatMs ms = utcMinute ms @ '' UTC''"

section \<open>The components\<close>

definition configuredBadge :: "bool \<Rightarrow> 'j part list" where
  \<open>configuredBadge ok =
    [Check]
    @ (if ok then
          [Lit ''<span class="badge badge-sm badge-soft badge-success">configured</span>'']
        else
          [Lit ''<span class="badge badge-sm badge-soft">not configured</span>''])\<close>

definition ChannelTestResult :: "string \<Rightarrow> 'j part list" where
  \<open>ChannelTestResult errMsg =
    [Check]
    @ (if errMsg = [] then
          [Lit ''<span class="text-success text-sm">Sent. Check the other end.</span>'']
        else
          [Lit ''<span class="text-error text-sm">'', Txt errMsg, Lit ''</span>''])\<close>

definition PushoverSection :: "bool \<Rightarrow> string \<Rightarrow> 'j part list" where
  \<open>PushoverSection configured csrfToken =
    [Check,
     Lit ''<section class="card bg-base-100"><div class="card-body py-4 gap-3"><h2 class="card-title">Pushover'']
    @ configuredBadge configured
    @ [Lit (''</h2><p class="text-sm opacity-60 -mt-2"><a href="https://pushover.net" target="_blank" rel="noopener" ''
            @ ''class="link link-primary">Pushover</a> is a simple push-notification app for your phone: one-time ''
            @ ''purchase, no subscription, made for exactly this kind of alerting. Credentials are encrypted at ''
            @ ''rest; blank fields keep current values.</p><form method="post" action="/settings/pushover" class="flex ''
            @ ''gap-3 items-end flex-wrap"><input type="hidden" name="csrf_token" value="''),
       Att csrfToken,
       Lit (''"> <label class="flex flex-col gap-1"><span class="text-sm opacity-80">App token</span> <input ''
            @ ''type="password" name="app_token" placeholder="''),
       Att (secretPlaceholder configured),
       Lit (''" class="input input-bordered input-sm"></label> <label class="flex flex-col gap-1"><span class="text-sm ''
            @ ''opacity-80">User key</span> <input type="password" name="user_key" placeholder="''),
       Att (secretPlaceholder configured),
       Lit (''" class="input input-bordered input-sm"></label> <button type="submit" class="btn btn-primary btn-sm">''
            @ ''Save</button></form><div class="flex gap-3 items-center border-t border-base-content/10 pt-3"><button ''
            @ ''type="button" class="btn btn-ghost btn-sm" hx-post="/settings/pushover/test" hx-target="#pushover-test-result" ''
            @ ''hx-swap="innerHTML">Send test</button> <span id="pushover-test-result"></span></div></div></section>'')]\<close>

definition CampfireSection :: "string \<Rightarrow> bool \<Rightarrow> string \<Rightarrow> 'j part list" where
  \<open>CampfireSection baseURL keySet csrfToken =
    [Check,
     Lit ''<section class="card bg-base-100"><div class="card-body py-4 gap-3"><h2 class="card-title">Campfire'']
    @ configuredBadge ((baseURL \<noteq> []) \<and> keySet)
    @ [Lit (''</h2><p class="text-sm opacity-60 -mt-2"><a href="https://once.com/campfire" target="_blank" rel="noopener" ''
            @ ''class="link link-primary">Once Campfire</a> is 37signals'' @ [CHR 0x27]
            @ '' self-hosted chat: buy once, run it on your own box - a natural fit next to pooml. Alerts post ''
            @ ''to a room via a bot. The bot key is encrypted at rest.</p><form method="post" action="/settings/campfire" ''
            @ ''class="flex gap-3 items-end flex-wrap"><input type="hidden" name="csrf_token" value="''),
       Att csrfToken,
       Lit (''"> <label class="flex flex-col gap-1 flex-1 min-w-48"><span class="text-sm opacity-80">Base URL</span>''
            @ '' <input type="url" name="base_url" value="''),
       Att baseURL,
       Lit (''" placeholder="https://chat.example.com" class="input input-bordered input-sm w-full"></label> ''
            @ ''<label class="flex flex-col gap-1"><span class="text-sm opacity-80">Bot key</span> <input type="password" ''
            @ ''name="bot_key" placeholder="''),
       Att (secretPlaceholder keySet),
       Lit (''" class="input input-bordered input-sm"></label> <button type="submit" class="btn btn-primary btn-sm">''
            @ ''Save</button></form><form class="flex gap-3 items-end border-t border-base-content/10 pt-3" hx-post="/settings/campfire/''
            @ ''test" hx-target="#campfire-test-result" hx-swap="innerHTML"><input type="hidden" name="csrf_token" ''
            @ ''value="''),
       Att csrfToken,
       Lit (''"> <label class="flex flex-col gap-1"><span class="text-sm opacity-80">Test room id</span> <input ''
            @ ''type="number" name="room_id" class="input input-bordered input-sm w-28"></label> <button type="submit" ''
            @ ''class="btn btn-ghost btn-sm">Send test</button> <span id="campfire-test-result" class="self-center">''
            @ ''</span></form></div></section>'')]\<close>

definition ApiKeysSection :: "(string \<Rightarrow> string) \<Rightarrow> ApiKey list \<Rightarrow> string \<Rightarrow> string \<Rightarrow> string \<Rightarrow> 'j part list" where
  \<open>ApiKeysSection uni keys newKey errMsg csrfToken =
    [Check,
     Lit (''<section id="api-keys" class="card bg-base-100"><div class="card-body"><h2 class="card-title">API ''
          @ ''keys</h2><p class="text-sm opacity-60">One key per sender (a FluentBit instance, an app pushing ''
          @ ''logs or OTLP metrics). Any key works for every <code class="font-mono">/api/v1/*</code> endpoint, ''
          @ ''sent as the <code class="font-mono">X-API-Key</code> header - separate keys are for tidy revocation, ''
          @ ''not scoping.</p>'')]
    @ (if errMsg \<noteq> [] then
          [Lit ''<div role="alert" class="alert alert-error text-sm">'', Txt errMsg, Lit ''</div>'']
        else [])
    @ (if newKey \<noteq> [] then
          [Lit (''<div role="alert" class="alert alert-success flex flex-col items-start gap-1"><span class="font-semibold">''
                @ ''Here'' @ [CHR 0x27] @ ''s your new key. Copy it now - it won'' @ [CHR 0x27]
                @ ''t be shown again.</span> <code class="font-mono text-sm break-all select-all">''),
           Txt newKey, Lit ''</code></div>'']
        else [])
    @ (if (keys = []) \<and> (newKey = []) then
          [Lit ''<p class="text-sm opacity-60 italic">No keys yet. Mint one below and give it to FluentBit.</p>'']
        else [])
    @ (if keys \<noteq> [] then
          [Lit ''<table class="table table-sm"><thead><tr><th>Label</th><th>Created</th><th></th></tr></thead> <tbody>'']
          @ concat (map (\<lambda>k.
                [Lit ''<tr><td>'', Txt (ak_Label k), Lit ''</td><td class="opacity-60">'',
                 Txt (formatMs (ak_CreatedAt k)),
                 Lit ''</td><td class="text-right"><button class="btn btn-ghost btn-sm text-error" hx-delete="'',
                 Att (''/settings/api-keys/'' @ itoa (ak_ID k)),
                 Lit ''" hx-target="#api-keys" hx-swap="outerHTML" hx-confirm="'',
                 Att (''Revoke '' @ Quote uni (ak_Label k) @ ''? Anything still using it stops ingesting immediately.''),
                 Lit ''">Revoke</button></td></tr>'']) keys)
          @ [Lit ''</tbody></table>'']
        else [])
    @ [Lit (''<form method="post" action="/settings/api-keys" class="flex gap-2 items-end mt-2"><input type="hidden" ''
            @ ''name="csrf_token" value="''),
       Att csrfToken,
       Lit (''"> <label class="flex flex-col gap-1 flex-1"><span class="text-sm opacity-80">Label</span> <input ''
            @ ''type="text" name="label" placeholder="fluentbit-prod" class="input input-bordered input-sm w-full" ''
            @ ''maxlength="100" required></label> <button type="submit" class="btn btn-primary btn-sm">Mint key</button>''
            @ ''</form></div></section>'')]\<close>

definition scrapeTargetStatus :: "int \<times> ScrapeTarget \<Rightarrow> 'j part list" where
  \<open>scrapeTargetStatus t =
    [Check]
    @ (if \<not> (sc_Enabled (snd t)) then
          [Lit ''<span class="badge badge-sm badge-soft">paused</span> '']
        else if (sc_LastError (snd t)) \<noteq> None then
          [Lit ''<span class="badge badge-sm badge-soft badge-error" title="'',
           Att (the (sc_LastError (snd t))),
           Lit ''">error</span><div class="text-sm text-error max-w-48 truncate" title="'',
           Att (the (sc_LastError (snd t))), Lit ''">'', Txt (the (sc_LastError (snd t))), Lit ''</div>'']
        else if (sc_LastScrapedAt (snd t)) \<noteq> None then
          [Lit ''<span class="badge badge-sm badge-soft badge-success">ok</span> '']
        else
          [Lit ''<span class="badge badge-sm badge-soft">waiting</span> ''])
    @ (if (sc_LastScrapedAt (snd t)) \<noteq> None then
          [Lit ''<div class="text-sm opacity-60" data-reltime="'',
           Att (msString (the (sc_LastScrapedAt (snd t)))), Lit ''">'',
           Txt (utcTime (the (sc_LastScrapedAt (snd t)))), Lit ''</div>'']
        else [])\<close>

definition ScrapeTargetsSection :: "(string \<Rightarrow> string) \<Rightarrow> (int \<times> ScrapeTarget) list \<Rightarrow> string \<Rightarrow> string \<Rightarrow> 'j part list" where
  \<open>ScrapeTargetsSection uni targets errMsg csrfToken =
    [Check,
     Lit (''<section id="scrape-targets" class="card bg-base-100"><div class="card-body py-4 gap-3"><h2 class="card-title">''
          @ ''Scrape targets</h2><p class="text-sm opacity-60 -mt-2">Prometheus-format <code class="font-mono">''
          @ ''/metrics</code> endpoints pooml pulls on a schedule. Every scraped value is stamped with the service ''
          @ ''and host you set here. Prefer push? Point an OTLP/HTTP exporter at <code class="font-mono">/api/v1/otlp/v1/metrics</code''
          @ ''> instead.</p>'')]
    @ (if errMsg \<noteq> [] then
          [Lit ''<div role="alert" class="alert alert-error text-sm">'', Txt errMsg, Lit ''</div>'']
        else [])
    @ (if targets = [] then
          [Lit ''<p class="text-sm opacity-60 italic">No targets yet. Add your first exporter below.</p>'']
        else
          [Lit (''<div class="overflow-x-auto"><table class="table table-sm"><thead><tr><th>Service</th><th>URL</th>''
                @ ''<th>Every</th><th>Status</th><th></th></tr></thead> <tbody>'')]
          @ concat (map (\<lambda>t.
                [Lit ''<tr class="'', Classes (if \<not> (sc_Enabled (snd t)) then [''opacity-50''] else []),
                 Lit ''"'', Lit ''><td class="font-mono">'', Txt (sc_Service (snd t)),
                 Lit ''</td><td class="font-mono text-sm max-w-60 truncate" title="'', Att (sc_URL (snd t)),
                 Lit ''">'', Txt (sc_URL (snd t)), Lit ''</td><td class="whitespace-nowrap">'',
                 Txt (humanMs (sc_IntervalMs (snd t))), Lit ''</td><td>'']
                @ scrapeTargetStatus t
                @ [Lit ''</td><td class="text-right whitespace-nowrap"><button class="btn btn-ghost btn-sm" hx-post="'',
                   Att (''/settings/scrape-targets/'' @ itoa (fst t) @ ''/toggle''),
                   Lit ''" hx-target="#scrape-targets" hx-swap="outerHTML">'']
                @ (if sc_Enabled (snd t) then
                      [Lit ''Pause'']
                    else
                      [Lit ''Resume''])
                @ [Lit ''</button> <button class="btn btn-ghost btn-sm text-error" hx-delete="'',
                   Att (''/settings/scrape-targets/'' @ itoa (fst t)),
                   Lit ''" hx-target="#scrape-targets" hx-swap="outerHTML" hx-confirm="'',
                   Att (''Delete scrape target '' @ Quote uni (sc_Service (snd t)) @ ''? Already-collected metrics stay.''),
                   Lit ''">Delete</button></td></tr>'']) targets)
          @ [Lit ''</tbody></table></div>''])
    @ [Lit (''<form method="post" action="/settings/scrape-targets" class="flex gap-3 items-end flex-wrap border-t ''
            @ ''border-base-content/10 pt-3"><input type="hidden" name="csrf_token" value="''),
       Att csrfToken,
       Lit (''"> <label class="flex flex-col gap-1 flex-1 min-w-56"><span class="text-sm opacity-80">URL</span>''
            @ '' <input type="url" name="url" placeholder="http://localhost:9100/metrics" class="input input-bordered ''
            @ ''input-sm w-full" required></label> <label class="flex flex-col gap-1"><span class="text-sm opacity-80">''
            @ ''Service</span> <input type="text" name="service" placeholder="node-exporter" class="input input-bordered ''
            @ ''input-sm w-36" maxlength="200" required></label> <label class="flex flex-col gap-1"><span class="text-sm ''
            @ ''opacity-80">Host</span> <input type="text" name="host" placeholder="auto from URL" class="input ''
            @ ''input-bordered input-sm w-32" maxlength="200"></label> <label class="flex flex-col gap-1"><span ''
            @ ''class="text-sm opacity-80">Auth header (optional)</span> <input type="password" name="auth_header" ''
            @ ''placeholder="X-API-Key: ..." class="input input-bordered input-sm w-40"></label> <label class="flex ''
            @ ''flex-col gap-1"><span class="text-sm opacity-80">Every (seconds)</span> <input type="number" name="interval_s" ''
            @ ''value="30" min="30" max="3600" class="input input-bordered input-sm w-24" required></label> <button ''
            @ ''type="submit" class="btn btn-primary btn-sm">Add target</button></form></div></section>'')]\<close>

definition retentionField :: "string \<Rightarrow> string \<Rightarrow> int \<Rightarrow> 'j part list" where
  \<open>retentionField name label days =
    [Check, Lit ''<label class="flex flex-col gap-1"><span class="text-sm opacity-60">'', Txt label,
     Lit '' (days)</span> <input type="number" name="'', Att name,
     Lit ''" min="1" max="3650" required value="'', Att (itoa days),
     Lit ''" class="input input-bordered input-sm w-28"></label>'']\<close>

definition RetentionSection :: "int \<Rightarrow> int \<Rightarrow> int \<Rightarrow> string \<Rightarrow> bool \<Rightarrow> string \<Rightarrow> 'j part list" where
  \<open>RetentionSection logsDays metricsDays firingsDays msg ok csrfToken =
    [Check,
     Lit (''<section id="retention-section" class="card bg-base-100"><div class="card-body py-4 flex flex-col ''
          @ ''gap-3"><h2 class="card-title">Retention</h2><p class="text-sm opacity-80">How long each signal ''
          @ ''is kept. Cleanup runs hourly in small batches, so ingestion never stalls.</p><form hx-put="/settings/retention" ''
          @ ''hx-target="#retention-section" hx-swap="outerHTML" class="flex items-end gap-3 flex-wrap"><input ''
          @ ''type="hidden" name="csrf_token" value="''),
     Att csrfToken, Lit ''">'']
    @ retentionField ''logs_days'' ''logs'' logsDays
    @ retentionField ''metrics_days'' ''metrics'' metricsDays
    @ retentionField ''alert_firings_days'' ''alert history'' firingsDays
    @ [Lit ''<button type="submit" class="btn btn-primary btn-sm">Save</button></form>'']
    @ (if msg \<noteq> [] then
          (if ok then
                [Lit ''<p class="text-sm text-success">'', Txt msg, Lit ''</p>'']
              else
                [Lit ''<p class="text-sm text-error">'', Txt msg, Lit ''</p>''])
        else [])
    @ [Lit ''</div></section>'']\<close>

definition backupField :: "string \<Rightarrow> string \<Rightarrow> string \<Rightarrow> string \<Rightarrow> string \<Rightarrow> 'j part list" where
  \<open>backupField name label value placeholder ty =
    [Check, Lit ''<label class="flex flex-col gap-1"><span class="text-sm opacity-60">'', Txt label,
     Lit ''</span> <input type="'', Att ty, Lit ''" name="'', Att name, Lit ''" value="'', Att value,
     Lit ''" placeholder="'', Att placeholder,
     Lit ''" class="input input-bordered input-sm w-44"></label>'']\<close>

definition backupLastRun :: "BackupView \<Rightarrow> 'j part list" where
  \<open>backupLastRun b =
    [Check]
    @ (if (bv_LastRunAt b) > 0 then
          [Lit ''<span class="text-sm opacity-60">last run '', Txt (utcMinute (bv_LastRunAt b)), Lit '' UTC: '']
          @ (if (bv_LastResult b) = ''ok'' then
                [Lit ''<span class="text-success">ok</span>'']
              else
                [Lit ''<span class="text-error" title="'', Att (bv_LastResult b), Lit ''">failed</span>''])
          @ [Lit ''</span>'']
        else [])\<close>

definition BackupSection :: "(string \<Rightarrow> string) \<Rightarrow> BackupView \<Rightarrow> string \<Rightarrow> bool \<Rightarrow> string \<Rightarrow> 'j part list" where
  \<open>BackupSection uni b msg ok csrfToken =
    [Check,
     Lit (''<section id="backup-section" class="card bg-base-100"><div class="card-body py-4 flex flex-col ''
          @ ''gap-3"><h2 class="card-title">Backup</h2><p class="text-sm opacity-80">Scheduled copies of all ''
          @ ''three databases to S3-compatible storage (AWS, R2, MinIO, B2). Pooml only ever uploads; expire ''
          @ ''old backups with a bucket lifecycle rule.</p><form hx-put="/settings/backup" hx-target="#backup-section" ''
          @ ''hx-swap="outerHTML" class="flex flex-col gap-3"><input type="hidden" name="csrf_token" value="''),
     Att csrfToken, Lit ''"><div class="flex items-end gap-3 flex-wrap">'']
    @ backupField ''bucket'' ''bucket'' (bv_Bucket b) ''my-backups'' ''text''
    @ backupField ''prefix'' ''prefix (optional)'' (bv_Prefix b) ''pooml'' ''text''
    @ backupField ''region'' ''region'' (bv_Region b) ''auto'' ''text''
    @ [Lit (''</div><div class="flex items-end gap-3 flex-wrap"><label class="flex flex-col gap-1 grow"><span ''
            @ ''class="text-sm opacity-60">endpoint (empty for AWS S3)</span> <input type="url" name="endpoint" ''
            @ ''value="''),
       Att (bv_Endpoint b),
       Lit (''" placeholder="https://minio.example.com" class="input input-bordered input-sm w-full max-w-96">''
            @ ''</label>'')]
    @ backupField ''schedule'' ''schedule (cron, UTC)'' (bv_Schedule b) ''0 3 * * *'' ''text''
    @ [Lit (''</div><div class="flex items-end gap-3 flex-wrap"><label class="flex flex-col gap-1"><span class="text-sm ''
            @ ''opacity-60">access key</span> <input type="password" name="access_key" placeholder="''),
       Att (secretPlaceholder (bv_CredsSet b)),
       Lit (''" autocomplete="off" class="input input-bordered input-sm w-52"></label> <label class="flex flex-col ''
            @ ''gap-1"><span class="text-sm opacity-60">secret key</span> <input type="password" name="secret_key" ''
            @ ''placeholder="''),
       Att (secretPlaceholder (bv_CredsSet b)),
       Lit (''" autocomplete="off" class="input input-bordered input-sm w-52"></label> <label class="flex items-center ''
            @ ''gap-2 text-sm mb-1 cursor-pointer"><input type="checkbox" name="enabled" class="checkbox checkbox-sm"'')]
    @ (if bv_Enabled b then
          [Lit '' checked'']
        else [])
    @ [Lit (''> enabled</label></div><div class="flex items-center gap-3"><button type="submit" class="btn btn-primary ''
            @ ''btn-sm">Save</button> <button type="button" class="btn btn-sm" hx-post="/settings/backup/run" hx-target="#backup-section''
            @ ''" hx-swap="outerHTML" hx-headers="''),
       Att (csrfHeader uni csrfToken), Lit ''" hx-disable="this">Back up now</button>'']
    @ backupLastRun b
    @ [Lit ''</div></form>'']
    @ (if msg \<noteq> [] then
          (if ok then
                [Lit ''<p class="text-sm text-success">'', Txt msg, Lit ''</p>'']
              else
                [Lit ''<p class="text-sm text-error break-words">'', Txt msg, Lit ''</p>''])
        else [])
    @ [Lit ''</div></section>'']\<close>

definition comingLater :: "string \<Rightarrow> string \<Rightarrow> 'j part list" where
  \<open>comingLater title note =
    [Check,
     Lit ''<section class="card bg-base-100 opacity-50"><div class="card-body py-4"><h2 class="card-title">'',
     Txt title, Lit ''</h2><p class="text-sm">'', Txt note, Lit ''</p></div></section>'']\<close>

section \<open>Every value in its place\<close>

lemma configuredBadge_place [in_place]: "place Data (configuredBadge ok) = Some Data"
  unfolding configuredBadge_def by (simp add: place_simps in_place cong: place_congs)

lemma ChannelTestResult_place [in_place]: "place Data (ChannelTestResult errMsg) = Some Data"
  unfolding ChannelTestResult_def by (simp add: place_simps in_place cong: place_congs)

lemma PushoverSection_place [in_place]: "place Data (PushoverSection configured csrfToken) = Some Data"
  unfolding PushoverSection_def by (simp add: place_simps in_place cong: place_congs)

lemma CampfireSection_place [in_place]: "place Data (CampfireSection baseURL keySet csrfToken) = Some Data"
  unfolding CampfireSection_def by (simp add: place_simps in_place cong: place_congs)

lemma ApiKeysSection_place [in_place]: "place Data (ApiKeysSection uni keys newKey errMsg csrfToken) = Some Data"
  unfolding ApiKeysSection_def by (simp add: place_simps in_place cong: place_congs)

lemma scrapeTargetStatus_place [in_place]: "place Data (scrapeTargetStatus t) = Some Data"
  unfolding scrapeTargetStatus_def by (simp add: place_simps in_place cong: place_congs)

lemma ScrapeTargetsSection_place [in_place]: "place Data (ScrapeTargetsSection uni targets errMsg csrfToken) = Some Data"
  unfolding ScrapeTargetsSection_def by (simp add: place_simps in_place cong: place_congs)

lemma retentionField_place [in_place]: "place Data (retentionField name label days) = Some Data"
  unfolding retentionField_def by (simp add: place_simps in_place cong: place_congs)

lemma RetentionSection_place [in_place]: "place Data (RetentionSection logsDays metricsDays firingsDays msg ok csrfToken) = Some Data"
  unfolding RetentionSection_def by (simp add: place_simps in_place cong: place_congs)

lemma backupField_place [in_place]: "place Data (backupField name label value placeholder ty) = Some Data"
  unfolding backupField_def by (simp add: place_simps in_place cong: place_congs)

lemma backupLastRun_place [in_place]: "place Data (backupLastRun b) = Some Data"
  unfolding backupLastRun_def by (simp add: place_simps in_place cong: place_congs)

lemma BackupSection_place [in_place]: "place Data (BackupSection uni b msg ok csrfToken) = Some Data"
  unfolding BackupSection_def by (simp add: place_simps in_place cong: place_congs)

lemma comingLater_place [in_place]: "place Data (comingLater title note) = Some Data"
  unfolding comingLater_def by (simp add: place_simps in_place cong: place_congs)

section \<open>As fragments\<close>

interpretation channel_test: fragment "ChannelTestResult"
  by unfold_locales (auto intro: ChannelTestResult_place split: prod.split)

interpretation api_keys_section: fragment "\<lambda>(ks, new, err). ApiKeysSection uni ks new err token" for uni token
  by unfold_locales (auto intro: ApiKeysSection_place split: prod.split)

interpretation targets_section: fragment "\<lambda>(ts, err). ScrapeTargetsSection uni ts err token" for uni token
  by unfold_locales (auto intro: ScrapeTargetsSection_place split: prod.split)

interpretation campfire_section: fragment "\<lambda>(url, k). CampfireSection url k token" for token
  by unfold_locales (auto intro: CampfireSection_place split: prod.split)

interpretation pushover_section: fragment "\<lambda>c. PushoverSection c token" for token
  by unfold_locales (auto intro: PushoverSection_place split: prod.split)

interpretation retention_section: fragment "\<lambda>(l, m, f, msg, ok). RetentionSection l m f msg ok token" for token
  by unfold_locales (auto intro: RetentionSection_place split: prod.split)

interpretation backup_section: fragment "\<lambda>(b, msg, ok). BackupSection uni b msg ok token" for uni token
  by unfold_locales (auto intro: BackupSection_place split: prod.split)

end
