(* ===== verification/Spec2Isabelle.thy ===== *)
theory Spec2Isabelle
  imports DSL_Print Logs_Page Api_Server Alerts Scrape Retention Dashboards Backup Ui_Server Boot Shutdown
    Home_Templates War_Templates Settings_Templates
begin

text \<open>
  pooml is a log and metrics server in one Go process on three SQLite files. This development models it from the
  request to the database and back to the browser. The theories follow the packages of \<open>src/\<close>, every
  definition is translated from the source, and what is not under \<open>src/\<close> (SQLite and its driver, the SQL parser,
  chi, nosurf, argon2 and AES-GCM, protobuf, the Prometheus text parser, templ) is a parameter, with what the
  code relies on as a named hypothesis where a theorem needs it.

  \<^bold>\<open>How the program works.\<close> An API server takes logs and metrics from clients with keys; logs go through parsers and
  a pipeline of goroutines into \<open>logs.db\<close>, metrics through a second pipeline into \<open>metrics.db\<close>; a scraper feeds
  the second one too. Users write SQL or a small query language; a validator admits single selects on the
  known tables, rewrites add searches, filters, windows and cursors, and an executor scans under caps. A web server
  with one secret shows logs (pages, live tail, details, export), metrics, dashboards, alerts, a war room and settings;
  alerts, retention and backups run in the background on what the pages store in \<open>meta.db\<close>. \<open>main.go\<close> reads the
  environment, starts all this and takes it down in stages.

  \<^bold>\<open>Foundations.\<close> \<open>Go_Prelude\<close>, \<open>Go_Strconv\<close>, \<open>Utf8\<close>, \<open>Sql_Text\<close> and \<open>Meta_Table\<close> hold what the
  components share: Go's strings as byte lists and its library functions on them, 64-bit wrap-around (\<open>i64\<close>), number
  parsing and printing, UTF-8, SQL literals and tokens, tables keyed by row id, results as sums with \<open>Ok\<close> and \<open>Err\<close>.
  \<open>Machine\<close> holds transition systems: an action of one goroutine is a partial function on the state, and the
  interleavings of the program are the sequences of such actions; its locale \<open>budget\<close> is the contract of an
  admission gate. \<open>Due_Loop\<close> is the loop over due work that the alert evaluator and the scraper share.

  \<^bold>\<open>Ingestion\<close> (\<open>ingestion/\<close>, \<open>metrics/\<close>, \<open>api/\<close>). \<open>Common_Model\<close> and \<open>Parsers\<close>: log records and the
  parsers of payloads. \<open>Log_Pipeline\<close>, \<open>Broadcaster\<close> and \<open>Metrics_Pipeline\<close>: every goroutine of both pipelines
  in atomic steps; conservation of logs, order of metric rows, budgets, absence of sends on closed channels, draining
  and its termination. \<open>Otlp\<close>: conversion of OTLP data points. \<open>Api_Auth\<close>, \<open>Query_Api\<close>, \<open>Api_Server\<close>: the
  middlewares (locale \<open>gate\<close>, interpreted for each of them), the handlers and the route table of the API server.

  \<^bold>\<open>Queries\<close> (\<open>query/\<close>). \<open>DSL\<close> and \<open>DSL_Print\<close>: the query language, its compilation to SQL without
  injection, and the round trip through its printed form. \<open>Sql_Ast\<close>, \<open>Validate\<close>, \<open>Rewrite\<close>, \<open>Query_Exec\<close>: the
  syntax trees, the validator against a specification of what it admits, the rewrites against an evaluation of
  conditions on rows, and the bounded scan.

  \<^bold>\<open>Services\<close> (\<open>services/\<close>). \<open>Auth_State\<close>: throttling and sessions. \<open>Api_Keys\<close>: creation, verification and
  revocation of keys as interleaved steps. \<open>Settings_Store\<close>: encrypted settings as a refinement of a map.
  \<open>Notify\<close>, \<open>Alerts\<close>: messages, deliveries, evaluation and cooldown. \<open>Scrape\<close>, \<open>Retention\<close>, \<open>Dashboards\<close>,
  \<open>Backup\<close>: one theory each.

  \<^bold>\<open>Web interface\<close> (\<open>ui/\<close>). \<open>Ui_Base\<close>: requests, replies and cursors. \<open>Logs_Page\<close>, \<open>Log_Details\<close>: the log
  viewer with paging, details and export. \<open>Sse\<close>, \<open>Live_Tail\<close>: the event stream against a decoder, and the
  live tail as a step relation in which inserts, polls and ticks interleave. \<open>Bucket_Grid\<close>, \<open>Charts\<close>,
  \<open>War_Room\<close>, \<open>Home_Page\<close>: time grids and what each point of a chart counts. \<open>Explorer\<close>, \<open>Dashboard_Pages\<close>,
  \<open>Alert_Pages\<close>, \<open>Settings_Pages\<close>: the forms and what they may do to the stored state. \<open>Ui_Server\<close>: the
  middlewares, the login and all routes over one state; who may change what.

  \<^bold>\<open>Pages\<close> (\<open>ui/templates/\<close>). \<open>Links\<close>: the addresses that pages link to, and that a handler reads back what
  was meant. \<open>Html\<close>: a component as the list of its writes, the rendering that a cancelled request cuts off, a
  scanner that reads tags and quoted values, and the locale \<open>fragment\<close> with the theorem that a value in its place
  never changes the structure of a page; the locale is interpreted for every component that a handler sends.
  \<open>Log_Templates\<close>, \<open>Home_Templates\<close>, \<open>Panel_Templates\<close>, \<open>War_Templates\<close>, \<open>Alert_Templates\<close> and
  \<open>Settings_Templates\<close>: the components themselves, write by write as in \<open>*_templ.go\<close>, with the functions that make
  their labels.

  \<^bold>\<open>Process\<close> (\<open>main.go\<close>, \<open>db/\<close>). \<open>Boot\<close>: the environment, the migrations and the start. \<open>Db_Pool\<close>: opening and closing the
  pools. \<open>Shutdown\<close>: servers, both pipelines, scraper, jobs and pools in one step relation, with the staged
  shutdown. The theorem of this theory connects an answered request with the database.

  \<^bold>\<open>Loops and bounds.\<close> Loops are recursion on the data or have a termination proof; the loop over a time grid, which may
  not end, is a \<open>partial_function (option)\<close>, and its users state when it returns. There is no fuel. Integers
  are \<open>int\<close> with \<open>i64\<close> written out where the code can leave 64 bits; floats are rationals, infinities and
  NaN, with the rounding to 64 bits written out where the code computes with them. Clocks and random values are arguments. Caps and time limits are those of the source.

  \<^bold>\<open>Not modelled.\<close> The whole pages (\<open>LogsPage\<close>, \<open>Shell\<close> and the like), which put the fragments into a frame with
  navigation, the text of the query, inline scripts and style sheets; what the scripts do happens in the browser;
  the SQL inside the handlers of fixed queries, whose rows are parameters stated where a theorem needs them;
  the SQL of the migrations, static files, the product site and the benchmarks; counters for the program's own metrics, which it never
  reads; failures of \<open>meta.db\<close>, which every handler turns into the same error page; TLS and the servers' timeouts.
\<close>

section \<open>What the browser gets\<close>

text \<open>
  C18: nothing that a handler shows changes the structure of the page. Every fragment that the handlers
  send, for logs, details, panels, the war room, the start page, alerts and settings, has the tags,
  attribute names and quotes that it has with all values left blank, whatever logs, metric names, labels,
  queries and messages are in it; it ends outside of all tags, and a rendering that is cut off keeps this.
\<close>

theorem fragments_inert:
  fixes T :: "payload templ_env"
  assumes "templ_ok T"
  shows "inert T (LogsResults viewText v) \<and> inert T (LogRowsPage v) \<and> inert T (StreamRow r q)
       \<and> inert T (LogDetailRow d) \<and> inert T (LogDetailBlock d)
       \<and> inert T (PanelFragment errText pv) \<and> inert T (PanelCard uni p token) \<and> inert T (PanelsRegion uni i ty ps token)
       \<and> inert T (PanelEditCard p ty msg token) \<and> inert T (WarRoomPanes errText warText viewText wv)
       \<and> inert T (HomeVolume hv) \<and> inert T (HomeErrors es) \<and> inert T (HomeServices ss) \<and> inert T (HomeMetricsServices ss) \<and> inert T (HomeMetrics hm)
       \<and> inert T (AlertsRegion N uni alertText av) \<and> inert T (AlertEditRow N a po cf war token) \<and> inert T (DryRunResult name cols cells msg)
       \<and> inert T (ChannelTestResult msg) \<and> inert T (ApiKeysSection uni ks key msg token) \<and> inert T (ScrapeTargetsSection uni ts msg token)
       \<and> inert T (PushoverSection po token) \<and> inert T (CampfireSection url cf token)
       \<and> inert T (RetentionSection l m f msg ok token) \<and> inert T (BackupSection uni b msg ok token)"
  using log_results.fragment_inert [OF assms] log_rows.fragment_inert [OF assms] stream_row.fragment_inert [OF assms, of "(r, q)"]
    detail_row_form.fragment_inert [OF assms] detail_block_form.fragment_inert [OF assms]
    panel_fragment.fragment_inert [OF assms] panel_card.fragment_inert [OF assms] panels_region.fragment_inert [OF assms]
    panel_edit.fragment_inert [OF assms, of _ _ "(p, msg)"] war_panes.fragment_inert [OF assms]
    home_volume.fragment_inert [OF assms] home_errors.fragment_inert [OF assms] home_services.fragment_inert [OF assms]
    home_metrics_services.fragment_inert [OF assms] home_metrics.fragment_inert [OF assms]
    alerts_region.fragment_inert [OF assms] alert_edit.fragment_inert [OF assms] dry_run.fragment_inert [OF assms, of "(name, cols, cells, msg)"]
    channel_test.fragment_inert [OF assms] api_keys_section.fragment_inert [OF assms, of _ _ "(ks, key, msg)"]
    targets_section.fragment_inert [OF assms, of _ _ "(ts, msg)"] pushover_section.fragment_inert [OF assms]
    campfire_section.fragment_inert [OF assms, of _ "(url, cf)"] retention_section.fragment_inert [OF assms, of _ "(l, m, f, msg, ok)"]
    backup_section.fragment_inert [OF assms, of _ _ "(b, msg, ok)"]
  by simp

theorem fragments_inert_witness:
  "inert (templ_sample :: payload templ_env) (LogRowsPage evil_view)
   \<and> inert (templ_sample :: payload templ_env) (DryRunResult ''</tr>'' [''<b>''] [[''<script>'']] [])"
  using fragments_inert [OF templ_sample_ok, where v = evil_view and name = "''</tr>''" and cols = "[''<b>'']"
    and cells = "[[''<script>'']]" and msg = "[]"] by simp

section \<open>From the request to the database\<close>

text \<open>
  C1: a log that was answered with 204 is stored. When an authenticated ingest request is answered
  204 in a reachable state of the log pipeline, the handler has put exactly the event of this request at the end of
  the queue and has charged its bytes, and nothing else of the pipeline has changed. This is
  the effect of the three atomic actions of its own \<open>TryIngest\<close> call, up to the ghost fields that record the
  call. From there, however requests, workers, database failures, subscribers and shutdown
  interleave, a finished shutdown leaves every log of the payload in the database or among
  the rows that the writer gave up after its retries; if it gave up none, all are in the database.
\<close>

theorem ingest_end_to_end:
  assumes "reachable (lexec G) (NewPipeline n) (sv_logs s)" and "0 < n"
    and "matchOf E req = Matched RIngest param" and "serve E req s = (p, s')" and "rp_code p = 204"
  shows "\<exists>ev. ingestEventOf param req = Some ev
    \<and> sv_logs s' = (sv_logs s)\<lparr>lp_bufferedBytes := lp_bufferedBytes (sv_logs s) + int (length (ie_payload ev)),
                               lp_ingestChan := lp_ingestChan (sv_logs s) @ [ev]\<rparr>
    \<and> (let i = length (lp_callers (sv_logs s));
           r = (sv_logs s')\<lparr>lp_callers := lp_callers (sv_logs s') @ [Returned True],
                             lp_accepted := lp_accepted (sv_logs s') @ [ev]\<rparr>
       in run (lexec G) [TiEnter ev, TiAdd i, TiSend i] (sv_logs s) = Some r
          \<and> (\<forall>q. reachable (lexec G) r q \<longrightarrow> lp_shutdown q = Finished
                \<longrightarrow> mset (parsedEvent G ev) \<subseteq># mset (lp_db q) + mset (lp_dropped q)))"
proof -
  obtain s1 q where q: "ingestLogs E param req s1 = (q, s')" "rp_code q = 204" "sv_logs s1 = sv_logs s"
    using ingest_reached [OF assms(3-5)] by blast
  let ?p = "sv_logs s"
  from ingestLogs_exact [OF q(1)] q(2,3) obtain ev where ev: "ingestEventOf param req = Some ev" and a: "admits ?p ev"
    and s': "sv_logs s' = ?p\<lparr>lp_bufferedBytes := lp_bufferedBytes ?p + int (ev_weight ev), lp_ingestChan := lp_ingestChan ?p @ [ev]\<rparr>"
    by (auto split: option.splits if_splits)
  have "lp_ingestClosed ?p \<longrightarrow> lp_closed ?p"
    using closing_reachable [OF assms(1)] phase_ingest by (auto simp: closing_inv_def)
  note r = admitted_run [OF a this, of G, folded s']
  show ?thesis unfolding Let_def
  proof (intro exI [of _ ev] conjI allI impI)
    show "sv_logs s' = ?p\<lparr>lp_bufferedBytes := lp_bufferedBytes ?p + int (length (ie_payload ev)), lp_ingestChan := lp_ingestChan ?p @ [ev]\<rparr>"
      using s' by (simp add: ev_weight_def)
  next
    fix q assume q: "reachable (lexec G) ((sv_logs s')\<lparr>lp_callers := lp_callers (sv_logs s') @ [Returned True],
        lp_accepted := lp_accepted (sv_logs s') @ [ev]\<rparr>) q" "lp_shutdown q = Finished"
    have "reachable (lexec G) (NewPipeline n) q"
      using run_reachable [OF assms(1) r] q(1) unfolding reachable_run by (metis run_append option.simps(5))
    from finished_stored [OF this assms(2) q(2)] have "logs_of G (lp_accepted q) = mset (lp_db q) + mset (lp_dropped q)" .
    moreover obtain evs where "lp_accepted q = lp_accepted (sv_logs s') @ [ev] @ evs" using accepted_mono [OF q(1)] by (auto elim: prefixE)
    ultimately show "mset (parsedEvent G ev) \<subseteq># mset (lp_db q) + mset (lp_dropped q)"
      by (metis logs_of_middle)
  qed (use ev r in simp_all)
qed

theorem ingest_end_to_end_witness:
  "\<exists>p s'. serve server_env_sample ingest_request_sample server_sample = (p, s') \<and> rp_code p = 204
     \<and> lp_ingestChan (sv_logs s') = [event_sample]
     \<and> (\<forall>q. reachable (lexec bare_env) ((sv_logs s')\<lparr>lp_callers := [Returned True], lp_accepted := [event_sample]\<rparr>) q
          \<longrightarrow> lp_shutdown q = Finished \<longrightarrow> mset (parsedEvent bare_env event_sample) \<subseteq># mset (lp_db q) + mset (lp_dropped q))"
proof -
  obtain p s' where s: "serve server_env_sample ingest_request_sample server_sample = (p, s')" "rp_code p = 204" using sample_ingested by blast
  have "sv_logs server_sample = NewPipeline 1" by (simp add: server_sample_def)
  with s ingest_end_to_end [of bare_env 1 server_sample server_env_sample ingest_request_sample "\<lambda>_. ''web''" p s']
  have "sv_logs s' = (NewPipeline 1)\<lparr>lp_bufferedBytes := int (length (ie_payload event_sample)), lp_ingestChan := [event_sample]\<rparr>"
    and "\<forall>q. reachable (lexec bare_env) ((sv_logs s')\<lparr>lp_callers := lp_callers (sv_logs s') @ [Returned True],
            lp_accepted := lp_accepted (sv_logs s') @ [event_sample]\<rparr>) q
          \<longrightarrow> lp_shutdown q = Finished \<longrightarrow> mset (parsedEvent bare_env event_sample) \<subseteq># mset (lp_db q) + mset (lp_dropped q)"
    by (auto simp: sample_match sample_event Let_def NewPipeline_def intro: reach_init)
  with s show ?thesis by (simp add: NewPipeline_def)
qed

end
